(* ===== verification/Prelude.thy ===== *)
theory Prelude
  imports Main "HOL-Library.Word" "HOL-Library.AList"
begin

text \<open>
  The vocabulary every component shares: names for the machine types of the Rust sources, the
  saturating and checked arithmetic of the standard library, \<open>std::time::Duration\<close> as a number of
  nanoseconds, results as sums, hash maps as association lists with distinct keys and ordered maps
  as strictly sorted ones.  The locale \<open>keyed_store\<close> is the interface the components use of either
  kind of map; the locale \<open>step_invariant\<close> lifts a one-step invariant to runs of operations.
\<close>

named_theorems inv_intro \<open>an operation of a component keeps the component's invariant\<close>
named_theorems frame_simps \<open>what an operation of a component leaves unchanged\<close>
named_theorems arith_defs \<open>the fixed-width arithmetic, unfolded\<close>

section \<open>Machine types\<close>

type_synonym u8 = "8 word"
type_synonym u16 = "16 word"
type_synonym u32 = "32 word"
type_synonym u64 = "64 word"
type_synonym bytes = "u8 list"
type_synonym client_id = u64

text \<open>
  Identities, seeds, hashes and wrapping counters are words.  Quantities (sizes, byte counts,
  drop counters, credit) are naturals whose saturation or cast is written out at each use.
\<close>

definition U64_MAX :: nat where
  "U64_MAX = 2 ^ 64 - 1"

definition U128_MAX :: nat where
  "U128_MAX = 2 ^ 128 - 1"

definition sat_add64 :: "nat \<Rightarrow> nat \<Rightarrow> nat" where
  "sat_add64 a b = min (a + b) U64_MAX"

definition sat_mul64 :: "nat \<Rightarrow> nat \<Rightarrow> nat" where
  "sat_mul64 a b = min (a * b) U64_MAX"

definition sat_add128 :: "nat \<Rightarrow> nat \<Rightarrow> nat" where
  "sat_add128 a b = min (a + b) U128_MAX"

definition sat_mul128 :: "nat \<Rightarrow> nat \<Rightarrow> nat" where
  "sat_mul128 a b = min (a * b) U128_MAX"

definition as_u64 :: "nat \<Rightarrow> nat" where
  "as_u64 n = n mod 2 ^ 64"

text \<open>\<open>u64::checked_add(1)\<close> on an identity counter.\<close>

definition checked_succ :: "u64 \<Rightarrow> u64 option" where
  "checked_succ x = (if x = - 1 then None else Some (x + 1))"

lemma unat_u64_less: "unat (x :: u64) < 2 ^ 64"
  using unsigned_less[of x, where 'a = nat] by simp

lemma unat_u8_less: "unat (x :: u8) < 256"
  using unsigned_less[of x, where 'a = nat] by simp

section \<open>Durations\<close>

text \<open>
  \<open>std::time::Duration\<close>: whole nanoseconds, at most \<open>u64::MAX\<close> seconds and 999999999 nanoseconds.
  \<open>saturating_sub\<close> is subtraction on naturals.  A monotonic \<open>Instant\<close> is the duration since an
  arbitrary origin.
\<close>

type_synonym duration = nat

definition NANOS :: nat where
  "NANOS = 1000000000"

definition DURATION_MAX :: duration where
  "DURATION_MAX = 2 ^ 64 * NANOS - 1"

definition dur_sat_add :: "duration \<Rightarrow> duration \<Rightarrow> duration" where
  "dur_sat_add a b = min (a + b) DURATION_MAX"

definition dur_checked_add :: "duration \<Rightarrow> duration \<Rightarrow> duration option" where
  "dur_checked_add a b = (if a + b \<le> DURATION_MAX then Some (a + b) else None)"

definition from_secs :: "nat \<Rightarrow> duration" where
  "from_secs s = s * NANOS"

definition from_millis :: "nat \<Rightarrow> duration" where
  "from_millis s = s * 1000000"

definition as_secs :: "duration \<Rightarrow> nat" where
  "as_secs d = d div NANOS"

lemmas [arith_defs] =
  U64_MAX_def U128_MAX_def sat_add64_def sat_mul64_def sat_add128_def sat_mul128_def as_u64_def
  NANOS_def DURATION_MAX_def dur_sat_add_def from_secs_def from_millis_def as_secs_def

lemma sat_add64_mono: "a \<le> b \<Longrightarrow> sat_add64 a n \<le> sat_add64 b n"
  by (simp add: sat_add64_def)

lemma sat_add64_ge: "a \<le> U64_MAX \<Longrightarrow> a \<le> sat_add64 a n"
  by (simp add: sat_add64_def)

lemma sat_add64_bound [simp]: "sat_add64 a b \<le> U64_MAX"
  by (simp add: sat_add64_def)

lemma sat_add64_zero: "a \<le> U64_MAX \<Longrightarrow> sat_add64 a 0 = a"
  by (simp add: sat_add64_def)

lemma NANOS_pos [simp]: "0 < NANOS"
  by (simp add: NANOS_def)

lemma dur_sat_add_le: "dur_sat_add a b \<le> a + b"
  by (simp add: dur_sat_add_def)

lemma checked_succ_Some: "checked_succ x = Some y \<Longrightarrow> unat y = Suc (unat x)"
proof -
  assume "checked_succ x = Some y"
  then have "1 + x \<noteq> 0" "y = 1 + x"
    by (auto simp: checked_succ_def eq_neg_iff_add_eq_0 add.commute split: if_splits)
  then show ?thesis by (simp only: unatSuc not_False_eq_True)
qed

section \<open>Results\<close>

type_synonym ('e, 'a) result = "'e + 'a"

abbreviation Err :: "'e \<Rightarrow> ('e, 'a) result" where
  "Err \<equiv> Inl"

abbreviation Ok :: "'a \<Rightarrow> ('e, 'a) result" where
  "Ok \<equiv> Inr"

definition is_some_and :: "('a \<Rightarrow> bool) \<Rightarrow> 'a option \<Rightarrow> bool" where
  "is_some_and P x = (case x of None \<Rightarrow> False | Some a \<Rightarrow> P a)"

definition is_none_or :: "('a \<Rightarrow> bool) \<Rightarrow> 'a option \<Rightarrow> bool" where
  "is_none_or P x = (case x of None \<Rightarrow> True | Some a \<Rightarrow> P a)"

lemma is_some_and_simps [simp]: "is_some_and P None = False" "is_some_and P (Some a) = P a"
  by (simp_all add: is_some_and_def)

lemma is_none_or_simps [simp]: "is_none_or P None = True" "is_none_or P (Some a) = P a"
  by (simp_all add: is_none_or_def)

section \<open>Keyed stores\<close>

text \<open>What a component relies on of \<open>HashMap\<close> and \<open>BTreeMap\<close>.\<close>

locale keyed_store =
  fixes get :: "'m \<Rightarrow> 'k \<Rightarrow> 'v option"
    and put :: "'k \<Rightarrow> 'v \<Rightarrow> 'm \<Rightarrow> 'm"
    and del :: "'k \<Rightarrow> 'm \<Rightarrow> 'm"
    and size_of :: "'m \<Rightarrow> nat"
    and wf_store :: "'m \<Rightarrow> bool"
  assumes get_put: "wf_store m \<Longrightarrow> get (put k v m) = (get m)(k \<mapsto> v)"
    and get_del: "wf_store m \<Longrightarrow> get (del k m) = (get m)(k := None)"
    and wf_put: "wf_store m \<Longrightarrow> wf_store (put k v m)"
    and wf_del: "wf_store m \<Longrightarrow> wf_store (del k m)"
    and finite_dom: "wf_store m \<Longrightarrow> finite (dom (get m))"
    and size_card: "wf_store m \<Longrightarrow> size_of m = card (dom (get m))"
begin

lemma size_put:
  assumes "wf_store m"
  shows "size_of (put k v m) = (if get m k = None then Suc (size_of m) else size_of m)"
  using assms by (simp add: size_card wf_put get_put finite_dom insert_absorb domIff card_insert_if)

lemma size_del:
  assumes "wf_store m"
  shows "size_of (del k m) = (if get m k = None then size_of m else size_of m - 1)"
proof -
  have "dom (get (del k m)) = dom (get m) - {k}"
    using assms by (auto simp: get_del split: if_splits)
  with assms show ?thesis
    by (auto simp: size_card wf_del finite_dom card_Diff_singleton_if domIff)
qed

text \<open>The insertion guarded by a capacity test that several components use.\<close>

lemma guarded_put_bound:
  assumes "wf_store m" "size_of m \<le> cap" "get m k = None \<longrightarrow> size_of m < cap"
  shows "size_of (put k v m) \<le> cap"
  using assms by (auto simp: size_put)

lemma del_bound: "wf_store m \<Longrightarrow> size_of m \<le> cap \<Longrightarrow> size_of (del k m) \<le> cap"
  by (auto simp: size_del)

end

subsection \<open>Hash maps\<close>

text \<open>
  A \<open>HashMap\<close> is an association list with distinct keys; its order is the iteration order, which
  the standard library leaves unspecified.
\<close>

abbreviation hm_get :: "('k \<times> 'v) list \<Rightarrow> 'k \<Rightarrow> 'v option" where
  "hm_get \<equiv> map_of"

abbreviation hm_insert :: "'k \<Rightarrow> 'v \<Rightarrow> ('k \<times> 'v) list \<Rightarrow> ('k \<times> 'v) list" where
  "hm_insert \<equiv> AList.update"

abbreviation hm_remove :: "'k \<Rightarrow> ('k \<times> 'v) list \<Rightarrow> ('k \<times> 'v) list" where
  "hm_remove \<equiv> AList.delete"

abbreviation hm_wf :: "('k \<times> 'v) list \<Rightarrow> bool" where
  "hm_wf m \<equiv> distinct (map fst m)"

definition hm_contains :: "('k \<times> 'v) list \<Rightarrow> 'k \<Rightarrow> bool" where
  "hm_contains m k = (map_of m k \<noteq> None)"

definition hm_retain :: "('k \<Rightarrow> 'v \<Rightarrow> bool) \<Rightarrow> ('k \<times> 'v) list \<Rightarrow> ('k \<times> 'v) list" where
  "hm_retain P m = filter (\<lambda>(k, v). P k v) m"

definition hm_map_values :: "('k \<Rightarrow> 'v \<Rightarrow> 'w) \<Rightarrow> ('k \<times> 'v) list \<Rightarrow> ('k \<times> 'w) list" where
  "hm_map_values f m = map (\<lambda>(k, v). (k, f k v)) m"

lemma card_dom_map_of: "hm_wf m \<Longrightarrow> card (dom (map_of m)) = length m"
  by (metis distinct_card dom_map_of_conv_image_fst image_set length_map)

interpretation hm: keyed_store map_of AList.update AList.delete length "\<lambda>m. distinct (map fst m)"
  by unfold_locales
    (auto simp: update_conv' delete_conv' distinct_update distinct_delete card_dom_map_of
      finite_dom_map_of)

lemma hm_contains_simps [simp]:
  "hm_contains [] k = False"
  "hm_contains ((k', v) # m) k = (k = k' \<or> hm_contains m k)"
  by (auto simp: hm_contains_def)

lemma hm_contains_iff: "hm_contains m k \<longleftrightarrow> k \<in> fst ` set m"
  by (induction m) auto

lemma hm_wf_retain [simp]: "hm_wf m \<Longrightarrow> hm_wf (hm_retain P m)"
  by (induction m) (auto simp: hm_retain_def)

lemma hm_retain_length [simp]: "length (hm_retain P m) \<le> length m"
  by (simp add: hm_retain_def)

lemma hm_retain_get:
  "hm_wf m \<Longrightarrow> map_of (hm_retain P m) k =
     (case map_of m k of None \<Rightarrow> None | Some v \<Rightarrow> if P k v then Some v else None)"
proof (induction m)
  case Nil
  show ?case by (simp add: hm_retain_def)
next
  case (Cons kv m)
  obtain k' v' where kv: "kv = (k', v')" by (cases kv)
  with Cons.prems have "k = k' \<Longrightarrow> map_of m k = None"
    by (auto simp: map_of_eq_None_iff)
  moreover have "hm_retain P (kv # m) = (if P k' v' then kv # hm_retain P m else hm_retain P m)"
    by (simp add: hm_retain_def kv)
  moreover have "hm_wf m"
    using Cons.prems by simp
  ultimately show ?case
    using Cons.IH by (auto simp: kv split: option.splits)
qed

lemma hm_map_values_get: "map_of (hm_map_values f m) k = map_option (f k) (map_of m k)"
  by (induction m) (auto simp: hm_map_values_def)

lemma hm_map_values_keys [simp]: "map fst (hm_map_values f m) = map fst m"
  by (induction m) (auto simp: hm_map_values_def)

lemma hm_map_values_length [simp]: "length (hm_map_values f m) = length m"
  by (simp add: hm_map_values_def)

lemma hm_map_values_range: "snd ` set (hm_map_values (\<lambda>_. f) m) = f ` snd ` set m"
  by (induction m) (auto simp: hm_map_values_def)

lemma set_hm_insert: "set (hm_insert k v m) \<subseteq> insert (k, v) (set m)"
  by (induction m) auto

lemma set_hm_insert_values: "snd ` set (AList.update k v m) \<subseteq> insert v (snd ` set m)"
  by (induction m) auto

lemma set_hm_remove: "set (AList.delete k m) \<subseteq> set m"
  by (auto simp: AList.delete_eq)

text \<open>The set of keys, kept opaque for the automation.\<close>

definition hm_keys :: "('k \<times> 'v) list \<Rightarrow> 'k set" where
  "hm_keys m = fst ` set m"

lemma hm_contains_keys: "hm_contains m k \<longleftrightarrow> k \<in> hm_keys m"
  by (simp add: hm_contains_iff hm_keys_def)

lemma hm_get_keys: "hm_get m k \<noteq> None \<longleftrightarrow> k \<in> hm_keys m" "hm_get m k = None \<longleftrightarrow> k \<notin> hm_keys m"
  "hm_get m k = Some v \<Longrightarrow> k \<in> hm_keys m"
  by (auto simp: hm_keys_def map_of_eq_None_iff weak_map_of_SomeI dest: map_of_SomeD
      intro: rev_image_eqI)

lemma hm_keys_simps [simp]:
  "hm_keys [] = {}"
  "hm_keys (hm_insert k v m) = insert k (hm_keys m)"
  "hm_keys (hm_remove k m) = hm_keys m - {k}"
proof -
  show "hm_keys (hm_insert k v m) = insert k (hm_keys m)"
    unfolding hm_keys_def by (induction m) auto
qed (auto simp: hm_keys_def AList.delete_eq)

lemma hm_keys_retain: "hm_keys (hm_retain P m) \<subseteq> hm_keys m"
  by (auto simp: hm_keys_def hm_retain_def)

lemma hm_retain_mem: "x \<in> set (hm_retain P m) \<longleftrightarrow> x \<in> set m \<and> P (fst x) (snd x)"
  by (auto simp: hm_retain_def)

lemma hm_retain_length_le: "length m \<le> n \<Longrightarrow> length (hm_retain P m) \<le> n"
  using hm_retain_length[of P m] by linarith

lemma hm_wf_insert [simp]: "hm_wf m \<Longrightarrow> hm_wf (hm_insert k v m)"
  by (simp add: distinct_update)

lemma hm_wf_remove [simp]: "hm_wf m \<Longrightarrow> hm_wf (hm_remove k m)"
  by (simp add: distinct_delete)

lemma length_hm_insert: "length (hm_insert k v m) \<le> Suc (length m)"
  by (induction m) auto

lemma length_hm_remove: "length m \<le> n \<Longrightarrow> length (hm_remove k m) \<le> n"
  using length_delete_le[of k m] by linarith

text \<open>A map whose entries all satisfy a predicate.\<close>

definition hm_all :: "('k \<Rightarrow> 'v \<Rightarrow> bool) \<Rightarrow> ('k \<times> 'v) list \<Rightarrow> bool" where
  "hm_all P m \<longleftrightarrow> hm_wf m \<and> list_all (\<lambda>(k, v). P k v) m"

lemma hm_all_Nil [simp]: "hm_all P []"
  by (simp add: hm_all_def)

lemma hm_all_wf: "hm_all P m \<Longrightarrow> hm_wf m"
  by (simp add: hm_all_def)

lemma hm_all_get: "hm_all P m \<Longrightarrow> hm_get m k = Some v \<Longrightarrow> P k v"
  by (auto simp: hm_all_def list_all_iff dest: map_of_SomeD)

lemma hm_all_mem: "hm_all P m \<Longrightarrow> (k, v) \<in> set m \<Longrightarrow> P k v"
  by (auto simp: hm_all_def list_all_iff)

lemma hm_all_insert: "hm_all P m \<Longrightarrow> P k v \<Longrightarrow> hm_all P (hm_insert k v m)"
  using set_hm_insert[of k v m] by (auto simp: hm_all_def list_all_iff distinct_update)

lemma hm_all_remove: "hm_all P m \<Longrightarrow> hm_all P (hm_remove k m)"
  using set_hm_remove[of k m] by (auto simp: hm_all_def list_all_iff distinct_delete)

lemma hm_all_map_values:
  "hm_all P m \<Longrightarrow> (\<And>k v. P k v \<Longrightarrow> Q k (f k v)) \<Longrightarrow> hm_all Q (hm_map_values f m)"
  by (auto simp: hm_all_def list_all_iff hm_map_values_def comp_def case_prod_unfold)

subsection \<open>Ordered maps\<close>

text \<open>A \<open>BTreeMap\<close> is a strictly sorted association list: iteration is in key order.\<close>

fun bt_insert :: "'k::linorder \<Rightarrow> 'v \<Rightarrow> ('k \<times> 'v) list \<Rightarrow> ('k \<times> 'v) list" where
  "bt_insert k v [] = [(k, v)]"
| "bt_insert k v ((k', v') # m) =
     (if k < k' then (k, v) # (k', v') # m
      else if k = k' then (k, v) # m
      else (k', v') # bt_insert k v m)"

abbreviation bt_wf :: "('k::linorder \<times> 'v) list \<Rightarrow> bool" where
  "bt_wf m \<equiv> sorted_wrt (<) (map fst m)"

lemma bt_wf_hm_wf: "bt_wf m \<Longrightarrow> hm_wf m"
  by (induction m) auto

lemma map_of_bt_insert: "map_of (bt_insert k v m) = (map_of m)(k \<mapsto> v)"
  by (induction m) (auto simp: fun_eq_iff)

lemma keys_bt_insert: "fst ` set (bt_insert k v m) = insert k (fst ` set m)"
proof (induction m)
  case (Cons kv m)
  obtain k' v' where "kv = (k', v')" by (cases kv)
  with Cons show ?case by (simp add: insert_commute)
qed simp

lemma bt_wf_insert: "bt_wf m \<Longrightarrow> bt_wf (bt_insert k v m)"
proof (induction m)
  case Nil
  show ?case by simp
next
  case (Cons kv m)
  obtain k' v' where kv: "kv = (k', v')" by (cases kv)
  have keys: "set (map fst (bt_insert k v m)) = insert k (set (map fst m))"
    using keys_bt_insert[of k v m] by simp
  show ?case
    using Cons keys by (auto simp: kv)
qed

lemma bt_wf_filter: "bt_wf m \<Longrightarrow> bt_wf (filter P m)"
  by (induction m) auto

lemma bt_wf_remove: "bt_wf m \<Longrightarrow> bt_wf (AList.delete k m)"
  by (simp add: AList.delete_eq bt_wf_filter)

interpretation bt: keyed_store map_of bt_insert AList.delete length
  "\<lambda>m. sorted_wrt (<) (map fst m)"
  by unfold_locales
    (auto simp: map_of_bt_insert delete_conv' bt_wf_insert bt_wf_remove bt_wf_hm_wf
      card_dom_map_of finite_dom_map_of)

section \<open>Runs of operations\<close>

text \<open>
  A component whose operations each keep an invariant keeps it over every sequence of operations.
  \<open>ok\<close> bounds what the environment may ask at a state, \<open>out\<close> is what an operation hands back.
\<close>

primrec run_state :: "('s \<Rightarrow> 'e \<Rightarrow> 's) \<Rightarrow> 's \<Rightarrow> 'e list \<Rightarrow> 's" where
  "run_state step s [] = s"
| "run_state step s (e # es) = run_state step (step s e) es"

primrec run_out :: "('s \<Rightarrow> 'e \<Rightarrow> 's) \<Rightarrow> ('s \<Rightarrow> 'e \<Rightarrow> 'o list) \<Rightarrow> 's \<Rightarrow> 'e list \<Rightarrow> 'o list" where
  "run_out step out s [] = []"
| "run_out step out s (e # es) = out s e @ run_out step out (step s e) es"

locale step_invariant =
  fixes step :: "'s \<Rightarrow> 'e \<Rightarrow> 's"
    and inv :: "'s \<Rightarrow> bool"
  assumes step_inv: "inv s \<Longrightarrow> inv (step s e)"
begin

lemma run_inv: "inv s \<Longrightarrow> inv (run_state step s es)"
  by (induction es arbitrary: s) (auto simp: step_inv)

lemma run_append: "run_state step s (es @ fs) = run_state step (run_state step s es) fs"
  by (induction es arbitrary: s) auto

text \<open>A measure no step decreases is not decreased by a run.\<close>

lemma run_mono:
  fixes f :: "'s \<Rightarrow> 'v::preorder"
  assumes "\<And>s e. inv s \<Longrightarrow> f s \<le> f (step s e)" "inv s"
  shows "f s \<le> f (run_state step s es)"
  using assms(2)
proof (induction es arbitrary: s)
  case Nil
  show ?case by simp
next
  case (Cons e es)
  then have "f (step s e) \<le> f (run_state step (step s e) es)"
    by (simp add: step_inv)
  with assms(1)[OF Cons.prems] show ?case
    by (auto intro: order_trans)
qed

end

text \<open>
  The same for an invariant that a bounded number of operations keeps (a revision counter that may
  wrap around): \<open>inv n\<close> holds after \<open>n\<close> operations.
\<close>

locale counted_invariant =
  fixes step :: "'s \<Rightarrow> 'e \<Rightarrow> 's"
    and inv :: "nat \<Rightarrow> 's \<Rightarrow> bool"
    and limit :: nat
  assumes step_counted: "inv n s \<Longrightarrow> n < limit \<Longrightarrow> inv (Suc n) (step s e)"
begin

lemma run_counted: "inv n s \<Longrightarrow> n + length es \<le> limit \<Longrightarrow> inv (n + length es) (run_state step s es)"
proof (induction es arbitrary: n s)
  case (Cons e es)
  then show ?case
    using Cons.IH[OF step_counted[of n s e]] by simp
qed simp

end

text \<open>
  Refinement: a component whose operations answer like those of a specification, from related states
  to related states, answers like it over every run.
\<close>

primrec run_io :: "('s \<Rightarrow> 'e \<Rightarrow> 'o \<times> 's) \<Rightarrow> 's \<Rightarrow> 'e list \<Rightarrow> 'o list \<times> 's" where
  "run_io step s [] = ([], s)"
| "run_io step s (e # es) = (let (out, s1) = step s e; (outs, s2) = run_io step s1 es in (out # outs, s2))"

locale simulation =
  fixes cstep :: "'s \<Rightarrow> 'e \<Rightarrow> 'o \<times> 's"
    and astep :: "'a \<Rightarrow> 'e \<Rightarrow> 'o \<times> 'a"
    and R :: "'s \<Rightarrow> 'a \<Rightarrow> bool"
  assumes sim_step: "R s a \<Longrightarrow> fst (cstep s e) = fst (astep a e) \<and> R (snd (cstep s e)) (snd (astep a e))"
begin

lemma sim_run:
  "R s a \<Longrightarrow> fst (run_io cstep s es) = fst (run_io astep a es) \<and> R (snd (run_io cstep s es)) (snd (run_io astep a es))"
  by (induction es arbitrary: s a) (use sim_step in \<open>simp_all add: Let_def case_prod_unfold\<close>)

end

end
