(* ===== verification/Net.thy ===== *)
theory Net
  imports Prelude "HOL-Library.Product_Lexorder"
begin

text \<open>
  Socket addresses with the standard library's ordering, the peer identities of
  \<open>src/src/packet_io/mod.rs\<close>, I/O error kinds, the transport error of \<open>src/src/error.rs\<close> and the
  owned netcode results of \<open>src/src/netcode_result.rs\<close>.
\<close>

section \<open>Socket addresses\<close>

text \<open>
  An IPv4 address is 32 bits, an IPv6 address 128 bits with its flow information and scope.
  The derived order puts every IPv4 address first, then compares address, port, flow and scope.
\<close>

datatype socket_addr =
    SocketV4 u32 u16
  | SocketV6 "128 word" u16 u32 u32

definition addr_key :: "socket_addr \<Rightarrow> nat \<times> nat \<times> nat \<times> nat \<times> nat" where
  "addr_key a = (case a of
      SocketV4 ip port \<Rightarrow> (0, unat ip, unat port, 0, 0)
    | SocketV6 ip port flow scope \<Rightarrow> (1, unat ip, unat port, unat flow, unat scope))"

lemma addr_key_inject [simp]: "addr_key a = addr_key b \<longleftrightarrow> a = b"
  by (simp add: addr_key_def word_unat_eq_iff split: socket_addr.splits)

instantiation socket_addr :: linorder
begin

definition less_eq_socket_addr :: "socket_addr \<Rightarrow> socket_addr \<Rightarrow> bool" where
  "less_eq_socket_addr a b \<longleftrightarrow> addr_key a \<le> addr_key b"

definition less_socket_addr :: "socket_addr \<Rightarrow> socket_addr \<Rightarrow> bool" where
  "less_socket_addr a b \<longleftrightarrow> addr_key a < addr_key b"

instance
proof
  fix a b c :: socket_addr
  show "a < b \<longleftrightarrow> a \<le> b \<and> \<not> b \<le> a"
    unfolding less_eq_socket_addr_def less_socket_addr_def by (rule less_le_not_le)
  show "a \<le> a"
    by (simp add: less_eq_socket_addr_def)
  show "a \<le> b \<Longrightarrow> b \<le> c \<Longrightarrow> a \<le> c"
    by (simp add: less_eq_socket_addr_def)
  show "a \<le> b \<Longrightarrow> b \<le> a \<Longrightarrow> a = b"
    by (simp add: less_eq_socket_addr_def dual_order.antisym flip: addr_key_inject)
  show "a \<le> b \<or> b \<le> a"
    by (auto simp: less_eq_socket_addr_def)
qed

end

text \<open>\<open>IpAddr::to_canonical().is_ipv4()\<close>: an IPv4 address, or an IPv4-mapped IPv6 one.\<close>

fun canonical_is_ipv4 :: "socket_addr \<Rightarrow> bool" where
  "canonical_is_ipv4 (SocketV4 _ _) = True"
| "canonical_is_ipv4 (SocketV6 ip _ _ _) = (drop_bit 32 ip = 0xffff)"

definition ip_overhead :: "socket_addr \<Rightarrow> nat" where
  "ip_overhead addr = (if canonical_is_ipv4 addr then 28 else 48)"

section \<open>Peer identities\<close>

datatype direction = Incoming | Outgoing

datatype server_peer_id = Udp socket_addr | WebRtc u64

definition peer_key :: "server_peer_id \<Rightarrow> nat \<times> nat \<times> nat \<times> nat \<times> nat \<times> nat" where
  "peer_key p = (case p of
      Udp a \<Rightarrow> (0, addr_key a)
    | WebRtc i \<Rightarrow> (1, unat i, 0, 0, 0, 0))"

lemma peer_key_inject [simp]: "peer_key a = peer_key b \<longleftrightarrow> a = b"
  by (simp add: peer_key_def word_unat_eq_iff addr_key_def split: server_peer_id.splits socket_addr.splits)

instantiation server_peer_id :: linorder
begin

definition less_eq_server_peer_id :: "server_peer_id \<Rightarrow> server_peer_id \<Rightarrow> bool" where
  "less_eq_server_peer_id a b \<longleftrightarrow> peer_key a \<le> peer_key b"

definition less_server_peer_id :: "server_peer_id \<Rightarrow> server_peer_id \<Rightarrow> bool" where
  "less_server_peer_id a b \<longleftrightarrow> peer_key a < peer_key b"

instance
proof
  fix a b c :: server_peer_id
  show "a < b \<longleftrightarrow> a \<le> b \<and> \<not> b \<le> a"
    unfolding less_eq_server_peer_id_def less_server_peer_id_def by (rule less_le_not_le)
  show "a \<le> a"
    by (simp add: less_eq_server_peer_id_def)
  show "a \<le> b \<Longrightarrow> b \<le> c \<Longrightarrow> a \<le> c"
    by (simp add: less_eq_server_peer_id_def)
  show "a \<le> b \<Longrightarrow> b \<le> a \<Longrightarrow> a = b"
    by (simp add: less_eq_server_peer_id_def dual_order.antisym flip: peer_key_inject)
  show "a \<le> b \<or> b \<le> a"
    by (auto simp: less_eq_server_peer_id_def)
qed

end

section \<open>Text\<close>

text \<open>
  A Rust \<open>String\<close> is the list of its UTF-8 bytes, so that \<open>len\<close> is the length.  Formatting of numbers
  and of socket addresses follows the standard library: an IPv6 address compresses its longest run
  of at least two zero segments (the first of equal ones), and an IPv4-mapped one ends in dotted form.
\<close>

definition as_bytes :: "string \<Rightarrow> bytes" where
  "as_bytes s = map of_char s"

fun show_radix :: "nat \<Rightarrow> nat \<Rightarrow> string" where
  "show_radix b n =
     (let digit = (\<lambda>d. char_of (if d < 10 then 48 + d else 87 + d))
      in if n < b \<or> b < 2 then [digit n] else show_radix b (n div b) @ [digit (n mod b)])"

declare show_radix.simps [simp del]

definition show_nat :: "nat \<Rightarrow> string" where
  "show_nat n = show_radix 10 n"

fun join_with :: "string \<Rightarrow> string list \<Rightarrow> string" where
  "join_with sep [] = []"
| "join_with sep [x] = x"
| "join_with sep (x # xs) = x @ sep @ join_with sep xs"

definition show_ipv4 :: "u32 \<Rightarrow> string" where
  "show_ipv4 ip = join_with ''.'' (map (\<lambda>i. show_nat (unat (ucast (drop_bit (8 * i) ip) :: u8))) [3, 2, 1, 0])"

text \<open>Start and length of the longest run of zeros.\<close>

fun longest_zeros :: "nat \<Rightarrow> nat \<times> nat \<Rightarrow> nat \<times> nat \<Rightarrow> nat list \<Rightarrow> nat \<times> nat" where
  "longest_zeros i longest cur [] = longest"
| "longest_zeros i longest cur (s # ss) =
     (if s = 0
      then (let cur' = (if snd cur = 0 then i else fst cur, snd cur + 1)
            in longest_zeros (i + 1) (if snd cur' > snd longest then cur' else longest) cur' ss)
      else longest_zeros (i + 1) longest (0, 0) ss)"

definition show_ipv6 :: "128 word \<Rightarrow> string" where
  "show_ipv6 ip =
     (if drop_bit 32 ip = 0xffff then ''::ffff:'' @ show_ipv4 (ucast ip)
      else
        (let segments = map (\<lambda>i. unat (ucast (drop_bit (16 * i) ip) :: u16)) (rev [0..<8]);
             (start, len) = longest_zeros 0 (0, 0) (0, 0) segments;
             part = (\<lambda>ss. join_with '':'' (map (show_radix 16) ss))
         in if len > 1 then part (take start segments) @ ''::'' @ part (drop (start + len) segments)
            else part segments))"

fun show_addr :: "socket_addr \<Rightarrow> string" where
  "show_addr (SocketV4 ip port) = show_ipv4 ip @ '':'' @ show_nat (unat port)"
| "show_addr (SocketV6 ip port flow scope) =
     ''['' @ show_ipv6 ip @ (if scope = 0 then [] else ''%'' @ show_nat (unat scope))
       @ '']:'' @ show_nat (unat port)"

lemma of_char_word_eq: "(of_char c :: u8) = of_char d \<longleftrightarrow> c = d"
proof -
  have "unat (of_char c :: u8) = of_char c" for c
  proof -
    have "unat (of_nat (of_char c) :: u8) = of_char c mod 256"
      by (simp only: unat_of_nat) simp
    then show ?thesis
      by (simp only: of_nat_of_char of_char_mod_256)
  qed
  then show ?thesis
    by (metis of_char_eq_iff)
qed

lemma as_bytes_inject [simp]: "as_bytes s = as_bytes t \<longleftrightarrow> s = t"
  by (auto simp: as_bytes_def of_char_word_eq inj_on_def intro: map_inj_on)

lemma length_as_bytes [simp]: "length (as_bytes s) = length s"
  by (simp add: as_bytes_def)

section \<open>Errors\<close>

datatype io_error_kind =
    WouldBlock | Interrupted | ConnectionReset | ConnectionAborted | ConnectionRefused
  | AddrNotAvailable | NetworkUnreachable | HostUnreachable | TimedOut | NotConnected
  | OtherIo

text \<open>
  \<open>TransportError\<close>; the errors of renetcode, renet and str0m it wraps are opaque here.
\<close>

datatype ('ne, 'de, 're) transport_error =
    NetcodeErr 'ne
  | RenetErr 'de
  | IoErr io_error_kind
  | RtcErr 're
  | DataChannelNotOpen client_id
  | DataChannelBackpressure client_id
  | MissingPeer client_id

section \<open>Netcode results\<close>

text \<open>
  \<open>renetcode::ServerResult\<close> borrows its payload; \<open>OwnedServerResult\<close> drops the user data and
  copies the rest.
\<close>

datatype server_result =
    SRNone
  | SRPacketToSend socket_addr bytes
  | SRPayload client_id bytes
  | SRClientConnected client_id bytes socket_addr bytes
  | SRClientDisconnected client_id socket_addr "bytes option"

datatype owned_server_result =
    ONone
  | OPacketToSend socket_addr bytes
  | OPayload client_id bytes
  | OClientConnected client_id socket_addr bytes
  | OClientDisconnected client_id socket_addr "bytes option"

fun to_owned_server_result :: "server_result \<Rightarrow> owned_server_result" where
  "to_owned_server_result SRNone = ONone"
| "to_owned_server_result (SRPacketToSend addr payload) = OPacketToSend addr payload"
| "to_owned_server_result (SRPayload client_id payload) = OPayload client_id payload"
| "to_owned_server_result (SRClientConnected client_id _ addr payload) =
     OClientConnected client_id addr payload"
| "to_owned_server_result (SRClientDisconnected client_id addr payload) =
     OClientDisconnected client_id addr payload"

fun_cases to_owned_connectedE: "to_owned_server_result r = OClientConnected cid addr p"
fun_cases to_owned_disconnectedE: "to_owned_server_result r = OClientDisconnected cid addr p"

end
