(* ===== verification/Session_Security.thy ===== *)
theory Session_Security
  imports Net
begin

text \<open>
  Credential-aware bootstrap (\<open>src/src/session_security.rs\<close>) with the policy trait and the message
  types it shares with \<open>src/src/bootstrap.rs\<close>: request and grant validation, the netcode user data a
  grant is bound into, the secure token issuer, and the client's check of a session response.
  Connect tokens, base64 and random bytes belong to other crates: they are the fields of the record
  \<open>token_codec\<close>, an argument of the definitions that use them; \<open>codec_laws\<close> names the documented
  behaviour some properties rely on.  Whatever consumes entropy takes the index of the draw.
\<close>

unbundle bit_operations_syntax

section \<open>Limits\<close>

definition MAX_SESSION_CREDENTIAL_BYTES :: nat where "MAX_SESSION_CREDENTIAL_BYTES = 4096"
definition MAX_SESSION_REQUEST_BYTES :: nat where "MAX_SESSION_REQUEST_BYTES = 8192"
definition MAX_SESSION_RESPONSE_BYTES :: nat where "MAX_SESSION_RESPONSE_BYTES = 16384"
definition MAX_SDP_BODY_BYTES :: nat where "MAX_SDP_BODY_BYTES = 65536"
definition MAX_SERVICE_BYTES :: nat where "MAX_SERVICE_BYTES = 32"
definition MAX_MATCH_BYTES :: nat where "MAX_MATCH_BYTES = 64"
definition MAX_GRANT_BYTES :: nat where "MAX_GRANT_BYTES = 128"
definition MAX_CONNECT_TOKEN_BYTES :: nat where "MAX_CONNECT_TOKEN_BYTES = 2048"
definition MAX_ENCODED_CONNECT_TOKEN_BYTES :: nat where "MAX_ENCODED_CONNECT_TOKEN_BYTES = 2732"
definition MAX_SESSION_TOKEN_BYTES :: nat where "MAX_SESSION_TOKEN_BYTES = 128"
definition NETCODE_USER_DATA_BYTES :: nat where "NETCODE_USER_DATA_BYTES = 256"

lemmas limit_defs =
  MAX_SESSION_CREDENTIAL_BYTES_def MAX_SESSION_REQUEST_BYTES_def MAX_SESSION_RESPONSE_BYTES_def
  MAX_SDP_BODY_BYTES_def MAX_SERVICE_BYTES_def MAX_MATCH_BYTES_def MAX_GRANT_BYTES_def
  MAX_CONNECT_TOKEN_BYTES_def MAX_ENCODED_CONNECT_TOKEN_BYTES_def MAX_SESSION_TOKEN_BYTES_def
  NETCODE_USER_DATA_BYTES_def

section \<open>Errors and messages\<close>

datatype bootstrap_auth_error =
    InvalidRequest
  | AdmissionRequired
  | InvalidGrant
  | Replay
  | TokenGeneration
  | MissingToken client_id
  | InvalidToken client_id
  | AuthMessage string

record session_create_request =
  rq_protocol_id :: "u64 option"
  rq_service :: string
  rq_match_id :: string
  rq_credential :: string
  rq_require_secure :: bool

definition SessionCreateRequest_default :: session_create_request where
  "SessionCreateRequest_default =
     \<lparr>rq_protocol_id = None, rq_service = [], rq_match_id = [], rq_credential = [],
      rq_require_secure = False\<rparr>"

definition SessionCreateRequest_validate ::
  "session_create_request \<Rightarrow> (bootstrap_auth_error, unit) result" where
  "SessionCreateRequest_validate r =
     (if length (rq_credential r) > MAX_SESSION_CREDENTIAL_BYTES
         \<or> length (rq_service r) > MAX_SERVICE_BYTES
         \<or> length (rq_match_id r) > MAX_MATCH_BYTES
      then Err InvalidRequest else Ok ())"

definition SessionCreateRequest_requests_authentication :: "session_create_request \<Rightarrow> bool" where
  "SessionCreateRequest_requests_authentication r =
     (rq_require_secure r \<or> rq_protocol_id r \<noteq> None \<or> rq_service r \<noteq> [] \<or> rq_match_id r \<noteq> []
      \<or> rq_credential r \<noteq> [])"

record session_grant =
  gr_protocol_id :: u64
  gr_service :: string
  gr_match_id :: string
  gr_expires_at :: u64
  gr_replay_key :: bytes
  gr_application :: bytes

definition SessionGrant_validate ::
  "session_grant \<Rightarrow> duration \<Rightarrow> (bootstrap_auth_error, unit) result" where
  "SessionGrant_validate g now =
     (if gr_service g = [] \<or> length (gr_service g) > MAX_SERVICE_BYTES
         \<or> gr_match_id g = [] \<or> length (gr_match_id g) > MAX_MATCH_BYTES
         \<or> length (gr_application g) > MAX_GRANT_BYTES
         \<or> unat (gr_expires_at g) \<le> as_secs now
      then Err InvalidGrant else Ok ())"

text \<open>\<open>u64::to_le_bytes\<close>, and \<open>data[off..off + xs.len()].copy_from_slice(xs)\<close>.\<close>

definition le_bytes :: "nat \<Rightarrow> u64 \<Rightarrow> bytes" where
  "le_bytes n w = map (\<lambda>i. ucast (drop_bit (8 * i) w)) [0..<n]"

definition copy_into :: "nat \<Rightarrow> bytes \<Rightarrow> bytes \<Rightarrow> bytes" where
  "copy_into off xs data = take off data @ xs @ drop (off + length xs) data"

fun put_fields :: "bytes \<Rightarrow> nat \<Rightarrow> bytes list \<Rightarrow> bytes" where
  "put_fields data cursor [] = data"
| "put_fields data cursor (xs # rest) =
     put_fields (copy_into (cursor + 1) xs (data[cursor := of_nat (length xs)]))
       (cursor + 1 + length xs) rest"

definition SessionGrant_user_data :: "session_grant \<Rightarrow> (bootstrap_auth_error, bytes) result" where
  "SessionGrant_user_data g =
     (if length (gr_service g) > MAX_SERVICE_BYTES \<or> length (gr_match_id g) > MAX_MATCH_BYTES
         \<or> length (gr_application g) > MAX_GRANT_BYTES
      then Err InvalidGrant
      else
        (let data = (replicate NETCODE_USER_DATA_BYTES 0)[0 := 1];
             data = copy_into 1 (le_bytes 8 (gr_protocol_id g)) data;
             data = copy_into 9 (le_bytes 8 (gr_expires_at g)) data
         in Ok (put_fields data 17
                  [as_bytes (gr_service g), as_bytes (gr_match_id g), gr_application g])))"

record session_security =
  ss_protocol_id :: u64
  ss_service :: string
  ss_match_id :: string
  ss_expires_at :: u64
  ss_udp_connect_token :: string
  ss_webrtc_connect_token :: string

record session_issuance =
  si_session_token :: "string option"
  si_security :: "session_security option"
  si_grant :: "session_grant option"

record session_create_response =
  rp_client_id :: client_id
  rp_udp_addr :: string
  rp_webrtc_addr :: string
  rp_webrtc_offer_url :: string
  rp_session_token :: "string option"
  rp_security :: "session_security option"

record bootstrap_config =
  bc_session_ttl :: duration
  bc_public_udp_addr :: socket_addr
  bc_public_webrtc_addr :: socket_addr
  bc_public_http_base :: string

definition trim_end_slashes :: "string \<Rightarrow> string" where
  "trim_end_slashes s = rev (dropWhile (\<lambda>c. c = CHR ''/'') (rev s))"

definition BootstrapConfig_offer_url :: "bootstrap_config \<Rightarrow> client_id \<Rightarrow> string" where
  "BootstrapConfig_offer_url c cid =
     trim_end_slashes (bc_public_http_base c) @ ''/api/webrtc/offer/'' @ show_nat (unat cid)"

definition BootstrapConfig_default :: bootstrap_config where
  "BootstrapConfig_default =
     \<lparr>bc_session_ttl = from_secs 120, bc_public_udp_addr = SocketV4 0x7f000001 5000,
      bc_public_webrtc_addr = SocketV4 0x7f000001 5001,
      bc_public_http_base = ''http://127.0.0.1:8080''\<rparr>"

section \<open>Connect tokens\<close>

text \<open>The public fields of \<open>renetcode::ConnectToken\<close> and, opaquely, the rest.\<close>

record connect_token =
  tk_client_id :: client_id
  tk_protocol_id :: u64
  tk_create_timestamp :: u64
  tk_expire_timestamp :: u64
  tk_timeout_seconds :: int
  tk_server_addresses :: "socket_addr option list"
  tk_opaque :: bytes

record token_codec =
  tc_generate :: "nat \<Rightarrow> duration \<Rightarrow> u64 \<Rightarrow> nat \<Rightarrow> client_id \<Rightarrow> int \<Rightarrow> socket_addr list \<Rightarrow> bytes option
                    \<Rightarrow> bytes \<Rightarrow> connect_token option"
  tc_write :: "connect_token \<Rightarrow> bytes option"
  tc_read :: "bytes \<Rightarrow> (connect_token \<times> nat) option"
  tc_b64_encode :: "bytes \<Rightarrow> string"
  tc_b64_decode_slice :: "string \<Rightarrow> nat \<Rightarrow> bytes option"
  tc_random_bytes :: "nat \<Rightarrow> nat \<Rightarrow> bytes"

definition encode_connect_token ::
  "token_codec \<Rightarrow> connect_token \<Rightarrow> (bootstrap_auth_error, string) result" where
  "encode_connect_token X token =
     (case tc_write X token of
        None \<Rightarrow> Err TokenGeneration
      | Some bs \<Rightarrow> if length bs > MAX_CONNECT_TOKEN_BYTES then Err TokenGeneration
                   else Ok (tc_b64_encode X bs))"

section \<open>Policies\<close>

text \<open>
  The trait \<open>SessionAuthPolicy\<close> as the record of the two methods the service calls.  The provided
  methods fall back on \<open>issue_token\<close> and \<open>verify_offer\<close>; \<open>Arc\<close> delegates to what it holds.
\<close>

record auth_policy =
  ap_issue_session :: "nat \<Rightarrow> client_id \<Rightarrow> session_create_request \<Rightarrow> duration \<Rightarrow> bootstrap_config
                         \<Rightarrow> (bootstrap_auth_error, session_issuance) result"
  ap_verify_issued_offer :: "client_id \<Rightarrow> string option \<Rightarrow> string option \<Rightarrow> duration
                         \<Rightarrow> (bootstrap_auth_error, unit) result"

definition default_issue_session ::
  "(client_id \<Rightarrow> duration \<Rightarrow> (bootstrap_auth_error, string option) result)
    \<Rightarrow> nat \<Rightarrow> client_id \<Rightarrow> session_create_request \<Rightarrow> duration \<Rightarrow> bootstrap_config
    \<Rightarrow> (bootstrap_auth_error, session_issuance) result" where
  "default_issue_session issue_token ent cid request now config =
     (case SessionCreateRequest_validate request of
        Err e \<Rightarrow> Err e
      | Ok _ \<Rightarrow>
          if SessionCreateRequest_requests_authentication request then Err AdmissionRequired
          else (case issue_token cid now of
                  Err e \<Rightarrow> Err e
                | Ok t \<Rightarrow> Ok \<lparr>si_session_token = t, si_security = None, si_grant = None\<rparr>))"

definition default_verify_issued_offer ::
  "(client_id \<Rightarrow> string option \<Rightarrow> duration \<Rightarrow> (bootstrap_auth_error, unit) result)
    \<Rightarrow> client_id \<Rightarrow> string option \<Rightarrow> string option \<Rightarrow> duration \<Rightarrow> (bootstrap_auth_error, unit) result" where
  "default_verify_issued_offer verify_offer cid token issued now = verify_offer cid token now"

definition UnsecureDev_issue_token :: "client_id \<Rightarrow> duration \<Rightarrow> (bootstrap_auth_error, string option) result" where
  "UnsecureDev_issue_token cid now = Ok None"

definition UnsecureDev_verify_offer ::
  "client_id \<Rightarrow> string option \<Rightarrow> duration \<Rightarrow> (bootstrap_auth_error, unit) result" where
  "UnsecureDev_verify_offer cid token now = Ok ()"

definition UnsecureDevAuthPolicy :: auth_policy where
  "UnsecureDevAuthPolicy =
     \<lparr>ap_issue_session = default_issue_session UnsecureDev_issue_token,
      ap_verify_issued_offer = default_verify_issued_offer UnsecureDev_verify_offer\<rparr>"

text \<open>
  The secure issuer: \<open>admit\<close> is the host's verifier, \<open>key\<close> the netcode private key; the two tokens
  and the session token draw entropy in this order.
\<close>

definition secure_token ::
  "token_codec \<Rightarrow> bytes \<Rightarrow> nat \<Rightarrow> duration \<Rightarrow> session_grant \<Rightarrow> client_id \<Rightarrow> bytes \<Rightarrow> socket_addr
    \<Rightarrow> (bootstrap_auth_error, string) result" where
  "secure_token X key ent now grant cid user_data addr =
     (case tc_generate X ent now (gr_protocol_id grant) (unat (gr_expires_at grant) - as_secs now) cid 15
             [addr] (Some user_data) key of
        None \<Rightarrow> Err TokenGeneration
      | Some token \<Rightarrow> encode_connect_token X token)"

definition SecureSessionAuthPolicy_issue_session ::
  "token_codec \<Rightarrow> (session_create_request \<Rightarrow> duration \<Rightarrow> (bootstrap_auth_error, session_grant) result)
    \<Rightarrow> bytes \<Rightarrow> nat \<Rightarrow> client_id \<Rightarrow> session_create_request \<Rightarrow> duration \<Rightarrow> bootstrap_config
    \<Rightarrow> (bootstrap_auth_error, session_issuance) result" where
  "SecureSessionAuthPolicy_issue_session X admit key ent cid request now config =
     (case SessionCreateRequest_validate request of Err e \<Rightarrow> Err e | Ok _ \<Rightarrow>
      case admit request now of Err e \<Rightarrow> Err e | Ok grant \<Rightarrow>
      case SessionGrant_validate grant now of Err e \<Rightarrow> Err e | Ok _ \<Rightarrow>
      if rq_protocol_id request \<noteq> Some (gr_protocol_id grant)
         \<or> rq_service request \<noteq> gr_service grant
         \<or> rq_match_id request \<noteq> gr_match_id grant
         \<or> unat (gr_expires_at grant) - as_secs now > as_secs (bc_session_ttl config)
      then Err InvalidGrant
      else
        case SessionGrant_user_data grant of Err e \<Rightarrow> Err e | Ok user_data \<Rightarrow>
        case secure_token X key ent now grant cid user_data (bc_public_udp_addr config) of
          Err e \<Rightarrow> Err e
        | Ok udp \<Rightarrow>
            case secure_token X key (ent + 1) now grant cid user_data (bc_public_webrtc_addr config) of
              Err e \<Rightarrow> Err e
            | Ok webrtc \<Rightarrow>
                Ok \<lparr>si_session_token = Some (tc_b64_encode X (tc_random_bytes X (ent + 2) 32)),
                    si_security = Some \<lparr>ss_protocol_id = gr_protocol_id grant,
                      ss_service = gr_service grant, ss_match_id = gr_match_id grant,
                      ss_expires_at = gr_expires_at grant,
                      ss_udp_connect_token = udp, ss_webrtc_connect_token = webrtc\<rparr>,
                    si_grant = Some grant\<rparr>)"

definition SecureSessionAuthPolicy_verify_issued_offer ::
  "client_id \<Rightarrow> string option \<Rightarrow> string option \<Rightarrow> duration \<Rightarrow> (bootstrap_auth_error, unit) result" where
  "SecureSessionAuthPolicy_verify_issued_offer cid token issued now =
     (case token of None \<Rightarrow> Err (MissingToken cid) | Some provided \<Rightarrow>
      case issued of None \<Rightarrow> Err (InvalidToken cid) | Some expected \<Rightarrow>
      if provided \<noteq> expected then Err (InvalidToken cid) else Ok ())"

definition SecureSessionAuthPolicy ::
  "token_codec \<Rightarrow> (session_create_request \<Rightarrow> duration \<Rightarrow> (bootstrap_auth_error, session_grant) result)
    \<Rightarrow> bytes \<Rightarrow> auth_policy" where
  "SecureSessionAuthPolicy X admit key =
     \<lparr>ap_issue_session = SecureSessionAuthPolicy_issue_session X admit key,
      ap_verify_issued_offer = SecureSessionAuthPolicy_verify_issued_offer\<rparr>"

section \<open>The client's check\<close>

datatype session_security_error =
    SecureRequired | InvalidResponse | InvalidConnectToken | BindingMismatch | Expired

datatype session_transport = UdpSession | WebRtcSession

datatype client_authentication =
    Unsecure u64 client_id socket_addr "bytes option"
  | Secure connect_token

definition SessionCreateResponse_authentication ::
  "token_codec \<Rightarrow> session_create_response \<Rightarrow> u64 \<Rightarrow> socket_addr \<Rightarrow> session_transport \<Rightarrow> duration \<Rightarrow> bool
    \<Rightarrow> session_create_request \<Rightarrow> (session_security_error, client_authentication) result" where
  "SessionCreateResponse_authentication X r protocol_id server_addr transport now require_secure request =
     (if SessionCreateRequest_validate request \<noteq> Ok () then Err InvalidResponse
      else if length (rp_udp_addr r) > 128 \<or> length (rp_webrtc_addr r) > 128
              \<or> length (rp_webrtc_offer_url r) > 2048
              \<or> is_some_and (\<lambda>t. length t > MAX_SESSION_TOKEN_BYTES) (rp_session_token r)
      then Err InvalidResponse
      else case rp_security r of
        None \<Rightarrow>
          if require_secure \<or> SessionCreateRequest_requests_authentication request
          then Err SecureRequired
          else Ok (Unsecure protocol_id (rp_client_id r) server_addr None)
      | Some security \<Rightarrow>
          if ss_protocol_id security \<noteq> protocol_id
             \<or> is_some_and (\<lambda>p. p \<noteq> protocol_id) (rq_protocol_id request)
             \<or> rq_service request \<noteq> [] \<and> rq_service request \<noteq> ss_service security
             \<or> rq_match_id request \<noteq> [] \<and> rq_match_id request \<noteq> ss_match_id security
          then Err BindingMismatch
          else if ss_service security = [] \<or> length (ss_service security) > MAX_SERVICE_BYTES
                  \<or> ss_match_id security = [] \<or> length (ss_match_id security) > MAX_MATCH_BYTES
          then Err InvalidResponse
          else
            (let encoded = (case transport of UdpSession \<Rightarrow> ss_udp_connect_token security
                                            | WebRtcSession \<Rightarrow> ss_webrtc_connect_token security)
             in if length encoded > MAX_ENCODED_CONNECT_TOKEN_BYTES then Err InvalidConnectToken
                else case tc_b64_decode_slice X encoded MAX_CONNECT_TOKEN_BYTES of
                  None \<Rightarrow> Err InvalidConnectToken
                | Some bs \<Rightarrow>
                    (case tc_read X bs of
                       None \<Rightarrow> Err InvalidConnectToken
                     | Some (token, position) \<Rightarrow>
                         if position \<noteq> length bs
                            \<or> tk_client_id token \<noteq> rp_client_id r
                            \<or> tk_protocol_id token \<noteq> protocol_id
                            \<or> hd (tk_server_addresses token) \<noteq> Some server_addr
                            \<or> list_ex (\<lambda>a. a \<noteq> None) (tl (tk_server_addresses token))
                            \<or> tk_expire_timestamp token \<noteq> ss_expires_at security
                            \<or> tk_timeout_seconds token \<le> 0
                         then Err BindingMismatch
                         else if unat (tk_create_timestamp token) > as_secs now
                                 \<or> unat (tk_expire_timestamp token) \<le> as_secs now
                                 \<or> tk_expire_timestamp token \<le> tk_create_timestamp token
                         then Err Expired
                         else Ok (Secure token))))"

section \<open>Bounded strings\<close>

definition bounded_string :: "nat \<Rightarrow> string \<Rightarrow> string option" where
  "bounded_string limit value = (if length value > limit then None else Some value)"

section \<open>The layout of the user data\<close>

definition field :: "bytes \<Rightarrow> bytes" where
  "field xs = of_nat (length xs) # xs"

lemma length_le_bytes [simp]: "length (le_bytes n w) = n"
  by (simp add: le_bytes_def)

lemma le_bytes_inject [simp]: "le_bytes 8 v = le_bytes 8 w \<longleftrightarrow> v = w"
proof
  assume eq: "le_bytes 8 v = le_bytes 8 w"
  have "bit v n = bit w n" if "n < 64" for n
  proof -
    have "le_bytes 8 v ! (n div 8) = le_bytes 8 w ! (n div 8)"
      using eq by simp
    moreover have "n div 8 < 8"
      using that by simp
    ultimately have "(ucast (drop_bit (8 * (n div 8)) v) :: u8) = ucast (drop_bit (8 * (n div 8)) w)"
      by (simp add: le_bytes_def nth_map_upt)
    then have "bit (ucast (drop_bit (8 * (n div 8)) v) :: u8) (n mod 8)
        = bit (ucast (drop_bit (8 * (n div 8)) w) :: u8) (n mod 8)"
      by simp
    then show ?thesis
      by (simp add: bit_ucast_iff bit_drop_bit_eq)
  qed
  then show "v = w"
    by (auto intro: bit_word_eqI)
qed simp

lemma copy_into_zeros:
  assumes "length xs \<le> n"
  shows "copy_into (length pre) xs (pre @ replicate n 0) = pre @ xs @ replicate (n - length xs) 0"
  using assms by (simp add: copy_into_def)

lemma put_fields_zeros:
  assumes "sum_list (map (\<lambda>x. Suc (length x)) fs) \<le> n"
  shows "put_fields (pre @ replicate n 0) (length pre) fs =
         pre @ concat (map field fs) @ replicate (n - sum_list (map (\<lambda>x. Suc (length x)) fs)) 0"
  using assms
proof (induction fs arbitrary: pre n)
  case (Cons xs fs)
  then obtain m where n: "n = Suc m" "length xs \<le> m"
    by (cases n) auto
  have "(pre @ replicate n 0)[length pre := of_nat (length xs)]
      = (pre @ [of_nat (length xs)]) @ replicate m 0"
    by (simp add: n list_update_append)
  then have "put_fields (pre @ replicate n 0) (length pre) (xs # fs)
      = put_fields ((pre @ field xs) @ replicate (m - length xs) 0) (length (pre @ field xs)) fs"
    using copy_into_zeros[OF n(2), of "pre @ [of_nat (length xs)]"] by (simp add: field_def)
  also have "\<dots> = (pre @ field xs) @ concat (map field fs)
      @ replicate (m - length xs - sum_list (map (\<lambda>x. Suc (length x)) fs)) 0"
    using Cons.prems n by (intro Cons.IH) simp
  finally show ?case
    by (simp add: n)
qed simp

lemma length_field [simp]: "length (field xs) = Suc (length xs)"
  by (simp add: field_def)

lemma field_prefix_inject:
  assumes "field xs @ r = field ys @ r'" "length xs < 256" "length ys < 256"
  shows "xs = ys \<and> r = r'"
proof -
  have "(of_nat (length xs) :: u8) = of_nat (length ys)"
    using assms(1) by (simp add: field_def)
  then have "unat (of_nat (length xs) :: u8) = unat (of_nat (length ys) :: u8)"
    by simp
  then have "length xs = length ys"
    using assms(2,3) by (simp add: unat_of_nat)
  then show ?thesis
    using assms by (simp add: field_def)
qed

lemma user_data_layout:
  assumes "SessionGrant_user_data g = Ok d"
  shows "\<exists>n. d = 1 # le_bytes 8 (gr_protocol_id g) @ le_bytes 8 (gr_expires_at g)
              @ field (as_bytes (gr_service g)) @ field (as_bytes (gr_match_id g))
              @ field (gr_application g) @ replicate n 0"
    and "length d = NETCODE_USER_DATA_BYTES"
    and "length (gr_service g) < 256" "length (gr_match_id g) < 256" "length (gr_application g) < 256"
proof -
  have lim: "length (gr_service g) \<le> 32" "length (gr_match_id g) \<le> 64" "length (gr_application g) \<le> 128"
    using assms by (auto simp: SessionGrant_user_data_def limit_defs split: if_splits)
  then show "length (gr_service g) < 256" "length (gr_match_id g) < 256" "length (gr_application g) < 256"
    by simp_all
  let ?p = "le_bytes 8 (gr_protocol_id g)" and ?e = "le_bytes 8 (gr_expires_at g)"
  let ?s = "as_bytes (gr_service g)" and ?m = "as_bytes (gr_match_id g)" and ?a = "gr_application g"
  have r256: "(replicate 256 0 :: bytes)[0 := 1] = [1] @ replicate 255 0"
    by (simp add: numeral_eq_Suc)
  have "d = put_fields ((1 # ?p @ ?e) @ replicate 239 0) (length (1 # ?p @ ?e)) [?s, ?m, ?a]"
    using assms lim copy_into_zeros[of ?p 255 "[1]"] copy_into_zeros[of ?e 247 "1 # ?p"]
    by (simp add: SessionGrant_user_data_def limit_defs r256 del: replicate.simps)
  then have d: "d = (1 # ?p @ ?e) @ field ?s @ field ?m @ field ?a
      @ replicate (239 - (length ?s + length ?m + length ?a + 3)) 0"
    using lim put_fields_zeros[of "[?s, ?m, ?a]" 239 "1 # ?p @ ?e"] by simp
  then show "\<exists>n. d = 1 # ?p @ ?e @ field ?s @ field ?m @ field ?a @ replicate n 0"
    by auto
  show "length d = NETCODE_USER_DATA_BYTES"
    using lim by (simp add: d limit_defs)
qed

section \<open>The contract of a policy\<close>

text \<open>
  What the bootstrap service relies on of a \<open>SessionAuthPolicy\<close>: a grant comes with its secure
  envelope and only with it, and a request that asks for authentication is never served without.
\<close>

locale issuing_policy =
  fixes issue :: "nat \<Rightarrow> client_id \<Rightarrow> session_create_request \<Rightarrow> duration \<Rightarrow> bootstrap_config
                    \<Rightarrow> (bootstrap_auth_error, session_issuance) result"
  assumes envelope: "issue ent cid rq now c = Ok i \<Longrightarrow> si_security i = None \<longleftrightarrow> si_grant i = None"
    and no_downgrade: "issue ent cid rq now c = Ok i \<Longrightarrow>
      SessionCreateRequest_requests_authentication rq \<Longrightarrow> si_security i \<noteq> None"
    and grant_bounded: "issue ent cid rq now c = Ok i \<Longrightarrow> si_grant i = Some g \<Longrightarrow>
      SessionGrant_validate g now = Ok () \<and> unat (gr_expires_at g) - as_secs now \<le> as_secs (bc_session_ttl c)"
begin

lemma accepted_issue:
  assumes "issue ent cid rq now c = Ok i"
  shows "\<not> ((si_security i \<noteq> None) \<noteq> (si_grant i \<noteq> None)
           \<or> SessionCreateRequest_requests_authentication rq \<and> si_security i = None)"
  using envelope[OF assms] no_downgrade[OF assms] by auto

lemma grant_remaining:
  assumes "issue ent cid rq now c = Ok i" "si_grant i = Some g"
  shows "0 < unat (gr_expires_at g) - as_secs now" "unat (gr_expires_at g) - as_secs now \<le> as_secs (bc_session_ttl c)"
    "\<exists>d. SessionGrant_user_data g = Ok d"
  using grant_bounded[OF assms]
  by (auto simp: SessionGrant_validate_def SessionGrant_user_data_def Let_def split: if_splits)

end

interpretation dev_policy: issuing_policy "ap_issue_session UnsecureDevAuthPolicy"
  by unfold_locales
    (auto simp: UnsecureDevAuthPolicy_def default_issue_session_def UnsecureDev_issue_token_def
      split: sum.splits if_splits)

lemma secure_issue_cases:
  assumes "SecureSessionAuthPolicy_issue_session X admit key ent cid rq now c = Ok i"
  obtains g ud udp webrtc where
    "SessionCreateRequest_validate rq = Ok ()" "admit rq now = Ok g" "SessionGrant_validate g now = Ok ()"
    "rq_protocol_id rq = Some (gr_protocol_id g)" "rq_service rq = gr_service g"
    "rq_match_id rq = gr_match_id g"
    "unat (gr_expires_at g) - as_secs now \<le> as_secs (bc_session_ttl c)"
    "SessionGrant_user_data g = Ok ud"
    "secure_token X key ent now g cid ud (bc_public_udp_addr c) = Ok udp"
    "secure_token X key (ent + 1) now g cid ud (bc_public_webrtc_addr c) = Ok webrtc"
    "si_security i = Some \<lparr>ss_protocol_id = gr_protocol_id g, ss_service = gr_service g,
       ss_match_id = gr_match_id g, ss_expires_at = gr_expires_at g,
       ss_udp_connect_token = udp, ss_webrtc_connect_token = webrtc\<rparr>"
    "si_grant i = Some g"
  using assms
  by (auto simp: SecureSessionAuthPolicy_issue_session_def not_less split: sum.splits if_splits)

interpretation secure_policy: issuing_policy "ap_issue_session (SecureSessionAuthPolicy X admit key)"
  for X admit key
  by unfold_locales (auto simp: SecureSessionAuthPolicy_def elim!: secure_issue_cases)

section \<open>Theorems\<close>


definition sample_grant :: session_grant where
  "sample_grant = \<lparr>gr_protocol_id = 7, gr_service = ''game'', gr_match_id = ''m1'', gr_expires_at = 160,
     gr_replay_key = replicate 32 1, gr_application = [1, 2, 3]\<rparr>"


text \<open>
  C4: the client's check of a session response never falls back.  It yields unsecured authentication
  only when the response carries no secure envelope and neither the caller nor the request asked for
  security; otherwise it yields a token that is bound to this client, protocol, server address and
  expiry, that is valid now, and whose envelope names the service and match that were asked for.
\<close>

theorem authentication_sound:
  assumes "SessionCreateResponse_authentication X r protocol addr transport now require_secure rq = Ok a"
  shows "case a of
      Unsecure p cid sa ud \<Rightarrow>
        rp_security r = None \<and> \<not> require_secure \<and> \<not> SessionCreateRequest_requests_authentication rq
        \<and> p = protocol \<and> cid = rp_client_id r \<and> sa = addr \<and> ud = None
    | Secure t \<Rightarrow>
        (\<exists>sec. rp_security r = Some sec
          \<and> tk_client_id t = rp_client_id r \<and> tk_protocol_id t = protocol \<and> ss_protocol_id sec = protocol
          \<and> hd (tk_server_addresses t) = Some addr \<and> list_all (\<lambda>x. x = None) (tl (tk_server_addresses t))
          \<and> tk_expire_timestamp t = ss_expires_at sec \<and> 0 < tk_timeout_seconds t
          \<and> unat (tk_create_timestamp t) \<le> as_secs now \<and> as_secs now < unat (tk_expire_timestamp t)
          \<and> (rq_service rq = [] \<or> rq_service rq = ss_service sec)
          \<and> (rq_match_id rq = [] \<or> rq_match_id rq = ss_match_id sec)
          \<and> (rq_protocol_id rq = None \<or> rq_protocol_id rq = Some protocol))"
  using assms
  by (auto simp: SessionCreateResponse_authentication_def Let_def is_some_and_def list_all_iff
      list_ex_iff not_less not_le split: if_splits option.splits)

text \<open>
  The documented behaviour of the codec: a generated token carries what it was generated from, a
  written token reads back to its end, and base64 of a buffer that fits decodes to it.
\<close>

definition codec_laws :: "token_codec \<Rightarrow> bool" where
  "codec_laws X \<longleftrightarrow>
     (\<forall>ent now p n cid timeout addr ud key t.
        tc_generate X ent now p n cid timeout [addr] ud key = Some t \<longrightarrow>
        tk_client_id t = cid \<and> tk_protocol_id t = p \<and> tk_timeout_seconds t = timeout
        \<and> tk_create_timestamp t = of_nat (as_secs now) \<and> tk_expire_timestamp t = of_nat (as_secs now + n)
        \<and> tk_server_addresses t = Some addr # replicate 31 None)
     \<and> (\<forall>t bs. tc_write X t = Some bs \<longrightarrow> tc_read X bs = Some (t, length bs))
     \<and> (\<forall>bs n. length bs \<le> n \<longrightarrow> tc_b64_decode_slice X (tc_b64_encode X bs) n = Some bs)
     \<and> (\<forall>bs. length (tc_b64_encode X bs) \<le> 4 * ((length bs + 2) div 3))"

definition sample_token :: "socket_addr \<Rightarrow> connect_token" where
  "sample_token addr = \<lparr>tk_client_id = 5, tk_protocol_id = 7, tk_create_timestamp = 100,
     tk_expire_timestamp = 160, tk_timeout_seconds = 15,
     tk_server_addresses = Some addr # replicate 31 None, tk_opaque = []\<rparr>"

definition sample_udp :: socket_addr where
  "sample_udp = SocketV4 0x7f000001 5000"

definition sample_codec :: token_codec where
  "sample_codec =
     \<lparr>tc_generate = (\<lambda>ent now p n cid timeout addrs ud key. Some
        \<lparr>tk_client_id = cid, tk_protocol_id = p, tk_create_timestamp = of_nat (as_secs now),
         tk_expire_timestamp = of_nat (as_secs now + n), tk_timeout_seconds = timeout,
         tk_server_addresses = map Some addrs @ replicate (32 - length addrs) None, tk_opaque = []\<rparr>),
      tc_write = (\<lambda>t. if t = sample_token sample_udp then Some [1] else None),
      tc_read = (\<lambda>bs. if bs = [1] then Some (sample_token sample_udp, 1) else None),
      tc_b64_encode = map (\<lambda>b. char_of (unat b)),
      tc_b64_decode_slice = (\<lambda>s n. if length s \<le> n then Some (as_bytes s) else None),
      tc_random_bytes = (\<lambda>ent n. replicate n 9)\<rparr>"

lemma sample_codec_laws: "codec_laws sample_codec"
proof -
  have "(of_char (char_of (unat b)) :: u8) = b" for b :: u8
  proof -
    have "unat b mod 256 = unat b"
      using unat_u8_less[of b] by simp
    then have "(of_nat (of_char (char_of (unat b))) :: u8) = b"
      by (simp only: of_char_of) simp
    then show ?thesis
      by (simp only: of_nat_of_char)
  qed
  moreover have "n \<le> 4 * ((n + 2) div 3)" for n :: nat
    by presburger
  moreover have "(32::nat) - 1 = 31"
    by simp
  ultimately show ?thesis
    by (auto simp: codec_laws_def sample_codec_def as_bytes_def comp_def split: if_splits)
qed

definition sample_response :: session_create_response where
  "sample_response = \<lparr>rp_client_id = 5, rp_udp_addr = ''127.0.0.1:5000'', rp_webrtc_addr = [],
     rp_webrtc_offer_url = [], rp_session_token = None, rp_security = None\<rparr>"

theorem authentication_sound_witness:
  "SessionCreateResponse_authentication sample_codec sample_response 7 (SocketV4 1 2) UdpSession 0 False
     SessionCreateRequest_default = Ok (Unsecure 7 5 (SocketV4 1 2) None)
   \<and> rp_security sample_response = None"
proof -
  have "SessionCreateResponse_authentication sample_codec sample_response 7 (SocketV4 1 2) UdpSession 0 False
     SessionCreateRequest_default = Ok (Unsecure 7 5 (SocketV4 1 2) None)"
    by (simp add: SessionCreateResponse_authentication_def sample_response_def limit_defs
        SessionCreateRequest_default_def SessionCreateRequest_validate_def
        SessionCreateRequest_requests_authentication_def)
  with authentication_sound[OF this] show ?thesis by simp
qed

lemma codec_generated:
  assumes "codec_laws X" "tc_generate X ent now p n cid timeout [addr] ud key = Some t"
  shows "tk_client_id t = cid" "tk_protocol_id t = p" "tk_timeout_seconds t = timeout"
    "tk_create_timestamp t = of_nat (as_secs now)" "tk_expire_timestamp t = of_nat (as_secs now + n)"
    "tk_server_addresses t = Some addr # replicate 31 None"
  using assms(1)[unfolded codec_laws_def, THEN conjunct1, rule_format, OF assms(2)] by auto

lemma codec_reads:
  assumes "codec_laws X"
  shows "tc_write X t = Some bs \<Longrightarrow> tc_read X bs = Some (t, length bs)"
    and "length bs \<le> n \<Longrightarrow> tc_b64_decode_slice X (tc_b64_encode X bs) n = Some bs"
    and "length (tc_b64_encode X bs) \<le> 4 * ((length bs + 2) div 3)"
  using assms by (simp_all add: codec_laws_def)

lemma secure_token_decodes:
  assumes laws: "codec_laws X" and ok: "secure_token X key ent now g cid ud addr = Ok enc"
    and exp: "as_secs now < unat (gr_expires_at g)"
  shows "\<exists>bs t. tc_b64_decode_slice X enc MAX_CONNECT_TOKEN_BYTES = Some bs
    \<and> length enc \<le> MAX_ENCODED_CONNECT_TOKEN_BYTES \<and> tc_read X bs = Some (t, length bs)
    \<and> tk_client_id t = cid \<and> tk_protocol_id t = gr_protocol_id g \<and> tk_timeout_seconds t = 15
    \<and> unat (tk_create_timestamp t) = as_secs now \<and> tk_expire_timestamp t = gr_expires_at g
    \<and> tk_server_addresses t = Some addr # replicate 31 None"
proof -
  obtain t bs where t: "tc_generate X ent now (gr_protocol_id g) (unat (gr_expires_at g) - as_secs now) cid 15
      [addr] (Some ud) key = Some t" and bs: "tc_write X t = Some bs" "length bs \<le> MAX_CONNECT_TOKEN_BYTES"
    and enc: "enc = tc_b64_encode X bs"
    using ok by (auto simp: secure_token_def encode_connect_token_def split: option.splits if_splits)
  note gen = codec_generated[OF laws t]
  have "as_secs now < 2 ^ 64"
    using exp unat_u64_less[of "gr_expires_at g"] by simp
  then have create: "unat (tk_create_timestamp t) = as_secs now"
    by (simp add: gen(4) unat_of_nat)
  have expire: "tk_expire_timestamp t = gr_expires_at g"
    using exp by (simp add: gen(5) flip: of_nat_add)
  have "(length bs + 2) div 3 \<le> 2050 div 3"
    using bs(2) by (intro div_le_mono) (simp add: limit_defs)
  then have size: "length enc \<le> MAX_ENCODED_CONNECT_TOKEN_BYTES"
    using codec_reads(3)[OF laws, of bs] by (simp add: enc limit_defs)
  show ?thesis
    by (rule exI[of _ bs], rule exI[of _ t])
      (simp add: gen(1-3,6) create expire size[unfolded enc] enc codec_reads(1)[OF laws bs(1)]
        codec_reads(2)[OF laws bs(2)])
qed

text \<open>
  C16: issuing and checking fit together.  When the secure policy issues a session, the response that
  carries its envelope authenticates the same client, for the same request and over either
  transport, with a token bound to that transport's public address, at any time up to the expiry.
\<close>

theorem issued_session_authenticates:
  assumes "codec_laws X"
    and "SecureSessionAuthPolicy_issue_session X admit key ent cid rq now c = Ok i"
    and "rp_client_id r = cid" "rp_security r = si_security i"
    and "length (rp_udp_addr r) \<le> 128" "length (rp_webrtc_addr r) \<le> 128"
    and "length (rp_webrtc_offer_url r) \<le> 2048"
    and "is_none_or (\<lambda>t. length t \<le> MAX_SESSION_TOKEN_BYTES) (rp_session_token r)"
    and "rq_protocol_id rq = Some protocol" "si_grant i = Some g"
    and "as_secs now \<le> as_secs now'" "as_secs now' < unat (gr_expires_at g)"
  shows "\<exists>t. SessionCreateResponse_authentication X r protocol
               (case tr of UdpSession \<Rightarrow> bc_public_udp_addr c | WebRtcSession \<Rightarrow> bc_public_webrtc_addr c)
               tr now' require_secure rq = Ok (Secure t)"
proof -
  from assms(2) obtain ud udp webrtc where i:
    "SessionCreateRequest_validate rq = Ok ()" "SessionGrant_validate g now = Ok ()"
    "rq_protocol_id rq = Some (gr_protocol_id g)" "rq_service rq = gr_service g"
    "rq_match_id rq = gr_match_id g"
    "secure_token X key ent now g cid ud (bc_public_udp_addr c) = Ok udp"
    "secure_token X key (ent + 1) now g cid ud (bc_public_webrtc_addr c) = Ok webrtc"
    "si_security i = Some \<lparr>ss_protocol_id = gr_protocol_id g, ss_service = gr_service g,
       ss_match_id = gr_match_id g, ss_expires_at = gr_expires_at g,
       ss_udp_connect_token = udp, ss_webrtc_connect_token = webrtc\<rparr>"
    using assms(10) by (auto elim!: secure_issue_cases)
  let ?addr = "case tr of UdpSession \<Rightarrow> bc_public_udp_addr c | WebRtcSession \<Rightarrow> bc_public_webrtc_addr c"
  let ?enc = "case tr of UdpSession \<Rightarrow> udp | WebRtcSession \<Rightarrow> webrtc"
  have valid: "as_secs now < unat (gr_expires_at g)" "gr_service g \<noteq> []" "gr_match_id g \<noteq> []"
    "length (gr_service g) \<le> MAX_SERVICE_BYTES" "length (gr_match_id g) \<le> MAX_MATCH_BYTES"
    using i(2) by (auto simp: SessionGrant_validate_def split: if_splits)
  have "\<exists>ent. secure_token X key ent now g cid ud ?addr = Ok ?enc"
    using i by (cases tr) auto
  then obtain bs t where t: "tc_b64_decode_slice X ?enc MAX_CONNECT_TOKEN_BYTES = Some bs"
    "length ?enc \<le> MAX_ENCODED_CONNECT_TOKEN_BYTES" "tc_read X bs = Some (t, length bs)"
    "tk_client_id t = cid" "tk_protocol_id t = gr_protocol_id g" "tk_timeout_seconds t = 15"
    "unat (tk_create_timestamp t) = as_secs now" "tk_expire_timestamp t = gr_expires_at g"
    "tk_server_addresses t = Some ?addr # replicate 31 None"
    using secure_token_decodes[OF assms(1) _ valid(1)] by blast
  have "tk_create_timestamp t < tk_expire_timestamp t"
    using t valid(1) by (simp add: word_less_nat_alt)
  moreover have "\<not> is_some_and (\<lambda>t. length t > MAX_SESSION_TOKEN_BYTES) (rp_session_token r)"
    using assms(8) by (cases "rp_session_token r") auto
  ultimately show ?thesis
    using assms i t valid
    by (cases tr) (simp_all add: SessionCreateResponse_authentication_def Let_def list_ex_iff)
qed

definition sample_request :: session_create_request where
  "sample_request = \<lparr>rq_protocol_id = Some 7, rq_service = ''game'', rq_match_id = ''m1'',
     rq_credential = ''ticket'', rq_require_secure = True\<rparr>"

definition sample_bootstrap_config :: bootstrap_config where
  "sample_bootstrap_config = BootstrapConfig_default\<lparr>bc_public_webrtc_addr := sample_udp\<rparr>"

definition sample_security :: session_security where
  "sample_security = \<lparr>ss_protocol_id = 7, ss_service = ''game'', ss_match_id = ''m1'',
     ss_expires_at = 160, ss_udp_connect_token = tc_b64_encode sample_codec [1],
     ss_webrtc_connect_token = tc_b64_encode sample_codec [1]\<rparr>"

lemma sample_issue:
  "\<exists>i. SecureSessionAuthPolicy_issue_session sample_codec (\<lambda>_ _. Ok sample_grant) [] 0 5 sample_request
     (from_secs 100) sample_bootstrap_config = Ok i \<and> si_grant i = Some sample_grant
     \<and> si_security i = Some sample_security"
proof -
  obtain ud where ud: "SessionGrant_user_data sample_grant = Ok ud"
    by (auto simp: SessionGrant_user_data_def sample_grant_def limit_defs Let_def)
  have secs: "as_secs (from_secs 100) = 100"
    by (simp add: as_secs_def from_secs_def NANOS_def)
  have "secure_token sample_codec [] ent (from_secs 100) sample_grant 5 ud sample_udp
      = Ok (tc_b64_encode sample_codec [1])" for ent
    by (simp add: secure_token_def sample_codec_def encode_connect_token_def secs sample_grant_def
        sample_token_def limit_defs)
  moreover have "SessionCreateRequest_validate sample_request = Ok ()"
    "SessionGrant_validate sample_grant (from_secs 100) = Ok ()"
    by (simp_all add: SessionCreateRequest_validate_def SessionGrant_validate_def sample_request_def
        sample_grant_def limit_defs secs)
  moreover have "bc_public_udp_addr sample_bootstrap_config = sample_udp"
    "bc_public_webrtc_addr sample_bootstrap_config = sample_udp"
    "as_secs (bc_session_ttl sample_bootstrap_config) = 120"
    by (simp_all add: sample_bootstrap_config_def BootstrapConfig_default_def sample_udp_def
        as_secs_def from_secs_def NANOS_def)
  moreover have "rq_protocol_id sample_request = Some (gr_protocol_id sample_grant)"
    "rq_service sample_request = gr_service sample_grant" "rq_match_id sample_request = gr_match_id sample_grant"
    "unat (gr_expires_at sample_grant) = 160"
    by (simp_all add: sample_request_def sample_grant_def)
  ultimately show ?thesis
    using ud secs by (simp add: SecureSessionAuthPolicy_issue_session_def sample_security_def)
      (simp add: sample_grant_def)
qed

theorem issued_session_authenticates_witness:
  "\<exists>t. SessionCreateResponse_authentication sample_codec
         (sample_response\<lparr>rp_security := Some sample_security\<rparr>) 7 sample_udp UdpSession (from_secs 120)
         True sample_request = Ok (Secure t)"
proof -
  obtain i where i: "SecureSessionAuthPolicy_issue_session sample_codec (\<lambda>_ _. Ok sample_grant) [] 0 5
      sample_request (from_secs 100) sample_bootstrap_config = Ok i"
    "si_grant i = Some sample_grant" "si_security i = Some sample_security"
    using sample_issue by blast
  show ?thesis
    using issued_session_authenticates[OF sample_codec_laws i(1), of
        "sample_response\<lparr>rp_security := Some sample_security\<rparr>" 7 sample_grant "from_secs 120" UdpSession True] i
    by (simp add: sample_response_def sample_request_def sample_grant_def as_secs_def from_secs_def
        sample_bootstrap_config_def BootstrapConfig_default_def sample_udp_def NANOS_def)
qed

end
