(* ===== verification/Bootstrap.thy ===== *)
theory Bootstrap
  imports Session_Security
begin

text \<open>
  The bootstrap service (\<open>src/src/bootstrap.rs\<close>): client id allocation, the registry of pending and
  active sessions with its replay memory, and the service that creates sessions, accepts one SDP
  offer per session and activates a session on its authenticated connection.  The two clocks are
  arguments: \<open>unix\<close> is \<open>unix_now_duration()\<close> (\<open>None\<close> its error), \<open>inst\<close> a reading of \<open>Instant\<close>.  The
  registry's mutex makes each operation atomic; \<open>sv_poisoned\<close> is its poison flag.  The allocator and
  the policy are arguments of the service, as in the source; the locale \<open>id_allocator\<close> states what
  the service needs of the former.
\<close>

section \<open>Client identities\<close>

definition Monotonic_try_next :: "u64 \<Rightarrow> (client_id \<times> u64) option" where
  "Monotonic_try_next next_id =
     (case checked_succ next_id of None \<Rightarrow> None | Some next_id' \<Rightarrow> Some (next_id, next_id'))"

text \<open>What a service needs of an allocator: a watermark above every identity handed out.\<close>

locale id_allocator =
  fixes alloc :: "'a \<Rightarrow> (client_id \<times> 'a) option"
    and watermark :: "'a \<Rightarrow> nat"
  assumes fresh: "alloc a = Some (cid, a') \<Longrightarrow> watermark a \<le> unat cid \<and> unat cid < watermark a'"

interpretation monotonic: id_allocator Monotonic_try_next unat
  by unfold_locales
    (auto simp: Monotonic_try_next_def split: option.splits dest: checked_succ_Some)

section \<open>The registry\<close>

record bootstrap_limits =
  bl_pending_sessions :: nat
  bl_active_sessions :: nat
  bl_replay_grants :: nat

definition BootstrapLimits_default :: bootstrap_limits where
  "BootstrapLimits_default =
     \<lparr>bl_pending_sessions = 1024, bl_active_sessions = 256, bl_replay_grants = 8192\<rparr>"

record session_details =
  dt_token :: "string option"
  dt_grant :: "session_grant option"
  dt_user_data :: "bytes option"
  dt_offer_claimed :: bool
  dt_expires :: "duration option"

text \<open>\<open>active\<close> is a set: a list without repetitions.\<close>

record registry =
  rg_pending :: "(client_id \<times> duration) list"
  rg_active :: "client_id list"
  rg_ttl :: duration
  rg_limits :: bootstrap_limits
  rg_details :: "(client_id \<times> session_details) list"
  rg_used_grants :: "(bytes \<times> duration) list"

datatype 'h bootstrap_error =
    Capacity
  | DuplicateSession
  | BodyTooLarge
  | SessionRegistryPoisoned
  | UnknownSession client_id
  | Auth bootstrap_auth_error
  | Hook 'h
  | Clock

definition InMemorySessionRegistry_new :: "duration \<Rightarrow> registry" where
  "InMemorySessionRegistry_new ttl =
     \<lparr>rg_pending = [], rg_active = [], rg_ttl = ttl, rg_limits = BootstrapLimits_default,
      rg_details = [], rg_used_grants = []\<rparr>"

definition InMemorySessionRegistry_with_limits ::
  "duration \<Rightarrow> bootstrap_limits \<Rightarrow> ('h bootstrap_error, registry) result" where
  "InMemorySessionRegistry_with_limits ttl limits =
     (if bl_pending_sessions limits = 0 \<or> bl_active_sessions limits = 0 \<or> bl_replay_grants limits = 0
      then Err Capacity
      else Ok ((InMemorySessionRegistry_new ttl)\<lparr>rg_limits := limits\<rparr>))"

definition InMemorySessionRegistry_counts :: "registry \<Rightarrow> nat \<times> nat \<times> nat" where
  "InMemorySessionRegistry_counts r =
     (length (rg_pending r), length (rg_active r), length (rg_used_grants r))"

definition cleanup_at :: "registry \<Rightarrow> duration \<Rightarrow> registry" where
  "cleanup_at r now =
     (let pending = hm_retain (\<lambda>cid started.
            now - started < rg_ttl r
            \<and> is_none_or (\<lambda>detail. is_none_or (\<lambda>expires. expires > now) (dt_expires detail))
                (hm_get (rg_details r) cid)) (rg_pending r)
      in r\<lparr>rg_pending := pending,
           rg_details := hm_retain (\<lambda>cid _. hm_contains pending cid \<or> cid \<in> set (rg_active r))
                           (rg_details r),
           rg_used_grants := hm_retain (\<lambda>_ expires. expires > now) (rg_used_grants r)\<rparr>)"

definition try_issue_at ::
  "registry \<Rightarrow> client_id \<Rightarrow> duration \<Rightarrow> ('h bootstrap_error, unit) result \<times> registry" where
  "try_issue_at r0 cid now =
     (let r = cleanup_at r0 now in
      if length (rg_pending r) \<ge> bl_pending_sessions (rg_limits r)
         \<or> length (rg_active r) \<ge> bl_active_sessions (rg_limits r)
      then (Err Capacity, r)
      else if hm_contains (rg_pending r) cid \<or> cid \<in> set (rg_active r)
      then (Err DuplicateSession, r)
      else (Ok (), r\<lparr>rg_pending := hm_insert cid now (rg_pending r)\<rparr>))"

definition issue_at :: "registry \<Rightarrow> client_id \<Rightarrow> duration \<Rightarrow> registry" where
  "issue_at r cid now =
     snd (try_issue_at r cid now :: (unit bootstrap_error, unit) result \<times> registry)"

definition is_pending_at :: "registry \<Rightarrow> client_id \<Rightarrow> duration \<Rightarrow> bool \<times> registry" where
  "is_pending_at r0 cid now =
     (let r = cleanup_at r0 now in (hm_contains (rg_pending r) cid, r))"

definition activate_at :: "registry \<Rightarrow> client_id \<Rightarrow> duration \<Rightarrow> bool \<times> registry" where
  "activate_at r0 cid now =
     (let r = cleanup_at r0 now in
      if length (rg_active r) \<ge> bl_active_sessions (rg_limits r) then (False, r)
      else if hm_contains (rg_pending r) cid
      then (True, r\<lparr>rg_pending := hm_remove cid (rg_pending r),
                     rg_active := List.insert cid (rg_active r)\<rparr>)
      else (False, r))"

definition deactivate :: "registry \<Rightarrow> client_id \<Rightarrow> registry" where
  "deactivate r cid =
     r\<lparr>rg_pending := hm_remove cid (rg_pending r),
       rg_active := removeAll cid (rg_active r),
       rg_details := hm_remove cid (rg_details r)\<rparr>"

section \<open>The service\<close>

record 'a service =
  sv_allocator :: 'a
  sv_registry :: registry
  sv_poisoned :: bool
  sv_config :: bootstrap_config

definition BootstrapService_new :: "bootstrap_config \<Rightarrow> 'a \<Rightarrow> 'a service" where
  "BootstrapService_new config a =
     \<lparr>sv_allocator = a, sv_registry = InMemorySessionRegistry_new (bc_session_ttl config),
      sv_poisoned = False, sv_config = config\<rparr>"

definition BootstrapService_with_limits ::
  "bootstrap_config \<Rightarrow> 'a \<Rightarrow> bootstrap_limits \<Rightarrow> ('h bootstrap_error, 'a service) result" where
  "BootstrapService_with_limits config a limits =
     (case InMemorySessionRegistry_with_limits (bc_session_ttl config) limits of
        Err e \<Rightarrow> Err e
      | Ok r \<Rightarrow> Ok \<lparr>sv_allocator = a, sv_registry = r, sv_poisoned = False, sv_config = config\<rparr>)"

text \<open>\<open>Instant\<close> holds whole seconds in an \<open>i64\<close>.\<close>

definition instant_checked_add :: "duration \<Rightarrow> duration \<Rightarrow> duration option" where
  "instant_checked_add t d = (if t + d < 2 ^ 63 * NANOS then Some (t + d) else None)"

definition issuance_too_large :: "bootstrap_config \<Rightarrow> session_issuance \<Rightarrow> bool" where
  "issuance_too_large config issued =
     (is_some_and (\<lambda>sec. length (ss_service sec) > MAX_SERVICE_BYTES
                        \<or> length (ss_match_id sec) > MAX_MATCH_BYTES
                        \<or> length (ss_udp_connect_token sec) > MAX_ENCODED_CONNECT_TOKEN_BYTES
                        \<or> length (ss_webrtc_connect_token sec) > MAX_ENCODED_CONNECT_TOKEN_BYTES)
        (si_security issued)
      \<or> length (bc_public_http_base config) > 2048
      \<or> is_some_and (\<lambda>token. length token > MAX_SESSION_TOKEN_BYTES) (si_session_token issued))"

text \<open>The replay entry of an issued grant, checked against the registry.\<close>

definition replay_entry ::
  "registry \<Rightarrow> session_grant option \<Rightarrow> duration \<Rightarrow> duration
    \<Rightarrow> ('h bootstrap_error, (bytes \<times> duration) option) result" where
  "replay_entry r grant now inst =
     (case grant of
        None \<Rightarrow> Ok None
      | Some g \<Rightarrow>
          (case SessionGrant_validate g now of
             Err e \<Rightarrow> Err (Auth e)
           | Ok _ \<Rightarrow>
               if hm_contains (rg_used_grants r) (gr_replay_key g) then Err (Auth Replay)
               else if length (rg_used_grants r) \<ge> bl_replay_grants (rg_limits r) then Err Capacity
               else case instant_checked_add inst (from_secs (unat (gr_expires_at g) - as_secs now)) of
                 None \<Rightarrow> Err (Auth InvalidGrant)
               | Some expires \<Rightarrow> Ok (Some (gr_replay_key g, expires))))"

definition transpose_user_data ::
  "session_grant option \<Rightarrow> (bootstrap_auth_error, bytes option) result" where
  "transpose_user_data grant =
     (case grant of
        None \<Rightarrow> Ok None
      | Some g \<Rightarrow> (case SessionGrant_user_data g of Err e \<Rightarrow> Err e | Ok d \<Rightarrow> Ok (Some d)))"

text \<open>
  Everything \<open>create_session_with_request\<close> decides between allocating an identity and touching the
  registry.  \<open>json_len\<close> is the length of the serialised response (\<open>None\<close> when serde fails), \<open>ent\<close> the
  first entropy draw of the policy.
\<close>

definition plan_session ::
  "auth_policy \<Rightarrow> (session_create_response \<Rightarrow> nat option) \<Rightarrow> nat \<Rightarrow> bootstrap_config \<Rightarrow> registry
    \<Rightarrow> client_id \<Rightarrow> session_create_request \<Rightarrow> duration \<Rightarrow> duration
    \<Rightarrow> ('h bootstrap_error,
         session_create_response \<times> session_details \<times> (bytes \<times> duration) option) result" where
  "plan_session P json_len ent config r cid request now inst =
     (case ap_issue_session P ent cid request now config of Err e \<Rightarrow> Err (Auth e) | Ok issued \<Rightarrow>
      if issuance_too_large config issued then Err BodyTooLarge
      else if (si_security issued \<noteq> None) \<noteq> (si_grant issued \<noteq> None)
              \<or> SessionCreateRequest_requests_authentication request \<and> si_security issued = None
      then Err (Auth AdmissionRequired)
      else case transpose_user_data (si_grant issued) of Err e \<Rightarrow> Err (Auth e) | Ok user_data \<Rightarrow>
      case replay_entry r (si_grant issued) now inst of Err e \<Rightarrow> Err e | Ok replay \<Rightarrow>
      (let response =
             \<lparr>rp_client_id = cid, rp_udp_addr = show_addr (bc_public_udp_addr config),
              rp_webrtc_addr = show_addr (bc_public_webrtc_addr config),
              rp_webrtc_offer_url = BootstrapConfig_offer_url config cid,
              rp_session_token = si_session_token issued, rp_security = si_security issued\<rparr>;
           details = \<lparr>dt_token = si_session_token issued, dt_grant = si_grant issued,
                      dt_user_data = user_data, dt_offer_claimed = False,
                      dt_expires = map_option snd replay\<rparr>
       in if is_none_or (\<lambda>n. n > MAX_SESSION_RESPONSE_BYTES) (json_len response)
          then Err BodyTooLarge else Ok (response, details, replay)))"

definition record_session ::
  "registry \<Rightarrow> client_id \<Rightarrow> session_details \<Rightarrow> (bytes \<times> duration) option \<Rightarrow> registry" where
  "record_session r cid details replay =
     (let r' = r\<lparr>rg_details := hm_insert cid details (rg_details r)\<rparr>
      in case replay of
           None \<Rightarrow> r'
         | Some (key, expiry) \<Rightarrow> r'\<lparr>rg_used_grants := hm_insert key expiry (rg_used_grants r')\<rparr>)"

definition create_session_with_request ::
  "('a \<Rightarrow> (client_id \<times> 'a) option) \<Rightarrow> auth_policy \<Rightarrow> (session_create_response \<Rightarrow> nat option)
    \<Rightarrow> nat \<Rightarrow> duration option \<Rightarrow> duration \<Rightarrow> 'a service \<Rightarrow> session_create_request
    \<Rightarrow> ('h bootstrap_error, session_create_response) result \<times> 'a service" where
  "create_session_with_request alloc P json_len ent unix inst sv request =
     (case SessionCreateRequest_validate request of Err e \<Rightarrow> (Err (Auth e), sv) | Ok _ \<Rightarrow>
      case unix of None \<Rightarrow> (Err Clock, sv) | Some now \<Rightarrow>
      if sv_poisoned sv then (Err SessionRegistryPoisoned, sv)
      else
      (let r = cleanup_at (sv_registry sv) inst; sv1 = sv\<lparr>sv_registry := r\<rparr> in
       if length (rg_pending r) \<ge> bl_pending_sessions (rg_limits r)
          \<or> length (rg_active r) \<ge> bl_active_sessions (rg_limits r)
       then (Err Capacity, sv1)
       else case alloc (sv_allocator sv1) of None \<Rightarrow> (Err Capacity, sv1) | Some (cid, a) \<Rightarrow>
       (let sv2 = sv1\<lparr>sv_allocator := a\<rparr> in
        case plan_session P json_len ent (sv_config sv) r cid request now inst of
          Err e \<Rightarrow> (Err e, sv2)
        | Ok (response, details, replay) \<Rightarrow>
            (case try_issue_at r cid inst of
               (Err e, r') \<Rightarrow> (Err e, sv2\<lparr>sv_registry := r'\<rparr>)
             | (Ok _, r') \<Rightarrow> (Ok response, sv2\<lparr>sv_registry := record_session r' cid details replay\<rparr>)))))"

record sdp_offer_request =
  so_sdp :: string
  so_session_token :: "string option"

text \<open>
  The registry part of \<open>accept_offer\<close>: the offer is claimed before \<open>hook\<close> (building the RTC peer)
  runs on the transport; \<open>hook\<close> is \<open>accept_offer_and_add_peer\<close>.
\<close>

definition claim_offer ::
  "auth_policy \<Rightarrow> duration option \<Rightarrow> duration \<Rightarrow> 'a service \<Rightarrow> client_id \<Rightarrow> sdp_offer_request
    \<Rightarrow> ('h bootstrap_error, unit) result \<times> 'a service" where
  "claim_offer P unix inst sv cid offer =
     (if length (so_sdp offer) > MAX_SDP_BODY_BYTES
         \<or> is_some_and (\<lambda>t. length t > MAX_SESSION_TOKEN_BYTES) (so_session_token offer)
      then (Err BodyTooLarge, sv)
      else case unix of None \<Rightarrow> (Err Clock, sv) | Some now \<Rightarrow>
      if sv_poisoned sv then (Err SessionRegistryPoisoned, sv)
      else
        (let (pending, r) = is_pending_at (sv_registry sv) cid inst; sv1 = sv\<lparr>sv_registry := r\<rparr> in
         if \<not> pending then (Err (UnknownSession cid), sv1)
         else case hm_get (rg_details r) cid of
           None \<Rightarrow> (Err (UnknownSession cid), sv1)
         | Some detail \<Rightarrow>
             if dt_offer_claimed detail
                \<or> is_some_and (\<lambda>g. unat (gr_expires_at g) \<le> as_secs now) (dt_grant detail)
             then (Err (UnknownSession cid), sv1)
             else case ap_verify_issued_offer P cid (so_session_token offer) (dt_token detail) now of
               Err e \<Rightarrow> (Err (Auth e), sv1)
             | Ok _ \<Rightarrow>
                 (Ok (), sv1\<lparr>sv_registry := r\<lparr>rg_details :=
                    hm_insert cid (detail\<lparr>dt_offer_claimed := True\<rparr>) (rg_details r)\<rparr>\<rparr>)))"

definition accept_offer ::
  "auth_policy \<Rightarrow> ('t \<Rightarrow> client_id \<Rightarrow> sdp_offer_request \<Rightarrow> ('h, 'ans) result \<times> 't)
    \<Rightarrow> duration option \<Rightarrow> duration \<Rightarrow> 'a service \<Rightarrow> 't \<Rightarrow> client_id \<Rightarrow> sdp_offer_request
    \<Rightarrow> ('h bootstrap_error, 'ans) result \<times> 'a service \<times> 't" where
  "accept_offer P hook unix inst sv transport cid offer =
     (case claim_offer P unix inst sv cid offer of
        (Err e, sv') \<Rightarrow> (Err e, sv', transport)
      | (Ok _, sv') \<Rightarrow>
          (case hook transport cid offer of
             (Err h, transport') \<Rightarrow> (Err (Hook h), sv', transport')
           | (Ok answer, transport') \<Rightarrow> (Ok answer, sv', transport')))"

text \<open>\<open>inst\<close> and \<open>inst'\<close> are the readings in \<open>is_pending\<close> and in \<open>activate\<close>.\<close>

definition activate_session ::
  "duration option \<Rightarrow> duration \<Rightarrow> duration \<Rightarrow> 'a service \<Rightarrow> client_id \<Rightarrow> bytes option
    \<Rightarrow> ('h bootstrap_error, unit) result \<times> 'a service" where
  "activate_session unix inst inst' sv cid user_data =
     (case unix of None \<Rightarrow> (Err Clock, sv) | Some now \<Rightarrow>
      if sv_poisoned sv then (Err SessionRegistryPoisoned, sv)
      else
        (let (pending, r) = is_pending_at (sv_registry sv) cid inst; sv1 = sv\<lparr>sv_registry := r\<rparr>;
             verdict =
               (case hm_get (rg_details r) cid of
                  None \<Rightarrow> Ok ()
                | Some detail \<Rightarrow>
                    if is_some_and (\<lambda>g. unat (gr_expires_at g) \<le> as_secs now) (dt_grant detail)
                    then Err (Auth InvalidGrant)
                    else case dt_user_data detail of
                      None \<Rightarrow> Ok ()
                    | Some expected \<Rightarrow>
                        (case user_data of
                           None \<Rightarrow> Err (Auth AdmissionRequired)
                         | Some actual \<Rightarrow>
                             if actual \<noteq> expected then Err (Auth InvalidGrant) else Ok ()))
         in if \<not> pending then (Err (UnknownSession cid), sv1)
            else case verdict of
              Err e \<Rightarrow> (Err e, sv1)
            | Ok _ \<Rightarrow>
                (let (activated, r') = activate_at r cid inst'; sv2 = sv1\<lparr>sv_registry := r'\<rparr>
                 in if activated then (Ok (), sv2) else (Err (UnknownSession cid), sv2))))"

definition on_client_connected ::
  "duration option \<Rightarrow> duration \<Rightarrow> duration \<Rightarrow> 'a service \<Rightarrow> client_id
    \<Rightarrow> ('h bootstrap_error, unit) result \<times> 'a service" where
  "on_client_connected unix inst inst' sv cid = activate_session unix inst inst' sv cid None"

definition on_client_connected_with_user_data ::
  "duration option \<Rightarrow> duration \<Rightarrow> duration \<Rightarrow> 'a service \<Rightarrow> client_id \<Rightarrow> bytes
    \<Rightarrow> ('h bootstrap_error, unit) result \<times> 'a service" where
  "on_client_connected_with_user_data unix inst inst' sv cid user_data =
     activate_session unix inst inst' sv cid (Some user_data)"

definition on_client_disconnected :: "'a service \<Rightarrow> client_id \<Rightarrow> 'a service" where
  "on_client_disconnected sv cid =
     (if sv_poisoned sv then sv else sv\<lparr>sv_registry := deactivate (sv_registry sv) cid\<rparr>)"

definition cleanup_sessions ::
  "duration \<Rightarrow> 'a service \<Rightarrow> ('h bootstrap_error, unit) result \<times> 'a service" where
  "cleanup_sessions inst sv =
     (if sv_poisoned sv then (Err SessionRegistryPoisoned, sv)
      else (Ok (), sv\<lparr>sv_registry := cleanup_at (sv_registry sv) inst\<rparr>))"

definition session_grant_of ::
  "duration \<Rightarrow> 'a service \<Rightarrow> client_id \<Rightarrow> ('h bootstrap_error, session_grant option) result \<times> 'a service" where
  "session_grant_of inst sv cid =
     (if sv_poisoned sv then (Err SessionRegistryPoisoned, sv)
      else (let r = cleanup_at (sv_registry sv) inst
            in (Ok (case hm_get (rg_details r) cid of None \<Rightarrow> None | Some detail \<Rightarrow> dt_grant detail),
                sv\<lparr>sv_registry := r\<rparr>)))"

definition is_pending_session ::
  "duration \<Rightarrow> 'a service \<Rightarrow> client_id \<Rightarrow> ('h bootstrap_error, bool) result \<times> 'a service" where
  "is_pending_session inst sv cid =
     (if sv_poisoned sv then (Err SessionRegistryPoisoned, sv)
      else (let (pending, r) = is_pending_at (sv_registry sv) cid inst
            in (Ok pending, sv\<lparr>sv_registry := r\<rparr>)))"

section \<open>The registry's invariant\<close>

abbreviation pending_ids :: "registry \<Rightarrow> client_id set" where
  "pending_ids r \<equiv> hm_keys (rg_pending r)"

abbreviation detail_ids :: "registry \<Rightarrow> client_id set" where
  "detail_ids r \<equiv> hm_keys (rg_details r)"

definition reg_ok :: "registry \<Rightarrow> bool" where
  "reg_ok r \<longleftrightarrow>
     hm_wf (rg_pending r) \<and> distinct (rg_active r) \<and> hm_wf (rg_details r) \<and> hm_wf (rg_used_grants r)
     \<and> pending_ids r \<inter> set (rg_active r) = {}
     \<and> detail_ids r \<subseteq> pending_ids r \<union> set (rg_active r)
     \<and> length (rg_pending r) \<le> bl_pending_sessions (rg_limits r)
     \<and> length (rg_active r) \<le> bl_active_sessions (rg_limits r)
     \<and> length (rg_used_grants r) \<le> bl_replay_grants (rg_limits r)"

lemma cleanup_frame [simp]:
  "rg_active (cleanup_at r now) = rg_active r" "rg_limits (cleanup_at r now) = rg_limits r"
  "rg_ttl (cleanup_at r now) = rg_ttl r"
  by (simp_all add: cleanup_at_def Let_def)

lemma cleanup_pending:
  "rg_pending (cleanup_at r now) = hm_retain (\<lambda>cid started. now - started < rg_ttl r
     \<and> is_none_or (\<lambda>detail. is_none_or (\<lambda>expires. expires > now) (dt_expires detail))
         (hm_get (rg_details r) cid)) (rg_pending r)"
  by (simp add: cleanup_at_def Let_def)

lemma cleanup_details:
  "rg_details (cleanup_at r now) =
     hm_retain (\<lambda>cid _. cid \<in> pending_ids (cleanup_at r now) \<union> set (rg_active r)) (rg_details r)"
  by (simp add: cleanup_at_def Let_def hm_contains_keys)

lemma cleanup_used:
  "rg_used_grants (cleanup_at r now) = hm_retain (\<lambda>_ expires. expires > now) (rg_used_grants r)"
  by (simp add: cleanup_at_def Let_def)

lemma cleanup_keys:
  "pending_ids (cleanup_at r now) \<subseteq> pending_ids r"
  "set (rg_details (cleanup_at r now)) \<subseteq> set (rg_details r)"
  "detail_ids (cleanup_at r now) \<subseteq> pending_ids (cleanup_at r now) \<union> set (rg_active r)"
  unfolding cleanup_pending[of r now] cleanup_details
  by (rule hm_keys_retain, auto simp: hm_retain_mem hm_keys_def)

lemma cleanup_twice: "set (rg_details (cleanup_at (cleanup_at r now) now')) \<subseteq> set (rg_details r)"
  by (rule subset_trans[OF cleanup_keys(2) cleanup_keys(2)])

lemma cleanup_ok [inv_intro]:
  assumes "reg_ok r"
  shows "reg_ok (cleanup_at r now)"
proof -
  have "hm_wf (rg_pending (cleanup_at r now))" "hm_wf (rg_details (cleanup_at r now))"
    "hm_wf (rg_used_grants (cleanup_at r now))"
    "length (rg_pending (cleanup_at r now)) \<le> bl_pending_sessions (rg_limits r)"
    "length (rg_used_grants (cleanup_at r now)) \<le> bl_replay_grants (rg_limits r)"
    using assms unfolding cleanup_pending cleanup_details cleanup_used
    by (simp_all add: reg_ok_def hm_retain_length_le)
  then show ?thesis
    using assms cleanup_keys[of r now] unfolding reg_ok_def cleanup_frame by blast
qed

lemma try_issue_ok:
  assumes "reg_ok r" "try_issue_at r cid now = (res, r')"
  shows "reg_ok r'"
  using cleanup_ok[OF assms(1), of now] assms(2) length_hm_insert[of cid now "rg_pending (cleanup_at r now)"]
  by (auto simp: try_issue_at_def Let_def reg_ok_def hm_contains_keys split: if_splits)

lemma activate_ok:
  assumes "reg_ok r" "activate_at r cid now = (res, r')"
  shows "reg_ok r'"
  using cleanup_ok[OF assms(1), of now] assms(2)
  by (auto simp: activate_at_def Let_def reg_ok_def hm_contains_keys length_hm_remove List.insert_def
      split: if_splits)

lemma deactivate_ok [inv_intro]: "reg_ok r \<Longrightarrow> reg_ok (deactivate r cid)"
  by (auto simp: deactivate_def reg_ok_def distinct_removeAll length_hm_remove
      intro: order_trans[OF length_removeAll_less_eq])

lemma new_reg_ok: "reg_ok (InMemorySessionRegistry_new ttl)"
  by (simp add: reg_ok_def InMemorySessionRegistry_new_def)

section \<open>Runs of the service\<close>

datatype service_op =
    SvCreate nat "duration option" duration session_create_request
  | SvOffer "duration option" duration client_id sdp_offer_request
  | SvActivate "duration option" duration duration client_id "bytes option"
  | SvDisconnect client_id
  | SvCleanup duration
  | SvPoison

text \<open>
  One call on the service.  The transport is represented by the log of the client ids for which a
  peer has been built; \<open>answer\<close> decides what building one returns.
\<close>

fun sv_step ::
  "('a \<Rightarrow> (client_id \<times> 'a) option) \<Rightarrow> auth_policy \<Rightarrow> (session_create_response \<Rightarrow> nat option)
    \<Rightarrow> (client_id list \<Rightarrow> client_id \<Rightarrow> sdp_offer_request \<Rightarrow> (unit, unit) result)
    \<Rightarrow> 'a service \<times> client_id list \<Rightarrow> service_op \<Rightarrow> 'a service \<times> client_id list" where
  "sv_step alloc P json_len answer (sv, log) (SvCreate ent unix inst request) =
     (snd (create_session_with_request alloc P json_len ent unix inst sv request
             :: (unit bootstrap_error, _) result \<times> _), log)"
| "sv_step alloc P json_len answer (sv, log) (SvOffer unix inst cid offer) =
     snd (accept_offer P (\<lambda>log cid offer. (answer log cid offer, log @ [cid])) unix inst sv log cid offer)"
| "sv_step alloc P json_len answer (sv, log) (SvActivate unix inst inst' cid user_data) =
     (snd (activate_session unix inst inst' sv cid user_data
             :: (unit bootstrap_error, _) result \<times> _), log)"
| "sv_step alloc P json_len answer (sv, log) (SvDisconnect cid) = (on_client_disconnected sv cid, log)"
| "sv_step alloc P json_len answer (sv, log) (SvCleanup inst) =
     (snd (cleanup_sessions inst sv :: (unit bootstrap_error, _) result \<times> _), log)"
| "sv_step alloc P json_len answer (sv, log) SvPoison = (sv\<lparr>sv_poisoned := True\<rparr>, log)"

abbreviation sv_run where
  "sv_run alloc P json_len answer \<equiv> run_state (sv_step alloc P json_len answer)"

text \<open>How each operation changes registry and allocator.\<close>

lemma replay_entry_Some:
  assumes "replay_entry r grant now inst = Ok (Some (k, t))"
  shows "k \<notin> hm_keys (rg_used_grants r)" "length (rg_used_grants r) < bl_replay_grants (rg_limits r)"
  using assms by (auto simp: replay_entry_def hm_contains_keys split: option.splits sum.splits if_splits)

lemma try_issue_cases:
  assumes "try_issue_at r cid now = (res, r')"
  obtains e where "res = Err e" "r' = cleanup_at r now"
  | "res = Ok ()" "r' = (cleanup_at r now)\<lparr>rg_pending := hm_insert cid now (rg_pending (cleanup_at r now))\<rparr>"
    "cid \<notin> pending_ids (cleanup_at r now)" "cid \<notin> set (rg_active r)"
    "length (rg_pending (cleanup_at r now)) < bl_pending_sessions (rg_limits r)"
  using assms by (auto simp: try_issue_at_def Let_def hm_contains_keys not_le split: if_splits)

lemma create_cases:
  assumes "create_session_with_request alloc P json_len ent unix inst sv rq =
    ((res :: ('h bootstrap_error, _) result), sv')"
  obtains
    (refused) e where "res = Err e" "sv' = sv"
  | (failed) e r' a' where "res = Err e"
      "r' = cleanup_at (sv_registry sv) inst \<or> r' = cleanup_at (cleanup_at (sv_registry sv) inst) inst"
      "a' = sv_allocator sv \<or> (\<exists>cid. alloc (sv_allocator sv) = Some (cid, a'))"
      "sv' = sv\<lparr>sv_registry := r', sv_allocator := a'\<rparr>"
  | (created) response cid a' now details replay r' where "res = Ok response" "unix = Some now"
      "alloc (sv_allocator sv) = Some (cid, a')"
      "plan_session P json_len ent (sv_config sv) (cleanup_at (sv_registry sv) inst) cid rq now inst
         = (Ok (response, details, replay) :: ('h bootstrap_error, _) result)"
      "try_issue_at (cleanup_at (sv_registry sv) inst) cid inst = ((Ok () :: ('h bootstrap_error, _) result), r')"
      "sv' = sv\<lparr>sv_registry := record_session r' cid details replay, sv_allocator := a'\<rparr>"
proof -
  note enq = assms[unfolded create_session_with_request_def Let_def]
  let ?r = "cleanup_at (sv_registry sv) inst"
  consider (early) e where "res = Err e" "sv' = sv"
    | (full) e where "res = Err e" "sv' = sv\<lparr>sv_registry := ?r\<rparr>"
    | (go) cid a' now where "alloc (sv_allocator sv) = Some (cid, a')" "unix = Some now"
        "(case plan_session P json_len ent (sv_config sv) ?r cid rq now inst of
          Err e \<Rightarrow> (Err e, sv\<lparr>sv_registry := ?r, sv_allocator := a'\<rparr>)
        | Ok (response, details, replay) \<Rightarrow>
            (case try_issue_at ?r cid inst of
               (Err e, r') \<Rightarrow> (Err e, sv\<lparr>sv_registry := ?r, sv_allocator := a', sv_registry := r'\<rparr>)
             | (Ok _, r') \<Rightarrow> (Ok response, sv\<lparr>sv_registry := ?r, sv_allocator := a',
                                 sv_registry := record_session r' cid details replay\<rparr>))) = (res, sv')"
    using enq by (auto split: sum.splits option.splits if_splits prod.splits)
  then show thesis
  proof cases
    case early
    then show ?thesis by (rule refused)
  next
    case full
    then show ?thesis by (intro failed[of _ ?r "sv_allocator sv"]) auto
  next
    case (go cid a' now)
    obtain ir r' where ti: "try_issue_at ?r cid inst = ((ir :: ('h bootstrap_error, _) result), r')"
      by fastforce
    show ?thesis
    proof (cases "plan_session P json_len ent (sv_config sv) ?r cid rq now inst
        :: ('h bootstrap_error, _) result")
      case (Inl e)
      with go show ?thesis by (intro failed[of e ?r a']) auto
    next
      case (Inr p)
      obtain response details replay where p: "p = (response, details, replay)"
        by (cases p) auto
      from ti show ?thesis
      proof (cases rule: try_issue_cases)
        case (1 e)
        with go ti Inr p show ?thesis by (intro failed[of e r' a']) auto
      next
        case 2
        with go ti Inr p show ?thesis by (intro created[of response now cid a' details replay r']) auto
      qed
    qed
  qed
qed

lemma plan_facts:
  assumes "plan_session P json_len ent config r cid rq now inst
    = (Ok (response, details, replay) :: ('h bootstrap_error, _) result)"
  obtains issued where "ap_issue_session P ent cid rq now config = Ok issued"
    "rp_client_id response = cid" "rp_security response = si_security issued"
    "\<not> dt_offer_claimed details" "dt_grant details = si_grant issued"
    "transpose_user_data (si_grant issued) = Ok (dt_user_data details)"
    "replay_entry r (si_grant issued) now inst = (Ok replay :: ('h bootstrap_error, _) result)"
    "dt_expires details = map_option snd replay" "dt_token details = si_session_token issued"
  using assms by (auto simp: plan_session_def Let_def split: sum.splits if_splits)

lemma claim_cases:
  assumes "claim_offer P unix inst sv cid offer = ((res :: ('h bootstrap_error, _) result), sv')"
  defines "r \<equiv> cleanup_at (sv_registry sv) inst"
  obtains
    (refused) e where "res = Err e" "sv' = sv \<or> sv' = sv\<lparr>sv_registry := r\<rparr>"
  | (claimed) detail now where "res = Ok ()" "unix = Some now" "cid \<in> pending_ids r"
      "hm_get (rg_details r) cid = Some detail" "\<not> dt_offer_claimed detail"
      "is_none_or (\<lambda>g. as_secs now < unat (gr_expires_at g)) (dt_grant detail)"
      "ap_verify_issued_offer P cid (so_session_token offer) (dt_token detail) now = Ok ()"
      "sv' = sv\<lparr>sv_registry := r\<lparr>rg_details :=
                    hm_insert cid (detail\<lparr>dt_offer_claimed := True\<rparr>) (rg_details r)\<rparr>\<rparr>"
proof -
  have none_or: "is_none_or (\<lambda>g. as_secs now < unat (gr_expires_at g)) x"
    if "\<not> is_some_and (\<lambda>g. unat (gr_expires_at g) \<le> as_secs now) x" for now x
    using that by (cases x) auto
  show thesis
  proof (cases res)
    case (Inl e)
    with assms(1) show ?thesis
      by (intro refused[of e])
        (auto simp: claim_offer_def is_pending_at_def Let_def r_def split: if_splits option.splits sum.splits)
  next
    case (Inr u)
    with assms(1) show ?thesis
      by (auto simp: claim_offer_def is_pending_at_def Let_def r_def[symmetric] hm_contains_keys
          split: if_splits option.splits sum.splits intro!: claimed none_or)
  qed
qed

lemma activate_session_cases:
  assumes "activate_session unix inst inst' sv cid user_data = ((res :: ('h bootstrap_error, _) result), sv')"
  defines "r \<equiv> cleanup_at (sv_registry sv) inst"
  obtains
    (refused) e where "res = Err e" "sv' = sv \<or> sv' = sv\<lparr>sv_registry := r\<rparr>"
  | (inactive) r' where "res = Err (UnknownSession cid)" "activate_at r cid inst' = (False, r')"
      "sv' = sv\<lparr>sv_registry := r'\<rparr>"
  | (active) now r' where "res = Ok ()" "unix = Some now" "cid \<in> pending_ids r"
      "is_none_or (\<lambda>d. is_none_or (\<lambda>g. as_secs now < unat (gr_expires_at g)) (dt_grant d)
                       \<and> is_none_or (\<lambda>expected. user_data = Some expected) (dt_user_data d))
         (hm_get (rg_details r) cid)"
      "activate_at r cid inst' = (True, r')" "sv' = sv\<lparr>sv_registry := r'\<rparr>"
proof -
  obtain b r' where ac: "activate_at r cid inst' = (b, r')" by fastforce
  have none_or: "is_none_or (\<lambda>g. as_secs now < unat (gr_expires_at g)) x"
    if "\<not> is_some_and (\<lambda>g. unat (gr_expires_at g) \<le> as_secs now) x" for now x
    using that by (cases x) auto
  note def = assms(1)[unfolded activate_session_def is_pending_at_def Let_def, folded r_def]
  show thesis
  proof (cases b)
    case True
    show ?thesis
    proof (cases res)
      case (Inl e)
      with def ac True show ?thesis
        by (intro refused[of e]) (auto split: if_splits option.splits sum.splits)
    next
      case (Inr u)
      with def ac True none_or show ?thesis
        by (auto simp: hm_contains_keys split: if_splits option.splits sum.splits intro!: active)
    qed
  next
    case False
    with def ac show ?thesis
      using refused inactive by (auto split: if_splits option.splits sum.splits)
  qed
qed

lemma record_session_frame [simp]:
  "rg_pending (record_session r cid d replay) = rg_pending r"
  "rg_active (record_session r cid d replay) = rg_active r"
  "rg_limits (record_session r cid d replay) = rg_limits r"
  "rg_details (record_session r cid d replay) = hm_insert cid d (rg_details r)"
  by (simp_all add: record_session_def Let_def split: option.split prod.split)

lemma record_session_used:
  "rg_used_grants (record_session r cid d replay) =
     (case replay of None \<Rightarrow> rg_used_grants r | Some (k, t) \<Rightarrow> hm_insert k t (rg_used_grants r))"
  by (simp add: record_session_def Let_def split: option.split prod.split)

lemma activate_frame:
  assumes "activate_at r cid now = (b, r')"
  shows "rg_details r' = rg_details (cleanup_at r now)" "rg_limits r' = rg_limits r"
    "rg_used_grants r' = rg_used_grants (cleanup_at r now)"
  using assms by (auto simp: activate_at_def Let_def split: if_splits)

lemma hm_insert_unique: "(k, d) \<in> set (hm_insert k v m) \<Longrightarrow> hm_wf m \<Longrightarrow> d = v"
  by (metis distinct_update map_of_eq_Some_iff option.inject update_conv' fun_upd_same)

lemma hm_keys_mono: "set m \<subseteq> set m' \<Longrightarrow> hm_keys m \<subseteq> hm_keys m'"
  by (auto simp: hm_keys_def)

section \<open>One offer per session\<close>

context id_allocator
begin

text \<open>Identities in use or already answered lie below the watermark; an answered one stays claimed.\<close>

definition once_ok :: "'a service \<times> client_id list \<Rightarrow> bool" where
  "once_ok s \<longleftrightarrow> (case s of (sv, log) \<Rightarrow>
     distinct log \<and> hm_wf (rg_details (sv_registry sv))
     \<and> (\<forall>cid. cid \<in> set log \<longrightarrow> unat cid < watermark (sv_allocator sv))
     \<and> (\<forall>cid d. (cid, d) \<in> set (rg_details (sv_registry sv)) \<longrightarrow>
          unat cid < watermark (sv_allocator sv) \<and> (cid \<in> set log \<longrightarrow> dt_offer_claimed d)))"

lemma once_shrink:
  assumes "once_ok (sv, log)" "set (rg_details r) \<subseteq> set (rg_details (sv_registry sv))"
    "hm_wf (rg_details r)" and "watermark (sv_allocator sv) \<le> watermark a"
  shows "once_ok (sv\<lparr>sv_registry := r, sv_allocator := a\<rparr>, log)"
  using assms by (fastforce simp: once_ok_def intro: less_le_trans)

lemma once_registry:
  assumes "once_ok (sv, log)" "set (rg_details r) \<subseteq> set (rg_details (sv_registry sv))"
    "hm_wf (rg_details r)"
  shows "once_ok (sv\<lparr>sv_registry := r\<rparr>, log)"
  using once_shrink[OF assms order_refl] by simp

lemma once_wf: "once_ok (sv, log) \<Longrightarrow> hm_wf (rg_details (cleanup_at (sv_registry sv) now))"
  "once_ok (sv, log) \<Longrightarrow> hm_wf (rg_details (cleanup_at (cleanup_at (sv_registry sv) now) now'))"
  by (simp_all add: once_ok_def cleanup_details)

lemma once_cleanup: "once_ok (sv, log) \<Longrightarrow> once_ok (sv\<lparr>sv_registry := cleanup_at (sv_registry sv) now\<rparr>, log)"
  by (rule once_registry[OF _ cleanup_keys(2) once_wf(1)])

lemma watermark_mono: "alloc a = Some (cid, a') \<Longrightarrow> watermark a \<le> watermark a'"
  using fresh by fastforce

lemma once_create:
  assumes "once_ok (sv, log)"
  shows "once_ok (snd (create_session_with_request alloc P json_len ent unix inst sv rq
           :: ('h bootstrap_error, _) result \<times> _), log)"
proof -
  obtain res sv' where cr: "create_session_with_request alloc P json_len ent unix inst sv rq
      = ((res :: ('h bootstrap_error, _) result), sv')"
    by fastforce
  let ?r = "cleanup_at (sv_registry sv) inst"
  have sub: "set (rg_details (cleanup_at ?r inst)) \<subseteq> set (rg_details (sv_registry sv))"
    "set (rg_details ?r) \<subseteq> set (rg_details (sv_registry sv))"
    using cleanup_keys(2) by blast+
  from cr have "once_ok (sv', log)"
  proof (cases rule: create_cases)
    case (refused e)
    with assms show ?thesis by simp
  next
    case (failed e r' a')
    then show ?thesis
      using sub watermark_mono once_wf[OF assms] by (auto intro!: once_shrink[OF assms])
  next
    case (created response cid a' now details replay r')
    from created(5) have r': "rg_details r' = rg_details (cleanup_at ?r inst)"
      by (cases rule: try_issue_cases) auto
    have new: "cid \<notin> set log" "unat cid < watermark a'"
      using fresh[OF created(3)] assms by (fastforce simp: once_ok_def)+
    from plan_facts[OF created(4)] have "\<not> dt_offer_claimed details" by blast
    have "once_ok (sv\<lparr>sv_registry := r', sv_allocator := a'\<rparr>, log)"
      using sub r' watermark_mono[OF created(3)] once_wf[OF assms] by (intro once_shrink[OF assms]) auto
    then show ?thesis
      using new set_hm_insert[of cid details "rg_details r'"]
      by (auto simp: once_ok_def created(6))
  qed
  then show ?thesis by (simp add: cr)
qed

lemma once_offer:
  fixes answer :: "client_id list \<Rightarrow> client_id \<Rightarrow> sdp_offer_request \<Rightarrow> ('h, 'ans) result"
  assumes "once_ok (sv, log)"
  shows "once_ok (snd (accept_offer P (\<lambda>log cid offer. (answer log cid offer, log @ [cid])) unix inst sv log cid offer))"
proof -
  obtain res sv' where cl: "claim_offer P unix inst sv cid offer = ((res :: ('h bootstrap_error, _) result), sv')"
    by fastforce
  let ?r = "cleanup_at (sv_registry sv) inst"
  have once: "once_ok (sv\<lparr>sv_registry := ?r\<rparr>, log)"
    by (rule once_cleanup[OF assms])
  from cl show ?thesis
  proof (cases rule: claim_cases)
    case (refused e)
    then show ?thesis
      using assms once by (auto simp: accept_offer_def cl)
  next
    case (claimed detail now)
    have mem: "(cid, detail) \<in> set (rg_details ?r)"
      using claimed(4) by (rule map_of_SomeD)
    then have "unat cid < watermark (sv_allocator sv)" "cid \<notin> set log"
      using once mem claimed(5) by (auto simp: once_ok_def)
    then have "once_ok (sv', log @ [cid])"
      using once set_hm_insert[of cid "detail\<lparr>dt_offer_claimed := True\<rparr>" "rg_details ?r"]
      by (auto simp: once_ok_def claimed(8) dest: hm_insert_unique)
    then show ?thesis
      using claimed(1) by (simp add: accept_offer_def cl split: sum.split)
  qed
qed

lemma once_step:
  assumes "once_ok s"
  shows "once_ok (sv_step alloc P json_len answer s op)"
proof -
  obtain sv log where s: "s = (sv, log)" by fastforce
  note ok = assms[unfolded s]
  show ?thesis
  proof (cases op)
    case (SvActivate unix inst inst' cid user_data)
    obtain res sv' where ac: "activate_session unix inst inst' sv cid user_data
        = ((res :: (unit bootstrap_error, _) result), sv')"
      by fastforce
    from ac have "once_ok (sv', log)"
    proof (cases rule: activate_session_cases)
      case (refused e)
      then show ?thesis using ok once_cleanup[OF ok] by auto
    next
      case (inactive r')
      show ?thesis
        unfolding inactive(3) by (rule once_registry[OF ok])
          (use activate_frame(1)[OF inactive(2)] once_wf[OF ok] cleanup_twice in simp_all)
    next
      case (active now r')
      show ?thesis
        unfolding active(6) by (rule once_registry[OF ok])
          (use activate_frame(1)[OF active(5)] once_wf[OF ok] cleanup_twice in simp_all)
    qed
    then show ?thesis by (simp add: s SvActivate ac)
  next
    case (SvDisconnect cid)
    have "set (rg_details (deactivate (sv_registry sv) cid)) \<subseteq> set (rg_details (sv_registry sv))"
      "hm_wf (rg_details (deactivate (sv_registry sv) cid))"
      using set_hm_remove[of cid "rg_details (sv_registry sv)"] ok
      by (simp_all add: deactivate_def once_ok_def)
    then show ?thesis
      using ok once_registry[OF ok] by (auto simp: s SvDisconnect on_client_disconnected_def)
  next
    case (SvCleanup inst)
    then show ?thesis
      using ok once_cleanup[OF ok] by (auto simp: s cleanup_sessions_def)
  next
    case SvPoison
    then show ?thesis using ok by (simp add: s once_ok_def)
  next
    case (SvCreate ent unix inst request)
    then show ?thesis using once_create[OF ok] by (simp add: s)
  next
    case (SvOffer unix inst cid offer)
    then show ?thesis using once_offer[OF ok] by (simp add: s)
  qed
qed

lemma once_run: "once_ok s \<Longrightarrow> once_ok (run_state (sv_step alloc P json_len answer) s ops)"
  by (induction ops arbitrary: s) (simp_all add: once_step del: split_paired_All)

lemma once_new: "once_ok (BootstrapService_new config a, [])"
  by (simp add: once_ok_def BootstrapService_new_def InMemorySessionRegistry_new_def)

end

section \<open>The service keeps the registry's invariant\<close>

lemma create_ok:
  assumes "reg_ok (sv_registry sv)"
    and cr: "create_session_with_request alloc P json_len ent unix inst sv rq
      = ((res :: ('h bootstrap_error, _) result), sv')"
  shows "reg_ok (sv_registry sv')"
proof -
  let ?r = "cleanup_at (sv_registry sv) inst"
  have ok: "reg_ok ?r" "reg_ok (cleanup_at ?r inst)"
    using assms(1) by (auto intro: inv_intro)
  from cr show ?thesis
  proof (cases rule: create_cases)
    case (created response cid a' now details replay r')
    have r': "reg_ok r'"
      by (rule try_issue_ok[OF ok(1) created(5)])
    have cid: "cid \<in> pending_ids r'"
      using created(5) by (cases rule: try_issue_cases) auto
    have used: "rg_used_grants r' = rg_used_grants (cleanup_at ?r inst)" "rg_limits r' = rg_limits ?r"
      using created(5) by (cases rule: try_issue_cases; simp)+
    obtain g where re: "replay_entry ?r g now inst
        = (Ok replay :: ('h bootstrap_error, _) result)"
      by (rule plan_facts[OF created(4)])
    have used_le: "length (rg_used_grants (record_session r' cid details replay))
        \<le> bl_replay_grants (rg_limits r')"
    proof (cases replay)
      case None
      then show ?thesis using r' by (simp add: record_session_used reg_ok_def)
    next
      case (Some kt)
      obtain k t where kt: "kt = (k, t)" by fastforce
      have "length (rg_used_grants r') \<le> length (rg_used_grants ?r)"
        unfolding used(1) cleanup_used[of ?r] by (rule hm_retain_length)
      moreover have "length (rg_used_grants ?r) < bl_replay_grants (rg_limits r')"
        using replay_entry_Some(2)[OF re[unfolded Some kt]] used(2) by simp
      ultimately show ?thesis
        using length_hm_insert[of k t "rg_used_grants r'"] by (simp add: record_session_used Some kt)
    qed
    have "hm_wf (rg_used_grants (record_session r' cid details replay))"
      using r' by (auto simp: record_session_used reg_ok_def split: option.split prod.split)
    with used_le show ?thesis
      using r' cid unfolding created(6) reg_ok_def by simp
  next
    case (refused e)
    then show ?thesis using assms(1) by simp
  next
    case (failed e r' a')
    then show ?thesis using ok assms(1) by auto
  qed
qed

lemma claim_ok:
  assumes "reg_ok (sv_registry sv)"
    and cl: "claim_offer P unix inst sv cid offer = ((res :: ('h bootstrap_error, _) result), sv')"
  shows "reg_ok (sv_registry sv')"
  using cl
proof (cases rule: claim_cases)
  case (claimed detail now)
  then show ?thesis
    using cleanup_ok[OF assms(1), of inst] by (auto simp: reg_ok_def)
qed (use assms(1) in \<open>auto intro: inv_intro\<close>)

lemma activate_session_ok:
  assumes "reg_ok (sv_registry sv)"
    and ac: "activate_session unix inst inst' sv cid ud = ((res :: ('h bootstrap_error, _) result), sv')"
  shows "reg_ok (sv_registry sv')"
  using ac
  by (cases rule: activate_session_cases)
    (use assms(1) cleanup_ok[OF assms(1), of inst] activate_ok in auto)

interpretation boot: step_invariant "sv_step alloc P json_len answer" "\<lambda>s. reg_ok (sv_registry (fst s))"
  for alloc P json_len answer
proof
  fix s :: "'a service \<times> client_id list" and op
  assume ok: "reg_ok (sv_registry (fst s))"
  obtain sv log where s: "s = (sv, log)" by fastforce
  show "reg_ok (sv_registry (fst (sv_step alloc P json_len answer s op)))"
  proof (cases op)
    case (SvCreate ent unix inst rq)
    then show ?thesis
      using ok create_ok[of sv alloc P json_len ent unix inst rq] s
      by (cases "create_session_with_request alloc P json_len ent unix inst sv rq
            :: (unit bootstrap_error, _) result \<times> _") auto
  next
    case (SvOffer unix inst cid offer)
    then show ?thesis
      using ok claim_ok[of sv P unix inst cid offer] s
      by (cases "claim_offer P unix inst sv cid offer :: (unit bootstrap_error, _) result \<times> _")
        (auto simp: accept_offer_def split: sum.split)
  next
    case (SvActivate unix inst inst' cid ud)
    then show ?thesis
      using ok activate_session_ok[of sv unix inst inst' cid ud] s
      by (cases "activate_session unix inst inst' sv cid ud :: (unit bootstrap_error, _) result \<times> _") auto
  qed (use ok s in \<open>auto simp: on_client_disconnected_def cleanup_sessions_def intro: inv_intro\<close>)
qed

section \<open>The replay memory\<close>

definition op_before :: "duration \<Rightarrow> service_op \<Rightarrow> bool" where
  "op_before t op =
     (case op of
        SvCreate _ _ inst _ \<Rightarrow> inst < t
      | SvOffer _ inst _ _ \<Rightarrow> inst < t
      | SvActivate _ inst inst' _ _ \<Rightarrow> inst < t \<and> inst' < t
      | SvCleanup inst \<Rightarrow> inst < t
      | _ \<Rightarrow> True)"

definition used_until :: "registry \<Rightarrow> bytes \<Rightarrow> duration \<Rightarrow> bool" where
  "used_until r k t \<longleftrightarrow> hm_wf (rg_used_grants r) \<and> hm_get (rg_used_grants r) k = Some t"

lemma used_until_cong: "rg_used_grants r = rg_used_grants r' \<Longrightarrow> used_until r k t = used_until r' k t"
  by (simp add: used_until_def)

lemma used_keys: "used_until r k t \<Longrightarrow> k \<in> hm_keys (rg_used_grants r)"
  by (auto simp: used_until_def dest: hm_get_keys(3))

lemma used_cleanup [intro]: "used_until r k t \<Longrightarrow> now < t \<Longrightarrow> used_until (cleanup_at r now) k t"
  unfolding used_until_def cleanup_used by (simp add: hm_retain_get del: map_of_eq_Some_iff)

lemma used_activate:
  assumes "used_until r k t" "now < t" "activate_at r cid now = (b, r')"
  shows "used_until r' k t"
  using used_cleanup[OF assms(1,2)] used_until_cong[OF activate_frame(3)[OF assms(3)]] by simp

lemma used_create:
  assumes used: "used_until (sv_registry sv) k t" and "inst < t"
    and cr: "create_session_with_request alloc P json_len ent unix inst sv rq
      = ((res :: ('h bootstrap_error, _) result), sv')"
  shows "used_until (sv_registry sv') k t"
proof -
  let ?r = "cleanup_at (sv_registry sv) inst"
  have kept: "used_until ?r k t" "used_until (cleanup_at ?r inst) k t"
    using used_cleanup[OF used] used_cleanup[OF used_cleanup[OF used]] assms(2) by blast+
  from cr show ?thesis
  proof (cases rule: create_cases)
    case (refused e)
    then show ?thesis using used by simp
  next
    case (failed e r' a')
    then show ?thesis using kept by auto
  next
    case (created response cid a' now details replay r')
    obtain g where re: "replay_entry ?r g now inst = (Ok replay :: ('h bootstrap_error, _) result)"
      by (rule plan_facts[OF created(4)])
    have "rg_used_grants r' = rg_used_grants (cleanup_at ?r inst)"
      using created(5) by (cases rule: try_issue_cases) auto
    moreover have "k' \<noteq> k" if "replay = Some (k', t')" for k' t'
      using replay_entry_Some(1)[OF re[unfolded that]] used_keys[OF kept(1)] by auto
    ultimately show ?thesis
      using kept(2) unfolding created(6) used_until_def
      by (auto simp: record_session_used update_conv' split: option.split simp del: map_of_eq_Some_iff)
  qed
qed

lemma used_step:
  assumes used: "used_until (sv_registry (fst s)) k t" and bef: "op_before t op"
  shows "used_until (sv_registry (fst (sv_step alloc P json_len answer s op))) k t"
proof -
  obtain sv log where s: "s = (sv, log)" by fastforce
  note u = used[unfolded s fst_conv]
  show ?thesis
  proof (cases op)
    case (SvCreate ent unix inst rq)
    then show ?thesis
      using used_create[OF u, of inst alloc P json_len ent unix rq] bef
      by (cases "create_session_with_request alloc P json_len ent unix inst sv rq
            :: (unit bootstrap_error, _) result \<times> _") (auto simp: s op_before_def)
  next
    case (SvOffer unix inst cid offer)
    obtain res sv' where cl: "claim_offer P unix inst sv cid offer
        = ((res :: (unit bootstrap_error, _) result), sv')" by fastforce
    have "used_until (cleanup_at (sv_registry sv) inst) k t"
      using used_cleanup[OF u] bef by (simp add: SvOffer op_before_def)
    with cl have "used_until (sv_registry sv') k t"
      by (cases rule: claim_cases) (use u in \<open>auto simp: used_until_def\<close>)
    then show ?thesis
      by (auto simp: s SvOffer accept_offer_def cl split: sum.split)
  next
    case (SvActivate unix inst inst' cid ud)
    obtain res sv' where ac: "activate_session unix inst inst' sv cid ud
        = ((res :: (unit bootstrap_error, _) result), sv')" by fastforce
    have c: "used_until (cleanup_at (sv_registry sv) inst) k t" and t: "inst' < t"
      using used_cleanup[OF u] bef by (simp_all add: SvActivate op_before_def)
    from ac have "used_until (sv_registry sv') k t"
      by (cases rule: activate_session_cases) (use u c used_activate[OF c t] in auto)
    then show ?thesis by (simp add: s SvActivate ac)
  next
    case (SvCleanup inst)
    then show ?thesis
      using u used_cleanup[OF u] bef by (simp add: s cleanup_sessions_def op_before_def)
  qed (use u in \<open>auto simp: s on_client_disconnected_def deactivate_def used_until_def\<close>)
qed

lemma used_run:
  "used_until (sv_registry (fst s)) k t \<Longrightarrow> list_all (op_before t) ops
    \<Longrightarrow> used_until (sv_registry (fst (run_state (sv_step alloc P json_len answer) s ops))) k t"
  by (induction ops arbitrary: s) (simp_all add: used_step del: split_paired_All)

lemma create_records:
  assumes cr: "create_session_with_request alloc P json_len ent (Some now) inst sv rq
      = ((Ok response :: ('h bootstrap_error, _) result), sv')"
    and ok: "reg_ok (sv_registry sv)"
    and iss: "ap_issue_session P ent (rp_client_id response) rq now (sv_config sv) = Ok issued"
      "si_grant issued = Some g"
  shows "used_until (sv_registry sv') (gr_replay_key g)
    (inst + from_secs (unat (gr_expires_at g) - as_secs now))"
  using cr
proof (cases rule: create_cases)
  case (created response' cid a' now' details replay r')
  have eq: "response' = response" "now' = now" using created(1,2) by simp_all
  obtain issued' where i: "ap_issue_session P ent cid rq now (sv_config sv) = Ok issued'"
      "rp_client_id response = cid"
      "replay_entry (cleanup_at (sv_registry sv) inst) (si_grant issued') now inst
        = (Ok replay :: ('h bootstrap_error, _) result)"
    using created(4) unfolding eq by (rule plan_facts)
  have "replay = Some (gr_replay_key g, inst + from_secs (unat (gr_expires_at g) - as_secs now))"
    using i iss by (auto simp: replay_entry_def instant_checked_add_def split: sum.splits if_splits)
  moreover have "reg_ok r'"
    using created(5) ok by (auto intro: try_issue_ok inv_intro)
  ultimately show ?thesis
    unfolding created(6) used_until_def
    by (simp add: record_session_used reg_ok_def update_conv' del: map_of_eq_Some_iff)
qed simp_all

section \<open>Theorems\<close>

text \<open>
  C32: over every run of a fresh service (sessions created, offers accepted, connections and
  disconnections, cleanups, with any clock readings, policy and allocator) the registry keeps its
  limits, no client is at once pending and active, and details are kept only for such clients.
\<close>

theorem service_registry_bounded:
  "reg_ok (sv_registry (fst (run_state (sv_step alloc P json_len answer)
     (BootstrapService_new config a, log) ops)))"
  by (rule boot.run_inv) (simp add: BootstrapService_new_def new_reg_ok)

text \<open>
  C3: over every run of a fresh service with the monotonic allocator the transport is asked to build
  at most one peer per client id, whatever offers arrive: an offer is claimed before the transport
  sees it, and no id is handed out twice.
\<close>

theorem one_peer_per_session:
  "distinct (snd (run_state (sv_step Monotonic_try_next P json_len answer)
     (BootstrapService_new config a, []) ops))"
proof -
  have "monotonic.once_ok (run_state (sv_step Monotonic_try_next P json_len answer)
      (BootstrapService_new config a, []) ops)"
    by (rule monotonic.once_run[OF monotonic.once_new])
  then show ?thesis
    by (auto simp: monotonic.once_ok_def split: prod.splits)
qed

text \<open>
  C17: a grant is spent once.  After a session has been created under a grant, no later request that
  the policy answers with a grant of the same replay key creates a session, whatever happens in
  between (disconnections included), as long as the clock has not reached the grant's expiry.
\<close>

theorem grant_replay_refused:
  assumes sv: "sv = fst (sv_run alloc P json_len answer (BootstrapService_new config a, []) before)"
    and created: "create_session_with_request alloc P json_len ent (Some now) inst sv rq
      = ((Ok response :: (unit bootstrap_error, _) result), sv1)"
    and issued: "ap_issue_session P ent (rp_client_id response) rq now (sv_config sv) = Ok issued"
      "si_grant issued = Some g"
    and expiry: "t = inst + from_secs (unat (gr_expires_at g) - as_secs now)"
    and later: "list_all (op_before t) ops" "inst' < t"
    and same: "\<And>cid c issued'. ap_issue_session P ent' cid rq' now' c = Ok issued'
      \<Longrightarrow> map_option gr_replay_key (si_grant issued') = Some (gr_replay_key g)"
  shows "\<exists>e. fst (create_session_with_request alloc P json_len ent' (Some now') inst'
      (fst (sv_run alloc P json_len answer (sv1, log) ops)) rq' :: (unit bootstrap_error, _) result \<times> _) = Err e"
proof -
  let ?sv = "fst (sv_run alloc P json_len answer (sv1, log) ops)"
  have "reg_ok (sv_registry sv)"
    unfolding sv by (rule boot.run_inv) (simp add: BootstrapService_new_def new_reg_ok)
  from create_records[OF created this issued]
  have used1: "used_until (sv_registry sv1) (gr_replay_key g) t" by (simp add: expiry)
  have "used_until (sv_registry ?sv) (gr_replay_key g) t"
    by (rule used_run[OF _ later(1)]) (simp add: used1)
  from used_cleanup[OF this later(2)]
  have known: "gr_replay_key g \<in> hm_keys (rg_used_grants (cleanup_at (sv_registry ?sv) inst'))"
    by (rule used_keys)
  obtain res sv2 where cr: "create_session_with_request alloc P json_len ent' (Some now') inst' ?sv rq'
      = ((res :: (unit bootstrap_error, _) result), sv2)" by fastforce
  from cr have "\<exists>e. res = Err e"
  proof (cases rule: create_cases)
    case (created response' cid a' now'' details replay r')
    have now: "now'' = now'" using created(2) by simp
    obtain issued' where i: "ap_issue_session P ent' cid rq' now' (sv_config ?sv) = Ok issued'"
        "replay_entry (cleanup_at (sv_registry ?sv) inst') (si_grant issued') now' inst'
          = (Ok replay :: (unit bootstrap_error, _) result)"
      using created(4) unfolding now by (rule plan_facts)
    show ?thesis
      using i(2) same[OF i(1)] known
      by (auto simp: replay_entry_def hm_contains_keys split: sum.splits)
  qed simp_all
  then show ?thesis by (simp add: cr)
qed

definition sample_policy :: auth_policy where
  "sample_policy =
     \<lparr>ap_issue_session = (\<lambda>_ _ _ _ _. Ok \<lparr>si_session_token = None, si_security = Some sample_security,
                                          si_grant = Some sample_grant\<rparr>),
      ap_verify_issued_offer = (\<lambda>_ _ _ _. Ok ())\<rparr>"

definition sample_service :: "u64 service" where
  "sample_service = BootstrapService_new sample_bootstrap_config 5"

lemma sample_create:
  "\<exists>response sv1. create_session_with_request Monotonic_try_next sample_policy (\<lambda>_. Some 100) 0
     (Some (from_secs 100)) 0 sample_service sample_request
     = ((Ok response :: (unit bootstrap_error, _) result), sv1)"
proof -
  obtain ud where ud: "SessionGrant_user_data sample_grant = Ok ud"
    by (auto simp: SessionGrant_user_data_def sample_grant_def limit_defs Let_def)
  have secs: "as_secs (from_secs 100) = 100"
    by (simp add: as_secs_def from_secs_def NANOS_def)
  have valid: "SessionCreateRequest_validate sample_request = Ok ()"
    "SessionGrant_validate sample_grant (from_secs 100) = Ok ()"
    by (simp_all add: SessionCreateRequest_validate_def SessionGrant_validate_def sample_request_def
        sample_grant_def limit_defs secs)
  have small: "\<not> issuance_too_large sample_bootstrap_config
      \<lparr>si_session_token = None, si_security = Some sample_security, si_grant = Some sample_grant\<rparr>"
    by (simp add: issuance_too_large_def sample_security_def sample_codec_def limit_defs
        sample_bootstrap_config_def BootstrapConfig_default_def)
  have empty: "cleanup_at (InMemorySessionRegistry_new ttl) now = InMemorySessionRegistry_new ttl" for ttl now
    by (simp add: cleanup_at_def InMemorySessionRegistry_new_def hm_retain_def)
  have "replay_entry (InMemorySessionRegistry_new ttl) (Some sample_grant) (from_secs 100) 0
      = (Ok (Some (gr_replay_key sample_grant, from_secs 60)) :: (unit bootstrap_error, _) result)" for ttl
    using valid by (simp add: replay_entry_def InMemorySessionRegistry_new_def BootstrapLimits_default_def
        instant_checked_add_def secs) (simp add: sample_grant_def from_secs_def NANOS_def)
  moreover have "Monotonic_try_next 5 = Some (5, 6)"
    by (simp add: Monotonic_try_next_def checked_succ_def)
  moreover have "rg_pending (InMemorySessionRegistry_new ttl) = []" "rg_active (InMemorySessionRegistry_new ttl) = []"
    "0 < bl_pending_sessions (rg_limits (InMemorySessionRegistry_new ttl))"
    "0 < bl_active_sessions (rg_limits (InMemorySessionRegistry_new ttl))" for ttl
    by (simp_all add: InMemorySessionRegistry_new_def BootstrapLimits_default_def)
  ultimately show ?thesis
    using valid ud small
    by (simp add: create_session_with_request_def sample_service_def BootstrapService_new_def Let_def empty
        plan_session_def sample_policy_def transpose_user_data_def try_issue_at_def limit_defs)
qed

theorem grant_replay_refused_witness:
  "\<exists>sv1 e. fst (create_session_with_request Monotonic_try_next sample_policy (\<lambda>_. Some 100) 1
      (Some (from_secs 120)) (from_secs 20)
      (on_client_disconnected sv1 5) sample_request :: (unit bootstrap_error, _) result \<times> _) = Err e
    \<and> snd (create_session_with_request Monotonic_try_next sample_policy (\<lambda>_. Some 100) 0
      (Some (from_secs 100)) 0 sample_service sample_request
      :: (unit bootstrap_error, _) result \<times> _) = sv1"
proof -
  obtain response sv1 where cr: "create_session_with_request Monotonic_try_next sample_policy
      (\<lambda>_. Some 100) 0 (Some (from_secs 100)) 0 sample_service sample_request
     = ((Ok response :: (unit bootstrap_error, _) result), sv1)"
    using sample_create by blast
  have "\<exists>e. fst (create_session_with_request Monotonic_try_next sample_policy (\<lambda>_. Some 100) 1
      (Some (from_secs 120)) (from_secs 20) (fst (sv_run Monotonic_try_next sample_policy (\<lambda>_. Some 100)
         (\<lambda>_ _ _. Ok ()) (sv1, []) [SvDisconnect 5])) sample_request
      :: (unit bootstrap_error, _) result \<times> _) = Err e"
    by (rule grant_replay_refused[where config = sample_bootstrap_config and a = 5 and before = "[]"
          and g = sample_grant and t = "from_secs 60" and
          issued = "\<lparr>si_session_token = None, si_security = Some sample_security, si_grant = Some sample_grant\<rparr>",
          OF _ cr])
      (simp_all add: sample_service_def sample_policy_def op_before_def sample_grant_def as_secs_def
        from_secs_def NANOS_def)
  then show ?thesis using cr by auto
qed

text \<open>
  C11: a connection activates a session only when the session is pending and younger than the
  session TTL, its grant (if any) has not expired, and, if the session was created under a grant, the
  connection presents exactly the grant's user data.  The client is then active and no longer pending.
\<close>

theorem activation_sound:
  assumes "reg_ok (sv_registry sv)"
    and ac: "activate_session (Some now) inst inst' sv cid user_data
      = ((Ok () :: (unit bootstrap_error, _) result), sv')"
  shows "\<not> sv_poisoned sv
    \<and> (\<exists>started. hm_get (rg_pending (sv_registry sv)) cid = Some started
         \<and> inst - started < rg_ttl (sv_registry sv))
    \<and> is_none_or (\<lambda>d. is_none_or (\<lambda>g. as_secs now < unat (gr_expires_at g)) (dt_grant d)
                       \<and> is_none_or (\<lambda>expected. user_data = Some expected) (dt_user_data d))
        (hm_get (rg_details (sv_registry sv)) cid)
    \<and> cid \<in> set (rg_active (sv_registry sv')) \<and> cid \<notin> pending_ids (sv_registry sv')
    \<and> length (rg_active (sv_registry sv')) \<le> bl_active_sessions (rg_limits (sv_registry sv'))"
proof -
  let ?r = "cleanup_at (sv_registry sv) inst"
  have wf: "hm_wf (rg_pending (sv_registry sv))" "hm_wf (rg_details (sv_registry sv))"
    using assms(1) by (simp_all add: reg_ok_def)
  have np: "\<not> sv_poisoned sv"
    using ac by (auto simp: activate_session_def)
  have ok': "reg_ok (sv_registry sv')"
    by (rule activate_session_ok[OF assms(1) ac])
  from ac show ?thesis
  proof (cases rule: activate_session_cases)
    case (active now' r')
    have now: "now' = now" using active(2) by simp
    obtain started where st: "hm_get (rg_pending ?r) cid = Some started"
      using active(3) hm_get_keys(1)[of "rg_pending ?r" cid] by auto
    then have p: "hm_get (rg_pending (sv_registry sv)) cid = Some started
        \<and> inst - started < rg_ttl (sv_registry sv)"
      unfolding cleanup_pending using wf by (auto simp: hm_retain_get split: option.splits if_splits)
    have "hm_get (rg_details ?r) cid = hm_get (rg_details (sv_registry sv)) cid"
      unfolding cleanup_details using wf active(3) by (simp add: hm_retain_get split: option.split)
    with active(4) have d: "is_none_or (\<lambda>d. is_none_or (\<lambda>g. as_secs now < unat (gr_expires_at g)) (dt_grant d)
        \<and> is_none_or (\<lambda>expected. user_data = Some expected) (dt_user_data d))
        (hm_get (rg_details (sv_registry sv)) cid)"
      by (simp add: now)
    have "cid \<in> set (rg_active r')" "cid \<notin> pending_ids r'"
      using active(5) by (auto simp: activate_at_def Let_def split: if_splits)
    with np p d ok' show ?thesis
      unfolding active(6) by (auto simp: reg_ok_def)
  qed simp_all
qed

definition pending_service :: "u64 service" where
  "pending_service = sample_service\<lparr>sv_registry := issue_at (sv_registry sample_service) 5 0\<rparr>"

theorem activation_sound_witness:
  "\<exists>sv'. activate_session (Some 0) 1 2 pending_service 5 None
      = ((Ok () :: (unit bootstrap_error, _) result), sv') \<and> 5 \<in> set (rg_active (sv_registry sv'))"
proof -
  have "reg_ok (sv_registry pending_service)"
    using try_issue_ok[OF new_reg_ok, of _ 5 0]
    by (auto simp: pending_service_def sample_service_def BootstrapService_new_def issue_at_def
        intro: try_issue_ok[OF new_reg_ok surjective_pairing])
  moreover have "\<exists>sv'. activate_session (Some 0) 1 2 pending_service 5 None
      = ((Ok () :: (unit bootstrap_error, _) result), sv')"
    by (simp add: pending_service_def sample_service_def BootstrapService_new_def issue_at_def try_issue_at_def
        cleanup_at_def InMemorySessionRegistry_new_def BootstrapLimits_default_def hm_retain_def
        activate_session_def is_pending_at_def activate_at_def sample_bootstrap_config_def
        BootstrapConfig_default_def from_secs_def NANOS_def)
  ultimately show ?thesis
    using activation_sound by blast
qed

end
