(* ===== verification/Floats.thy ===== *)
theory Floats
  imports Complex_Main Prelude "HOL-Library.Log_Nat"
begin

text \<open>
  The floating-point arithmetic the sources use.  A finite binary64 value is the rational it
  denotes; every operation is the exact rational operation followed by \<open>f64_round\<close>, IEEE rounding to
  nearest with ties to even (53-bit significand, subnormals from exponent -1074).  Signed zeros are
  identified, and no operation modelled here reaches the overflow threshold.  Conversions between
  \<open>Duration\<close> and \<open>f64\<close> follow the standard library: \<open>as_secs_f64\<close> rounds twice, \<open>try_from_secs_f64\<close>
  rounds the exact value to whole nanoseconds, ties to even.
\<close>

section \<open>Values\<close>

text \<open>\<open>f32\<close> and \<open>f64\<close> values as they reach a validation: a NaN, an infinity (negative or not) or a
  finite number.\<close>

datatype float_val = NaN | Infinite bool | Fin rat

fun is_finite :: "float_val \<Rightarrow> bool" where
  "is_finite (Fin _) = True"
| "is_finite _ = False"

section \<open>Rounding\<close>

definition round_half_even :: "rat \<Rightarrow> int" where
  "round_half_even q =
     (let f = \<lfloor>q\<rfloor>; r = q - of_int f
      in if r < 1 / 2 then f else if r > 1 / 2 then f + 1 else if even f then f else f + 1)"

text \<open>The exponent of the leading binary digit of a positive rational.\<close>

definition ilog2_rat :: "rat \<Rightarrow> int" where
  "ilog2_rat x =
     (let (n, d) = quotient_of x;
          k = int (floorlog 2 (nat n)) - int (floorlog 2 (nat d))
      in if 2 powi k \<le> x then k else k - 1)"

definition f64_ulp :: "rat \<Rightarrow> rat" where
  "f64_ulp x = 2 powi (max (ilog2_rat \<bar>x\<bar> - 52) (- 1074))"

definition f64_round :: "rat \<Rightarrow> rat" where
  "f64_round x = (if x = 0 then 0 else of_int (round_half_even (x / f64_ulp x)) * f64_ulp x)"

section \<open>Durations and floats\<close>

definition as_secs_f64 :: "duration \<Rightarrow> rat" where
  "as_secs_f64 d =
     f64_round (f64_round (of_nat (d div NANOS)) + f64_round (of_nat (d mod NANOS) / of_nat NANOS))"

text \<open>\<open>None\<close> is the conversion error: a negative value, or more seconds than a \<open>u64\<close> holds.\<close>

definition try_from_secs_f64 :: "rat \<Rightarrow> duration option" where
  "try_from_secs_f64 x =
     (if x < 0 then None
      else let ns = nat (round_half_even (x * of_nat NANOS))
           in if ns \<le> DURATION_MAX then Some ns else None)"

definition mul_f64 :: "duration \<Rightarrow> rat \<Rightarrow> duration option" where
  "mul_f64 d f = try_from_secs_f64 (f64_round (f * as_secs_f64 d))"

section \<open>Accuracy\<close>

lemma round_half_even_error: "\<bar>of_int (round_half_even q) - q\<bar> \<le> 1 / 2"
  using floor_correct[of q]
  by (auto simp: round_half_even_def Let_def abs_le_iff)

lemma round_half_even_unique:
  assumes "\<bar>q - of_int n\<bar> < 1 / 2"
  shows "round_half_even q = n"
proof -
  have "\<bar>of_int (round_half_even q) - of_int n :: rat\<bar> < 1"
    using round_half_even_error[of q] assms by linarith
  then show ?thesis
    by linarith
qed

lemma round_half_even_of_int [simp]: "round_half_even (of_int n) = n"
  by (rule round_half_even_unique) simp

lemma floorlog2_bounds:
  assumes "0 < n"
  shows "2 powi (int (floorlog 2 n) - 1) \<le> (of_nat n :: rat)" "(of_nat n :: rat) < 2 powi (int (floorlog 2 n))"
proof -
  from assms have b: "2 ^ (floorlog 2 n - 1) \<le> n" "n < 2 ^ floorlog 2 n" "0 < floorlog 2 n"
    using floorlog_bounds[of n 2] by (auto simp: floorlog_def)
  then have "(2 :: rat) ^ (floorlog 2 n - 1) \<le> of_nat n" "(of_nat n :: rat) < 2 ^ floorlog 2 n"
    by (metis of_nat_le_iff of_nat_numeral of_nat_power, metis of_nat_less_iff of_nat_numeral of_nat_power)
  with b(3) show "2 powi (int (floorlog 2 n) - 1) \<le> (of_nat n :: rat)"
    "(of_nat n :: rat) < 2 powi (int (floorlog 2 n))"
    by (simp_all add: power_int_def nat_diff_distrib')
qed

lemma ilog2_rat_bounds:
  assumes "0 < x"
  shows "2 powi (ilog2_rat x) \<le> x" "x < 2 powi (ilog2_rat x + 1)"
proof -
  obtain n d where q: "quotient_of x = (n, d)" by fastforce
  have d: "0 < d" and x: "x = of_int n / of_int d"
    using quotient_of_denom_pos[OF q] quotient_of_div[OF q] by auto
  with assms have n: "0 < n"
    by (simp add: zero_less_divide_iff)
  let ?a = "int (floorlog 2 (nat n))" and ?b = "int (floorlog 2 (nat d))"
  have nb: "2 powi (?a - 1) \<le> (of_int n :: rat)" "(of_int n :: rat) < 2 powi ?a"
    using floorlog2_bounds[of "nat n"] n by simp_all
  have db: "2 powi (?b - 1) \<le> (of_int d :: rat)" "(of_int d :: rat) < 2 powi ?b"
    using floorlog2_bounds[of "nat d"] d by simp_all
  have "x < 2 powi ?a / 2 powi (?b - 1)"
    unfolding x using nb db d n
    by (intro frac_less) (simp_all add: less_le_trans[of 0 n])
  also have "\<dots> = 2 powi (?a - ?b + 1)"
    by (simp add: power_int_diff power_int_add)
  finally have up: "x < 2 powi (?a - ?b + 1)" .
  have "2 powi (?a - ?b - 1) = 2 powi (?a - 1) / (2 powi ?b :: rat)"
    by (simp add: power_int_diff power_int_add)
  also have "\<dots> \<le> x"
    unfolding x using nb db d n by (intro frac_le) simp_all
  finally have lo: "2 powi (?a - ?b - 1) \<le> x" .
  show "2 powi (ilog2_rat x) \<le> x" "x < 2 powi (ilog2_rat x + 1)"
    using up lo by (auto simp: ilog2_rat_def q Let_def)
qed

lemma f64_ulp_pos [simp]: "0 < f64_ulp x"
  by (simp add: f64_ulp_def)

lemma f64_ulp_le:
  assumes "2 powi (- 1022) \<le> \<bar>x\<bar>"
  shows "f64_ulp x \<le> \<bar>x\<bar> / 2 ^ 52"
proof -
  have pos: "0 < \<bar>x\<bar>"
    using assms by (rule less_le_trans[rotated]) simp
  have "(2 :: rat) powi (- 1022) < 2 powi (ilog2_rat \<bar>x\<bar> + 1)"
    using assms ilog2_rat_bounds(2)[OF pos] by simp
  then have "- 1022 < ilog2_rat \<bar>x\<bar> + 1"
    using power_int_increasing[of "ilog2_rat \<bar>x\<bar> + 1" "- 1022" "2 :: rat"] by linarith
  then have "f64_ulp x = 2 powi (ilog2_rat \<bar>x\<bar> - 52)"
    by (simp add: f64_ulp_def)
  also have "\<dots> = 2 powi (ilog2_rat \<bar>x\<bar>) / 2 ^ 52"
    by (simp add: power_int_diff)
  also have "\<dots> \<le> \<bar>x\<bar> / 2 ^ 52"
    using ilog2_rat_bounds(1)[OF pos] by (simp add: divide_right_mono)
  finally show ?thesis .
qed

lemma f64_round_half_ulp: "\<bar>f64_round x - x\<bar> \<le> f64_ulp x / 2"
proof (cases "x = 0")
  case False
  have "f64_round x - x = (of_int (round_half_even (x / f64_ulp x)) - x / f64_ulp x) * f64_ulp x"
    using f64_ulp_pos[of x] False by (simp add: f64_round_def left_diff_distrib less_imp_neq[symmetric])
  then have "\<bar>f64_round x - x\<bar> = \<bar>of_int (round_half_even (x / f64_ulp x)) - x / f64_ulp x\<bar> * f64_ulp x"
    using f64_ulp_pos[of x] by (simp add: abs_mult less_imp_le)
  also have "\<dots> \<le> 1 / 2 * f64_ulp x"
    using f64_ulp_pos[of x] by (intro mult_right_mono round_half_even_error) (rule less_imp_le)
  finally show ?thesis by simp
qed (simp add: f64_round_def less_imp_le)

text \<open>A value in the normal range is rounded with relative error at most \<open>2 ^ (-53)\<close>.\<close>

definition F64_EPS :: rat where
  "F64_EPS = 1 / 2 ^ 53"

lemma F64_EPS_le: "F64_EPS \<le> 1 / 4"
  by (simp add: F64_EPS_def)

lemma F64_EPS_pos [simp]: "0 < F64_EPS" "0 \<le> F64_EPS"
  by (simp_all add: F64_EPS_def)

lemma f64_round_error:
  assumes "x = 0 \<or> 2 powi (- 1022) \<le> \<bar>x\<bar>"
  shows "\<bar>f64_round x - x\<bar> \<le> \<bar>x\<bar> * F64_EPS"
  using assms
proof
  assume "2 powi (- 1022) \<le> \<bar>x\<bar>"
  then show ?thesis
    using f64_round_half_ulp[of x] f64_ulp_le[of x] by (simp add: F64_EPS_def)
qed (simp add: f64_round_def)

lemma f64_round_error_nanos:
  assumes "x = 0 \<or> 1 / 10 ^ 12 \<le> x"
  shows "\<bar>f64_round x - x\<bar> \<le> x * F64_EPS"
proof -
  have "(2 :: rat) powi (- 1022) \<le> 2 powi (- 40)"
    by (rule power_int_increasing) simp_all
  also have "\<dots> \<le> 1 / 10 ^ 12"
    by (simp add: power_int_minus)
  finally have "x = 0 \<or> 2 powi (- 1022) \<le> \<bar>x\<bar>"
    using assms by auto
  moreover have "\<bar>x\<bar> = x"
    using assms by (auto intro: order_trans[rotated])
  ultimately show ?thesis
    using f64_round_error[of x] by simp
qed

lemma tiny_weaken: "x = 0 \<or> 1 / 10 ^ 10 \<le> x \<Longrightarrow> x = 0 \<or> 1 / 10 ^ 12 \<le> (x :: rat)"
  by (auto intro: order_trans[rotated])

lemma nat_ratio_cases:
  assumes "0 < m" "m \<le> 10 ^ 10"
  shows "of_nat n / of_nat m = (0::rat) \<or> 1 / 10 ^ 10 \<le> (of_nat n / of_nat m :: rat)"
proof (cases "n = 0")
  case False
  have "(of_nat m :: rat) \<le> 10 ^ 10"
    using assms(2) by (metis of_nat_le_iff of_nat_numeral of_nat_power)
  moreover have "1 \<le> (of_nat n :: rat)"
    using False by (simp add: Suc_leI)
  ultimately have "1 / 10 ^ 10 \<le> (of_nat n / of_nat m :: rat)"
    using assms(1) by (intro frac_le) simp_all
  then show ?thesis ..
qed simp

lemma nat_ratio_cases':
  "of_nat n / of_nat NANOS = (0::rat) \<or> 1 / 10 ^ 9 \<le> (of_nat n / of_nat NANOS :: rat)"
  by (cases n) (auto simp: NANOS_def intro!: divide_right_mono)

lemma approx_pos:
  fixes x y e l :: rat
  assumes "\<bar>y - x\<bar> \<le> x * e" "e \<le> 1 / 4" "x = 0 \<or> l \<le> x" "0 < l"
  shows "y = 0 \<or> 3 / 4 * l \<le> y"
proof (cases "x = 0")
  case False
  then have "l \<le> x" using assms by simp
  moreover from this have "0 \<le> x"
    using assms(4) by simp
  moreover from this have "x * e \<le> x * (1 / 4)"
    using assms(2) by (intro mult_left_mono)
  ultimately show ?thesis
    using assms(1) by linarith
qed (use assms in simp)

lemma NANOS_le: "NANOS \<le> 10 ^ 10"
  by (simp add: NANOS_def)

lemma seconds_split:
  "(of_nat d / of_nat NANOS :: rat) = of_nat (d div NANOS) + of_nat (d mod NANOS) / of_nat NANOS"
proof -
  have "(of_nat d :: rat) = of_nat (d div NANOS) * of_nat NANOS + of_nat (d mod NANOS)"
    by (metis div_mult_mod_eq of_nat_add of_nat_mult)
  then show ?thesis
    by (simp add: add_divide_distrib)
qed

text \<open>Converting a duration to seconds rounds three times in all.\<close>

lemma as_secs_f64_error:
  fixes d :: nat
  defines "X \<equiv> of_nat d / of_nat NANOS :: rat"
  shows "\<bar>as_secs_f64 d - X\<bar> \<le> X * (F64_EPS * (2 + F64_EPS))"
    and "as_secs_f64 d = 0 \<or> 1 / 10 ^ 10 \<le> as_secs_f64 d"
proof -
  define A B where "A = (of_nat (d div NANOS) :: rat)"
    and "B = (of_nat (d mod NANOS) / of_nat NANOS :: rat)"
  define a b where "a = f64_round A" and "b = f64_round B"
  have X: "X = A + B" "0 \<le> A" "0 \<le> B"
    using seconds_split[of d] by (simp_all add: X_def A_def B_def)
  have A01: "A = 0 \<or> 1 / 10 ^ 10 \<le> A" and B01: "B = 0 \<or> 1 / 10 ^ 10 \<le> B"
    using nat_ratio_cases[of 1 "d div NANOS"] nat_ratio_cases[OF NANOS_pos NANOS_le, of "d mod NANOS"]
    by (simp_all add: A_def B_def)
  have "\<bar>a - A\<bar> \<le> A * F64_EPS" "\<bar>b - B\<bar> \<le> B * F64_EPS"
    using f64_round_error_nanos[OF tiny_weaken[OF A01]] f64_round_error_nanos[OF tiny_weaken[OF B01]] by (simp_all add: a_def b_def)
  then have eab: "\<bar>a + b - X\<bar> \<le> X * F64_EPS"
    unfolding X(1) distrib_right by linarith
  have X01: "X = 0 \<or> 1 / 10 ^ 9 \<le> X"
    using nat_ratio_cases'[of d] by (simp add: X_def)
  have ab01: "a + b = 0 \<or> 3 / 4 * (1 / 10 ^ 9) \<le> a + b"
    by (rule approx_pos[OF eab F64_EPS_le X01]) simp
  then have "a + b = 0 \<or> 1 / 10 ^ 10 \<le> a + b"
    by auto
  from f64_round_error_nanos[OF tiny_weaken[OF this]]
  have er: "\<bar>as_secs_f64 d - (a + b)\<bar> \<le> (a + b) * F64_EPS"
    by (simp add: as_secs_f64_def a_def b_def A_def B_def)
  have "a + b \<le> X + X * F64_EPS"
    using eab by linarith
  then have "(a + b) * F64_EPS \<le> (X + X * F64_EPS) * F64_EPS"
    by (rule mult_right_mono) simp
  also have "\<dots> = X * (F64_EPS * (2 + F64_EPS)) - X * F64_EPS"
    by (simp add: algebra_simps)
  finally show "\<bar>as_secs_f64 d - X\<bar> \<le> X * (F64_EPS * (2 + F64_EPS))"
    using er eab by linarith
  show "as_secs_f64 d = 0 \<or> 1 / 10 ^ 10 \<le> as_secs_f64 d"
    using approx_pos[OF er F64_EPS_le ab01] by auto
qed

lemma as_secs_f64_nonneg [simp]: "0 \<le> as_secs_f64 d"
  using as_secs_f64_error(2)[of d] by auto

lemma try_from_secs_f64_near:
  assumes "0 \<le> x" "\<bar>x * of_nat NANOS - of_nat d\<bar> < 1 / 2" "d \<le> DURATION_MAX"
  shows "try_from_secs_f64 x = Some d"
proof -
  have "round_half_even (x * of_nat NANOS) = int d"
    using assms(2) by (intro round_half_even_unique) simp
  then show ?thesis
    using assms by (simp add: try_from_secs_f64_def)
qed

text \<open>Up to a million seconds a duration survives the conversion to \<open>f64\<close> seconds and back.\<close>

definition F64_EXACT :: duration where
  "F64_EXACT = 1000000 * NANOS"

lemma F64_EXACT_le: "F64_EXACT \<le> DURATION_MAX"
  by (simp add: F64_EXACT_def DURATION_MAX_def NANOS_def)

lemma secs_roundtrip:
  assumes "d \<le> F64_EXACT"
  shows "try_from_secs_f64 (f64_round (as_secs_f64 d)) = Some d"
proof (rule try_from_secs_f64_near)
  define X where "X = (of_nat d / of_nat NANOS :: rat)"
  define s where "s = as_secs_f64 d"
  have er: "\<bar>f64_round s - s\<bar> \<le> s * F64_EPS"
    using f64_round_error_nanos[OF tiny_weaken[OF as_secs_f64_error(2)[of d]]] by (simp add: s_def)
  then show "0 \<le> f64_round (as_secs_f64 d)"
    using approx_pos[OF er F64_EPS_le, of "1 / 10 ^ 10"] as_secs_f64_error(2)[of d]
    by (auto simp: s_def)
  have es: "\<bar>s - X\<bar> \<le> X * (F64_EPS * (2 + F64_EPS))"
    using as_secs_f64_error(1)[of d] by (simp add: s_def X_def)
  have X0: "0 \<le> X"
    by (simp add: X_def)
  have "X * (F64_EPS * (2 + F64_EPS)) \<le> X * (F64_EPS * (9 / 4))"
    using X0 F64_EPS_le by (intro mult_left_mono) simp_all
  with es have es': "\<bar>s - X\<bar> \<le> 9 / 4 * (X * F64_EPS)"
    by simp
  have "X * F64_EPS \<le> X * (1 / 4)"
    using X0 F64_EPS_le by (intro mult_left_mono)
  with es' have "s \<le> 7 / 4 * X"
    using X0 by linarith
  then have "s * F64_EPS \<le> 7 / 4 * X * F64_EPS"
    by (rule mult_right_mono) simp
  then have "\<bar>f64_round s - X\<bar> \<le> 4 * (X * F64_EPS)"
    using er es' by linarith
  then have "\<bar>f64_round s - X\<bar> * of_nat NANOS \<le> 4 * (X * F64_EPS) * of_nat NANOS"
    by (rule mult_right_mono) simp
  also have "\<dots> = 4 * of_nat d * F64_EPS"
    by (simp add: X_def NANOS_def)
  also have "\<dots> < 1 / 2"
  proof -
    have "d \<le> 10 ^ 15"
      using assms by (simp add: F64_EXACT_def NANOS_def)
    then have "(of_nat d :: rat) \<le> of_nat (10 ^ 15)"
      by (simp only: of_nat_le_iff)
    then show ?thesis by (simp add: F64_EPS_def)
  qed
  finally have "\<bar>(f64_round s - X) * of_nat NANOS\<bar> < 1 / 2"
    by (simp add: abs_mult)
  moreover have "(f64_round s - X) * of_nat NANOS = f64_round s * of_nat NANOS - of_nat d"
    by (simp add: X_def NANOS_def left_diff_distrib)
  ultimately show "\<bar>f64_round (as_secs_f64 d) * of_nat NANOS - of_nat d\<bar> < 1 / 2"
    by (simp add: s_def)
qed (use assms F64_EXACT_le in simp)

text \<open>Multiplication of a duration by \<open>1/8 .. 7/8\<close>.\<close>

lemma mul_f64_error:
  fixes d :: nat and f :: rat
  assumes "1 / 8 \<le> f" "f \<le> 7 / 8"
  defines "y \<equiv> f64_round (f * as_secs_f64 d)"
  shows "0 \<le> y" "\<bar>y * of_nat NANOS - f * of_nat d\<bar> \<le> of_nat d * (7 / 2 * F64_EPS)"
proof -
  define X s where "X = (of_nat d / of_nat NANOS :: rat)" and "s = as_secs_f64 d"
  have X0: "0 \<le> X" by (simp add: X_def)
  have s01: "s = 0 \<or> 1 / 10 ^ 10 \<le> s"
    using as_secs_f64_error(2)[of d] by (simp add: s_def)
  have "1 / 8 * (1 / 10 ^ 10) \<le> f * s" if "1 / 10 ^ 10 \<le> s"
    using assms that by (intro mult_mono) simp_all
  then have fs: "f * s = 0 \<or> 1 / 10 ^ 12 \<le> f * s"
    using s01 by fastforce
  have er: "\<bar>y - f * s\<bar> \<le> f * s * F64_EPS"
    using f64_round_error_nanos[OF fs] by (simp add: y_def s_def)
  show "0 \<le> y"
    using approx_pos[OF er F64_EPS_le fs] by auto
  have "X * (F64_EPS * (2 + F64_EPS)) \<le> X * (F64_EPS * (9 / 4))"
    using X0 F64_EPS_le by (intro mult_left_mono) simp_all
  then have es: "\<bar>s - X\<bar> \<le> 9 / 4 * (X * F64_EPS)"
    using as_secs_f64_error(1)[of d] by (simp add: s_def X_def)
  have "X * F64_EPS \<le> X * (1 / 16)"
    using X0 by (intro mult_left_mono) (simp_all add: F64_EPS_def)
  with es have sX: "s \<le> 5 / 4 * X"
    using X0 by linarith
  have "f * s \<le> 7 / 8 * s"
    using assms s01 by (intro mult_right_mono) auto
  with sX have "f * s \<le> 5 / 4 * X"
    using X0 by linarith
  then have "f * s * F64_EPS \<le> 5 / 4 * X * F64_EPS"
    by (rule mult_right_mono) simp
  moreover have "\<bar>f * s - f * X\<bar> \<le> 9 / 4 * (X * F64_EPS)"
  proof -
    have "\<bar>f * s - f * X\<bar> = f * \<bar>s - X\<bar>"
      using assms by (simp add: abs_mult right_diff_distrib[symmetric])
    also have "\<dots> \<le> 1 * \<bar>s - X\<bar>"
      using assms by (intro mult_right_mono) simp_all
    finally show ?thesis using es by simp
  qed
  ultimately have "\<bar>y - f * X\<bar> \<le> 7 / 2 * (X * F64_EPS)"
    using er by linarith
  then have "\<bar>y - f * X\<bar> * of_nat NANOS \<le> 7 / 2 * (X * F64_EPS) * of_nat NANOS"
    by (rule mult_right_mono) simp
  moreover have "(y - f * X) * of_nat NANOS = y * of_nat NANOS - f * of_nat d"
    by (simp add: X_def NANOS_def left_diff_distrib)
  then have "\<bar>y - f * X\<bar> * of_nat NANOS = \<bar>y * of_nat NANOS - f * of_nat d\<bar>"
    by (metis abs_mult abs_of_nat)
  moreover have "7 / 2 * (X * F64_EPS) * of_nat NANOS = of_nat d * (7 / 2 * F64_EPS)"
    by (simp add: X_def NANOS_def)
  ultimately show "\<bar>y * of_nat NANOS - f * of_nat d\<bar> \<le> of_nat d * (7 / 2 * F64_EPS)"
    by (simp only:)
qed

lemma mul_f64_some:
  assumes "1 / 8 \<le> f" "f \<le> 7 / 8" "d \<le> DURATION_MAX"
  shows "\<exists>a. mul_f64 d f = Some a
           \<and> \<bar>of_nat a - f * of_nat d\<bar> \<le> 1 / 2 + of_nat d * (7 / 2 * F64_EPS)"
proof -
  define z where "z = f64_round (f * as_secs_f64 d) * of_nat NANOS"
  define a where "a = nat (round_half_even z)"
  have z: "0 \<le> z" "\<bar>z - f * of_nat d\<bar> \<le> of_nat d * (7 / 2 * F64_EPS)"
    using mul_f64_error[OF assms(1,2), of d] by (simp_all add: z_def)
  have "- (1 / 2) \<le> (of_int (round_half_even z) :: rat)"
    using round_half_even_error[of z] z(1) by linarith
  then have "0 \<le> round_half_even z"
    by linarith
  then have "(of_nat a :: rat) = of_int (round_half_even z)"
    by (simp add: a_def)
  then have err: "\<bar>of_nat a - f * of_nat d\<bar> \<le> 1 / 2 + of_nat d * (7 / 2 * F64_EPS)"
    using round_half_even_error[of z] z(2) by linarith
  have "f * of_nat d \<le> 7 / 8 * of_nat d"
    using assms(2) by (intro mult_right_mono) simp_all
  moreover have "(of_nat d :: rat) * (7 / 2 * F64_EPS) \<le> of_nat d * (1 / 16)"
    by (intro mult_left_mono) (simp_all add: F64_EPS_def)
  ultimately have "(of_nat a :: rat) \<le> of_nat d + 1 / 2"
    using err by linarith
  then have "a \<le> d"
    by linarith
  then have "mul_f64 d f = Some a"
    using assms(3) mul_f64_error(1)[OF assms(1,2), of d]
    by (simp add: mul_f64_def try_from_secs_f64_def a_def z_def)
  with err show ?thesis by blast
qed

end
