(* ===== verification/Conditioner.thy ===== *)
theory Conditioner
  imports Floats Net "HOL-Library.Multiset"
begin

text \<open>
  Deterministic packet impairment of one client transport (\<open>src/src/conditioner.rs\<close>).  A handle is
  the shared \<open>Control\<close> record, which every operation takes and returns (the mutex makes each
  operation atomic); a \<open>PacketConditioner\<close> is the engine that owns the two delay queues.  Control
  and engine are coupled by a revision counter only: the engine notices a change of the control at
  its next \<open>sync\<close> and discards its queues then.  The invariant \<open>engine_ok\<close> states that coupling.
\<close>

unbundle bit_operations_syntax

section \<open>Configuration\<close>

record conditioner_config =
  cc_enabled :: bool
  cc_latency :: duration
  cc_jitter :: duration
  cc_packet_loss :: float_val
  cc_max_queue_packets :: nat
  cc_max_queue_bytes :: nat
  cc_seed :: u64

definition ConditionerConfig_default :: conditioner_config where
  "ConditionerConfig_default =
     \<lparr>cc_enabled = False, cc_latency = 0, cc_jitter = 0, cc_packet_loss = Fin 0,
      cc_max_queue_packets = 1024, cc_max_queue_bytes = 2 * 1024 * 1024, cc_seed = 1\<rparr>"

datatype conditioner_config_error = ConditionerConfigError

fun in_unit_range :: "float_val \<Rightarrow> bool" where
  "in_unit_range (Fin q) = (0 \<le> q \<and> q \<le> 1)"
| "in_unit_range _ = False"

definition ConditionerConfig_validate ::
  "conditioner_config \<Rightarrow> (conditioner_config_error, unit) result" where
  "ConditionerConfig_validate c =
     (if \<not> is_finite (cc_packet_loss c) \<or> \<not> in_unit_range (cc_packet_loss c)
         \<or> cc_max_queue_packets c = 0 \<or> cc_max_queue_bytes c = 0
      then Err ConditionerConfigError else Ok ())"

section \<open>Statistics\<close>

record direction_stats =
  ds_queued_packets :: nat
  ds_queued_bytes :: nat
  ds_simulated_loss_drops :: nat
  ds_outage_drops :: nat
  ds_overflow_drops :: nat
  ds_transition_drops :: nat

definition DirectionStats_default :: direction_stats where
  "DirectionStats_default =
     \<lparr>ds_queued_packets = 0, ds_queued_bytes = 0, ds_simulated_loss_drops = 0, ds_outage_drops = 0,
      ds_overflow_drops = 0, ds_transition_drops = 0\<rparr>"

record conditioner_stats =
  cs_incoming :: direction_stats
  cs_outgoing :: direction_stats
  cs_outage_active :: bool

definition ConditionerStats_default :: conditioner_stats where
  "ConditionerStats_default =
     \<lparr>cs_incoming = DirectionStats_default, cs_outgoing = DirectionStats_default,
      cs_outage_active = False\<rparr>"

text \<open>\<open>ConditionerStats::direction\<close> is a mutable reference: a getter and an update.\<close>

fun stats_direction :: "conditioner_stats \<Rightarrow> direction \<Rightarrow> direction_stats" where
  "stats_direction s Incoming = cs_incoming s"
| "stats_direction s Outgoing = cs_outgoing s"

fun stats_direction_update ::
  "direction \<Rightarrow> (direction_stats \<Rightarrow> direction_stats) \<Rightarrow> conditioner_stats \<Rightarrow> conditioner_stats" where
  "stats_direction_update Incoming f s = s\<lparr>cs_incoming := f (cs_incoming s)\<rparr>"
| "stats_direction_update Outgoing f s = s\<lparr>cs_outgoing := f (cs_outgoing s)\<rparr>"

definition discard_direction :: "direction_stats \<Rightarrow> direction_stats" where
  "discard_direction d =
     d\<lparr>ds_transition_drops := sat_add64 (ds_transition_drops d) (ds_queued_packets d),
       ds_queued_packets := 0, ds_queued_bytes := 0\<rparr>"

definition discard_queues :: "conditioner_stats \<Rightarrow> conditioner_stats" where
  "discard_queues s =
     s\<lparr>cs_incoming := discard_direction (cs_incoming s),
       cs_outgoing := discard_direction (cs_outgoing s)\<rparr>"

section \<open>The control handle\<close>

record control =
  ct_config :: conditioner_config
  ct_stats :: conditioner_stats
  ct_revision :: u64
  ct_pending_outage :: "duration option"

definition ConditionerHandle_new ::
  "conditioner_config \<Rightarrow> (conditioner_config_error, control) result" where
  "ConditionerHandle_new config =
     (case ConditionerConfig_validate config of
        Err e \<Rightarrow> Err e
      | Ok _ \<Rightarrow> Ok \<lparr>ct_config = config, ct_stats = ConditionerStats_default, ct_revision = 0,
                    ct_pending_outage = None\<rparr>)"

definition ConditionerHandle_configure ::
  "control \<Rightarrow> conditioner_config \<Rightarrow> (conditioner_config_error, unit) result \<times> control" where
  "ConditionerHandle_configure c config =
     (case ConditionerConfig_validate config of
        Err e \<Rightarrow> (Err e, c)
      | Ok _ \<Rightarrow>
          (Ok (), c\<lparr>ct_stats := (discard_queues (ct_stats c))\<lparr>cs_outage_active := False\<rparr>,
                    ct_pending_outage := None,
                    ct_config := config,
                    ct_revision := ct_revision c + 1\<rparr>))"

definition ConditionerHandle_is_active :: "control \<Rightarrow> bool" where
  "ConditionerHandle_is_active c = (cc_enabled (ct_config c) \<or> cs_outage_active (ct_stats c))"

definition ConditionerHandle_outage :: "control \<Rightarrow> duration \<Rightarrow> control" where
  "ConditionerHandle_outage c d =
     c\<lparr>ct_stats := (discard_queues (ct_stats c))\<lparr>cs_outage_active := d \<noteq> 0\<rparr>,
       ct_pending_outage := (if d \<noteq> 0 then Some d else None),
       ct_revision := ct_revision c + 1\<rparr>"

definition ConditionerHandle_reset_session :: "control \<Rightarrow> control" where
  "ConditionerHandle_reset_session c =
     c\<lparr>ct_stats := ConditionerStats_default, ct_pending_outage := None,
       ct_revision := ct_revision c + 1\<rparr>"

section \<open>The engine\<close>

record 'a scheduled =
  sd_due :: duration
  sd_payload :: 'a
  sd_bytes :: nat

record 'a engine =
  pc_queues :: "direction \<Rightarrow> 'a scheduled list"
  pc_revision :: u64
  pc_rng :: u64
  pc_last_now :: duration
  pc_outage_until :: "duration option"

definition PacketConditioner_new :: "control \<Rightarrow> control \<times> 'a engine" where
  "PacketConditioner_new c =
     (ConditionerHandle_reset_session c,
      \<lparr>pc_queues = (\<lambda>_. []), pc_revision = - 1, pc_rng = 1, pc_last_now = 0,
       pc_outage_until = None\<rparr>)"

definition PacketConditioner_sync ::
  "control \<Rightarrow> 'a engine \<Rightarrow> duration \<Rightarrow> duration \<times> control \<times> 'a engine" where
  "PacketConditioner_sync c e now0 =
     (let now = max now0 (pc_last_now e);
          e1 = e\<lparr>pc_last_now := now\<rparr>;
          (c1, e2) =
            (if pc_revision e1 \<noteq> ct_revision c
             then (c\<lparr>ct_pending_outage := None\<rparr>,
                   e1\<lparr>pc_queues := (\<lambda>_. []), pc_revision := ct_revision c,
                      pc_rng := cc_seed (ct_config c),
                      pc_outage_until := map_option (dur_sat_add now) (ct_pending_outage c)\<rparr>)
             else (c, e1));
          e3 = (if is_some_and (\<lambda>until. now \<ge> until) (pc_outage_until e2)
                then e2\<lparr>pc_outage_until := None\<rparr> else e2)
      in (now,
          c1\<lparr>ct_stats := (ct_stats c1)\<lparr>cs_outage_active := pc_outage_until e3 \<noteq> None\<rparr>\<rparr>,
          e3))"

text \<open>SplitMix64; the result is a multiple of \<open>2 ^ (-53)\<close>, which binary64 represents exactly.\<close>

definition splitmix_next :: "u64 \<Rightarrow> u64 \<times> u64" where
  "splitmix_next rng =
     (let rng' = rng + 0x9e3779b97f4a7c15;
          z1 = (rng' XOR drop_bit 30 rng') * 0xbf58476d1ce4e5b9;
          z2 = (z1 XOR drop_bit 27 z1) * 0x94d049bb133111eb;
          z3 = z2 XOR drop_bit 31 z2
      in (z3, rng'))"

definition PacketConditioner_random :: "'a engine \<Rightarrow> rat \<times> 'a engine" where
  "PacketConditioner_random e =
     (let (z, rng') = splitmix_next (pc_rng e)
      in (of_nat (unat (drop_bit 11 z)) / 2 ^ 53, e\<lparr>pc_rng := rng'\<rparr>))"

text \<open>Comparison of a finite value with the loss probability; widening \<open>f32\<close> is exact.\<close>

fun less_loss :: "rat \<Rightarrow> float_val \<Rightarrow> bool" where
  "less_loss r (Fin q) = (r < q)"
| "less_loss r (Infinite neg) = (\<not> neg)"
| "less_loss r NaN = False"

definition conditioned_delay :: "conditioner_config \<Rightarrow> rat \<Rightarrow> duration" where
  "conditioned_delay config r =
     (let delay_secs =
            max 0 (f64_round (as_secs_f64 (cc_latency config)
                     + f64_round (f64_round (f64_round (r * 2) - 1) * as_secs_f64 (cc_jitter config))))
      in case try_from_secs_f64 delay_secs of None \<Rightarrow> DURATION_MAX | Some d \<Rightarrow> d)"

text \<open>Insertion before the first packet due later.\<close>

fun queue_insert :: "'a scheduled \<Rightarrow> 'a scheduled list \<Rightarrow> 'a scheduled list" where
  "queue_insert p [] = [p]"
| "queue_insert p (q # qs) = (if sd_due q > sd_due p then p # q # qs else q # queue_insert p qs)"

definition count_drop ::
  "direction \<Rightarrow> (direction_stats \<Rightarrow> direction_stats) \<Rightarrow> control \<Rightarrow> control" where
  "count_drop dir f c = c\<lparr>ct_stats := stats_direction_update dir f (ct_stats c)\<rparr>"

definition PacketConditioner_enqueue ::
  "control \<Rightarrow> 'a engine \<Rightarrow> direction \<Rightarrow> duration \<Rightarrow> 'a \<Rightarrow> nat
    \<Rightarrow> 'a option \<times> control \<times> 'a engine" where
  "PacketConditioner_enqueue c0 e0 dir now0 payload byte_len =
     (let (now, c, e) = PacketConditioner_sync c0 e0 now0 in
      if pc_outage_until e \<noteq> None
      then (None, count_drop dir (\<lambda>d. d\<lparr>ds_outage_drops := sat_add64 (ds_outage_drops d) 1\<rparr>) c, e)
      else if \<not> cc_enabled (ct_config c) then (Some payload, c, e)
      else
        (let (r, e1) = PacketConditioner_random e in
         if less_loss r (cc_packet_loss (ct_config c))
         then (None, count_drop dir
                 (\<lambda>d. d\<lparr>ds_simulated_loss_drops := sat_add64 (ds_simulated_loss_drops d) 1\<rparr>) c, e1)
         else
           (let config = ct_config c; stats = stats_direction (ct_stats c) dir in
            if ds_queued_packets stats \<ge> cc_max_queue_packets config
               \<or> byte_len > cc_max_queue_bytes config - ds_queued_bytes stats
            then (None, count_drop dir
                    (\<lambda>d. d\<lparr>ds_overflow_drops := sat_add64 (ds_overflow_drops d) 1\<rparr>) c, e1)
            else
              (let (r', e2) = PacketConditioner_random e1;
                   due = dur_sat_add now (conditioned_delay config r');
                   p = \<lparr>sd_due = due, sd_payload = payload, sd_bytes = byte_len\<rparr>;
                   e3 = e2\<lparr>pc_queues := (pc_queues e2)(dir := queue_insert p (pc_queues e2 dir))\<rparr>
               in (None,
                   count_drop dir (\<lambda>d. d\<lparr>ds_queued_packets := ds_queued_packets d + 1,
                                         ds_queued_bytes := ds_queued_bytes d + byte_len\<rparr>) c,
                   e3)))))"

text \<open>\<open>usize\<close> subtraction: below zero it wraps around in a release build.\<close>

definition usize_sub :: "nat \<Rightarrow> nat \<Rightarrow> nat" where
  "usize_sub a b = (if b \<le> a then a - b else a + 2 ^ 64 - b)"

fun drain_loop ::
  "duration \<Rightarrow> 'a scheduled list \<Rightarrow> direction_stats \<Rightarrow> 'a list
    \<Rightarrow> 'a scheduled list \<times> direction_stats \<times> 'a list" where
  "drain_loop now [] stats ready = ([], stats, ready)"
| "drain_loop now (p # queue) stats ready =
     (if sd_due p \<le> now
      then drain_loop now queue
             (stats\<lparr>ds_queued_packets := usize_sub (ds_queued_packets stats) 1,
                    ds_queued_bytes := usize_sub (ds_queued_bytes stats) (sd_bytes p)\<rparr>)
             (ready @ [sd_payload p])
      else (p # queue, stats, ready))"

definition PacketConditioner_drain_ready ::
  "control \<Rightarrow> 'a engine \<Rightarrow> direction \<Rightarrow> duration \<Rightarrow> 'a list \<times> control \<times> 'a engine" where
  "PacketConditioner_drain_ready c0 e0 dir now0 =
     (let (now, c, e) = PacketConditioner_sync c0 e0 now0;
          (queue, stats, ready) =
            drain_loop now (pc_queues e dir) (stats_direction (ct_stats c) dir) []
      in (ready, count_drop dir (\<lambda>_. stats) c, e\<lparr>pc_queues := (pc_queues e)(dir := queue)\<rparr>))"

definition PacketConditioner_clear_session :: "control \<Rightarrow> 'a engine \<Rightarrow> control \<times> 'a engine" where
  "PacketConditioner_clear_session c e =
     (ConditionerHandle_reset_session c,
      e\<lparr>pc_queues := (\<lambda>_. []), pc_last_now := 0, pc_outage_until := None\<rparr>)"

section \<open>Baseline round-trip time\<close>

record rtt_calibration =
  rc_baseline :: "duration option"
  rc_was_active :: bool
  rc_resume_after :: duration
  rc_last_now :: duration

definition RttCalibration_default :: rtt_calibration where
  "RttCalibration_default =
     \<lparr>rc_baseline = None, rc_was_active = False, rc_resume_after = 0, rc_last_now = 0\<rparr>"

text \<open>\<open>None\<close> is the panic of \<open>Duration::mul_f64\<close> on overflow.\<close>

definition RttCalibration_observe ::
  "rtt_calibration \<Rightarrow> duration \<Rightarrow> bool \<Rightarrow> rtt_calibration option" where
  "RttCalibration_observe r rtt active =
     (if active \<or> rtt = 0 then Some r
      else case rc_baseline r of
        None \<Rightarrow> Some (r\<lparr>rc_baseline := Some rtt\<rparr>)
      | Some old \<Rightarrow>
          (case (mul_f64 old (875 / 1000), mul_f64 rtt (125 / 1000)) of
             (Some a, Some b) \<Rightarrow> Some (r\<lparr>rc_baseline := Some (dur_sat_add a b)\<rparr>)
           | _ \<Rightarrow> None))"

definition RttCalibration_observe_at ::
  "rtt_calibration \<Rightarrow> duration \<Rightarrow> duration \<Rightarrow> bool \<Rightarrow> rtt_calibration option" where
  "RttCalibration_observe_at r now0 rtt active =
     (let now = max now0 (rc_last_now r);
          r1 = r\<lparr>rc_last_now := now\<rparr>;
          r2 = (if rc_was_active r1 \<and> \<not> active
                then r1\<lparr>rc_resume_after := dur_sat_add now (from_secs 5)\<rparr> else r1);
          r3 = r2\<lparr>rc_was_active := active\<rparr>
      in if now \<ge> rc_resume_after r3 then RttCalibration_observe r3 rtt active else Some r3)"

definition RttCalibration_reset :: "rtt_calibration \<Rightarrow> rtt_calibration" where
  "RttCalibration_reset r = r\<lparr>rc_baseline := None\<rparr>"

definition RttCalibration_added_delay_for_target ::
  "rtt_calibration \<Rightarrow> duration \<Rightarrow> duration option" where
  "RttCalibration_added_delay_for_target r target =
     map_option (\<lambda>baseline. (target - baseline) div 2) (rc_baseline r)"

section \<open>Stable delay queues\<close>

lemma later_filters:
  assumes "\<forall>q \<in> set qs. a \<le> sd_due q" "(t::duration) < a"
  shows "filter (\<lambda>q. sd_due q \<le> t) qs = []" "filter (\<lambda>q. t < sd_due q) qs = qs"
  using assms by (auto simp: filter_empty_conv filter_id_conv)

text \<open>
  Insertion keeps the order of the packets already queued and puts the new one behind every
  packet that is due no later.
\<close>

lemma queue_insert_eq:
  "sorted (map sd_due qs) \<Longrightarrow>
     queue_insert p qs =
       filter (\<lambda>q. sd_due q \<le> sd_due p) qs @ [p] @ filter (\<lambda>q. sd_due q > sd_due p) qs"
  by (induction qs) (auto simp: later_filters)

lemma mset_queue_insert [simp]: "mset (queue_insert p qs) = add_mset p (mset qs)"
  by (induction qs) auto

lemma length_queue_insert [simp]: "length (queue_insert p qs) = Suc (length qs)"
  by (induction qs) auto

lemma set_queue_insert [simp]: "set (queue_insert p qs) = insert p (set qs)"
  by (metis mset_queue_insert set_mset_add_mset_insert set_mset_mset)

lemma sorted_queue_insert: "sorted (map sd_due qs) \<Longrightarrow> sorted (map sd_due (queue_insert p qs))"
  by (induction qs) auto

lemma bytes_queue_insert [simp]:
  "sum_list (map sd_bytes (queue_insert p qs)) = sd_bytes p + sum_list (map sd_bytes qs)"
  by (induction qs) auto

lemma takeWhile_dropWhile_due:
  assumes "sorted (map sd_due qs)"
  shows "takeWhile (\<lambda>q. sd_due q \<le> t) qs = filter (\<lambda>q. sd_due q \<le> t) qs"
    and "dropWhile (\<lambda>q. sd_due q \<le> t) qs = filter (\<lambda>q. sd_due q > t) qs"
  using assms by (induction qs) (auto simp: later_filters)

text \<open>What the statistics record of a queue.\<close>

definition tracks :: "direction_stats \<Rightarrow> 'a scheduled list \<Rightarrow> bool" where
  "tracks d qs \<longleftrightarrow> ds_queued_packets d = length qs \<and> ds_queued_bytes d = sum_list (map sd_bytes qs)"

lemma drain_loop_spec:
  assumes "tracks d qs"
  shows "\<exists>d'. drain_loop now qs d ready =
           (dropWhile (\<lambda>q. sd_due q \<le> now) qs, d',
            ready @ map sd_payload (takeWhile (\<lambda>q. sd_due q \<le> now) qs))
         \<and> tracks d' (dropWhile (\<lambda>q. sd_due q \<le> now) qs)
         \<and> ds_queued_packets d' \<le> ds_queued_packets d \<and> ds_queued_bytes d' \<le> ds_queued_bytes d"
  using assms
proof (induction now qs d ready rule: drain_loop.induct)
  case (2 now p queue stats ready)
  let ?d = "stats\<lparr>ds_queued_packets := usize_sub (ds_queued_packets stats) 1,
                  ds_queued_bytes := usize_sub (ds_queued_bytes stats) (sd_bytes p)\<rparr>"
  have "tracks ?d queue" "ds_queued_packets ?d \<le> ds_queued_packets stats"
    "ds_queued_bytes ?d \<le> ds_queued_bytes stats"
    using "2.prems" by (auto simp: tracks_def usize_sub_def)
  with "2.IH" show ?case
    using "2.prems" by (cases "sd_due p \<le> now") fastforce+
qed (simp add: tracks_def)

section \<open>The coupling of control and engine\<close>

definition limits_ok :: "conditioner_config \<Rightarrow> 'a scheduled list \<Rightarrow> bool" where
  "limits_ok config qs \<longleftrightarrow>
     sorted (map sd_due qs) \<and> length qs \<le> cc_max_queue_packets config
     \<and> sum_list (map sd_bytes qs) \<le> cc_max_queue_bytes config
     \<and> (cc_enabled config \<or> qs = [])"

definition idle_stats :: "conditioner_stats \<Rightarrow> bool" where
  "idle_stats s \<longleftrightarrow> (\<forall>dir. tracks (stats_direction s dir) ([] :: unit scheduled list))"

definition synced :: "control \<Rightarrow> 'a engine \<Rightarrow> bool" where
  "synced c e \<longleftrightarrow>
     (\<forall>dir. tracks (stats_direction (ct_stats c) dir) (pc_queues e dir)
            \<and> limits_ok (ct_config c) (pc_queues e dir))"

text \<open>
  \<open>engine_ok n\<close>: at most \<open>n\<close> revisions separate engine and control.  Once they agree the
  statistics describe the queues; until then the engine's queues are stale and the statistics
  already count nothing.
\<close>

definition engine_ok :: "nat \<Rightarrow> control \<times> 'a engine \<Rightarrow> bool" where
  "engine_ok n s \<longleftrightarrow> (case s of (c, e) \<Rightarrow>
     unat (ct_revision c - pc_revision e) \<le> n
     \<and> ConditionerConfig_validate (ct_config c) = Ok ()
     \<and> (if pc_revision e = ct_revision c then synced c e else idle_stats (ct_stats c)))"

lemma direction_all: "(\<forall>dir. P dir) \<longleftrightarrow> P Incoming \<and> P Outgoing"
  by (metis direction.exhaust)

lemma stats_direction_update_same [simp]:
  "stats_direction (stats_direction_update dir f s) dir = f (stats_direction s dir)"
  by (cases dir) auto

lemma stats_direction_update_other [simp]:
  "dir' \<noteq> dir \<Longrightarrow> stats_direction (stats_direction_update dir f s) dir' = stats_direction s dir'"
  by (cases dir; cases dir') auto

lemma stats_direction_outage [simp]:
  "stats_direction (s\<lparr>cs_outage_active := b\<rparr>) dir = stats_direction s dir"
  by (cases dir) auto

lemma idle_discard: "idle_stats (discard_queues s)" "idle_stats ConditionerStats_default"
  by (auto simp: idle_stats_def direction_all tracks_def discard_queues_def discard_direction_def
      ConditionerStats_default_def DirectionStats_default_def)

lemma idle_outage [simp]: "idle_stats (s\<lparr>cs_outage_active := b\<rparr>) = idle_stats s"
  by (simp add: idle_stats_def)

lemma count_drop_frame [frame_simps]:
  "ct_config (count_drop dir f c) = ct_config c" "ct_revision (count_drop dir f c) = ct_revision c"
  "ct_pending_outage (count_drop dir f c) = ct_pending_outage c"
  by (simp_all add: count_drop_def)

text \<open>A control operation bumps the revision; the engine cannot mistake it for its own.\<close>

lemma bump_lag:
  fixes r e :: u64
  assumes "unat (r - e) \<le> n" "n < 2 ^ 64 - 1"
  shows "unat (r + 1 - e) \<le> Suc n" "e \<noteq> r + 1"
proof -
  have eq: "r + 1 - e = 1 + (r - e)" by simp
  have "1 + (r - e) \<noteq> 0"
  proof
    assume "1 + (r - e) = 0"
    then have "r - e = - 1"
      by (metis add.inverse_unique)
    with assms show False by (simp add: unsigned_minus_1_eq_mask mask_eq_exp_minus_1)
  qed
  then show "unat (r + 1 - e) \<le> Suc n" "e \<noteq> r + 1"
    using assms(1) by (auto simp: eq unatSuc)
qed

lemma engine_ok_bump:
  assumes "engine_ok n (c, e)" "n < 2 ^ 64 - 1" "ct_revision c' = ct_revision c + 1"
    "ConditionerConfig_validate (ct_config c') = Ok ()" "idle_stats (ct_stats c')"
    "pc_revision e' = pc_revision e"
  shows "engine_ok (Suc n) (c', e')"
  using assms bump_lag[of "ct_revision c" "pc_revision e" n] by (simp add: engine_ok_def)

lemma configure_engine_ok [inv_intro]:
  "engine_ok n (c, e) \<Longrightarrow> n < 2 ^ 64 - 1 \<Longrightarrow>
     engine_ok (Suc n) (snd (ConditionerHandle_configure c config), e)"
  by (auto simp: ConditionerHandle_configure_def idle_discard split: sum.split intro: engine_ok_bump)
    (auto simp: engine_ok_def)

lemma outage_engine_ok [inv_intro]:
  "engine_ok n (c, e) \<Longrightarrow> n < 2 ^ 64 - 1 \<Longrightarrow> engine_ok (Suc n) (ConditionerHandle_outage c d, e)"
  by (rule engine_ok_bump) (auto simp: ConditionerHandle_outage_def idle_discard engine_ok_def)

lemma reset_engine_ok [inv_intro]:
  "engine_ok n (c, e) \<Longrightarrow> n < 2 ^ 64 - 1 \<Longrightarrow>
     engine_ok (Suc n) (ConditionerHandle_reset_session c, e)"
  by (rule engine_ok_bump) (auto simp: ConditionerHandle_reset_session_def idle_discard engine_ok_def)

lemma clear_engine_ok [inv_intro]:
  "engine_ok n (c, e) \<Longrightarrow> n < 2 ^ 64 - 1 \<Longrightarrow>
     engine_ok (Suc n) (PacketConditioner_clear_session c e)"
  unfolding PacketConditioner_clear_session_def
  by (rule engine_ok_bump)
    (auto simp: ConditionerHandle_reset_session_def idle_discard engine_ok_def)

lemma new_engine_ok:
  assumes "ConditionerHandle_new config = Ok c"
  shows "engine_ok 2 (PacketConditioner_new c :: control \<times> 'a engine)"
  using assms
  by (auto simp: engine_ok_def ConditionerHandle_new_def PacketConditioner_new_def idle_discard
      ConditionerHandle_reset_session_def split: sum.splits)

text \<open>Synchronisation brings any state into the synced part of the invariant.\<close>

definition engine_synced :: "control \<Rightarrow> 'a engine \<Rightarrow> bool" where
  "engine_synced c e \<longleftrightarrow>
     pc_revision e = ct_revision c \<and> ConditionerConfig_validate (ct_config c) = Ok () \<and> synced c e"

lemma engine_synced_ok: "engine_synced c e \<Longrightarrow> engine_ok n (c, e)"
  by (simp add: engine_synced_def engine_ok_def)

lemma sync_synced:
  assumes "engine_ok n (c, e)" "PacketConditioner_sync c e now = (now', c', e')"
  shows "engine_synced c' e'" "ct_config c' = ct_config c" "now' = max now (pc_last_now e)"
    "pc_last_now e' = now'"
    "pc_queues e' = (if pc_revision e = ct_revision c then pc_queues e else (\<lambda>_. []))"
  using assms
  by (auto simp: PacketConditioner_sync_def Let_def engine_synced_def engine_ok_def synced_def
      idle_stats_def tracks_def limits_ok_def split: if_splits)

lemma random_frame [frame_simps]:
  "PacketConditioner_random e = (r, e') \<Longrightarrow> pc_queues e' = pc_queues e \<and>
     pc_revision e' = pc_revision e \<and> pc_last_now e' = pc_last_now e \<and>
     pc_outage_until e' = pc_outage_until e"
  by (auto simp: PacketConditioner_random_def Let_def split: prod.splits)

lemma random_unit:
  assumes "PacketConditioner_random e = (r, e')"
  shows "0 \<le> r" "r < 1"
proof -
  have "unat (drop_bit 11 w) < 2 ^ 53" for w :: u64
  proof -
    have "unat w < 2 ^ 64"
      using unsigned_less[of w] by simp
    then show ?thesis
      unfolding unat_drop_bit_eq by (simp add: drop_bit_eq_div less_mult_imp_div_less)
  qed
  moreover obtain w :: u64 where "r = of_nat (unat (drop_bit 11 w)) / 2 ^ 53"
  proof -
    have "r = fst (PacketConditioner_random e)"
      using assms by simp
    then show thesis
      unfolding PacketConditioner_random_def Let_def case_prod_unfold fst_conv by (rule that)
  qed
  ultimately obtain n :: nat where n: "n < 2 ^ 53" "r = of_nat n / 2 ^ 53"
    by blast
  then have "(of_nat n :: rat) < of_nat (2 ^ 53)"
    by (simp only: of_nat_less_iff)
  with n show "0 \<le> r" "r < 1"
    by simp_all
qed

lemma synced_count_drop:
  assumes "synced c e" "\<And>d. ds_queued_packets (f d) = ds_queued_packets d"
    "\<And>d. ds_queued_bytes (f d) = ds_queued_bytes d"
    "pc_queues e' = pc_queues e"
  shows "synced (count_drop dir f c) e'"
  unfolding synced_def
proof
  fix dir'
  show "tracks (stats_direction (ct_stats (count_drop dir f c)) dir') (pc_queues e' dir')
        \<and> limits_ok (ct_config (count_drop dir f c)) (pc_queues e' dir')"
    using assms
    by (cases "dir' = dir") (auto simp: synced_def tracks_def count_drop_def)
qed

lemma synced_enqueue:
  assumes "synced c e" "cc_enabled (ct_config c)" "ds_queued_packets (stats_direction (ct_stats c) dir) < cc_max_queue_packets (ct_config c)"
    "n \<le> cc_max_queue_bytes (ct_config c) - ds_queued_bytes (stats_direction (ct_stats c) dir)"
    "sd_bytes p = n" "pc_queues e' = (pc_queues e)(dir := queue_insert p (pc_queues e dir))"
  shows "synced (count_drop dir (\<lambda>d. d\<lparr>ds_queued_packets := Suc (ds_queued_packets d),
                                       ds_queued_bytes := ds_queued_bytes d + n\<rparr>) c) e'"
    (is "synced ?c e'")
  unfolding synced_def
proof
  fix dir'
  show "tracks (stats_direction (ct_stats ?c) dir') (pc_queues e' dir')
        \<and> limits_ok (ct_config ?c) (pc_queues e' dir')"
  proof (cases "dir' = dir")
    case True
    have "tracks (stats_direction (ct_stats c) dir) (pc_queues e dir)"
      "limits_ok (ct_config c) (pc_queues e dir)"
      using assms(1) by (auto simp: synced_def)
    with True assms show ?thesis
      by (auto simp: tracks_def limits_ok_def sorted_queue_insert count_drop_def)
  qed (use assms in \<open>auto simp: synced_def count_drop_def\<close>)
qed

text \<open>The five outcomes of an \<open>enqueue\<close>.\<close>

lemma enqueue_cases:
  assumes "PacketConditioner_enqueue c e dir now payload len = (out, c', e')"
    and sy: "PacketConditioner_sync c e now = (now1, c1, e1)"
  obtains
    (outage) u where "pc_outage_until e1 = Some u" "out = None" "e' = e1"
      "c' = count_drop dir (\<lambda>d. d\<lparr>ds_outage_drops := sat_add64 (ds_outage_drops d) 1\<rparr>) c1"
  | (bypass) "pc_outage_until e1 = None" "\<not> cc_enabled (ct_config c1)" "out = Some payload"
      "c' = c1" "e' = e1"
  | (loss) r where "pc_outage_until e1 = None" "cc_enabled (ct_config c1)"
      "PacketConditioner_random e1 = (r, e')" "less_loss r (cc_packet_loss (ct_config c1))" "out = None"
      "c' = count_drop dir
              (\<lambda>d. d\<lparr>ds_simulated_loss_drops := sat_add64 (ds_simulated_loss_drops d) 1\<rparr>) c1"
  | (overflow) r where "pc_outage_until e1 = None" "cc_enabled (ct_config c1)"
      "PacketConditioner_random e1 = (r, e')" "\<not> less_loss r (cc_packet_loss (ct_config c1))"
      "ds_queued_packets (stats_direction (ct_stats c1) dir) \<ge> cc_max_queue_packets (ct_config c1)
       \<or> len > cc_max_queue_bytes (ct_config c1) - ds_queued_bytes (stats_direction (ct_stats c1) dir)"
      "out = None" "c' = count_drop dir (\<lambda>d. d\<lparr>ds_overflow_drops := sat_add64 (ds_overflow_drops d) 1\<rparr>) c1"
  | (queued) r e2 r' e3 p where "pc_outage_until e1 = None" "cc_enabled (ct_config c1)"
      "PacketConditioner_random e1 = (r, e2)" "\<not> less_loss r (cc_packet_loss (ct_config c1))"
      "PacketConditioner_random e2 = (r', e3)"
      "ds_queued_packets (stats_direction (ct_stats c1) dir) < cc_max_queue_packets (ct_config c1)"
      "len \<le> cc_max_queue_bytes (ct_config c1) - ds_queued_bytes (stats_direction (ct_stats c1) dir)"
      "p = \<lparr>sd_due = dur_sat_add now1 (conditioned_delay (ct_config c1) r'), sd_payload = payload,
            sd_bytes = len\<rparr>"
      "e' = e3\<lparr>pc_queues := (pc_queues e3)(dir := queue_insert p (pc_queues e3 dir))\<rparr>"
      "out = None" "c' = count_drop dir (\<lambda>d. d\<lparr>ds_queued_packets := Suc (ds_queued_packets d),
                                                ds_queued_bytes := ds_queued_bytes d + len\<rparr>) c1"
proof -
  obtain r e2 where r1: "PacketConditioner_random e1 = (r, e2)" by fastforce
  obtain r' e3 where r2: "PacketConditioner_random e2 = (r', e3)" by fastforce
  have enq: "PacketConditioner_enqueue c e dir now payload len =
    (if pc_outage_until e1 \<noteq> None
     then (None, count_drop dir (\<lambda>d. d\<lparr>ds_outage_drops := sat_add64 (ds_outage_drops d) 1\<rparr>) c1, e1)
     else if \<not> cc_enabled (ct_config c1) then (Some payload, c1, e1)
     else if less_loss r (cc_packet_loss (ct_config c1))
     then (None, count_drop dir
             (\<lambda>d. d\<lparr>ds_simulated_loss_drops := sat_add64 (ds_simulated_loss_drops d) 1\<rparr>) c1, e2)
     else if ds_queued_packets (stats_direction (ct_stats c1) dir) \<ge> cc_max_queue_packets (ct_config c1)
          \<or> len > cc_max_queue_bytes (ct_config c1) - ds_queued_bytes (stats_direction (ct_stats c1) dir)
     then (None, count_drop dir (\<lambda>d. d\<lparr>ds_overflow_drops := sat_add64 (ds_overflow_drops d) 1\<rparr>) c1, e2)
     else (None, count_drop dir (\<lambda>d. d\<lparr>ds_queued_packets := Suc (ds_queued_packets d),
                                       ds_queued_bytes := ds_queued_bytes d + len\<rparr>) c1,
           e3\<lparr>pc_queues := (pc_queues e3)(dir := queue_insert
                 \<lparr>sd_due = dur_sat_add now1 (conditioned_delay (ct_config c1) r'),
                  sd_payload = payload, sd_bytes = len\<rparr> (pc_queues e3 dir))\<rparr>))"
    by (simp add: PacketConditioner_enqueue_def sy r1 r2 Let_def)
  note enq = enq[unfolded assms(1)]
  show thesis
  proof (cases "pc_outage_until e1")
    case (Some u)
    with enq show ?thesis by (intro outage) auto
  next
    case up: None
    show ?thesis
    proof (cases "cc_enabled (ct_config c1)")
      case False
      with enq up show ?thesis by (intro bypass) auto
    next
      case on: True
      show ?thesis
      proof (cases "less_loss r (cc_packet_loss (ct_config c1))")
        case True
        with enq up on r1 show ?thesis by (intro loss) auto
      next
        case kept: False
        show ?thesis
        proof (cases "ds_queued_packets (stats_direction (ct_stats c1) dir) \<ge> cc_max_queue_packets (ct_config c1)
          \<or> len > cc_max_queue_bytes (ct_config c1) - ds_queued_bytes (stats_direction (ct_stats c1) dir)")
          case True
          with enq up on kept r1 show ?thesis by (intro overflow[of r]) auto
        next
          case False
          with enq up on kept r1 r2 show ?thesis by (intro queued) (auto simp: not_le not_less)
        qed
      qed
    qed
  qed
qed

lemma enqueue_synced:
  assumes ok: "engine_ok n (c, e)"
    and enq: "PacketConditioner_enqueue c e dir now payload len = (out, c', e')"
  shows "engine_synced c' e'"
proof -
  obtain now1 c1 e1 where sy: "PacketConditioner_sync c e now = (now1, c1, e1)"
    by (cases "PacketConditioner_sync c e now") auto
  note s1 = sync_synced(1)[OF ok sy]
  then have sc: "synced c1 e1"
    by (simp add: engine_synced_def)
  from enq sy show ?thesis
  proof (cases rule: enqueue_cases)
    case (queued r e2 r' e3 p)
    with s1 random_frame[OF queued(3)] random_frame[OF queued(5)] show ?thesis
      by (simp add: engine_synced_def frame_simps synced_enqueue[OF sc, where p = p])
  qed (use s1 sc in \<open>auto simp: engine_synced_def frame_simps
        intro!: synced_count_drop[OF sc] dest: random_frame\<close>)
qed

lemma drain_synced:
  assumes ok: "engine_ok n (c, e)"
    and dr: "PacketConditioner_drain_ready c e dir now = (ready, c', e')"
  shows "engine_synced c' e'"
    and "PacketConditioner_sync c e now = (now1, c1, e1) \<Longrightarrow>
      ready = map sd_payload (filter (\<lambda>p. sd_due p \<le> now1) (pc_queues e1 dir))
      \<and> pc_queues e' dir = filter (\<lambda>p. sd_due p > now1) (pc_queues e1 dir)
      \<and> (\<forall>dir'. dir' \<noteq> dir \<longrightarrow> pc_queues e' dir' = pc_queues e1 dir')"
proof -
  obtain now2 c2 e2 where sy: "PacketConditioner_sync c e now = (now2, c2, e2)"
    by (cases "PacketConditioner_sync c e now") auto
  note s1 = sync_synced(1)[OF ok sy]
  let ?q = "pc_queues e2 dir" and ?d = "stats_direction (ct_stats c2) dir"
  have tr: "tracks ?d ?q" and li: "limits_ok (ct_config c2) ?q"
    using s1 by (auto simp: engine_synced_def synced_def)
  then have so: "sorted (map sd_due ?q)"
    by (simp add: limits_ok_def)
  obtain d' where d': "drain_loop now2 ?q ?d [] =
      (filter (\<lambda>p. sd_due p > now2) ?q, d', map sd_payload (filter (\<lambda>p. sd_due p \<le> now2) ?q))"
    "tracks d' (filter (\<lambda>p. sd_due p > now2) ?q)"
    "ds_queued_packets d' \<le> ds_queued_packets ?d" "ds_queued_bytes d' \<le> ds_queued_bytes ?d"
    using drain_loop_spec[OF tr, of now2 "[]"] by (auto simp: takeWhile_dropWhile_due[OF so])
  have "limits_ok (ct_config c2) (filter (\<lambda>p. sd_due p > now2) ?q)"
    using d' tr li
    by (auto simp: limits_ok_def tracks_def sorted_filter intro: order_trans[OF length_filter_le])
  with d' s1 dr show "engine_synced c' e'"
    unfolding PacketConditioner_drain_ready_def sy
    by (auto simp: engine_synced_def synced_def frame_simps count_drop_def Let_def)
  show "ready = map sd_payload (filter (\<lambda>p. sd_due p \<le> now1) (pc_queues e1 dir))
      \<and> pc_queues e' dir = filter (\<lambda>p. sd_due p > now1) (pc_queues e1 dir)
      \<and> (\<forall>dir'. dir' \<noteq> dir \<longrightarrow> pc_queues e' dir' = pc_queues e1 dir')"
    if "PacketConditioner_sync c e now = (now1, c1, e1)"
    using dr that sy d'(1) by (auto simp: PacketConditioner_drain_ready_def Let_def)
qed

section \<open>Runs\<close>

datatype 'a cond_op =
    OpConfigure conditioner_config
  | OpOutage duration
  | OpReset
  | OpEnqueue direction duration 'a nat
  | OpDrain direction duration
  | OpClear

primrec cond_step :: "control \<times> 'a engine \<Rightarrow> 'a cond_op \<Rightarrow> control \<times> 'a engine" where
  "cond_step s (OpConfigure config) = (snd (ConditionerHandle_configure (fst s) config), snd s)"
| "cond_step s (OpOutage d) = (ConditionerHandle_outage (fst s) d, snd s)"
| "cond_step s OpReset = (ConditionerHandle_reset_session (fst s), snd s)"
| "cond_step s (OpEnqueue dir now payload n) =
     snd (PacketConditioner_enqueue (fst s) (snd s) dir now payload n)"
| "cond_step s (OpDrain dir now) = snd (PacketConditioner_drain_ready (fst s) (snd s) dir now)"
| "cond_step s OpClear = PacketConditioner_clear_session (fst s) (snd s)"

text \<open>What an operation lets through in one direction, at once or out of its queue.\<close>

primrec cond_out :: "direction \<Rightarrow> control \<times> 'a engine \<Rightarrow> 'a cond_op \<Rightarrow> 'a list" where
  "cond_out dir s (OpConfigure config) = []"
| "cond_out dir s (OpOutage d) = []"
| "cond_out dir s OpReset = []"
| "cond_out dir s (OpEnqueue dir' now payload n) =
     (case fst (PacketConditioner_enqueue (fst s) (snd s) dir' now payload n) of
        Some p \<Rightarrow> if dir' = dir then [p] else []
      | None \<Rightarrow> [])"
| "cond_out dir s (OpDrain dir' now) =
     (if dir' = dir then fst (PacketConditioner_drain_ready (fst s) (snd s) dir' now) else [])"
| "cond_out dir s OpClear = []"

primrec cond_in :: "direction \<Rightarrow> 'a cond_op \<Rightarrow> 'a list" where
  "cond_in dir (OpConfigure config) = []"
| "cond_in dir (OpOutage d) = []"
| "cond_in dir OpReset = []"
| "cond_in dir (OpEnqueue dir' now payload n) = (if dir' = dir then [payload] else [])"
| "cond_in dir (OpDrain dir' now) = []"
| "cond_in dir OpClear = []"

interpretation cond: counted_invariant cond_step engine_ok "2 ^ 64 - 1"
proof
  fix n and s :: "control \<times> 'a engine" and op
  assume ok: "engine_ok n s" and n: "n < 2 ^ 64 - 1"
  obtain c e where s: "s = (c, e)" by fastforce
  show "engine_ok (Suc n) (cond_step s op)"
  proof (cases op)
    case (OpEnqueue dir now payload len)
    obtain out c' e' where "PacketConditioner_enqueue c e dir now payload len = (out, c', e')"
      by (cases "PacketConditioner_enqueue c e dir now payload len") auto
    with enqueue_synced ok show ?thesis
      by (fastforce simp: s OpEnqueue intro: engine_synced_ok)
  next
    case (OpDrain dir now)
    obtain ready c' e' where "PacketConditioner_drain_ready c e dir now = (ready, c', e')"
      by (cases "PacketConditioner_drain_ready c e dir now") auto
    with drain_synced(1) ok show ?thesis
      by (fastforce simp: s OpDrain intro: engine_synced_ok)
  qed (use ok n s in \<open>auto intro: inv_intro\<close>)
qed

section \<open>Theorems\<close>

definition queue_contents :: "direction \<Rightarrow> control \<times> 'a engine \<Rightarrow> 'a multiset" where
  "queue_contents dir s = mset (map sd_payload (pc_queues (snd s) dir))"

lemma sync_queues:
  "PacketConditioner_sync c e now = (now', c', e') \<Longrightarrow>
     pc_queues e' = pc_queues e \<or> pc_queues e' = (\<lambda>_. [])"
  by (auto simp: PacketConditioner_sync_def Let_def split: if_splits)

lemma drain_loop_conserves:
  "drain_loop now qs d ready = (qs', d', ready') \<Longrightarrow>
     ready' @ map sd_payload qs' = ready @ map sd_payload qs"
  by (induction now qs d ready rule: drain_loop.induct) (auto split: if_splits)

lemma cond_step_conserves:
  "mset (cond_out dir s op) + queue_contents dir (cond_step s op)
     \<subseteq># mset (cond_in dir op) + queue_contents dir s"
proof (cases s)
  case s: (Pair c e)
  show ?thesis
  proof (cases op)
    case (OpEnqueue dir' now payload len)
    obtain out c' e' where enq: "PacketConditioner_enqueue c e dir' now payload len = (out, c', e')"
      by (cases "PacketConditioner_enqueue c e dir' now payload len") auto
    obtain now1 c1 e1 where sy: "PacketConditioner_sync c e now = (now1, c1, e1)"
      by (cases "PacketConditioner_sync c e now") auto
    have sub: "image_mset sd_payload (mset (pc_queues e1 d)) \<subseteq># image_mset sd_payload (mset (pc_queues e d))" for d
      using sync_queues[OF sy] by auto
    have sub': "image_mset sd_payload (mset (pc_queues e1 d))
        \<subseteq># add_mset x (image_mset sd_payload (mset (pc_queues e d)))" for d x
      by (rule subset_mset.order_trans[OF sub]) simp
    from enq sy show ?thesis
    proof (cases rule: enqueue_cases)
      case (queued r e2 r' e3 p)
      with sub random_frame[OF queued(3)] random_frame[OF queued(5)] enq show ?thesis
        by (auto simp: s OpEnqueue queue_contents_def)
    qed (use sub sub' enq s OpEnqueue in \<open>auto simp: queue_contents_def dest!: random_frame\<close>)
  next
    case (OpDrain dir' now)
    obtain now1 c1 e1 where sy: "PacketConditioner_sync c e now = (now1, c1, e1)"
      by (cases "PacketConditioner_sync c e now") auto
    obtain q d ready where dl: "drain_loop now1 (pc_queues e1 dir')
        (stats_direction (ct_stats c1) dir') [] = (q, d, ready)"
      by (cases "drain_loop now1 (pc_queues e1 dir') (stats_direction (ct_stats c1) dir') []") auto
    have "mset (map sd_payload (pc_queues e1 d)) \<subseteq># mset (map sd_payload (pc_queues e d))" for d
      using sync_queues[OF sy] by auto
    moreover have "mset ready + mset (map sd_payload q) = mset (map sd_payload (pc_queues e1 dir'))"
      using drain_loop_conserves[OF dl] by (metis append_Nil mset_append)
    ultimately show ?thesis
      using dl by (auto simp: s OpDrain queue_contents_def PacketConditioner_drain_ready_def sy)
  qed (auto simp: s queue_contents_def PacketConditioner_clear_session_def)
qed

lemma cond_run_conserves:
  "mset (run_out cond_step (cond_out dir) s ops) + queue_contents dir (run_state cond_step s ops)
     \<subseteq># mset (concat (map (cond_in dir) ops)) + queue_contents dir s"
proof (induction ops arbitrary: s)
  case (Cons op ops)
  let ?I = "mset (concat (map (cond_in dir) ops))" and ?s' = "cond_step s op"
  have "mset (cond_out dir s op) + (mset (run_out cond_step (cond_out dir) ?s' ops)
      + queue_contents dir (run_state cond_step ?s' ops)) \<subseteq># mset (cond_out dir s op) + (?I + queue_contents dir ?s')"
    using Cons.IH[of ?s'] by (simp add: subset_mset.add_left_mono)
  also have "\<dots> \<subseteq># ?I + (mset (cond_in dir op) + queue_contents dir s)"
    using cond_step_conserves[of dir s op] by (simp add: add.left_commute)
  finally show ?case
    by (simp add: ac_simps)
qed simp

text \<open>
  C8: whatever sequence of reconfigurations, outages, resets, enqueues, drains and session clears a
  fresh handle and its engine go through (short of a wrap-around of the 64-bit revision), the
  statistics are exact.  While the engine has seen the latest change, they are the number and the
  total size of the queued packets, both within the configured limits, and each queue is ordered by
  due time; after a change the engine has not seen yet they already read zero.  In particular no
  counter ever goes below zero.
\<close>

theorem conditioner_run_ok:
  assumes "ConditionerHandle_new config = Ok c0" "length ops < 2 ^ 64 - 3"
    and "run_state cond_step (PacketConditioner_new c0) ops = (c, e)"
  shows "if pc_revision e = ct_revision c
         then ds_queued_packets (stats_direction (ct_stats c) dir) = length (pc_queues e dir)
              \<and> ds_queued_bytes (stats_direction (ct_stats c) dir)
                  = sum_list (map sd_bytes (pc_queues e dir))
              \<and> length (pc_queues e dir) \<le> cc_max_queue_packets (ct_config c)
              \<and> sum_list (map sd_bytes (pc_queues e dir)) \<le> cc_max_queue_bytes (ct_config c)
              \<and> sorted (map sd_due (pc_queues e dir))
         else ds_queued_packets (stats_direction (ct_stats c) dir) = 0
              \<and> ds_queued_bytes (stats_direction (ct_stats c) dir) = 0"
  using cond.run_counted[OF new_engine_ok[OF assms(1)], of ops] assms(2,3)
  by (auto simp: engine_ok_def synced_def idle_stats_def tracks_def limits_ok_def)

definition sample_conditioner :: conditioner_config where
  "sample_conditioner = \<lparr>cc_enabled = True, cc_latency = from_millis 50, cc_jitter = 0,
     cc_packet_loss = Fin 0, cc_max_queue_packets = 2, cc_max_queue_bytes = 100, cc_seed = 7\<rparr>"

definition sample_control :: control where
  "sample_control = \<lparr>ct_config = sample_conditioner, ct_stats = ConditionerStats_default,
     ct_revision = 0, ct_pending_outage = None\<rparr>"

lemma sample_handle: "ConditionerHandle_new sample_conditioner = Ok sample_control"
  by (simp add: ConditionerHandle_new_def ConditionerConfig_validate_def sample_conditioner_def
      sample_control_def)

definition sample_fresh :: "control \<times> nat engine" where
  "sample_fresh = PacketConditioner_new sample_control"

lemma sample_fresh_ok: "engine_ok 2 sample_fresh"
  unfolding sample_fresh_def by (rule new_engine_ok[OF sample_handle])

theorem conditioner_run_ok_witness:
  "ds_queued_packets (stats_direction (ct_stats (fst (run_state cond_step sample_fresh
     [OpOutage 5, OpReset, OpClear]))) Incoming) = 0"
  using conditioner_run_ok[OF sample_handle, of "[OpOutage 5, OpReset, OpClear]" _ "_ :: nat engine" Incoming]
  by (simp add: sample_fresh_def PacketConditioner_new_def PacketConditioner_clear_session_def
      ConditionerHandle_reset_session_def ConditionerHandle_outage_def sample_control_def)

text \<open>
  C26: a drain hands out exactly the packets that are due at the (monotonic) time of the call, in
  queue order, and leaves exactly the later ones; the other direction is untouched.
\<close>

theorem drain_exact:
  assumes "engine_ok n (c, e)" "PacketConditioner_drain_ready c e dir now = (ready, c', e')"
    and "dir' \<noteq> dir"
  defines "t \<equiv> max now (pc_last_now e)"
    and "queue \<equiv> (\<lambda>d. if pc_revision e = ct_revision c then pc_queues e d else [])"
  shows "ready = map sd_payload (filter (\<lambda>p. sd_due p \<le> t) (queue dir))
    \<and> pc_queues e' dir = filter (\<lambda>p. sd_due p > t) (queue dir)
    \<and> pc_queues e' dir' = queue dir'"
proof -
  obtain now1 c1 e1 where sy: "PacketConditioner_sync c e now = (now1, c1, e1)"
    by (cases "PacketConditioner_sync c e now") auto
  then show ?thesis
    using drain_synced(2)[OF assms(1,2) sy] sync_synced(3,5)[OF assms(1) sy] assms(3)
    by (auto simp: t_def queue_def)
qed

definition sample_engine :: "nat engine" where
  "sample_engine = \<lparr>pc_queues = (\<lambda>_. [\<lparr>sd_due = 3, sd_payload = 10, sd_bytes = 4\<rparr>,
                                      \<lparr>sd_due = 8, sd_payload = 11, sd_bytes = 6\<rparr>]),
     pc_revision = 0, pc_rng = 7, pc_last_now = 2, pc_outage_until = None\<rparr>"

definition sample_busy :: control where
  "sample_busy = sample_control\<lparr>ct_stats :=
     \<lparr>cs_incoming = DirectionStats_default\<lparr>ds_queued_packets := 2, ds_queued_bytes := 10\<rparr>,
      cs_outgoing = DirectionStats_default\<lparr>ds_queued_packets := 2, ds_queued_bytes := 10\<rparr>,
      cs_outage_active = False\<rparr>\<rparr>"

lemma sample_busy_ok: "engine_ok 0 (sample_busy, sample_engine)"
  by (simp add: engine_ok_def sample_busy_def sample_engine_def sample_control_def
      sample_conditioner_def synced_def direction_all tracks_def limits_ok_def
      ConditionerConfig_validate_def)

theorem drain_exact_witness:
  "fst (PacketConditioner_drain_ready sample_busy sample_engine Incoming 5) = [10]"
  using drain_exact[OF sample_busy_ok, of Incoming 5 _ _ _ Outgoing]
  by (cases "PacketConditioner_drain_ready sample_busy sample_engine Incoming 5")
    (simp add: sample_busy_def sample_engine_def sample_control_def)

text \<open>
  C27: the conditioner neither invents nor duplicates packets nor moves them to the other direction.
  Over any run of a fresh engine, the packets let through in a direction together with those still
  queued are a sub-multiset of the packets given to it in that direction.
\<close>

theorem conditioner_conserves:
  "mset (run_out cond_step (cond_out dir) (PacketConditioner_new c) ops)
     + queue_contents dir (run_state cond_step (PacketConditioner_new c) ops)
     \<subseteq># mset (concat (map (cond_in dir) ops))"
  using cond_run_conserves[of dir "PacketConditioner_new c" ops]
  by (simp add: PacketConditioner_new_def queue_contents_def)

text \<open>An engine in an outage that lasts until \<open>u\<close>.\<close>

primrec poll_time :: "'a cond_op \<Rightarrow> duration option" where
  "poll_time (OpConfigure config) = None"
| "poll_time (OpOutage d) = None"
| "poll_time OpReset = None"
| "poll_time (OpEnqueue dir now payload n) = Some now"
| "poll_time (OpDrain dir now) = Some now"
| "poll_time OpClear = None"

definition silent_until :: "duration \<Rightarrow> control \<times> 'a engine \<Rightarrow> bool" where
  "silent_until u s \<longleftrightarrow>
     pc_revision (snd s) = ct_revision (fst s) \<and> pc_outage_until (snd s) = Some u
     \<and> pc_queues (snd s) = (\<lambda>_. []) \<and> pc_last_now (snd s) < u"

lemma silent_sync:
  assumes "silent_until u (c, e)" "now < u"
  shows "\<exists>now1 c1 e1. PacketConditioner_sync c e now = (now1, c1, e1) \<and> silent_until u (c1, e1)"
  using assms by (auto simp: silent_until_def PacketConditioner_sync_def Let_def)

lemma outage_sync:
  assumes "pc_revision e \<noteq> ct_revision c" "ct_pending_outage c = Some d"
    and "max now (pc_last_now e) < dur_sat_add (max now (pc_last_now e)) d"
  shows "\<exists>now1 c1 e1. PacketConditioner_sync c e now = (now1, c1, e1)
           \<and> silent_until (dur_sat_add (max now (pc_last_now e)) d) (c1, e1)"
  using assms unfolding PacketConditioner_sync_def Let_def silent_until_def
  by (simp add: not_le[symmetric])

lemma sync_silent_step:
  assumes sy: "PacketConditioner_sync c e now = (now1, c1, e1)" and si: "silent_until u (c1, e1)"
    and op: "poll_time op = Some now"
  shows "silent_until u (cond_step (c, e) op) \<and> cond_out dir (c, e) op = []"
proof (cases op)
  case (OpEnqueue dir' now' payload n)
  with assms show ?thesis
    by (auto simp: PacketConditioner_enqueue_def silent_until_def frame_simps)
next
  case (OpDrain dir' now')
  with assms show ?thesis
    by (auto simp: PacketConditioner_drain_ready_def silent_until_def frame_simps)
qed (use op in auto)

lemma silent_run:
  assumes "silent_until u s" "list_all (\<lambda>op. is_some_and (\<lambda>t. t < u) (poll_time op)) ops"
  shows "run_out cond_step (cond_out dir) s ops = []"
  using assms
proof (induction ops arbitrary: s)
  case (Cons op ops)
  obtain c e where s: "s = (c, e)" by fastforce
  obtain now where now: "poll_time op = Some now" "now < u"
    using Cons.prems by (cases "poll_time op") auto
  obtain now1 c1 e1 where "PacketConditioner_sync c e now = (now1, c1, e1)" "silent_until u (c1, e1)"
    using silent_sync Cons.prems(1) now(2) s by blast
  from sync_silent_step[OF this now(1), of dir] Cons show ?case
    by (simp add: s)
qed simp

text \<open>
  C28: an outage is silent.  After a request for an outage of positive length, the first poll fixes
  its end, and until that instant no poll lets a packet through in either direction, whether or not
  conditioning is enabled and whatever was queued before the request.
\<close>

theorem outage_silent:
  assumes "engine_ok n (c, e)" "n < 2 ^ 64 - 1" "0 < d" "pc_last_now e < DURATION_MAX"
    and "poll_time op = Some now"
    and "u = dur_sat_add (max now (pc_last_now e)) d"
    and "list_all (\<lambda>op. is_some_and (\<lambda>t. t < u) (poll_time op)) (op # ops)"
  shows "run_out cond_step (cond_out dir) (ConditionerHandle_outage c d, e) (op # ops) = []"
proof -
  let ?c = "ConditionerHandle_outage c d"
  have "now < u"
    using assms by simp
  moreover have "u \<le> DURATION_MAX"
    by (simp add: assms(6) dur_sat_add_def)
  ultimately have m: "max now (pc_last_now e) < u"
    using assms(3,4,6) by (auto simp: dur_sat_add_def max_def)
  have "pc_revision e \<noteq> ct_revision ?c"
    using assms bump_lag(2)[of "ct_revision c" "pc_revision e" n]
    by (simp add: engine_ok_def ConditionerHandle_outage_def)
  then obtain now1 c1 e1 where sy: "PacketConditioner_sync ?c e now = (now1, c1, e1)"
    "silent_until u (c1, e1)"
    using m assms(3,6) outage_sync[of e ?c d now] by (auto simp: ConditionerHandle_outage_def)
  from sync_silent_step[OF sy assms(5), of dir] silent_run[of u "cond_step (?c, e) op" ops dir]
  show ?thesis
    using assms(7) by simp
qed

theorem outage_silent_witness:
  "run_out cond_step (cond_out Incoming) (ConditionerHandle_outage sample_busy 10, sample_engine)
     [OpDrain Incoming 4, OpEnqueue Incoming 13 99 5, OpDrain Incoming 9] = []"
  using outage_silent[OF sample_busy_ok, of 10 "OpDrain Incoming 4" 4 14
      "[OpEnqueue Incoming 13 99 5, OpDrain Incoming 9]" Incoming]
  by (simp add: sample_engine_def dur_sat_add_def DURATION_MAX_def NANOS_def)

definition sample_off :: control where
  "sample_off = sample_control\<lparr>ct_config := sample_conditioner\<lparr>cc_enabled := False\<rparr>\<rparr>"

definition sample_quiet :: "nat engine" where
  "sample_quiet = sample_engine\<lparr>pc_queues := (\<lambda>_. [])\<rparr>"

lemma delay_exact:
  assumes "cc_jitter config = 0" "cc_latency config \<le> F64_EXACT"
  shows "conditioned_delay config r = cc_latency config"
proof -
  have zero: "as_secs_f64 0 = 0"
    by (simp add: as_secs_f64_def f64_round_def)
  have rt: "try_from_secs_f64 (f64_round (as_secs_f64 (cc_latency config))) = Some (cc_latency config)"
    by (rule secs_roundtrip) (rule assms(2))
  then have "0 \<le> f64_round (as_secs_f64 (cc_latency config))"
    by (auto simp: try_from_secs_f64_def split: if_splits)
  then show ?thesis
    using rt by (simp add: conditioned_delay_def assms(1) zero f64_round_def[of 0] max_def)
qed

text \<open>
  C29: without loss and jitter an enabled conditioner delays by exactly the configured latency (up to
  a million seconds, in spite of the floating-point conversions): a packet that fits in the queue is
  put behind every packet due no later than \<open>now + latency\<close> and before every later one, with that
  due time.
\<close>

theorem exact_latency:
  assumes "engine_ok n (c, e)" "PacketConditioner_sync c e now = (t, c1, e1)"
    and "pc_outage_until e1 = None" "cc_enabled (ct_config c)" "cc_packet_loss (ct_config c) = Fin 0"
    and "cc_jitter (ct_config c) = 0" "cc_latency (ct_config c) \<le> F64_EXACT"
    and "length (pc_queues e1 dir) < cc_max_queue_packets (ct_config c)"
    and "sum_list (map sd_bytes (pc_queues e1 dir)) + len \<le> cc_max_queue_bytes (ct_config c)"
    and "PacketConditioner_enqueue c e dir now payload len = (out, c', e')"
  defines "due \<equiv> dur_sat_add t (cc_latency (ct_config c))"
  shows "out = None \<and> pc_queues e' dir =
      filter (\<lambda>p. sd_due p \<le> due) (pc_queues e1 dir)
      @ [\<lparr>sd_due = due, sd_payload = payload, sd_bytes = len\<rparr>]
      @ filter (\<lambda>p. sd_due p > due) (pc_queues e1 dir)"
proof -
  have s1: "engine_synced c1 e1" "ct_config c1 = ct_config c"
    using sync_synced(1,2)[OF assms(1,2)] by auto
  then have tr: "tracks (stats_direction (ct_stats c1) dir) (pc_queues e1 dir)"
    and so: "sorted (map sd_due (pc_queues e1 dir))"
    by (auto simp: engine_synced_def synced_def limits_ok_def)
  from assms(10,2) show ?thesis
  proof (cases rule: enqueue_cases)
    case (queued r e2 r' e3 p)
    with random_frame[OF queued(3)] random_frame[OF queued(5)] assms(6,7) s1(2) show ?thesis
      by (simp add: queue_insert_eq[OF so] delay_exact due_def)
  next
    case (loss r)
    with random_unit(1)[OF loss(3)] assms(5) s1(2) show ?thesis by simp
  qed (use assms tr s1 in \<open>auto simp: tracks_def\<close>)
qed

theorem exact_latency_witness:
  "map sd_due (pc_queues (snd (snd (PacketConditioner_enqueue sample_control sample_quiet Outgoing 4 77 9)))
     Outgoing) = [50000004]"
proof -
  have ok: "engine_ok 0 (sample_control, sample_quiet)"
    by (simp add: engine_ok_def sample_engine_def sample_control_def sample_quiet_def
        sample_conditioner_def synced_def direction_all tracks_def limits_ok_def
        ConditionerConfig_validate_def ConditionerStats_default_def DirectionStats_default_def)
  obtain out c' e' where enq:
    "PacketConditioner_enqueue sample_control sample_quiet Outgoing 4 77 9 = (out, c', e')"
    by (cases "PacketConditioner_enqueue sample_control sample_quiet Outgoing 4 77 9") auto
  show ?thesis
    using exact_latency[OF ok refl[THEN trans], of 4 4 _ "sample_quiet\<lparr>pc_last_now := 4\<rparr>" Outgoing 9 77]
      enq
    by (simp add: sample_control_def sample_quiet_def sample_engine_def sample_conditioner_def
        PacketConditioner_sync_def Let_def F64_EXACT_def from_millis_def NANOS_def dur_sat_add_def
        DURATION_MAX_def)
qed

section \<open>Calibration\<close>

text \<open>
  The moving average of the baseline never panics on representable durations, and for round-trip
  times up to a million seconds the new baseline is within two nanoseconds of
  \<open>(7 * old + sample) / 8\<close> in spite of the floating-point products.
\<close>

lemma observe_average:
  assumes "rc_baseline r = Some old" "old \<le> F64_EXACT" "0 < rtt" "rtt \<le> F64_EXACT"
  shows "\<exists>b. RttCalibration_observe r rtt False = Some (r\<lparr>rc_baseline := Some b\<rparr>)
           \<and> \<bar>8 * int b - int (7 * old + rtt)\<bar> < 16"
proof -
  have D: "old \<le> DURATION_MAX" "rtt \<le> DURATION_MAX"
    using assms F64_EXACT_le by simp_all
  obtain x where x: "mul_f64 old (7 / 8) = Some x"
    "\<bar>of_nat x - 7 / 8 * of_nat old :: rat\<bar> \<le> 1 / 2 + of_nat old * (7 / 2 * F64_EPS)"
    using mul_f64_some[of "7 / 8" old] D by auto
  obtain y where y: "mul_f64 rtt (1 / 8) = Some y"
    "\<bar>of_nat y - 1 / 8 * of_nat rtt :: rat\<bar> \<le> 1 / 2 + of_nat rtt * (7 / 2 * F64_EPS)"
    using mul_f64_some[of "1 / 8" rtt] D by auto
  have small: "(of_nat d :: rat) * (7 / 2 * F64_EPS) \<le> 7 / 16" if "d \<le> F64_EXACT" for d
  proof -
    have "d \<le> 10 ^ 15"
      using that by (simp add: F64_EXACT_def NANOS_def)
    then have "(of_nat d :: rat) \<le> of_nat (10 ^ 15)"
      by (simp only: of_nat_le_iff)
    then show ?thesis by (simp add: F64_EPS_def)
  qed
  have err: "\<bar>of_nat (x + y) - (7 * of_nat old + of_nat rtt) / 8 :: rat\<bar> < 2"
    using x(2) y(2) small[OF assms(2)] small[OF assms(4)] by (simp add: field_simps)
  then have "(of_nat (x + y) :: rat) < of_nat (old + rtt + 2)"
    by (simp add: field_simps)
  then have "x + y < old + rtt + 2"
    by (simp only: of_nat_less_iff)
  then have "dur_sat_add x y = x + y"
    using assms by (simp add: dur_sat_add_def F64_EXACT_def DURATION_MAX_def NANOS_def)
  moreover have "\<bar>of_int (8 * int (x + y) - int (7 * old + rtt)) :: rat\<bar> < of_int 16"
    using err by (simp add: field_simps)
  then have "\<bar>8 * int (x + y) - int (7 * old + rtt)\<bar> < 16"
    by linarith
  ultimately show ?thesis
    using x(1) y(1) assms by (intro exI[of _ "x + y"]) (simp add: RttCalibration_observe_def)
qed

primrec observe_run ::
  "rtt_calibration \<Rightarrow> (duration \<times> duration \<times> bool) list \<Rightarrow> rtt_calibration option" where
  "observe_run r [] = Some r"
| "observe_run r (x # xs) =
     (case RttCalibration_observe_at r (fst x) (fst (snd x)) (snd (snd x)) of
        None \<Rightarrow> None
      | Some r' \<Rightarrow> observe_run r' xs)"

definition settling :: "duration \<Rightarrow> rtt_calibration \<Rightarrow> bool" where
  "settling t r \<longleftrightarrow> t \<le> rc_last_now r \<and> rc_last_now r < dur_sat_add t (from_secs 5)
     \<and> dur_sat_add t (from_secs 5) \<le> rc_resume_after r"

lemma settling_step:
  assumes "settling t r" "now < dur_sat_add t (from_secs 5)"
  shows "\<exists>r'. RttCalibration_observe_at r now rtt active = Some r' \<and> settling t r'
              \<and> rc_baseline r' = rc_baseline r"
proof -
  let ?now = "max now (rc_last_now r)"
  have "t \<le> ?now" "?now < dur_sat_add t (from_secs 5)"
    using assms by (auto simp: settling_def)
  moreover from this have "dur_sat_add t (from_secs 5) \<le> dur_sat_add ?now (from_secs 5)"
    by (simp add: dur_sat_add_def)
  ultimately show ?thesis
    using assms by (auto simp: RttCalibration_observe_at_def settling_def Let_def)
qed

lemma settling_run:
  assumes "settling t r" "list_all (\<lambda>x. fst x < dur_sat_add t (from_secs 5)) xs"
  shows "\<exists>r'. observe_run r xs = Some r' \<and> rc_baseline r' = rc_baseline r"
  using assms
proof (induction xs arbitrary: r)
  case (Cons x xs)
  then show ?case
    using settling_step[OF Cons.prems(1), of "fst x" "fst (snd x)" "snd (snd x)"] by fastforce
qed simp

text \<open>
  Samples taken within five seconds after impairment has been switched off never enter the
  baseline, whatever they are and however often impairment is toggled in between.
\<close>

lemma settling_period:
  assumes "rc_was_active r" "rc_last_now r \<le> t" "t < DURATION_MAX"
    and "list_all (\<lambda>x. fst x < dur_sat_add t (from_secs 5)) xs"
  shows "map_option rc_baseline (observe_run r ((t, rtt, False) # xs)) = Some (rc_baseline r)"
proof -
  let ?r = "r\<lparr>rc_last_now := t, rc_resume_after := dur_sat_add t (from_secs 5), rc_was_active := False\<rparr>"
  have "t < dur_sat_add t (from_secs 5)"
    using assms(3) by (simp add: dur_sat_add_def from_secs_def)
  then have "RttCalibration_observe_at r t rtt False = Some ?r" "settling t ?r"
    using assms by (simp_all add: RttCalibration_observe_at_def settling_def Let_def max_def)
  with settling_run[OF this(2) assms(4)] show ?thesis
    by auto
qed

end
