(* ===== verification/Server_Conditioner.thy ===== *)
theory Server_Conditioner
  imports Conditioner
begin

text \<open>
  Server-side packet impairment (\<open>src/src/server_conditioner.rs\<close>): one bounded engine per peer
  behind a shared handle.  A \<open>ServerConditionerHandle\<close> is the state record that every operation
  takes and returns; readings of its monotonic clock are arguments.  A peer entry holds its engine
  together with the engine's own control handle.  The invariant \<open>sc_ok\<close> lifts \<open>engine_ok\<close> to all
  peers; \<open>retire\<close>'s and \<open>configure\<close>'s \<open>expect\<close> on a validated configuration cannot fail under it.
\<close>

unbundle bit_operations_syntax

section \<open>Configuration\<close>

record server_conditioner_config =
  scc_packets :: conditioner_config
  scc_max_peers :: nat
  scc_idle_timeout :: duration

definition ServerConditionerConfig_default :: server_conditioner_config where
  "ServerConditionerConfig_default =
     \<lparr>scc_packets = ConditionerConfig_default, scc_max_peers = 1024, scc_idle_timeout = from_secs 30\<rparr>"

datatype server_conditioner_config_error = ServerConditionerConfigError

definition ServerConditionerConfig_validate ::
  "server_conditioner_config \<Rightarrow> (server_conditioner_config_error, unit) result" where
  "ServerConditionerConfig_validate c =
     (if ConditionerConfig_validate (scc_packets c) \<noteq> Ok () \<or> scc_max_peers c = 0
         \<or> scc_idle_timeout c = 0
      then Err ServerConditionerConfigError else Ok ())"

record server_conditioner_stats =
  scs_packets :: conditioner_stats
  scs_peers :: nat
  scs_peer_limit_drops :: nat
  scs_expired_peers :: nat

section \<open>Per-peer seeds\<close>

definition be_bytes :: "nat \<Rightarrow> 'a::len word \<Rightarrow> bytes" where
  "be_bytes n w = map (\<lambda>i. ucast (drop_bit (8 * i) w)) (rev [0..<n])"

definition fnv_mix :: "u64 \<Rightarrow> u8 \<Rightarrow> u64" where
  "fnv_mix hash byte = (hash XOR ucast byte) * 0x100000001b3"

fun peer_id_bytes :: "server_peer_id \<Rightarrow> bytes" where
  "peer_id_bytes (Udp (SocketV4 ip port)) = [0, 4] @ be_bytes 4 ip @ be_bytes 2 port"
| "peer_id_bytes (Udp (SocketV6 ip port _ _)) = [0, 6] @ be_bytes 16 ip @ be_bytes 2 port"
| "peer_id_bytes (WebRtc cid) = 1 # be_bytes 8 cid"

definition peer_config :: "conditioner_config \<Rightarrow> server_peer_id \<Rightarrow> conditioner_config" where
  "peer_config config cid =
     config\<lparr>cc_seed := cc_seed config XOR foldl fnv_mix 0xcbf29ce484222325 (peer_id_bytes cid)\<rparr>"

section \<open>Statistics\<close>

definition add_direction :: "direction_stats \<Rightarrow> direction_stats \<Rightarrow> direction_stats" where
  "add_direction a b =
     \<lparr>ds_queued_packets = sat_add64 (ds_queued_packets a) (ds_queued_packets b),
      ds_queued_bytes = sat_add64 (ds_queued_bytes a) (ds_queued_bytes b),
      ds_simulated_loss_drops = sat_add64 (ds_simulated_loss_drops a) (ds_simulated_loss_drops b),
      ds_outage_drops = sat_add64 (ds_outage_drops a) (ds_outage_drops b),
      ds_overflow_drops = sat_add64 (ds_overflow_drops a) (ds_overflow_drops b),
      ds_transition_drops = sat_add64 (ds_transition_drops a) (ds_transition_drops b)\<rparr>"

definition add_stats :: "conditioner_stats \<Rightarrow> conditioner_stats \<Rightarrow> conditioner_stats" where
  "add_stats a b =
     \<lparr>cs_incoming = add_direction (cs_incoming a) (cs_incoming b),
      cs_outgoing = add_direction (cs_outgoing a) (cs_outgoing b),
      cs_outage_active = (cs_outage_active a \<or> cs_outage_active b)\<rparr>"

section \<open>State\<close>

record sc_peer =
  sp_owner :: u64
  sp_last_seen :: duration
  sp_control :: control
  sp_engine :: "bytes engine"

record sc_state =
  st_config :: server_conditioner_config
  st_peers :: "(server_peer_id \<times> sc_peer) list"
  st_retired :: conditioner_stats
  st_peer_limit_drops :: nat
  st_expired_peers :: nat
  st_next_owner :: u64
  st_now :: duration
  st_next_cleanup :: duration
  st_outage_until :: "duration option"

definition ServerConditionerHandle_new ::
  "server_conditioner_config \<Rightarrow> (server_conditioner_config_error, sc_state) result" where
  "ServerConditionerHandle_new config =
     (case ServerConditionerConfig_validate config of
        Err e \<Rightarrow> Err e
      | Ok _ \<Rightarrow>
          Ok \<lparr>st_config = config, st_peers = [], st_retired = ConditionerStats_default,
              st_peer_limit_drops = 0, st_expired_peers = 0, st_next_owner = 1, st_now = 0,
              st_next_cleanup = 0, st_outage_until = None\<rparr>)"

text \<open>The handle-side operations on a peer's control: reconfigure to the same configuration.\<close>

definition reconfigure_same :: "control \<Rightarrow> control" where
  "reconfigure_same c = snd (ConditionerHandle_configure c (ct_config c))"

definition State_retire :: "sc_state \<Rightarrow> server_peer_id \<Rightarrow> sc_state" where
  "State_retire st cid =
     (case hm_get (st_peers st) cid of
        None \<Rightarrow> st
      | Some peer \<Rightarrow>
          st\<lparr>st_peers := hm_remove cid (st_peers st),
             st_retired := add_stats (st_retired st) (ct_stats (reconfigure_same (sp_control peer)))\<rparr>)"

definition expire_peer :: "sc_state \<Rightarrow> server_peer_id \<Rightarrow> sc_state" where
  "expire_peer st cid =
     (State_retire st cid)\<lparr>st_expired_peers := sat_add64 (st_expired_peers st) 1\<rparr>"

definition State_poll :: "sc_state \<Rightarrow> duration \<Rightarrow> duration \<times> sc_state" where
  "State_poll st0 now0 =
     (let st1 = st0\<lparr>st_now := max now0 (st_now st0)\<rparr>;
          now = st_now st1;
          st2 = (if is_some_and (\<lambda>until. now \<ge> until) (st_outage_until st1)
                 then st1\<lparr>st_outage_until := None\<rparr> else st1);
          st3 = (if now \<ge> st_next_cleanup st2
                 then
                   (let ids = map fst (filter (\<lambda>(_, peer).
                                now - sp_last_seen peer \<ge> scc_idle_timeout (st_config st2)) (st_peers st2));
                        st' = foldl expire_peer st2 ids
                    in st'\<lparr>st_next_cleanup :=
                             dur_sat_add now (min (scc_idle_timeout (st_config st2)) (from_secs 1))\<rparr>)
                 else st2)
      in (now, st3))"

section \<open>Operations of the handle\<close>

text \<open>\<open>Iterator::min_by_key\<close>: the first entry with the least key.\<close>

fun least_recent :: "(server_peer_id \<times> sc_peer) list \<Rightarrow> (server_peer_id \<times> sc_peer) option" where
  "least_recent [] = None"
| "least_recent (p # ps) =
     (case least_recent ps of
        None \<Rightarrow> Some p
      | Some q \<Rightarrow> if sp_last_seen (snd p) \<le> sp_last_seen (snd q) then Some p else Some q)"

lemma least_recent_in: "least_recent ps = Some p \<Longrightarrow> p \<in> set ps"
  by (induction ps arbitrary: p) (auto split: option.splits if_splits)

lemma least_recent_None [simp]: "least_recent ps = None \<longleftrightarrow> ps = []"
  by (cases ps) (auto split: option.split)

lemma retire_peers:
  "st_peers (State_retire st cid) = hm_remove cid (st_peers st)"
  "st_config (State_retire st cid) = st_config st"
  by (auto simp: State_retire_def delete_id map_of_eq_None_iff split: option.split)

lemma delete_shorter: "(k, v) \<in> set m \<Longrightarrow> length (AList.delete k m) < length m"
  unfolding AList.delete_eq by (rule length_filter_less) auto

function evict_excess :: "sc_state \<Rightarrow> sc_state" where
  "evict_excess st =
     (if length (st_peers st) > scc_max_peers (st_config st)
      then (case least_recent (st_peers st) of
              None \<Rightarrow> st
            | Some (cid, _) \<Rightarrow> evict_excess (State_retire st cid))
      else st)"
  by auto
termination
  by (relation "measure (\<lambda>st. length (st_peers st))")
    (auto simp: retire_peers intro: delete_shorter dest: least_recent_in)

declare evict_excess.simps [simp del]

definition ServerConditionerHandle_configure ::
  "sc_state \<Rightarrow> server_conditioner_config
    \<Rightarrow> (server_conditioner_config_error, unit) result \<times> sc_state" where
  "ServerConditionerHandle_configure st config =
     (case ServerConditionerConfig_validate config of
        Err e \<Rightarrow> (Err e, st)
      | Ok _ \<Rightarrow>
          (let peers = hm_map_values (\<lambda>cid peer. peer\<lparr>sp_control :=
                         snd (ConditionerHandle_configure (sp_control peer)
                                (peer_config (scc_packets config) cid))\<rparr>) (st_peers st)
           in (Ok (), evict_excess (st\<lparr>st_peers := peers, st_config := config,
                                       st_outage_until := None, st_next_cleanup := 0\<rparr>))))"

definition ServerConditionerHandle_stats :: "sc_state \<Rightarrow> server_conditioner_stats" where
  "ServerConditionerHandle_stats st =
     (let packets = foldl (\<lambda>acc (_, peer). add_stats acc (ct_stats (sp_control peer)))
                      (st_retired st) (st_peers st)
      in \<lparr>scs_packets = packets\<lparr>cs_outage_active :=
                          is_some_and (\<lambda>until. st_now st < until) (st_outage_until st)\<rparr>,
          scs_peers = length (st_peers st),
          scs_peer_limit_drops = st_peer_limit_drops st,
          scs_expired_peers = st_expired_peers st\<rparr>)"

definition ServerConditionerHandle_per_peer_stats ::
  "sc_state \<Rightarrow> (server_peer_id \<times> conditioner_stats) list" where
  "ServerConditionerHandle_per_peer_stats st =
     map (\<lambda>(cid, peer). (cid, ct_stats (sp_control peer))) (st_peers st)"

definition ServerConditionerHandle_outage_at :: "sc_state \<Rightarrow> duration \<Rightarrow> duration \<Rightarrow> sc_state" where
  "ServerConditionerHandle_outage_at st0 d now0 =
     (let (now, st) = State_poll st0 now0
      in st\<lparr>st_peers := hm_map_values (\<lambda>_ peer. peer\<lparr>sp_control := reconfigure_same (sp_control peer)\<rparr>)
                          (st_peers st),
            st_outage_until := (if d \<noteq> 0 then Some (dur_sat_add now d) else None)\<rparr>)"

text \<open>\<open>None\<close> is the panic on exhausted owner identities.\<close>

definition ServerConditionerHandle_allocate_owner :: "sc_state \<Rightarrow> (u64 \<times> sc_state) option" where
  "ServerConditionerHandle_allocate_owner st =
     (case checked_succ (st_next_owner st) of
        None \<Rightarrow> None
      | Some next \<Rightarrow> Some (st_next_owner st, st\<lparr>st_next_owner := next\<rparr>))"

definition ServerConditionerHandle_remove_owner :: "sc_state \<Rightarrow> u64 \<Rightarrow> sc_state" where
  "ServerConditionerHandle_remove_owner st owner =
     foldl State_retire st (map fst (filter (\<lambda>(_, peer). sp_owner peer = owner) (st_peers st)))"

definition ServerConditionerHandle_remove_peer :: "sc_state \<Rightarrow> u64 \<Rightarrow> server_peer_id \<Rightarrow> sc_state" where
  "ServerConditionerHandle_remove_peer st owner cid =
     (if is_some_and (\<lambda>peer. sp_owner peer = owner) (hm_get (st_peers st) cid)
      then State_retire st cid else st)"

definition ServerConditionerHandle_queued_outgoing ::
  "sc_state \<Rightarrow> u64 \<Rightarrow> server_peer_id \<Rightarrow> direction_stats" where
  "ServerConditionerHandle_queued_outgoing st owner cid =
     (case hm_get (st_peers st) cid of
        Some peer \<Rightarrow> if sp_owner peer = owner then cs_outgoing (ct_stats (sp_control peer))
                     else DirectionStats_default
      | None \<Rightarrow> DirectionStats_default)"

definition new_peer :: "sc_state \<Rightarrow> u64 \<Rightarrow> server_peer_id \<Rightarrow> duration \<Rightarrow> sc_peer" where
  "new_peer st owner cid now =
     (let (control, engine) =
        PacketConditioner_new \<lparr>ct_config = peer_config (scc_packets (st_config st)) cid,
          ct_stats = ConditionerStats_default, ct_revision = 0, ct_pending_outage = None\<rparr>
      in \<lparr>sp_owner = owner, sp_last_seen = now, sp_control = control, sp_engine = engine\<rparr>)"

definition apply_outage :: "duration option \<Rightarrow> control \<Rightarrow> control" where
  "apply_outage remaining c =
     (case remaining of None \<Rightarrow> c | Some d \<Rightarrow> ConditionerHandle_outage c d)"

definition ServerConditionerHandle_defer_at ::
  "sc_state \<Rightarrow> u64 \<Rightarrow> direction \<Rightarrow> server_peer_id \<Rightarrow> bytes \<Rightarrow> duration \<Rightarrow> bool \<times> sc_state" where
  "ServerConditionerHandle_defer_at st0 owner dir cid payload now0 =
     (let (now, st) = State_poll st0 now0;
          outage_remaining = map_option (\<lambda>until. until - now) (st_outage_until st)
      in if \<not> cc_enabled (scc_packets (st_config st)) \<and> outage_remaining = None then (False, st)
         else if \<not> hm_contains (st_peers st) cid \<and> length (st_peers st) \<ge> scc_max_peers (st_config st)
         then (True, st\<lparr>st_peer_limit_drops := sat_add64 (st_peer_limit_drops st) 1\<rparr>)
         else
           (let peer = (case hm_get (st_peers st) cid of
                          Some peer \<Rightarrow> peer
                        | None \<Rightarrow> new_peer st owner cid now)
            in if sp_owner peer \<noteq> owner
               then (True, st\<lparr>st_peer_limit_drops := sat_add64 (st_peer_limit_drops st) 1\<rparr>)
               else
                 (let (out, c, e) =
                    PacketConditioner_enqueue (apply_outage outage_remaining (sp_control peer))
                      (sp_engine peer) dir now payload (length payload)
                  in (out = None,
                      st\<lparr>st_peers := bt_insert cid
                           (peer\<lparr>sp_last_seen := now, sp_control := c, sp_engine := e\<rparr>)
                           (st_peers st)\<rparr>))))"

text \<open>One peer's share of a drain.\<close>

definition drain_peer ::
  "u64 \<Rightarrow> duration option \<Rightarrow> direction \<Rightarrow> duration \<Rightarrow> sc_peer \<Rightarrow> bytes list \<times> sc_peer" where
  "drain_peer owner outage_remaining dir now peer =
     (if sp_owner peer = owner
      then (let (ready, c, e) =
              PacketConditioner_drain_ready (apply_outage outage_remaining (sp_control peer))
                (sp_engine peer) dir now
            in (ready, peer\<lparr>sp_control := c, sp_engine := e\<rparr>))
      else ([], peer))"

definition ServerConditionerHandle_drain_at ::
  "sc_state \<Rightarrow> u64 \<Rightarrow> direction \<Rightarrow> duration \<Rightarrow> (server_peer_id \<times> bytes) list \<times> sc_state" where
  "ServerConditionerHandle_drain_at st0 owner dir now0 =
     (let (now, st) = State_poll st0 now0;
          outage_remaining = map_option (\<lambda>until. until - now) (st_outage_until st);
          drained = map (\<lambda>(cid, peer). (cid, drain_peer owner outage_remaining dir now peer)) (st_peers st)
      in (concat (map (\<lambda>(cid, ready, _). map (Pair cid) ready) drained),
          st\<lparr>st_peers := map (\<lambda>(cid, _, peer). (cid, peer)) drained\<rparr>))"

section \<open>The invariant\<close>

definition peer_ok :: "nat \<Rightarrow> server_conditioner_config \<Rightarrow> duration \<Rightarrow> server_peer_id \<Rightarrow> sc_peer \<Rightarrow> bool" where
  "peer_ok n config now cid peer \<longleftrightarrow>
     engine_ok n (sp_control peer, sp_engine peer)
     \<and> ct_config (sp_control peer) = peer_config (scc_packets config) cid
     \<and> pc_last_now (sp_engine peer) \<le> now"

definition peers_ok :: "nat \<Rightarrow> sc_state \<Rightarrow> bool" where
  "peers_ok n st \<longleftrightarrow>
     ServerConditionerConfig_validate (st_config st) = Ok ()
     \<and> bt_wf (st_peers st)
     \<and> (\<forall>(cid, peer) \<in> set (st_peers st). peer_ok n (st_config st) (st_now st) cid peer)
     \<and> is_none_or (\<lambda>until. until \<le> DURATION_MAX) (st_outage_until st)"

definition sc_ok :: "nat \<Rightarrow> sc_state \<Rightarrow> bool" where
  "sc_ok n st \<longleftrightarrow> peers_ok n st \<and> length (st_peers st) \<le> scc_max_peers (st_config st)"

lemma peer_config_frame [simp]:
  "cc_enabled (peer_config config cid) = cc_enabled config"
  "cc_max_queue_packets (peer_config config cid) = cc_max_queue_packets config"
  "cc_max_queue_bytes (peer_config config cid) = cc_max_queue_bytes config"
  by (simp_all add: peer_config_def)

lemma peer_config_valid [simp]:
  "ConditionerConfig_validate (peer_config config cid) = ConditionerConfig_validate config"
  by (simp add: ConditionerConfig_validate_def peer_config_def)

lemma server_valid_packets:
  "ServerConditionerConfig_validate config = Ok () \<Longrightarrow>
     ConditionerConfig_validate (scc_packets config) = Ok ()"
  by (auto simp: ServerConditionerConfig_validate_def split: if_splits)

lemma engine_ok_mono: "engine_ok n s \<Longrightarrow> n \<le> m \<Longrightarrow> engine_ok m s"
  by (auto simp: engine_ok_def split: prod.splits)

lemma peer_ok_mono: "peer_ok n config now cid p \<Longrightarrow> n \<le> m \<Longrightarrow> now \<le> now' \<Longrightarrow> peer_ok m config now' cid p"
  by (auto simp: peer_ok_def intro: engine_ok_mono)

lemma sc_ok_mono: "sc_ok n st \<Longrightarrow> n \<le> m \<Longrightarrow> sc_ok m st"
  by (auto simp: sc_ok_def peers_ok_def intro: peer_ok_mono)

lemma configure_config:
  "ConditionerConfig_validate config = Ok () \<Longrightarrow>
     ct_config (snd (ConditionerHandle_configure c config)) = config"
  by (simp add: ConditionerHandle_configure_def)

lemma reconfigure_same_config [simp]: "ct_config (reconfigure_same c) = ct_config c"
  by (simp add: reconfigure_same_def ConditionerHandle_configure_def split: sum.split)

lemma peer_ok_configure:
  assumes "peer_ok n config0 now cid peer" "n < 2 ^ 64 - 1"
    "ConditionerConfig_validate (scc_packets config) = Ok ()"
  shows "peer_ok (Suc n) config now cid
           (peer\<lparr>sp_control := snd (ConditionerHandle_configure (sp_control peer)
                                 (peer_config (scc_packets config) cid))\<rparr>)"
  using assms by (auto simp: peer_ok_def configure_config intro: inv_intro)

lemma peer_ok_reconfigure:
  "peer_ok n config now cid peer \<Longrightarrow> n < 2 ^ 64 - 1 \<Longrightarrow>
     peer_ok (Suc n) config now cid (peer\<lparr>sp_control := reconfigure_same (sp_control peer)\<rparr>)"
  by (auto simp: peer_ok_def reconfigure_same_def[symmetric])
    (auto simp: reconfigure_same_def intro: inv_intro)

lemma apply_outage_ok:
  assumes "peer_ok n config now cid peer" "n < 2 ^ 64 - 1"
  shows "engine_ok (Suc n) (apply_outage rem (sp_control peer), sp_engine peer)"
  using assms outage_engine_ok[of n "sp_control peer" "sp_engine peer"]
  by (auto simp: peer_ok_def apply_outage_def split: option.split intro: engine_ok_mono)

lemma apply_outage_config [simp]: "ct_config (apply_outage rem c) = ct_config c"
  by (simp add: apply_outage_def ConditionerHandle_outage_def split: option.split)

lemma peers_ok_retire [inv_intro]: "peers_ok n st \<Longrightarrow> peers_ok n (State_retire st cid)"
  using set_hm_remove[of cid "st_peers st"]
  by (auto simp: peers_ok_def State_retire_def bt_wf_remove split: option.split)

lemma sc_ok_retire [inv_intro]: "sc_ok n st \<Longrightarrow> sc_ok n (State_retire st cid)"
  by (simp add: sc_ok_def peers_ok_retire retire_peers)
    (metis le_trans length_delete_le)

lemma sc_ok_retire_all: "sc_ok n st \<Longrightarrow> sc_ok n (foldl State_retire st ids)"
  by (induction ids arbitrary: st) (auto intro: inv_intro)

lemma sc_ok_expired [simp]: "sc_ok n (st\<lparr>st_expired_peers := k\<rparr>) = sc_ok n st"
  and sc_ok_cleanup [simp]: "sc_ok n (st\<lparr>st_next_cleanup := t\<rparr>) = sc_ok n st"
  and sc_ok_drops [simp]: "sc_ok n (st\<lparr>st_peer_limit_drops := k\<rparr>) = sc_ok n st"
  by (simp_all add: sc_ok_def peers_ok_def)

lemma sc_ok_expire [inv_intro]: "sc_ok n st \<Longrightarrow> sc_ok n (expire_peer st cid)"
  by (simp add: expire_peer_def sc_ok_retire)

lemma sc_ok_expire_all: "sc_ok n st \<Longrightarrow> sc_ok n (foldl expire_peer st ids)"
  by (induction ids arbitrary: st) (auto intro: inv_intro)

lemma sc_ok_poll:
  assumes "sc_ok n st" "State_poll st now = (now', st')"
  shows "sc_ok n st'"
proof -
  let ?st1 = "st\<lparr>st_now := max now (st_now st)\<rparr>"
  have "sc_ok n ?st1" "sc_ok n (?st1\<lparr>st_outage_until := None\<rparr>)"
    using assms(1) by (auto simp: sc_ok_def peers_ok_def intro: peer_ok_mono)
  then show ?thesis
    using assms(2) by (auto simp: State_poll_def Let_def sc_ok_expire_all split: if_splits)
qed

lemma expire_peers:
  "st_peers (foldl expire_peer st ids) = filter (\<lambda>x. fst x \<notin> set ids) (st_peers st)"
  by (induction ids arbitrary: st)
    (auto simp: expire_peer_def retire_peers AList.delete_eq intro!: filter_cong)

lemma expire_frame [frame_simps]:
  "st_now (foldl expire_peer st ids) = st_now st"
  "st_config (foldl expire_peer st ids) = st_config st"
  "st_outage_until (foldl expire_peer st ids) = st_outage_until st"
  "st_next_owner (foldl expire_peer st ids) = st_next_owner st"
  by (induction ids arbitrary: st)
    (auto simp: expire_peer_def State_retire_def split: option.split)

lemma filter_by_key:
  assumes "distinct (map fst xs)"
  shows "filter (\<lambda>x. fst x \<notin> fst ` {y \<in> set xs. P y}) xs = filter (\<lambda>x. \<not> P x) xs"
  using assms by (intro filter_cong refl) (auto, metis eq_key_imp_eq_value prod.collapse)

lemma poll_frame:
  assumes "State_poll st now = (now', st')"
  shows "now' = max now (st_now st)" "st_now st' = now'" "st_config st' = st_config st"
    "st_outage_until st' = (if is_some_and (\<lambda>u. now' \<ge> u) (st_outage_until st) then None
                            else st_outage_until st)"
    "st_next_owner st' = st_next_owner st"
  using assms by (auto simp: State_poll_def Let_def frame_simps split: if_splits)

lemma poll_peers:
  assumes "State_poll st now = (now', st')" "bt_wf (st_peers st)"
  shows "st_peers st' =
           (if now' \<ge> st_next_cleanup st
            then filter (\<lambda>(_, peer). now' - sp_last_seen peer < scc_idle_timeout (st_config st)) (st_peers st)
            else st_peers st)"
  using assms(1) filter_by_key[OF bt_wf_hm_wf[OF assms(2)],
      of "\<lambda>(_, peer). now' - sp_last_seen peer \<ge> scc_idle_timeout (st_config st)"]
  by (auto simp: State_poll_def Let_def expire_peers not_le case_prod_unfold split: if_splits)

text \<open>Eviction.\<close>

lemma evict_excess_ok:
  "peers_ok n st \<Longrightarrow> sc_ok n (evict_excess st)"
proof (induction st rule: evict_excess.induct)
  case (1 st)
  show ?case
  proof (cases "length (st_peers st) > scc_max_peers (st_config st)")
    case True
    then obtain cid peer where l: "least_recent (st_peers st) = Some (cid, peer)"
      by (cases "least_recent (st_peers st)") auto
    from "1.IH"[OF True l refl peers_ok_retire[OF "1.prems"]] show ?thesis
      by (simp add: evict_excess.simps[of st] True l)
  next
    case False
    with "1.prems" show ?thesis
      by (simp add: evict_excess.simps[of st] sc_ok_def)
  qed
qed

lemma configure_sc_ok [inv_intro]:
  assumes "sc_ok n st" "n < 2 ^ 64 - 1"
  shows "sc_ok (Suc n) (snd (ServerConditionerHandle_configure st config))"
proof (cases "ServerConditionerConfig_validate config")
  case (Inr u)
  let ?f = "\<lambda>cid peer. peer\<lparr>sp_control := snd (ConditionerHandle_configure (sp_control peer)
                                (peer_config (scc_packets config) cid))\<rparr>"
  let ?st = "st\<lparr>st_peers := hm_map_values ?f (st_peers st), st_config := config,
                st_outage_until := None, st_next_cleanup := 0\<rparr>"
  have "\<forall>(cid, peer) \<in> set (st_peers ?st). peer_ok (Suc n) config (st_now st) cid peer"
    using assms Inr server_valid_packets[of config]
    by (auto simp: hm_map_values_def sc_ok_def peers_ok_def intro!: peer_ok_configure)
  then have "peers_ok (Suc n) ?st"
    using assms Inr by (simp add: peers_ok_def sc_ok_def)
  then show ?thesis
    by (simp add: ServerConditionerHandle_configure_def Inr evict_excess_ok)
qed (use assms in \<open>auto simp: ServerConditionerHandle_configure_def intro: sc_ok_mono\<close>)

lemma outage_sc_ok [inv_intro]:
  assumes "sc_ok n st" "n < 2 ^ 64 - 1"
  shows "sc_ok (Suc n) (ServerConditionerHandle_outage_at st d now)"
proof -
  obtain now' st' where po: "State_poll st now = (now', st')" by fastforce
  let ?f = "\<lambda>_ peer. peer\<lparr>sp_control := reconfigure_same (sp_control peer)\<rparr>"
  have "\<forall>(cid, peer) \<in> set (hm_map_values ?f (st_peers st')). peer_ok (Suc n) (st_config st') (st_now st') cid peer"
    using sc_ok_poll[OF assms(1) po] assms(2)
    by (auto simp: sc_ok_def peers_ok_def hm_map_values_def intro!: peer_ok_reconfigure)
  with sc_ok_poll[OF assms(1) po] show ?thesis
    by (auto simp: ServerConditionerHandle_outage_at_def po sc_ok_def peers_ok_def dur_sat_add_def)
qed

lemma remove_owner_sc_ok [inv_intro]:
  "sc_ok n st \<Longrightarrow> sc_ok n (ServerConditionerHandle_remove_owner st owner)"
  by (simp add: ServerConditionerHandle_remove_owner_def sc_ok_retire_all)

lemma remove_peer_sc_ok [inv_intro]:
  "sc_ok n st \<Longrightarrow> sc_ok n (ServerConditionerHandle_remove_peer st owner cid)"
  by (simp add: ServerConditionerHandle_remove_peer_def sc_ok_retire)

section \<open>Deferring and draining\<close>

lemma enqueue_frame:
  assumes "engine_ok n (c, e)" "PacketConditioner_enqueue c e dir now payload len = (out, c', e')"
  shows "ct_config c' = ct_config c" "pc_last_now e' = max now (pc_last_now e)"
proof -
  obtain now1 c1 e1 where sy: "PacketConditioner_sync c e now = (now1, c1, e1)"
    by (cases "PacketConditioner_sync c e now") auto
  note s1 = sync_synced(2-4)[OF assms(1) sy]
  from assms(2) sy show "ct_config c' = ct_config c" "pc_last_now e' = max now (pc_last_now e)"
    using s1 by (cases rule: enqueue_cases; auto simp: frame_simps dest: random_frame)+
qed

lemma drain_frame:
  assumes "engine_ok n (c, e)" "PacketConditioner_drain_ready c e dir now = (ready, c', e')"
  shows "ct_config c' = ct_config c" "pc_last_now e' = max now (pc_last_now e)"
proof -
  obtain now1 c1 e1 where sy: "PacketConditioner_sync c e now = (now1, c1, e1)"
    by (cases "PacketConditioner_sync c e now") auto
  show "ct_config c' = ct_config c" "pc_last_now e' = max now (pc_last_now e)"
    using assms(2) sync_synced(2-4)[OF assms(1) sy]
    by (auto simp: PacketConditioner_drain_ready_def sy frame_simps split: prod.splits)
qed

lemma enqueue_holds_back:
  assumes "engine_ok n (c, e)" "cc_enabled (ct_config c)"
  shows "fst (PacketConditioner_enqueue c e dir now payload len) = None"
proof -
  obtain now1 c1 e1 where sy: "PacketConditioner_sync c e now = (now1, c1, e1)"
    by (cases "PacketConditioner_sync c e now") auto
  obtain out c' e' where enq: "PacketConditioner_enqueue c e dir now payload len = (out, c', e')"
    by (cases "PacketConditioner_enqueue c e dir now payload len") auto
  from enq sy have "out = None"
    using sync_synced(2)[OF assms(1) sy] assms(2) by (cases rule: enqueue_cases) auto
  with enq show ?thesis by simp
qed

lemma enqueue_outage_holds_back:
  assumes "engine_ok n (c, e)" "n < 2 ^ 64 - 1" "0 < d" "now + d \<le> DURATION_MAX" "pc_last_now e \<le> now"
  shows "fst (PacketConditioner_enqueue (ConditionerHandle_outage c d) e dir now payload len) = None"
proof -
  have "max now (pc_last_now e) = now" "now < dur_sat_add now d"
    using assms by (auto simp: dur_sat_add_def)
  moreover have "pc_revision e \<noteq> ct_revision (ConditionerHandle_outage c d)"
    using assms bump_lag(2)[of "ct_revision c" "pc_revision e" n]
    by (simp add: engine_ok_def ConditionerHandle_outage_def)
  ultimately obtain now1 c1 e1 where
    "PacketConditioner_sync (ConditionerHandle_outage c d) e now = (now1, c1, e1)"
    "pc_outage_until e1 \<noteq> None"
    using outage_sync[of e "ConditionerHandle_outage c d" d now] assms(3)
    by (auto simp: ConditionerHandle_outage_def silent_until_def)
  then show ?thesis
    by (simp add: PacketConditioner_enqueue_def)
qed

lemma new_peer_ok:
  assumes "ServerConditionerConfig_validate (st_config st) = Ok ()"
  shows "peer_ok 2 (st_config st) now cid (new_peer st owner cid now)"
proof -
  let ?c = "\<lparr>ct_config = peer_config (scc_packets (st_config st)) cid,
    ct_stats = ConditionerStats_default, ct_revision = 0, ct_pending_outage = None\<rparr>"
  have "ConditionerHandle_new (peer_config (scc_packets (st_config st)) cid) = Ok ?c"
    using server_valid_packets[OF assms] by (simp add: ConditionerHandle_new_def)
  from new_engine_ok[OF this] show ?thesis
    by (auto simp: peer_ok_def new_peer_def PacketConditioner_new_def
        ConditionerHandle_reset_session_def)
qed

text \<open>The entry a packet is charged to once the state has been polled.\<close>

definition served_peer :: "sc_state \<Rightarrow> u64 \<Rightarrow> server_peer_id \<Rightarrow> duration \<Rightarrow> sc_peer" where
  "served_peer st owner cid now =
     (case hm_get (st_peers st) cid of Some peer \<Rightarrow> peer | None \<Rightarrow> new_peer st owner cid now)"

lemma served_peer_ok:
  assumes "sc_ok n st" "st_now st \<le> now"
  shows "peer_ok (max n 2) (st_config st) now cid (served_peer st owner cid now)"
proof (cases "hm_get (st_peers st) cid")
  case None
  then show ?thesis
    using assms new_peer_ok[of st now cid owner]
    by (auto simp: served_peer_def sc_ok_def peers_ok_def intro: peer_ok_mono)
next
  case (Some peer)
  then have "(cid, peer) \<in> set (st_peers st)"
    by (rule map_of_SomeD)
  with assms Some show ?thesis
    by (auto simp: served_peer_def sc_ok_def peers_ok_def intro: peer_ok_mono)
qed

lemma enqueued_peer_ok:
  assumes "peer_ok n config now cid peer" "n < 2 ^ 64 - 1"
    and "PacketConditioner_enqueue (apply_outage rem (sp_control peer)) (sp_engine peer) dir now payload len
           = (out, c, e)"
  shows "peer_ok m config now cid (peer\<lparr>sp_last_seen := now, sp_control := c, sp_engine := e\<rparr>)"
  using assms apply_outage_ok[OF assms(1,2), of rem]
    enqueue_synced[OF _ assms(3)] enqueue_frame[OF _ assms(3)]
  by (auto simp: peer_ok_def intro: engine_synced_ok)

lemma defer_held_back:
  assumes "sc_ok n st" "n < 2 ^ 64 - 1" "st_now st = now"
    and "is_none_or (\<lambda>u. now < u) (st_outage_until st)"
    and "cc_enabled (scc_packets (st_config st)) \<or> st_outage_until st \<noteq> None"
  shows "fst (PacketConditioner_enqueue
          (apply_outage (map_option (\<lambda>u. u - now) (st_outage_until st))
             (sp_control (served_peer st owner cid now)))
          (sp_engine (served_peer st owner cid now)) dir now payload len) = None"
proof -
  note ok = served_peer_ok[OF assms(1), of now cid owner]
  show ?thesis
  proof (cases "st_outage_until st")
    case None
    with assms ok show ?thesis
      by (intro enqueue_holds_back[OF apply_outage_ok[OF ok]]) (auto simp: peer_ok_def)
  next
    case (Some u)
    then have "u \<le> DURATION_MAX" "now < u"
      using assms by (auto simp: sc_ok_def peers_ok_def)
    with assms ok Some show ?thesis
      by (auto simp: apply_outage_def peer_ok_def intro!: enqueue_outage_holds_back[of "max n 2"])
  qed
qed

lemma defer_eq:
  assumes "State_poll st0 now0 = (now, st)"
  shows "ServerConditionerHandle_defer_at st0 owner dir cid payload now0 =
    (let rem = map_option (\<lambda>u. u - now) (st_outage_until st); peer = served_peer st owner cid now
     in if \<not> cc_enabled (scc_packets (st_config st)) \<and> rem = None then (False, st)
        else if \<not> hm_contains (st_peers st) cid \<and> length (st_peers st) \<ge> scc_max_peers (st_config st)
                \<or> sp_owner peer \<noteq> owner
        then (True, st\<lparr>st_peer_limit_drops := sat_add64 (st_peer_limit_drops st) 1\<rparr>)
        else (case PacketConditioner_enqueue (apply_outage rem (sp_control peer)) (sp_engine peer) dir
                     now payload (length payload) of
                (out, c, e) \<Rightarrow>
                  (out = None,
                   st\<lparr>st_peers := bt_insert cid (peer\<lparr>sp_last_seen := now, sp_control := c, sp_engine := e\<rparr>)
                                   (st_peers st)\<rparr>)))"
  by (simp add: ServerConditionerHandle_defer_at_def assms served_peer_def Let_def)

lemma set_bt_insert: "set (bt_insert k v m) \<subseteq> insert (k, v) (set m)"
  by (induction m) (auto split: if_splits)

lemma sc_ok_put_peer:
  assumes "sc_ok n st" "peer_ok n (st_config st) (st_now st) cid peer"
    and "hm_contains (st_peers st) cid \<or> length (st_peers st) < scc_max_peers (st_config st)"
  shows "sc_ok n (st\<lparr>st_peers := bt_insert cid peer (st_peers st)\<rparr>)"
  using assms set_bt_insert[of cid peer "st_peers st"]
    bt.guarded_put_bound[of "st_peers st" "scc_max_peers (st_config st)" cid peer]
  by (auto simp: sc_ok_def peers_ok_def bt_wf_insert hm_contains_def)

lemma poll_outage_future:
  "State_poll st0 now0 = (now, st) \<Longrightarrow> is_none_or (\<lambda>u. now < u) (st_outage_until st)"
  using poll_frame(4)[of st0 now0 now st] by (cases "st_outage_until st0") (auto split: if_splits)

lemma defer_sc_ok [inv_intro]:
  assumes "sc_ok n st0" "n < 2 ^ 64 - 1"
  shows "sc_ok (Suc n) (snd (ServerConditionerHandle_defer_at st0 owner dir cid payload now0))"
proof -
  obtain now st where po: "State_poll st0 now0 = (now, st)" by fastforce
  have ok: "sc_ok n st" and now: "st_now st = now"
    using sc_ok_poll[OF assms(1) po] poll_frame(2)[OF po] by auto
  let ?rem = "map_option (\<lambda>u. u - now) (st_outage_until st)" and ?peer = "served_peer st owner cid now"
  obtain out c e where enq: "PacketConditioner_enqueue (apply_outage ?rem (sp_control ?peer))
      (sp_engine ?peer) dir now payload (length payload) = (out, c, e)"
    by (cases "PacketConditioner_enqueue (apply_outage ?rem (sp_control ?peer))
      (sp_engine ?peer) dir now payload (length payload)") auto
  have "peer_ok (Suc n) (st_config st) now cid (?peer\<lparr>sp_last_seen := now, sp_control := c, sp_engine := e\<rparr>)"
    using enqueued_peer_ok[OF served_peer_ok[OF ok] _ enq] assms(2) now by simp
  then have "sc_ok (Suc n) (st\<lparr>st_peers := bt_insert cid
      (?peer\<lparr>sp_last_seen := now, sp_control := c, sp_engine := e\<rparr>) (st_peers st)\<rparr>)"
    if "hm_contains (st_peers st) cid \<or> length (st_peers st) < scc_max_peers (st_config st)"
    using that sc_ok_mono[OF ok, of "Suc n"] now by (intro sc_ok_put_peer) auto
  then show ?thesis
    using sc_ok_mono[OF ok, of "Suc n"] by (auto simp: defer_eq[OF po] enq Let_def not_le)
qed

lemma drain_sc_ok [inv_intro]:
  assumes "sc_ok n st0" "n < 2 ^ 64 - 1"
  shows "sc_ok (Suc n) (snd (ServerConditionerHandle_drain_at st0 owner dir now0))"
proof -
  obtain now st where po: "State_poll st0 now0 = (now, st)" by fastforce
  have ok: "sc_ok n st" and now: "st_now st = now"
    using sc_ok_poll[OF assms(1) po] poll_frame(2)[OF po] by auto
  let ?rem = "map_option (\<lambda>u. u - now) (st_outage_until st)"
  let ?ps = "hm_map_values (\<lambda>_ peer. snd (drain_peer owner ?rem dir now peer)) (st_peers st)"
  have one: "peer_ok (Suc n) (st_config st) now cid (snd (drain_peer owner ?rem dir now peer))"
    if "peer_ok n (st_config st) now cid peer" for cid peer
  proof -
    obtain ready c e where dr: "PacketConditioner_drain_ready (apply_outage ?rem (sp_control peer))
        (sp_engine peer) dir now = (ready, c, e)"
      by (cases "PacketConditioner_drain_ready (apply_outage ?rem (sp_control peer))
        (sp_engine peer) dir now") auto
    note ao = apply_outage_ok[OF that assms(2), of ?rem]
    show ?thesis
      using that drain_synced(1)[OF ao dr] drain_frame[OF ao dr]
      by (auto simp: drain_peer_def dr peer_ok_def intro: engine_synced_ok engine_ok_mono)
  qed
  have "snd (ServerConditionerHandle_drain_at st0 owner dir now0) = st\<lparr>st_peers := ?ps\<rparr>"
    by (simp add: ServerConditionerHandle_drain_at_def po Let_def case_prod_unfold hm_map_values_def)
  moreover have "\<forall>(cid, peer) \<in> set ?ps. peer_ok (Suc n) (st_config st) now cid peer"
    using ok now one by (auto simp: sc_ok_def peers_ok_def hm_map_values_def)
  ultimately show ?thesis
    using ok now by (auto simp: sc_ok_def peers_ok_def)
qed

section \<open>Runs\<close>

datatype sc_op =
    ScConfigure server_conditioner_config
  | ScOutage duration duration
  | ScAllocate
  | ScRemoveOwner u64
  | ScRemovePeer u64 server_peer_id
  | ScDefer u64 direction server_peer_id bytes duration
  | ScDrain u64 direction duration

primrec sc_step :: "sc_state \<Rightarrow> sc_op \<Rightarrow> sc_state" where
  "sc_step st (ScConfigure config) = snd (ServerConditionerHandle_configure st config)"
| "sc_step st (ScOutage d now) = ServerConditionerHandle_outage_at st d now"
| "sc_step st ScAllocate =
     (case ServerConditionerHandle_allocate_owner st of None \<Rightarrow> st | Some (_, st') \<Rightarrow> st')"
| "sc_step st (ScRemoveOwner owner) = ServerConditionerHandle_remove_owner st owner"
| "sc_step st (ScRemovePeer owner cid) = ServerConditionerHandle_remove_peer st owner cid"
| "sc_step st (ScDefer owner dir cid payload now) =
     snd (ServerConditionerHandle_defer_at st owner dir cid payload now)"
| "sc_step st (ScDrain owner dir now) = snd (ServerConditionerHandle_drain_at st owner dir now)"

interpretation scond: counted_invariant sc_step sc_ok "2 ^ 64 - 1"
proof
  fix n st op
  assume "sc_ok n st" "n < (2 ^ 64 - 1 :: nat)"
  moreover from this have "sc_ok (Suc n) st"
    by (auto intro: sc_ok_mono)
  moreover from this have "sc_ok (Suc n) (st\<lparr>st_next_owner := k\<rparr>)" for k
    by (simp add: sc_ok_def peers_ok_def)
  ultimately show "sc_ok (Suc n) (sc_step st op)"
    by (cases op) (auto simp: ServerConditionerHandle_allocate_owner_def split: option.split
        intro: inv_intro)
qed

lemma new_sc_ok: "ServerConditionerHandle_new config = Ok st \<Longrightarrow> sc_ok 0 st"
  by (auto simp: ServerConditionerHandle_new_def sc_ok_def peers_ok_def split: sum.splits)

section \<open>Theorems\<close>


definition sample_server_config :: server_conditioner_config where
  "sample_server_config =
     \<lparr>scc_packets = sample_conditioner, scc_max_peers = 2, scc_idle_timeout = from_secs 30\<rparr>"

definition sample_server_state :: sc_state where
  "sample_server_state =
     \<lparr>st_config = sample_server_config, st_peers = [], st_retired = ConditionerStats_default,
      st_peer_limit_drops = 0, st_expired_peers = 0, st_next_owner = 1, st_now = 0,
      st_next_cleanup = 0, st_outage_until = None\<rparr>"

lemma sample_server_new: "ServerConditionerHandle_new sample_server_config = Ok sample_server_state"
  by (simp add: ServerConditionerHandle_new_def ServerConditionerConfig_validate_def
      ConditionerConfig_validate_def sample_server_config_def sample_server_state_def
      sample_conditioner_def from_secs_def)

definition sample_peer :: sc_peer where
  "sample_peer =
     \<lparr>sp_owner = 1, sp_last_seen = 3,
      sp_control = \<lparr>ct_config = peer_config sample_conditioner (WebRtc 9),
                    ct_stats = ConditionerStats_default, ct_revision = 1, ct_pending_outage = None\<rparr>,
      sp_engine = \<lparr>pc_queues = (\<lambda>_. []), pc_revision = 1, pc_rng = 0, pc_last_now = 3,
                   pc_outage_until = None\<rparr>\<rparr>"

definition sample_server_busy :: sc_state where
  "sample_server_busy = sample_server_state
     \<lparr>st_peers := [(WebRtc 9, sample_peer)], st_now := 3, st_next_cleanup := from_secs 1\<rparr>"

lemma sample_server_busy_ok: "sc_ok 0 sample_server_busy"
  by (simp add: sc_ok_def peers_ok_def sample_server_busy_def sample_server_state_def
      sample_server_config_def sample_peer_def peer_ok_def engine_ok_def synced_def tracks_def
      limits_ok_def direction_all sample_conditioner_def ServerConditionerConfig_validate_def
      ConditionerConfig_validate_def from_secs_def ConditionerStats_default_def peer_config_def
      DirectionStats_default_def)

text \<open>A run whose last state holds a peer: two operations on a fresh handle.\<close>

lemma defer_tracks:
  assumes "sc_ok n st0" "State_poll st0 now0 = (now, st)" "cc_enabled (scc_packets (st_config st))"
    and "st_peers st = []"
  shows "fst ` set (st_peers (snd (ServerConditionerHandle_defer_at st0 owner dir cid payload now0))) = {cid}"
proof -
  have "scc_max_peers (st_config st) \<noteq> 0"
    using sc_ok_poll[OF assms(1,2)]
    by (auto simp: sc_ok_def peers_ok_def ServerConditionerConfig_validate_def split: if_splits)
  moreover have "sp_owner (served_peer st owner cid now) = owner"
    by (simp add: served_peer_def assms(4) new_peer_def PacketConditioner_new_def)
  ultimately show ?thesis
    using assms(3,4) by (simp add: defer_eq[OF assms(2)] Let_def split: prod.split)
qed

lemma defer_synced:
  assumes "sc_ok n st0" "n < 2 ^ 64 - 1" "State_poll st0 now0 = (now, st)"
    and "st_peers st = []" "(cid', peer) \<in> set (st_peers (snd (ServerConditionerHandle_defer_at st0 owner dir cid payload now0)))"
  shows "pc_revision (sp_engine peer) = ct_revision (sp_control peer)"
proof -
  have ok: "sc_ok n st" and now: "st_now st = now"
    using sc_ok_poll[OF assms(1,3)] poll_frame(2)[OF assms(3)] by auto
  have "peer_ok (max n 2) (st_config st) now cid (served_peer st owner cid now)"
    using served_peer_ok[OF ok] now by simp
  from apply_outage_ok[OF this] enqueue_synced show ?thesis
    using assms(2,4,5)
    by (fastforce simp: defer_eq[OF assms(3)] Let_def engine_synced_def split: if_splits prod.splits)
qed

lemma defer_config: "st_config (snd (ServerConditionerHandle_defer_at st owner dir cid payload now)) = st_config st"
proof -
  obtain now' st' where po: "State_poll st now = (now', st')" by fastforce
  show ?thesis
    by (simp add: defer_eq[OF po] Let_def poll_frame(3)[OF po] split: prod.split)
qed


text \<open>
  Packets bypass the server conditioner only when it is off.  A deferral takes charge of the
  packet (it is queued or dropped, and must not be sent) exactly when impairment is enabled or an
  outage is in force, also for peers that are new, owned by the other transport, or beyond the peer
  limit; when it is off it only polls, so that unknown sources allocate nothing.
\<close>

lemma defer_takes_charge:
  assumes "sc_ok n st" "n < 2 ^ 64 - 1"
  shows "(fst (ServerConditionerHandle_defer_at st owner dir cid payload now)
            \<longleftrightarrow> cc_enabled (scc_packets (st_config st))
                \<or> is_some_and (\<lambda>u. max now (st_now st) < u) (st_outage_until st))
         \<and> (fst (ServerConditionerHandle_defer_at st owner dir cid payload now)
            \<or> snd (ServerConditionerHandle_defer_at st owner dir cid payload now) = snd (State_poll st now))"
proof -
  obtain now' st' where po: "State_poll st now = (now', st')" by fastforce
  note fr = poll_frame[OF po]
  have out: "is_some_and (\<lambda>u. max now (st_now st) < u) (st_outage_until st) \<longleftrightarrow> st_outage_until st' \<noteq> None"
    unfolding fr(4) by (cases "st_outage_until st") (auto simp: fr(1) not_le)
  have held: "fst (PacketConditioner_enqueue
          (apply_outage (map_option (\<lambda>u. u - now') (st_outage_until st'))
             (sp_control (served_peer st' owner cid now')))
          (sp_engine (served_peer st' owner cid now')) dir now' payload (length payload)) = None"
    if "cc_enabled (scc_packets (st_config st')) \<or> st_outage_until st' \<noteq> None"
    by (rule defer_held_back[OF sc_ok_poll[OF assms(1) po] assms(2) fr(2) poll_outage_future[OF po] that])
  show ?thesis
    unfolding out using held
    by (auto simp: defer_eq[OF po] po Let_def fr(3) split: prod.splits)
qed

lemma drain_silent:
  assumes "engine_ok n (c, e)" "n < 2 ^ 64 - 1" "0 < d" "now + d \<le> DURATION_MAX" "pc_last_now e \<le> now"
  shows "fst (PacketConditioner_drain_ready (ConditionerHandle_outage c d) e dir now) = []"
proof -
  have "max now (pc_last_now e) = now" "now < dur_sat_add now d"
    using assms by (auto simp: dur_sat_add_def)
  moreover have "pc_revision e \<noteq> ct_revision (ConditionerHandle_outage c d)"
    using assms bump_lag(2)[of "ct_revision c" "pc_revision e" n]
    by (simp add: engine_ok_def ConditionerHandle_outage_def)
  ultimately obtain now1 c1 e1 where
    "PacketConditioner_sync (ConditionerHandle_outage c d) e now = (now1, c1, e1)"
    "pc_queues e1 = (\<lambda>_. [])"
    using outage_sync[of e "ConditionerHandle_outage c d" d now] assms(3)
    by (auto simp: ConditionerHandle_outage_def silent_until_def)
  then show ?thesis
    by (simp add: PacketConditioner_drain_ready_def)
qed

lemma drain_at_out:
  assumes "State_poll st0 now0 = (now, st)"
  shows "fst (ServerConditionerHandle_drain_at st0 owner dir now0) =
    concat (map (\<lambda>(cid, peer). map (Pair cid)
      (fst (drain_peer owner (map_option (\<lambda>u. u - now) (st_outage_until st)) dir now peer))) (st_peers st))"
  by (simp add: ServerConditionerHandle_drain_at_def assms Let_def comp_def case_prod_unfold)

text \<open>
  During a server outage no peer's queue delivers anything, whoever drains.\<close>

lemma server_outage_silent:
  assumes "sc_ok n st" "n < 2 ^ 64 - 1" "st_outage_until st = Some u" "max now (st_now st) < u"
  shows "fst (ServerConditionerHandle_drain_at st owner dir now) = []"
proof -
  obtain now' st' where po: "State_poll st now = (now', st')" by fastforce
  note fr = poll_frame[OF po] and ok = sc_ok_poll[OF assms(1) po]
  have u: "st_outage_until st' = Some u" "now' < u"
    using assms(3,4) fr(1,4) by auto
  then have "u \<le> DURATION_MAX"
    using ok by (auto simp: sc_ok_def peers_ok_def)
  have "fst (drain_peer owner (Some (u - now')) dir now' peer) = []" if "(cid, peer) \<in> set (st_peers st')" for cid peer
  proof -
    have "peer_ok n (st_config st') now' cid peer"
      using ok that fr(2) by (auto simp: sc_ok_def peers_ok_def)
    then show ?thesis
      using drain_silent[of n "sp_control peer" "sp_engine peer" "u - now'" now' dir]
        assms(2) u(2) \<open>u \<le> DURATION_MAX\<close>
      by (auto simp: drain_peer_def apply_outage_def peer_ok_def split: prod.splits)
  qed
  then show ?thesis
    by (auto simp: drain_at_out[OF po] u)
qed

text \<open>
  Transports that share a handle do not see each other's packets.  A drain for one owner returns
  only packets of peers that owner holds, and a peer held by another owner is left exactly as it was
  (or has expired).
\<close>

lemma drain_isolated:
  assumes "sc_ok n st" "hm_get (st_peers st) cid = Some peer" "sp_owner peer \<noteq> owner"
  shows "cid \<notin> fst ` set (fst (ServerConditionerHandle_drain_at st owner dir now))
    \<and> hm_get (st_peers (snd (ServerConditionerHandle_drain_at st owner dir now))) cid \<in> {Some peer, None}"
proof -
  obtain now' st' where po: "State_poll st now = (now', st')" by fastforce
  have wf: "bt_wf (st_peers st)" "bt_wf (st_peers st')"
    using assms(1) sc_ok_poll[OF assms(1) po] by (auto simp: sc_ok_def peers_ok_def)
  have sub: "set (st_peers st') \<subseteq> set (st_peers st)"
    using poll_peers[OF po wf(1)] by (auto split: if_splits)
  have uniq: "q = peer" if "(cid, q) \<in> set (st_peers st')" for q
    using that sub map_of_SomeD[OF assms(2)] eq_key_imp_eq_value[OF bt_wf_hm_wf[OF wf(1)]] by blast
  have get: "hm_get (st_peers st') cid \<in> {Some peer, None}"
    using uniq by (cases "hm_get (st_peers st') cid") (auto dest: map_of_SomeD)
  let ?f = "\<lambda>(_::server_peer_id) p. snd (drain_peer owner (map_option (\<lambda>u. u - now') (st_outage_until st')) dir now' p)"
  have st: "st_peers (snd (ServerConditionerHandle_drain_at st owner dir now)) = hm_map_values ?f (st_peers st')"
    by (simp add: ServerConditionerHandle_drain_at_def po Let_def case_prod_unfold hm_map_values_def)
  show ?thesis
    using get uniq assms(3) unfolding st hm_map_values_get drain_at_out[OF po]
    by (auto simp: drain_peer_def split: if_splits)
qed

lemma least_recent_least:
  "least_recent ps = Some p \<Longrightarrow> q \<in> set ps \<Longrightarrow> sp_last_seen (snd p) \<le> sp_last_seen (snd q)"
  by (induction ps arbitrary: p) (fastforce split: option.splits if_splits)+

lemma evict_excess_spec:
  assumes "bt_wf (st_peers st)"
  shows "length (st_peers (evict_excess st)) = min (length (st_peers st)) (scc_max_peers (st_config st))
    \<and> bt_wf (st_peers (evict_excess st))
    \<and> set (st_peers (evict_excess st)) \<subseteq> set (st_peers st)
    \<and> (\<forall>x \<in> set (st_peers st) - set (st_peers (evict_excess st)).
         \<forall>y \<in> set (st_peers (evict_excess st)). sp_last_seen (snd x) \<le> sp_last_seen (snd y))"
  using assms
proof (induction st rule: evict_excess.induct)
  case (1 st)
  show ?case
  proof (cases "length (st_peers st) > scc_max_peers (st_config st)")
    case True
    then obtain cid peer where l: "least_recent (st_peers st) = Some (cid, peer)"
      by (cases "least_recent (st_peers st)") auto
    let ?st = "State_retire st cid"
    have mem: "(cid, peer) \<in> set (st_peers st)"
      by (rule least_recent_in[OF l])
    have get: "hm_get (st_peers st) cid = Some peer"
      using mem bt_wf_hm_wf[OF "1.prems"] by (rule map_of_is_SomeI[rotated])
    have len: "length (st_peers ?st) = length (st_peers st) - 1"
      using bt.size_del[OF "1.prems", of cid] get by (simp add: retire_peers)
    have set: "set (st_peers ?st) = set (st_peers st) - {(cid, peer)}"
      using mem eq_key_imp_eq_value[OF bt_wf_hm_wf[OF "1.prems"]]
      by (auto simp: retire_peers AList.delete_eq)
    have wf: "bt_wf (st_peers ?st)"
      using "1.prems" by (simp add: retire_peers bt_wf_remove)
    note IH = "1.IH"[OF True l refl wf]
    have low: "sp_last_seen peer \<le> sp_last_seen (snd y)" if "y \<in> set (st_peers st)" for y
      using least_recent_least[OF l that] by simp
    have ord: "sp_last_seen (snd x) \<le> sp_last_seen (snd y)"
      if "x \<in> set (st_peers st)" "x \<notin> set (st_peers (evict_excess ?st))"
        "y \<in> set (st_peers (evict_excess ?st))" for x y
      using IH set low[of y] that by (cases "x = (cid, peer)") auto
    have "evict_excess st = evict_excess ?st"
      by (simp add: evict_excess.simps[of st] True l)
    then show ?thesis
      using IH True len set ord by (auto simp: retire_peers(2) min_def)
  next
    case False
    with "1.prems" show ?thesis
      by (simp add: evict_excess.simps[of st])
  qed
qed

text \<open>
  A valid reconfiguration that lowers the peer limit evicts exactly as many peers as needed, and
  none that was seen more recently than a survivor.
\<close>

lemma configure_evicts_least_recent:
  assumes "sc_ok n st" "ServerConditionerHandle_configure st config = (Ok (), st')"
    and "hm_get (st_peers st) a = Some p" "hm_get (st_peers st') a = None"
    and "hm_get (st_peers st') b = Some q"
  shows "length (st_peers st') = min (length (st_peers st)) (scc_max_peers config)
    \<and> sp_last_seen p \<le> sp_last_seen q"
proof -
  let ?f = "\<lambda>cid peer. peer\<lparr>sp_control := snd (ConditionerHandle_configure (sp_control peer)
                                (peer_config (scc_packets config) cid))\<rparr>"
  let ?st = "st\<lparr>st_peers := hm_map_values ?f (st_peers st), st_config := config,
                st_outage_until := None, st_next_cleanup := 0\<rparr>"
  have st': "st' = evict_excess ?st"
    using assms(2) by (auto simp: ServerConditionerHandle_configure_def split: sum.splits)
  have "bt_wf (st_peers ?st)"
    using assms(1) by (simp add: sc_ok_def peers_ok_def)
  note spec = evict_excess_spec[OF this, folded st']
  have "hm_get (st_peers ?st) a = Some (?f a p)"
    using assms(3) by (simp add: hm_map_values_get)
  then have "(a, ?f a p) \<in> set (st_peers ?st)"
    by (rule map_of_SomeD)
  moreover have "(a, ?f a p) \<notin> set (st_peers st')"
    using assms(4) by (auto simp: map_of_eq_None_iff image_iff)
  moreover have "(b, q) \<in> set (st_peers st')"
    using assms(5) by (rule map_of_SomeD)
  ultimately have "sp_last_seen (snd (a, ?f a p)) \<le> sp_last_seen (snd (b, q))"
    using spec by blast
  then show ?thesis
    using spec by simp
qed

end
