(* ===== verification/Packet_Gate.thy ===== *)
theory Packet_Gate
  imports Server_Conditioner
begin

text \<open>
  Packet interception (\<open>src/src/packet_io/\<close>).  A conditioner handle is shared: transports, the
  application and, in a mixed server, both backends hold it.  Handles therefore live in a store, a
  function from handle names to their state, that every operation takes and returns; a gate holds the
  name of the handle it is attached to.  \<open>elapsed\<close> is the reading of the clock the source takes.
\<close>

section \<open>The client's gate\<close>

type_synonym controls = "nat \<Rightarrow> control"

text \<open>The engine a gate owns, with the name of its handle.\<close>

type_synonym 't packet_gate = "(nat \<times> ('t \<times> bytes) engine) option"

definition PacketGate_default :: "'t packet_gate" where
  "PacketGate_default = None"

definition PacketGate_reset :: "'t packet_gate \<Rightarrow> controls \<Rightarrow> 't packet_gate \<times> controls" where
  "PacketGate_reset g cs =
     (case g of
        None \<Rightarrow> (None, cs)
      | Some (h, e) \<Rightarrow>
          (let (c, e') = PacketConditioner_clear_session (cs h) e in (Some (h, e'), cs(h := c))))"

definition PacketGate_detach :: "'t packet_gate \<Rightarrow> controls \<Rightarrow> 't packet_gate \<times> controls" where
  "PacketGate_detach g cs = (None, snd (PacketGate_reset g cs))"

definition PacketGate_attach :: "nat \<Rightarrow> 't packet_gate \<Rightarrow> controls \<Rightarrow> 't packet_gate \<times> controls" where
  "PacketGate_attach h g cs =
     (let cs1 = snd (PacketGate_detach g cs); (c, e) = PacketConditioner_new (cs1 h)
      in (Some (h, e), cs1(h := c)))"

definition PacketGate_handle :: "'t packet_gate \<Rightarrow> nat option" where
  "PacketGate_handle g = map_option fst g"

definition PacketGate_defer ::
  "direction \<Rightarrow> 't \<Rightarrow> bytes \<Rightarrow> duration \<Rightarrow> 't packet_gate \<Rightarrow> controls \<Rightarrow> bool \<times> 't packet_gate \<times> controls" where
  "PacketGate_defer dir metadata payload elapsed g cs =
     (case g of
        None \<Rightarrow> (False, None, cs)
      | Some (h, e) \<Rightarrow>
          (let (out, c, e') =
             PacketConditioner_enqueue (cs h) e dir elapsed (metadata, payload) (length payload)
           in (out = None, Some (h, e'), cs(h := c))))"

definition PacketGate_drain ::
  "direction \<Rightarrow> duration \<Rightarrow> 't packet_gate \<Rightarrow> controls \<Rightarrow> ('t \<times> bytes) list \<times> 't packet_gate \<times> controls" where
  "PacketGate_drain dir elapsed g cs =
     (case g of
        None \<Rightarrow> ([], None, cs)
      | Some (h, e) \<Rightarrow>
          (let (ready, c, e') = PacketConditioner_drain_ready (cs h) e dir elapsed
           in (ready, Some (h, e'), cs(h := c))))"

text \<open>Dropping the last owner of a gate clears the session in the handle.\<close>

definition PacketGate_drop :: "'t packet_gate \<Rightarrow> controls \<Rightarrow> controls" where
  "PacketGate_drop g cs = snd (PacketGate_reset g cs)"

section \<open>The server's gate\<close>

type_synonym handles = "nat \<Rightarrow> sc_state"

text \<open>The handle a gate is attached to and the owner identity it was given there.\<close>

type_synonym server_gate = "(nat \<times> u64) option"

definition ServerPacketGate_reset :: "server_gate \<Rightarrow> handles \<Rightarrow> handles" where
  "ServerPacketGate_reset g hs =
     (case g of
        None \<Rightarrow> hs
      | Some (h, owner) \<Rightarrow> hs(h := ServerConditionerHandle_remove_owner (hs h) owner))"

definition ServerPacketGate_detach :: "server_gate \<Rightarrow> handles \<Rightarrow> server_gate \<times> handles" where
  "ServerPacketGate_detach g hs = (None, ServerPacketGate_reset g hs)"

text \<open>\<open>None\<close> is the panic of \<open>allocate_owner\<close>.\<close>

definition ServerPacketGate_attach ::
  "nat \<Rightarrow> server_gate \<Rightarrow> handles \<Rightarrow> (server_gate \<times> handles) option" where
  "ServerPacketGate_attach h g hs =
     (let hs1 = snd (ServerPacketGate_detach g hs)
      in case ServerConditionerHandle_allocate_owner (hs1 h) of
           None \<Rightarrow> None
         | Some (owner, st) \<Rightarrow> Some (Some (h, owner), hs1(h := st)))"

definition ServerPacketGate_handle :: "server_gate \<Rightarrow> nat option" where
  "ServerPacketGate_handle g = map_option fst g"

definition ServerPacketGate_remove :: "server_peer_id \<Rightarrow> server_gate \<Rightarrow> handles \<Rightarrow> handles" where
  "ServerPacketGate_remove peer g hs =
     (case g of
        None \<Rightarrow> hs
      | Some (h, owner) \<Rightarrow> hs(h := ServerConditionerHandle_remove_peer (hs h) owner peer))"

definition ServerPacketGate_defer ::
  "direction \<Rightarrow> server_peer_id \<Rightarrow> bytes \<Rightarrow> duration \<Rightarrow> server_gate \<Rightarrow> handles \<Rightarrow> bool \<times> handles" where
  "ServerPacketGate_defer dir peer payload elapsed g hs =
     (case g of
        None \<Rightarrow> (False, hs)
      | Some (h, owner) \<Rightarrow>
          (let (taken, st) = ServerConditionerHandle_defer_at (hs h) owner dir peer payload elapsed
           in (taken, hs(h := st))))"

definition ServerPacketGate_queued_outgoing ::
  "server_peer_id \<Rightarrow> server_gate \<Rightarrow> handles \<Rightarrow> direction_stats" where
  "ServerPacketGate_queued_outgoing peer g hs =
     (case g of
        None \<Rightarrow> DirectionStats_default
      | Some (h, owner) \<Rightarrow> ServerConditionerHandle_queued_outgoing (hs h) owner peer)"

definition ServerPacketGate_drain ::
  "direction \<Rightarrow> duration \<Rightarrow> server_gate \<Rightarrow> handles \<Rightarrow> (server_peer_id \<times> bytes) list \<times> handles" where
  "ServerPacketGate_drain dir elapsed g hs =
     (case g of
        None \<Rightarrow> ([], hs)
      | Some (h, owner) \<Rightarrow>
          (let (ready, st) = ServerConditionerHandle_drain_at (hs h) owner dir elapsed
           in (ready, hs(h := st))))"

section \<open>Lemmas\<close>

lemma server_gate_other_handles:
  assumes "\<And>owner. g \<noteq> Some (h, owner)"
  shows "snd (ServerPacketGate_defer dir peer payload t g hs) h = hs h"
    "snd (ServerPacketGate_drain dir t g hs) h = hs h"
    "ServerPacketGate_remove peer g hs h = hs h" "ServerPacketGate_reset g hs h = hs h"
  using assms
  by (auto simp: ServerPacketGate_defer_def ServerPacketGate_drain_def ServerPacketGate_remove_def
      ServerPacketGate_reset_def split: option.split prod.split)

lemma removed_owner_gone:
  "sp_owner ` snd ` set (st_peers (ServerConditionerHandle_remove_owner st owner)) \<subseteq> - {owner}"
proof -
  have peers: "st_peers (foldl State_retire st ids) = foldl (\<lambda>m cid. hm_remove cid m) (st_peers st) ids"
    for ids
    by (induction ids arbitrary: st) (simp_all add: retire_peers)
  have sub: "set (foldl (\<lambda>m cid. hm_remove cid m) m ids) \<subseteq> {x \<in> set m. fst x \<notin> set ids}"
    for ids and m :: "(server_peer_id \<times> sc_peer) list"
  proof (induction ids arbitrary: m)
    case (Cons k ids)
    have "set (hm_remove k m) \<subseteq> {x \<in> set m. fst x \<noteq> k}"
      by (auto simp: AList.delete_eq)
    with Cons[of "hm_remove k m"] show ?case by auto
  qed simp
  show ?thesis
    unfolding ServerConditionerHandle_remove_owner_def peers
    by (force dest!: subsetD[OF sub])
qed

lemma poll_keeps_peers: "set (st_peers (snd (State_poll st now))) \<subseteq> set (st_peers st)"
proof -
  have fold: "set (st_peers (foldl expire_peer st' ids)) \<subseteq> set (st_peers st')" for st' ids
  proof (induction ids arbitrary: st')
    case (Cons k ids)
    have "set (st_peers (expire_peer st' k)) \<subseteq> set (st_peers st')"
      by (auto simp: expire_peer_def retire_peers AList.delete_eq)
    with Cons[of "expire_peer st' k"] show ?case by simp
  qed simp
  show ?thesis
    by (auto simp: State_poll_def Let_def dest!: subsetD[OF fold] split: if_splits)
qed

lemma drain_unowned:
  assumes "sp_owner ` snd ` set (st_peers st) \<subseteq> - {owner}"
  shows "fst (ServerConditionerHandle_drain_at st owner dir now) = []"
proof -
  obtain now' st' where poll: "State_poll st now = (now', st')" by fastforce
  have "sp_owner peer \<noteq> owner" if "(cid, peer) \<in> set (st_peers st')" for cid peer
    using poll_keeps_peers[of st now] that assms by (force simp: poll)
  then show ?thesis
    by (auto simp: ServerConditionerHandle_drain_at_def poll drain_peer_def Let_def)
qed

lemma client_gate_reset_empty:
  "fst (PacketGate_drain dir t (fst (PacketGate_reset g cs)) (snd (PacketGate_reset g cs))) = []"
  by (auto simp: PacketGate_drain_def PacketGate_reset_def PacketConditioner_clear_session_def
      PacketConditioner_drain_ready_def PacketConditioner_sync_def Let_def split: option.split prod.split)

lemma server_gate_reset_empty:
  "fst (ServerPacketGate_drain dir t g (ServerPacketGate_reset g hs)) = []"
  by (auto simp: ServerPacketGate_drain_def ServerPacketGate_reset_def
      drain_unowned[OF removed_owner_gone] split: option.split prod.split
      dest: arg_cong[of _ _ fst])

end
