(* ===== verification/Egress.thy ===== *)
theory Egress
  imports Net
begin

text \<open>
  Transport-boundary pacing (\<open>src/src/egress.rs\<close>): a token bucket per destination, a shared
  overflow bucket once \<open>MAX_PEERS\<close> destinations are tracked, and the statistics.  Clock readings
  (\<open>Egress::now\<close>) are arguments.  The locale \<open>paced\<close> states what makes a resource rate limited
  and derives the ceiling on a whole run of requests; it is interpreted on one bucket and on the
  traffic of one destination through the whole table.
\<close>

unbundle bit_operations_syntax

section \<open>Configuration and statistics\<close>

datatype egress_basis = NativeUdpIp | EncryptedLogical

record egress_config =
  ec_basis :: egress_basis
  ec_bytes_per_second :: nat
  ec_burst_bytes :: nat
  ec_control_reserve_bytes :: nat

datatype egress_config_error = InvalidBudget | BasisMismatch

definition EgressConfig_new ::
  "egress_basis \<Rightarrow> nat \<Rightarrow> nat \<Rightarrow> nat \<Rightarrow> (egress_config_error, egress_config) result" where
  "EgressConfig_new b bps burst reserve =
     (if \<not> (1 \<le> bps \<and> bps \<le> 1000000000)
         \<or> \<not> (2048 \<le> burst \<and> burst \<le> 67108864)
         \<or> reserve < 256
         \<or> reserve > burst - 1448
      then Err InvalidBudget
      else Ok \<lparr>ec_basis = b, ec_bytes_per_second = bps, ec_burst_bytes = burst,
               ec_control_reserve_bytes = reserve\<rparr>)"

record egress_stats =
  es_basis :: egress_basis
  es_config :: "egress_config option"
  es_sent_packets :: nat
  es_encrypted_logical_bytes :: nat
  es_native_udp_ip_bytes :: nat
  es_control_packets :: nat
  es_pacing_drops :: nat
  es_cap_drops :: nat
  es_backend_drops :: nat
  es_deferred_packets :: nat
  es_peer_capacity_packets :: nat

definition EgressStats_new :: "egress_basis \<Rightarrow> egress_stats" where
  "EgressStats_new b =
     \<lparr>es_basis = b, es_config = None, es_sent_packets = 0, es_encrypted_logical_bytes = 0,
      es_native_udp_ip_bytes = 0, es_control_packets = 0, es_pacing_drops = 0, es_cap_drops = 0,
      es_backend_drops = 0, es_deferred_packets = 0, es_peer_capacity_packets = 0\<rparr>"

record egress_allowance =
  ea_basis :: egress_basis
  ea_config :: "egress_config option"
  ea_available_data_bytes :: nat
  ea_maximum_data_bytes :: nat
  ea_ip_udp_overhead :: nat

definition EgressAllowance_reserve_queued ::
  "egress_allowance \<Rightarrow> nat \<Rightarrow> nat \<Rightarrow> egress_allowance" where
  "EgressAllowance_reserve_queued a logical_bytes packets =
     (let committed = sat_add64 logical_bytes (sat_mul64 packets (ea_ip_udp_overhead a))
      in a\<lparr>ea_available_data_bytes := ea_available_data_bytes a - committed\<rparr>)"

section \<open>One token bucket\<close>

text \<open>Credit is kept in byte-nanoseconds (\<open>u128\<close>): one byte is \<open>NANOS\<close> of them.\<close>

record bucket =
  bk_credit :: nat
  bk_at :: duration
  bk_stats :: egress_stats

definition cap_credit :: "egress_config \<Rightarrow> nat" where
  "cap_credit c = ec_burst_bytes c * NANOS"

definition Bucket_new :: "egress_basis \<Rightarrow> egress_config option \<Rightarrow> duration \<Rightarrow> bucket" where
  "Bucket_new b config at =
     \<lparr>bk_credit = (case config of None \<Rightarrow> 0 | Some c \<Rightarrow> cap_credit c),
      bk_at = at,
      bk_stats = (EgressStats_new b)\<lparr>es_config := config\<rparr>\<rparr>"

definition refill :: "bucket \<Rightarrow> egress_config \<Rightarrow> duration \<Rightarrow> nat" where
  "refill b c now =
     min (sat_add128 (bk_credit b) (sat_mul128 (now - bk_at b) (ec_bytes_per_second c)))
         (cap_credit c)"

definition Bucket_allowance :: "bucket \<Rightarrow> duration \<Rightarrow> egress_allowance" where
  "Bucket_allowance b now =
     (let (available, maximum) =
        (case es_config (bk_stats b) of
           None \<Rightarrow> (U64_MAX, U64_MAX)
         | Some c \<Rightarrow>
             (let credit = refill b c now div NANOS
              in (as_u64 credit - ec_control_reserve_bytes c,
                  ec_burst_bytes c - ec_control_reserve_bytes c)))
      in \<lparr>ea_basis = es_basis (bk_stats b), ea_config = es_config (bk_stats b),
          ea_available_data_bytes = available, ea_maximum_data_bytes = maximum,
          ea_ip_udp_overhead = 0\<rparr>)"

definition Bucket_admit :: "bucket \<Rightarrow> nat \<Rightarrow> bool \<Rightarrow> duration \<Rightarrow> bool \<times> bucket" where
  "Bucket_admit b bytes control now =
     (case es_config (bk_stats b) of
        None \<Rightarrow> (True, b)
      | Some c \<Rightarrow>
          (let b1 = b\<lparr>bk_at := max (bk_at b) now, bk_credit := refill b c now\<rparr>;
               reserve = (if control then 0 else ec_control_reserve_bytes c);
               s = bk_stats b1
           in if bytes > ec_burst_bytes c - reserve
              then (False, b1\<lparr>bk_stats := s\<lparr>es_cap_drops := sat_add64 (es_cap_drops s) 1\<rparr>\<rparr>)
              else if bk_credit b1 < (bytes + reserve) * NANOS
              then (False, b1\<lparr>bk_stats := s\<lparr>es_pacing_drops := sat_add64 (es_pacing_drops s) 1\<rparr>\<rparr>)
              else (True, b1\<lparr>bk_credit := bk_credit b1 - bytes * NANOS\<rparr>)))"

section \<open>The table of destinations\<close>

definition MAX_PEERS :: nat where
  "MAX_PEERS = 4096"

record 'k egress =
  eg_basis :: egress_basis
  eg_config :: "egress_config option"
  eg_buckets :: "('k \<times> bucket) list"
  eg_overflow :: bucket
  eg_total :: egress_stats

definition Egress_new :: "egress_basis \<Rightarrow> 'k egress" where
  "Egress_new b =
     \<lparr>eg_basis = b, eg_config = None, eg_buckets = [], eg_overflow = Bucket_new b None 0,
      eg_total = EgressStats_new b\<rparr>"

definition reconfigure_bucket :: "egress_config option \<Rightarrow> duration \<Rightarrow> bucket \<Rightarrow> bucket" where
  "reconfigure_bucket config now b =
     b\<lparr>bk_credit := min (bk_credit b) (case config of None \<Rightarrow> 0 | Some c \<Rightarrow> cap_credit c),
       bk_at := now,
       bk_stats := (bk_stats b)\<lparr>es_config := config\<rparr>\<rparr>"

definition Egress_configure ::
  "'k egress \<Rightarrow> egress_config option \<Rightarrow> duration \<Rightarrow> (egress_config_error, 'k egress) result" where
  "Egress_configure e config now =
     (if is_some_and (\<lambda>c. ec_basis c \<noteq> eg_basis e) config then Err BasisMismatch
      else Ok (e\<lparr>eg_buckets := hm_map_values (\<lambda>_. reconfigure_bucket config now) (eg_buckets e),
                 eg_overflow := reconfigure_bucket config now (eg_overflow e),
                 eg_config := config,
                 eg_total := (eg_total e)\<lparr>es_config := config\<rparr>\<rparr>))"

definition Egress_peer_stats :: "'k egress \<Rightarrow> 'k \<Rightarrow> egress_stats option" where
  "Egress_peer_stats e k = map_option bk_stats (hm_get (eg_buckets e) k)"

definition Egress_peer_allowance :: "'k egress \<Rightarrow> 'k \<Rightarrow> duration \<Rightarrow> egress_allowance" where
  "Egress_peer_allowance e k now =
     (case hm_get (eg_buckets e) k of
        Some b \<Rightarrow> Bucket_allowance b now
      | None \<Rightarrow>
          if length (eg_buckets e) \<ge> MAX_PEERS then Bucket_allowance (eg_overflow e) now
          else Bucket_allowance (Bucket_new (eg_basis e) (eg_config e) now) now)"

text \<open>
  \<open>Egress::bucket\<close> hands out a mutable reference into the table: \<open>with_bucket\<close> is that access
  followed by the update the caller makes through it.
\<close>

definition ensure_bucket :: "'k egress \<Rightarrow> 'k \<Rightarrow> duration \<Rightarrow> 'k egress" where
  "ensure_bucket e k now =
     (if \<not> hm_contains (eg_buckets e) k \<and> length (eg_buckets e) < MAX_PEERS
      then e\<lparr>eg_buckets := hm_insert k (Bucket_new (eg_basis e) (eg_config e) now) (eg_buckets e)\<rparr>
      else e)"

definition with_bucket ::
  "'k egress \<Rightarrow> 'k \<Rightarrow> duration \<Rightarrow> (bucket \<Rightarrow> 'r \<times> bucket) \<Rightarrow> 'r \<times> 'k egress" where
  "with_bucket e k now f =
     (let e1 = ensure_bucket e k now in
      case hm_get (eg_buckets e1) k of
        Some b \<Rightarrow> (let (r, b') = f b in (r, e1\<lparr>eg_buckets := hm_insert k b' (eg_buckets e1)\<rparr>))
      | None \<Rightarrow> (let (r, b') = f (eg_overflow e1) in (r, e1\<lparr>eg_overflow := b'\<rparr>)))"

definition is_control :: "bytes \<Rightarrow> bool" where
  "is_control payload = (case payload of [] \<Rightarrow> False | b # _ \<Rightarrow> b AND 0x0f \<noteq> 5)"

definition Egress_admit_at ::
  "'k egress \<Rightarrow> 'k \<Rightarrow> bytes \<Rightarrow> nat \<Rightarrow> duration \<Rightarrow> bool \<times> 'k egress" where
  "Egress_admit_at e k payload overhead now =
     (let e0 = (if length (eg_buckets e) = MAX_PEERS \<and> \<not> hm_contains (eg_buckets e) k
                then e\<lparr>eg_total := (eg_total e)
                         \<lparr>es_peer_capacity_packets := sat_add64 (es_peer_capacity_packets (eg_total e)) 1\<rparr>\<rparr>
                else e);
          control = is_control payload;
          charge = length payload + overhead;
          ((accepted, pacing, cap), e1) =
            with_bucket e0 k now (\<lambda>b.
              (let before = bk_stats b; (accepted, b') = Bucket_admit b charge control now
               in ((accepted, es_pacing_drops (bk_stats b') - es_pacing_drops before,
                    es_cap_drops (bk_stats b') - es_cap_drops before), b')));
          t = eg_total e1
      in (accepted,
          e1\<lparr>eg_total := t\<lparr>es_pacing_drops := sat_add64 (es_pacing_drops t) pacing,
                           es_cap_drops := sat_add64 (es_cap_drops t) cap\<rparr>\<rparr>))"

definition record_send :: "egress_stats \<Rightarrow> bytes \<Rightarrow> nat \<Rightarrow> bool \<Rightarrow> egress_stats" where
  "record_send s payload overhead sent =
     (if sent then
        (let s1 = s\<lparr>es_sent_packets := sat_add64 (es_sent_packets s) 1,
                    es_encrypted_logical_bytes :=
                      sat_add64 (es_encrypted_logical_bytes s) (length payload)\<rparr>;
             s2 = (if es_basis s1 = NativeUdpIp
                   then s1\<lparr>es_native_udp_ip_bytes :=
                             sat_add64 (es_native_udp_ip_bytes s1) (length payload + overhead)\<rparr>
                   else s1)
         in if is_control payload
            then s2\<lparr>es_control_packets := sat_add64 (es_control_packets s2) 1\<rparr>
            else s2)
      else s\<lparr>es_backend_drops := sat_add64 (es_backend_drops s) 1\<rparr>)"

definition Egress_complete ::
  "'k egress \<Rightarrow> 'k \<Rightarrow> bytes \<Rightarrow> nat \<Rightarrow> bool \<Rightarrow> duration \<Rightarrow> 'k egress" where
  "Egress_complete e k payload overhead sent now =
     (let (_, e1) = with_bucket e k now (\<lambda>b.
                      ((), b\<lparr>bk_stats := record_send (bk_stats b) payload overhead sent\<rparr>))
      in e1\<lparr>eg_total := record_send (eg_total e1) payload overhead sent\<rparr>)"

section \<open>Rate-limited resources\<close>

text \<open>
  A resource that grants at most the credit it holds plus what accrues at a fixed rate.  \<open>step\<close>
  answers one request with the amount it grants; \<open>clock\<close> is the time up to which credit has
  accrued, never beyond the horizon \<open>T\<close>.
\<close>

primrec run_granted :: "('s \<Rightarrow> 'q \<Rightarrow> nat \<times> 's) \<Rightarrow> 's \<Rightarrow> 'q list \<Rightarrow> nat" where
  "run_granted step s [] = 0"
| "run_granted step s (q # qs) = (let (g, s') = step s q in g + run_granted step s' qs)"

locale paced =
  fixes step :: "'s \<Rightarrow> 'q \<Rightarrow> nat \<times> 's"
    and credit :: "'s \<Rightarrow> nat"
    and clock :: "'s \<Rightarrow> nat"
    and rate :: nat
    and T :: nat
    and good :: "'s \<Rightarrow> bool"
    and allowed :: "'q \<Rightarrow> bool"
  assumes good_step: "good s \<Longrightarrow> allowed q \<Longrightarrow> good (snd (step s q))"
    and spend: "good s \<Longrightarrow> allowed q \<Longrightarrow>
      fst (step s q) + credit (snd (step s q)) \<le> credit s + rate * (clock (snd (step s q)) - clock s)"
    and clock_mono: "good s \<Longrightarrow> allowed q \<Longrightarrow> clock s \<le> clock (snd (step s q))"
    and clock_le: "good s \<Longrightarrow> clock s \<le> T"
begin

lemma ceiling:
  assumes "good s" "list_all allowed qs"
  shows "run_granted step s qs \<le> credit s + rate * (T - clock s)"
  using assms
proof (induction qs arbitrary: s)
  case Nil
  show ?case by simp
next
  case (Cons q qs)
  obtain g s' where st: "step s q = (g, s')"
    by (cases "step s q")
  from Cons.prems have ok: "good s" "allowed q"
    by simp_all
  have IH: "run_granted step s' qs \<le> credit s' + rate * (T - clock s')"
    using Cons good_step[OF ok] st by simp
  have sp: "g + credit s' \<le> credit s + rate * (clock s' - clock s)"
    using spend[OF ok] st by simp
  have "clock s \<le> clock s'" "clock s' \<le> T"
    using clock_mono[OF ok] clock_le[OF good_step[OF ok]] st by simp_all
  then have "rate * (clock s' - clock s) + rate * (T - clock s') = rate * (T - clock s)"
    by (simp flip: add_mult_distrib2)
  with IH sp show ?case
    by (simp add: st)
qed

text \<open>What a client of the resource has spent stays within a budget that accrues from \<open>t0\<close> on.\<close>

definition within :: "nat \<Rightarrow> nat \<Rightarrow> nat \<Rightarrow> 's \<Rightarrow> bool" where
  "within B t0 spent s \<longleftrightarrow> t0 \<le> clock s \<and> spent + credit s \<le> B + rate * (clock s - t0)"

lemma within_step:
  assumes "good s" "allowed q" "within B t0 spent s" "step s q = (g, s')"
  shows "within B t0 (spent + g) s'"
proof -
  have mono: "clock s \<le> clock s'" and sp: "g + credit s' \<le> credit s + rate * (clock s' - clock s)"
    using clock_mono[OF assms(1,2)] spend[OF assms(1,2)] assms(4) by simp_all
  have "rate * (clock s' - clock s) + rate * (clock s - t0) = rate * (clock s' - t0)"
    using assms(3) mono by (simp add: within_def flip: add_mult_distrib2)
  with sp mono assms(3) show ?thesis
    by (simp add: within_def)
qed

lemma within_bound: "good s \<Longrightarrow> within B t0 spent s \<Longrightarrow> spent \<le> B + rate * (T - t0)"
  using mult_le_mono2[OF diff_le_mono[OF clock_le], of s rate t0] unfolding within_def by linarith

end

section \<open>Properties of one bucket\<close>

definition egress_config_ok :: "egress_config \<Rightarrow> bool" where
  "egress_config_ok c \<longleftrightarrow>
     EgressConfig_new (ec_basis c) (ec_bytes_per_second c) (ec_burst_bytes c)
       (ec_control_reserve_bytes c) = Ok c"

lemma egress_config_okD:
  assumes "egress_config_ok c"
  shows "1 \<le> ec_bytes_per_second c" "ec_bytes_per_second c \<le> 1000000000"
    "2048 \<le> ec_burst_bytes c" "ec_burst_bytes c \<le> 67108864"
    "256 \<le> ec_control_reserve_bytes c" "ec_control_reserve_bytes c + 1448 \<le> ec_burst_bytes c"
  using assms by (auto simp: egress_config_ok_def EgressConfig_new_def split: if_splits)

lemma EgressConfig_new_ok: "EgressConfig_new b r u v = Ok c \<Longrightarrow> egress_config_ok c"
  by (auto simp: egress_config_ok_def EgressConfig_new_def split: if_splits)

definition bucket_ok :: "egress_config option \<Rightarrow> bucket \<Rightarrow> bool" where
  "bucket_ok config b \<longleftrightarrow>
     es_config (bk_stats b) = config
     \<and> bk_credit b \<le> (case config of None \<Rightarrow> 0 | Some c \<Rightarrow> cap_credit c)"

lemma bucket_ok_new [inv_intro]: "bucket_ok config (Bucket_new b config at)"
  by (simp add: bucket_ok_def Bucket_new_def)

lemma refill_le: "refill b c now \<le> bk_credit b + ec_bytes_per_second c * (now - bk_at b)"
  by (simp add: refill_def sat_add128_def sat_mul128_def mult.commute)

lemma refill_cap: "refill b c now \<le> cap_credit c"
  by (simp add: refill_def)

lemma Bucket_admit_config [frame_simps]:
  "es_config (bk_stats (snd (Bucket_admit b n ctl now))) = es_config (bk_stats b)"
  by (simp add: Bucket_admit_def Let_def split: option.split)

lemma Bucket_admit_ok [inv_intro]:
  "bucket_ok config b \<Longrightarrow> bucket_ok config (snd (Bucket_admit b n ctl now))"
  using refill_cap[of b]
  by (auto simp: bucket_ok_def Bucket_admit_def Let_def split: option.splits
      intro: diff_le_self[THEN le_trans])

lemma Bucket_admit_at:
  "es_config (bk_stats b) = Some c \<Longrightarrow> bk_at (snd (Bucket_admit b n ctl now)) = max (bk_at b) now"
  by (simp add: Bucket_admit_def Let_def)

lemma Bucket_admit_spend:
  assumes "es_config (bk_stats b) = Some c" "Bucket_admit b n ctl now = (acc, b')"
  shows "(if acc then n * NANOS else 0) + bk_credit b' = refill b c now"
  using assms by (auto simp: Bucket_admit_def Let_def add_mult_distrib split: if_splits)

definition bucket_step :: "bucket \<Rightarrow> nat \<times> bool \<times> duration \<Rightarrow> nat \<times> bucket" where
  "bucket_step b q = (case q of (n, ctl, now) \<Rightarrow>
     (case Bucket_admit b n ctl now of (acc, b') \<Rightarrow> (if acc then n * NANOS else 0, b')))"

lemma refill_spend:
  "refill b c now \<le> bk_credit b + ec_bytes_per_second c * (max (bk_at b) now - bk_at b)"
  using refill_le[of b c now] by (cases "bk_at b \<le> now") (simp_all add: max_def)

interpretation bkt: paced bucket_step bk_credit bk_at "ec_bytes_per_second c" T
  "\<lambda>b. es_config (bk_stats b) = Some c \<and> bk_at b \<le> T" "\<lambda>(n, ctl, now). now \<le> T" for c T
proof (unfold_locales, goal_cases)
  case (1 s q)
  then show ?case
    using Bucket_admit_config Bucket_admit_at
    by (auto simp: bucket_step_def split: prod.splits; metis snd_conv max.bounded_iff)
next
  case (2 s q)
  obtain n ctl now where q: "q = (n, ctl, now)" by (cases q)
  obtain acc b' where ad: "Bucket_admit s n ctl now = (acc, b')" by fastforce
  have "bk_at b' = max (bk_at s) now"
    using Bucket_admit_at[of s c n ctl now] 2 ad by simp
  then show ?case
    using Bucket_admit_spend[OF _ ad] refill_spend[of s c now] 2
    by (simp add: bucket_step_def q ad)
next
  case (3 s q)
  then show ?case
    using Bucket_admit_at[of s c]
    by (auto simp: bucket_step_def split: prod.splits; metis snd_conv max.cobounded1)
qed simp

section \<open>The table's invariant\<close>

definition all_buckets :: "'k egress \<Rightarrow> bucket set" where
  "all_buckets e = insert (eg_overflow e) (snd ` set (eg_buckets e))"

definition egress_ok :: "'k egress \<Rightarrow> bool" where
  "egress_ok e \<longleftrightarrow>
     hm_wf (eg_buckets e) \<and> length (eg_buckets e) \<le> MAX_PEERS
     \<and> (\<forall>b \<in> all_buckets e. bucket_ok (eg_config e) b)
     \<and> es_config (eg_total e) = eg_config e"

text \<open>The bucket a key is served from, and the table once that bucket has been updated.\<close>

definition bucket_for :: "'k egress \<Rightarrow> 'k \<Rightarrow> duration \<Rightarrow> bucket" where
  "bucket_for e k now =
     (case hm_get (eg_buckets e) k of
        Some b \<Rightarrow> b
      | None \<Rightarrow> if length (eg_buckets e) < MAX_PEERS
                then Bucket_new (eg_basis e) (eg_config e) now else eg_overflow e)"

definition put_bucket :: "'k egress \<Rightarrow> 'k \<Rightarrow> bucket \<Rightarrow> 'k egress" where
  "put_bucket e k b =
     (if hm_contains (eg_buckets e) k \<or> length (eg_buckets e) < MAX_PEERS
      then e\<lparr>eg_buckets := hm_insert k b (eg_buckets e)\<rparr> else e\<lparr>eg_overflow := b\<rparr>)"

lemma with_bucket_eq:
  "with_bucket e k now f = (let (r, b) = f (bucket_for e k now) in (r, put_bucket e k b))"
  by (auto simp: with_bucket_def ensure_bucket_def bucket_for_def put_bucket_def hm_contains_def
      Let_def update_conv' split: option.splits prod.splits)

lemma peer_allowance_eq: "Egress_peer_allowance e k now = Bucket_allowance (bucket_for e k now) now"
  by (simp add: Egress_peer_allowance_def bucket_for_def split: option.split)

lemma put_bucket_frame [frame_simps]:
  "eg_config (put_bucket e k b) = eg_config e" "eg_basis (put_bucket e k b) = eg_basis e"
  "eg_total (put_bucket e k b) = eg_total e"
  by (simp_all add: put_bucket_def)

lemma all_buckets_total [simp]: "all_buckets (e\<lparr>eg_total := t\<rparr>) = all_buckets e"
  by (simp add: all_buckets_def)

lemma all_buckets_put: "all_buckets (put_bucket e k b) \<subseteq> insert b (all_buckets e)"
  using set_hm_insert_values[of k b "eg_buckets e"] by (auto simp: put_bucket_def all_buckets_def)

lemma bucket_for_cases:
  "bucket_for e k now \<in> all_buckets e
   \<or> bucket_for e k now = Bucket_new (eg_basis e) (eg_config e) now"
proof (cases "hm_get (eg_buckets e) k")
  case (Some b)
  then have "b \<in> snd ` set (eg_buckets e)"
    by (force dest: map_of_SomeD)
  with Some show ?thesis
    by (simp add: bucket_for_def all_buckets_def)
qed (simp add: bucket_for_def all_buckets_def)

lemma bucket_for_ok: "egress_ok e \<Longrightarrow> bucket_ok (eg_config e) (bucket_for e k now)"
  using bucket_for_cases[of e k now] by (auto simp: egress_ok_def intro: inv_intro)

lemma egress_ok_put:
  assumes "egress_ok e" "bucket_ok (eg_config e) b"
  shows "egress_ok (put_bucket e k b)"
proof -
  have "length (hm_insert k b (eg_buckets e)) \<le> MAX_PEERS"
    if "hm_contains (eg_buckets e) k \<or> length (eg_buckets e) < MAX_PEERS"
    using assms that by (intro hm.guarded_put_bound) (auto simp: egress_ok_def hm_contains_def)
  moreover have "hm_wf (hm_insert k b (eg_buckets e))"
    using assms by (simp add: egress_ok_def distinct_update)
  moreover have "\<forall>b' \<in> all_buckets (put_bucket e k b). bucket_ok (eg_config e) b'"
    using assms all_buckets_put[of e k b] by (auto simp: egress_ok_def)
  ultimately show ?thesis
    using assms by (simp add: egress_ok_def put_bucket_def all_buckets_def)
qed

lemma egress_ok_total:
  "egress_ok e \<Longrightarrow> es_config t = eg_config e \<Longrightarrow> egress_ok (e\<lparr>eg_total := t\<rparr>)"
  by (simp add: egress_ok_def)

text \<open>\<open>admit_at\<close> and \<open>complete\<close> are one bucket update, up to the totals.\<close>

definition admit_totals :: "'k egress \<Rightarrow> 'k \<Rightarrow> egress_stats \<Rightarrow> egress_stats \<Rightarrow> egress_stats" where
  "admit_totals e k s s' =
     (let t = eg_total e;
          t0 = (if length (eg_buckets e) = MAX_PEERS \<and> \<not> hm_contains (eg_buckets e) k
                then t\<lparr>es_peer_capacity_packets := sat_add64 (es_peer_capacity_packets t) 1\<rparr> else t)
      in t0\<lparr>es_pacing_drops := sat_add64 (es_pacing_drops t) (es_pacing_drops s' - es_pacing_drops s),
            es_cap_drops := sat_add64 (es_cap_drops t) (es_cap_drops s' - es_cap_drops s)\<rparr>)"

lemma admit_at_eq:
  "Egress_admit_at e k payload overhead now =
     (let b = bucket_for e k now;
          (acc, b') = Bucket_admit b (length payload + overhead) (is_control payload) now
      in (acc, (put_bucket e k b')\<lparr>eg_total := admit_totals e k (bk_stats b) (bk_stats b')\<rparr>))"
proof -
  have for0: "bucket_for (e\<lparr>eg_total := t\<rparr>) k now = bucket_for e k now" for t
    by (simp add: bucket_for_def split: option.split)
  have put0: "put_bucket (e\<lparr>eg_total := t\<rparr>) k b = (put_bucket e k b)\<lparr>eg_total := t\<rparr>" for b t
    by (simp add: put_bucket_def)
  obtain acc b where ad:
    "Bucket_admit (bucket_for e k now) (length payload + overhead) (is_control payload) now = (acc, b)"
    by fastforce
  show ?thesis
    by (simp add: Egress_admit_at_def with_bucket_eq for0 ad put0 Let_def admit_totals_def frame_simps)
qed

lemma complete_eq:
  "Egress_complete e k payload overhead sent now =
     (let b = bucket_for e k now
      in (put_bucket e k (b\<lparr>bk_stats := record_send (bk_stats b) payload overhead sent\<rparr>))
           \<lparr>eg_total := record_send (eg_total e) payload overhead sent\<rparr>)"
  by (simp add: Egress_complete_def with_bucket_eq Let_def frame_simps)

lemma admit_totals_config [simp]: "es_config (admit_totals e k s s') = es_config (eg_total e)"
  by (simp add: admit_totals_def Let_def)

lemma record_send_config [simp]: "es_config (record_send s payload overhead sent) = es_config s"
  by (simp add: record_send_def Let_def)

lemma admit_at_keeps [inv_intro]:
  assumes "egress_ok e"
  shows "egress_ok (snd (Egress_admit_at e k payload overhead now))"
proof -
  let ?b = "snd (Bucket_admit (bucket_for e k now) (length payload + overhead) (is_control payload) now)"
  have "egress_ok (put_bucket e k ?b)"
    by (intro egress_ok_put assms inv_intro bucket_for_ok)
  then show ?thesis
    using assms
    by (auto simp: admit_at_eq Let_def frame_simps egress_ok_def[of e] split: prod.splits
        intro!: egress_ok_total)
qed

lemma complete_keeps [inv_intro]:
  assumes "egress_ok e"
  shows "egress_ok (Egress_complete e k payload overhead sent now)"
  using assms bucket_for_ok[OF assms, of k now]
  by (auto simp: complete_eq Let_def frame_simps egress_ok_def[of e] bucket_ok_def
      intro!: egress_ok_total egress_ok_put)

lemma new_ok [inv_intro]: "egress_ok (Egress_new b)"
  by (simp add: egress_ok_def Egress_new_def all_buckets_def bucket_ok_def Bucket_new_def
      EgressStats_new_def)

lemma configure_ok:
  "Egress_configure e config now = Ok e' \<Longrightarrow>
     e' = e\<lparr>eg_buckets := hm_map_values (\<lambda>_. reconfigure_bucket config now) (eg_buckets e),
            eg_overflow := reconfigure_bucket config now (eg_overflow e),
            eg_config := config, eg_total := (eg_total e)\<lparr>es_config := config\<rparr>\<rparr>"
  by (auto simp: Egress_configure_def split: if_splits)

lemma configure_buckets:
  "Egress_configure e config now = Ok e' \<Longrightarrow>
     all_buckets e' = reconfigure_bucket config now ` all_buckets e"
  by (frule configure_ok)
    (simp add: all_buckets_def hm_map_values_range)

lemma reconfigure_ok: "bucket_ok config (reconfigure_bucket config now b)"
  by (simp add: bucket_ok_def reconfigure_bucket_def)

lemma configure_keeps [inv_intro]:
  assumes "egress_ok e" "Egress_configure e config now = Ok e'"
  shows "egress_ok e'"
  using assms configure_buckets[OF assms(2)] configure_ok[OF assms(2)]
  by (auto simp: egress_ok_def reconfigure_ok)

section \<open>The ceiling of one destination\<close>

text \<open>
  What a destination may still be granted: its bucket's credit once tracked, a full burst while
  there is room to track it, and the shared overflow bucket's credit afterwards.
\<close>

definition dest_bucket :: "'k egress \<Rightarrow> 'k \<Rightarrow> bucket option" where
  "dest_bucket e k =
     (case hm_get (eg_buckets e) k of
        Some b \<Rightarrow> Some b
      | None \<Rightarrow> if length (eg_buckets e) < MAX_PEERS then None else Some (eg_overflow e))"

definition dest_credit :: "egress_config \<Rightarrow> 'k \<Rightarrow> 'k egress \<Rightarrow> nat" where
  "dest_credit c k e = (case dest_bucket e k of None \<Rightarrow> cap_credit c | Some b \<Rightarrow> bk_credit b)"

definition dest_clock :: "duration \<Rightarrow> 'k \<Rightarrow> 'k egress \<Rightarrow> duration" where
  "dest_clock t0 k e = (case dest_bucket e k of None \<Rightarrow> t0 | Some b \<Rightarrow> bk_at b)"

datatype 'k egress_op =
    AdmitOp 'k bytes nat duration
  | CompleteOp 'k bytes nat bool duration

primrec op_time :: "'k egress_op \<Rightarrow> duration" where
  "op_time (AdmitOp _ _ _ now) = now"
| "op_time (CompleteOp _ _ _ _ now) = now"

text \<open>One call on the table: what it grants to the destination \<open>k\<close>, in byte-nanoseconds.\<close>

primrec egress_step :: "'k \<Rightarrow> 'k egress \<Rightarrow> 'k egress_op \<Rightarrow> nat \<times> 'k egress" where
  "egress_step k e (AdmitOp k' payload overhead now) =
     (case Egress_admit_at e k' payload overhead now of
        (acc, e') \<Rightarrow> (if acc \<and> k' = k then (length payload + overhead) * NANOS else 0, e'))"
| "egress_step k e (CompleteOp k' payload overhead sent now) =
     (0, Egress_complete e k' payload overhead sent now)"

definition egress_good :: "egress_config \<Rightarrow> duration \<Rightarrow> duration \<Rightarrow> 'k egress \<Rightarrow> bool" where
  "egress_good c t0 T e \<longleftrightarrow>
     egress_ok e \<and> eg_config e = Some c \<and> t0 \<le> T
     \<and> (\<forall>b \<in> all_buckets e. t0 \<le> bk_at b \<and> bk_at b \<le> T)"

lemma dest_bucket_total [simp]: "dest_bucket (e\<lparr>eg_total := t\<rparr>) k = dest_bucket e k"
  by (simp add: dest_bucket_def split: option.split)

lemma dest_credit_total [simp]: "dest_credit c k (e\<lparr>eg_total := t\<rparr>) = dest_credit c k e"
  and dest_clock_total [simp]: "dest_clock t0 k (e\<lparr>eg_total := t\<rparr>) = dest_clock t0 k e"
  by (simp_all add: dest_credit_def dest_clock_def)

lemma bucket_for_dest:
  "bucket_for e k now =
     (case dest_bucket e k of None \<Rightarrow> Bucket_new (eg_basis e) (eg_config e) now | Some b \<Rightarrow> b)"
  by (simp add: bucket_for_def dest_bucket_def split: option.split)

lemma dest_bucket_in: "dest_bucket e k = Some b \<Longrightarrow> b \<in> all_buckets e"
  using bucket_for_cases[of e k] unfolding bucket_for_dest
  by (force simp: dest_bucket_def all_buckets_def split: option.splits if_splits
      dest: map_of_SomeD)

lemma dest_bucket_put:
  assumes "hm_wf (eg_buckets e)" "length (eg_buckets e) \<le> MAX_PEERS"
  shows "dest_bucket (put_bucket e k b) k = Some b"
    and "k' \<noteq> k \<Longrightarrow>
      dest_bucket (put_bucket e k b) k' = dest_bucket e k'
      \<or> dest_bucket (put_bucket e k b) k' = Some b
        \<and> dest_bucket e k' = dest_bucket e k \<and> dest_bucket e k \<noteq> None
      \<or> dest_bucket (put_bucket e k b) k' = Some (eg_overflow e) \<and> dest_bucket e k' = None"
  using assms
  by (auto simp: dest_bucket_def put_bucket_def hm_contains_def hm.get_put hm.size_put
      split: option.splits if_splits)

lemma egress_good_put:
  assumes "egress_good c t0 T e" "bucket_ok (Some c) b" "t0 \<le> bk_at b" "bk_at b \<le> T"
  shows "egress_good c t0 T (put_bucket e k b)"
  using assms all_buckets_put[of e k b] egress_ok_put[of e b k]
  by (auto simp: egress_good_def frame_simps)

lemma egress_good_total:
  "egress_good c t0 T e \<Longrightarrow> es_config t = Some c \<Longrightarrow> egress_good c t0 T (e\<lparr>eg_total := t\<rparr>)"
  by (simp add: egress_good_def egress_ok_total)

lemma dest_put_spend:
  assumes good: "egress_good c t0 T e" and time: "t0 \<le> now"
    and ok: "bucket_ok (Some c) b'" and at: "bk_at (bucket_for e k' now) \<le> bk_at b'"
    and spend: "g + bk_credit b' \<le> bk_credit (bucket_for e k' now)
                  + ec_bytes_per_second c * (bk_at b' - bk_at (bucket_for e k' now))"
  defines "e' \<equiv> put_bucket e k' b'"
  shows "(if k' = k then g else 0) + dest_credit c k e'
           \<le> dest_credit c k e + ec_bytes_per_second c * (dest_clock t0 k e' - dest_clock t0 k e)"
    and "dest_clock t0 k e \<le> dest_clock t0 k e'"
proof -
  have wf: "hm_wf (eg_buckets e)" "length (eg_buckets e) \<le> MAX_PEERS" "eg_config e = Some c"
    using good by (auto simp: egress_good_def egress_ok_def)
  have overflow: "bk_credit (eg_overflow e) \<le> cap_credit c" "t0 \<le> bk_at (eg_overflow e)"
    using good by (auto simp: egress_good_def egress_ok_def bucket_ok_def all_buckets_def)
  have mono: "r * (x - now) \<le> r * (x - t0)" for r x :: nat
    using time by (intro mult_le_mono2 diff_le_mono2)
  consider (served) "dest_bucket e' k = Some b'" "dest_bucket e k = dest_bucket e k'"
    | (other) "k' \<noteq> k" "dest_bucket e' k = dest_bucket e k"
    | (filled) "k' \<noteq> k" "dest_bucket e' k = Some (eg_overflow e)" "dest_bucket e k = None"
  proof (cases "k' = k")
    case True
    then show ?thesis
      using that(1) dest_bucket_put(1)[OF wf(1,2), where k = k' and b = b'] by (simp add: e'_def)
  next
    case False
    then show ?thesis
      using that dest_bucket_put(2)[OF wf(1,2), where k = k' and b = b' and k' = k]
      unfolding e'_def by argo
  qed
  then have both: "(if k' = k then g else 0) + dest_credit c k e'
           \<le> dest_credit c k e + ec_bytes_per_second c * (dest_clock t0 k e' - dest_clock t0 k e)
         \<and> dest_clock t0 k e \<le> dest_clock t0 k e'"
  proof cases
    case served
    show ?thesis
    proof (cases "dest_bucket e k'")
      case None
      then have "bucket_for e k' now = Bucket_new (eg_basis e) (Some c) now"
        by (simp add: bucket_for_dest wf)
      then have "g + bk_credit b' \<le> cap_credit c + ec_bytes_per_second c * (bk_at b' - t0)"
        "t0 \<le> bk_at b'"
        using spend at time mono[of "ec_bytes_per_second c" "bk_at b'"]
        by (auto simp: Bucket_new_def intro: order_trans simp del: mult_le_cancel1)
      then show ?thesis
        using None served by (simp add: dest_credit_def dest_clock_def)
    next
      case (Some b)
      then have "bucket_for e k' now = b"
        by (simp add: bucket_for_dest)
      then show ?thesis
        using Some served spend at by (simp add: dest_credit_def dest_clock_def)
    qed
  next
    case other
    then show ?thesis by (simp add: dest_credit_def dest_clock_def)
  next
    case filled
    then show ?thesis using overflow by (simp add: dest_credit_def dest_clock_def)
  qed
  then show "(if k' = k then g else 0) + dest_credit c k e'
           \<le> dest_credit c k e + ec_bytes_per_second c * (dest_clock t0 k e' - dest_clock t0 k e)"
    and "dest_clock t0 k e \<le> dest_clock t0 k e'"
    by blast+
qed

lemma bucket_for_good:
  assumes "egress_good c t0 T e" "t0 \<le> now" "now \<le> T"
  shows "bucket_ok (Some c) (bucket_for e k now)"
    and "t0 \<le> bk_at (bucket_for e k now)" "bk_at (bucket_for e k now) \<le> T"
  using assms bucket_for_ok[of e k now] bucket_for_cases[of e k now]
  by (auto simp: egress_good_def Bucket_new_def)

text \<open>Every call on the table is one bucket update within the time window.\<close>

lemma egress_step_update:
  assumes good: "egress_good c t0 T e" and time: "t0 \<le> op_time q" "op_time q \<le> T"
  obtains k' b' g t where
    "egress_step k e q = (if k' = k then g else 0, (put_bucket e k' b')\<lparr>eg_total := t\<rparr>)"
    "es_config t = Some c" "bucket_ok (Some c) b'" "t0 \<le> bk_at b'" "bk_at b' \<le> T"
    "bk_at (bucket_for e k' (op_time q)) \<le> bk_at b'"
    "g + bk_credit b' \<le> bk_credit (bucket_for e k' (op_time q))
       + ec_bytes_per_second c * (bk_at b' - bk_at (bucket_for e k' (op_time q)))"
proof (cases q)
  case (AdmitOp k' payload overhead now)
  let ?b = "bucket_for e k' now" and ?n = "length payload + overhead"
  obtain acc b' where ad: "Bucket_admit ?b ?n (is_control payload) now = (acc, b')"
    by fastforce
  have b: "bucket_ok (Some c) ?b" "t0 \<le> bk_at ?b" "bk_at ?b \<le> T"
    using bucket_for_good[OF good] time AdmitOp by auto
  then have conf: "es_config (bk_stats ?b) = Some c"
    by (simp add: bucket_ok_def)
  have "bucket_ok (Some c) b'" "bk_at b' = max (bk_at ?b) now"
    using Bucket_admit_ok[OF b(1), of ?n "is_control payload" now]
      Bucket_admit_at[OF conf, of ?n "is_control payload" now] ad by simp_all
  moreover have "es_config (admit_totals e k' (bk_stats ?b) (bk_stats b')) = Some c"
    using good by (simp add: egress_good_def egress_ok_def)
  ultimately show thesis
    using that[of k' "if acc then ?n * NANOS else 0" "admit_totals e k' (bk_stats ?b) (bk_stats b')" b'] ad b time AdmitOp
      Bucket_admit_spend[OF conf ad] refill_spend[of ?b c now]
    by (simp add: admit_at_eq)
next
  case (CompleteOp k' payload overhead sent now)
  let ?b = "bucket_for e k' now"
  let ?b' = "?b\<lparr>bk_stats := record_send (bk_stats ?b) payload overhead sent\<rparr>"
  have b: "bucket_ok (Some c) ?b" "t0 \<le> bk_at ?b" "bk_at ?b \<le> T"
    using bucket_for_good[OF good] time CompleteOp by auto
  then show thesis
    using that[of k' 0 "record_send (eg_total e) payload overhead sent" ?b'] good CompleteOp
    by (simp add: complete_eq Let_def bucket_ok_def egress_good_def egress_ok_def)
qed

interpretation dest: paced "egress_step k" "dest_credit c k" "dest_clock t0 k"
  "ec_bytes_per_second c" T "egress_good c t0 T" "\<lambda>q. t0 \<le> op_time q \<and> op_time q \<le> T"
  for k c t0 T
proof (unfold_locales, goal_cases)
  case (1 e q)
  from egress_step_update[OF 1(1), of q k] 1 show ?case
    by (metis egress_good_put egress_good_total snd_conv)
next
  case (2 e q)
  with egress_step_update[OF 2(1), of q k] obtain k' b' g t where
    "egress_step k e q = (if k' = k then g else 0, (put_bucket e k' b')\<lparr>eg_total := t\<rparr>)"
    "bucket_ok (Some c) b'" "bk_at (bucket_for e k' (op_time q)) \<le> bk_at b'"
    "g + bk_credit b' \<le> bk_credit (bucket_for e k' (op_time q))
       + ec_bytes_per_second c * (bk_at b' - bk_at (bucket_for e k' (op_time q)))"
    by metis
  then show ?case
    using dest_put_spend(1)[OF 2(1), of "op_time q" b' k' g k] 2(2) by simp
next
  case (3 e q)
  with egress_step_update[OF 3(1), of q k] obtain k' b' g t where
    "egress_step k e q = (if k' = k then g else 0, (put_bucket e k' b')\<lparr>eg_total := t\<rparr>)"
    "bucket_ok (Some c) b'" "bk_at (bucket_for e k' (op_time q)) \<le> bk_at b'"
    "g + bk_credit b' \<le> bk_credit (bucket_for e k' (op_time q))
       + ec_bytes_per_second c * (bk_at b' - bk_at (bucket_for e k' (op_time q)))"
    by metis
  then show ?case
    using dest_put_spend(2)[OF 3(1), of "op_time q" b' k' g k] 3(2) by simp
next
  case (4 e)
  then show ?case
    by (auto simp: egress_good_def dest_clock_def split: option.split dest: dest_bucket_in)
qed

abbreviation dest_within where
  "dest_within k c t0 \<equiv> paced.within (dest_credit c k) (dest_clock t0 k) (ec_bytes_per_second c)"

lemma configure_within:
  assumes "egress_good c t0 T e"
  shows "dest_within k c t0 (cap_credit c) t0 0 e"
  using assms
  by (auto simp: dest.within_def egress_good_def egress_ok_def bucket_ok_def dest_credit_def dest_clock_def
      trans_le_add1 split: option.split dest: dest_bucket_in)

lemma configure_good:
  assumes "egress_ok e" "Egress_configure e (Some c) t0 = Ok e'" "t0 \<le> T"
  shows "egress_good c t0 T e'"
  using configure_keeps[OF assms(1,2)] configure_ok[OF assms(2)] configure_buckets[OF assms(2)] assms(3)
  by (auto simp: egress_good_def reconfigure_bucket_def)

section \<open>Every operation keeps the invariant\<close>

datatype 'k egress_call = Send "'k egress_op" | Configure "egress_config option" duration

definition egress_call_step :: "'k egress \<Rightarrow> 'k egress_call \<Rightarrow> 'k egress" where
  "egress_call_step e q = (case q of
     Send (AdmitOp k payload overhead now) \<Rightarrow> snd (Egress_admit_at e k payload overhead now)
   | Send (CompleteOp k payload overhead sent now) \<Rightarrow> Egress_complete e k payload overhead sent now
   | Configure config now \<Rightarrow> (case Egress_configure e config now of Err _ \<Rightarrow> e | Ok e' \<Rightarrow> e'))"

interpretation egr: step_invariant egress_call_step egress_ok
  by unfold_locales
    (auto simp: egress_call_step_def split: egress_call.split egress_op.split sum.split
      intro: inv_intro)

section \<open>Theorems\<close>

lemma admitted_iff:
  "es_config (bk_stats b) = Some c \<Longrightarrow>
   fst (Bucket_admit b n ctl now) \<longleftrightarrow>
     n \<le> ec_burst_bytes c - (if ctl then 0 else ec_control_reserve_bytes c)
     \<and> (n + (if ctl then 0 else ec_control_reserve_bytes c)) * NANOS \<le> refill b c now"
  by (auto simp: Bucket_admit_def Let_def)

lemma nanos_div_le: "n * NANOS \<le> x \<longleftrightarrow> n \<le> x div NANOS"
  by (simp add: less_eq_div_iff_mult_less_eq)

lemma data_admission:
  assumes "es_config (bk_stats b) = Some c" "egress_config_ok c" "0 < n"
  shows "fst (Bucket_admit b n False now) \<longleftrightarrow> n \<le> ea_available_data_bytes (Bucket_allowance b now)"
proof -
  have "refill b c now div NANOS \<le> ec_burst_bytes c"
    using refill_cap[of b c now] by (simp add: cap_credit_def NANOS_def)
  moreover from this have "as_u64 (refill b c now div NANOS) = refill b c now div NANOS"
    using egress_config_okD[OF assms(2)] by (simp add: as_u64_def)
  ultimately show ?thesis
    using assms by (auto simp: admitted_iff nanos_div_le Bucket_allowance_def)
qed

lemma admit_at_accepts:
  "fst (Egress_admit_at e k payload overhead now) =
     fst (Bucket_admit (bucket_for e k now) (length payload + overhead) (is_control payload) now)"
  by (simp add: admit_at_eq Let_def split: prod.split)

text \<open>
  C5: once a policy is set at time \<open>t0\<close>, whatever the interleaving of admissions and completions
  for all destinations, the bytes admitted to one destination up to time \<open>T\<close> never exceed the burst
  plus the configured rate times the elapsed time.  The bound holds whether the destination has its
  own bucket, gets one later or shares the overflow bucket, and for clock readings in any order.
\<close>

theorem egress_ceiling:
  assumes "egress_ok e" "Egress_configure e (Some c) t0 = Ok e'" "t0 \<le> T"
    and "list_all (\<lambda>q. t0 \<le> op_time q \<and> op_time q \<le> T) qs"
  shows "run_granted (egress_step k) e' qs
           \<le> ec_burst_bytes c * NANOS + ec_bytes_per_second c * (T - t0)"
proof -
  have good: "egress_good c t0 T e'"
    by (rule configure_good) fact+
  have "dest_credit c k e' \<le> cap_credit c"
    using good by (auto simp: egress_good_def egress_ok_def bucket_ok_def dest_credit_def
        split: option.split dest: dest_bucket_in)
  moreover have "dest_clock t0 k e' \<ge> t0"
    using good by (auto simp: egress_good_def dest_clock_def split: option.split dest: dest_bucket_in)
  then have "ec_bytes_per_second c * (T - dest_clock t0 k e') \<le> ec_bytes_per_second c * (T - t0)"
    by (intro mult_le_mono2 diff_le_mono2)
  ultimately show ?thesis
    using dest.ceiling[OF good assms(4), of k] unfolding cap_credit_def by linarith
qed

definition sample_config :: egress_config where
  "sample_config = \<lparr>ec_basis = NativeUdpIp, ec_bytes_per_second = 2000, ec_burst_bytes = 4096,
                    ec_control_reserve_bytes = 512\<rparr>"

definition sample_egress :: "nat egress" where
  "sample_egress = (Egress_new NativeUdpIp)
     \<lparr>eg_overflow := \<lparr>bk_credit = 0, bk_at = 5,
                       bk_stats = (EgressStats_new NativeUdpIp)\<lparr>es_config := Some sample_config\<rparr>\<rparr>,
      eg_config := Some sample_config,
      eg_total := (EgressStats_new NativeUdpIp)\<lparr>es_config := Some sample_config\<rparr>\<rparr>"

lemma sample_egress_configured:
  "Egress_configure (Egress_new NativeUdpIp) (Some sample_config) 5 = Ok sample_egress"
  by (simp add: Egress_configure_def Egress_new_def sample_config_def sample_egress_def
      hm_map_values_def reconfigure_bucket_def Bucket_new_def)

lemma sample_egress_ok: "egress_ok sample_egress"
  by (rule configure_keeps[OF new_ok sample_egress_configured])

lemma sample_config_ok: "egress_config_ok sample_config"
  by (simp add: egress_config_ok_def EgressConfig_new_def sample_config_def)

theorem egress_ceiling_witness:
  "run_granted (egress_step 7) sample_egress
     [AdmitOp 7 (replicate 1200 5) 28 10, AdmitOp 8 [] 28 11, CompleteOp 7 [5] 28 True 12]
     \<le> 4096 * NANOS + 2000 * (20 - 5)"
  using egress_ceiling[OF new_ok sample_egress_configured, of 20
      "[AdmitOp 7 (replicate 1200 5) 28 10, AdmitOp 8 [] 28 11, CompleteOp 7 [5] 28 True 12]" 7]
  by (simp add: sample_config_def)

text \<open>
  C23: the read-only allowance is exact.  A data packet of a positive charge is admitted to a
  destination at some instant if and only if its charge is at most the data bytes the allowance of
  that destination reports at that instant, although the allowance neither tracks the destination
  nor refills anything.
\<close>

theorem allowance_exact:
  assumes "egress_ok e" "eg_config e = Some c" "egress_config_ok c"
    and "\<not> is_control payload" "0 < length payload + overhead"
  shows "fst (Egress_admit_at e k payload overhead now) \<longleftrightarrow>
           length payload + overhead \<le> ea_available_data_bytes (Egress_peer_allowance e k now)"
  using assms bucket_for_ok[OF assms(1), of k now]
  by (simp add: admit_at_accepts peer_allowance_eq bucket_ok_def data_admission del: add_gr_0)

theorem allowance_exact_witness:
  "fst (Egress_admit_at sample_egress 7 [5, 1, 2] 28 10) \<longleftrightarrow>
     31 \<le> ea_available_data_bytes (Egress_peer_allowance sample_egress 7 10)"
  using allowance_exact[OF sample_egress_ok _ sample_config_ok, of "[5, 1, 2]" 28 7 10]
  by (simp add: sample_egress_def is_control_def)

text \<open>
  C24: data cannot spend the control reserve.  Right after a data packet has been admitted to a
  destination, a control packet (handshake, keep-alive, disconnect) whose charge is within the
  reserve is still admitted to it, at whatever time it is sent.
\<close>

theorem control_reserve_kept:
  assumes "egress_ok e" "eg_config e = Some c" "egress_config_ok c"
    and "\<not> is_control data" "Egress_admit_at e k data overhead now = (True, e')"
    and "is_control ctl" "length ctl + overhead' \<le> ec_control_reserve_bytes c"
  shows "fst (Egress_admit_at e' k ctl overhead' now')"
proof -
  let ?b = "bucket_for e k now"
  obtain b' where ad: "Bucket_admit ?b (length data + overhead) False now = (True, b')"
    and e': "e' = (put_bucket e k b')\<lparr>eg_total := admit_totals e k (bk_stats ?b) (bk_stats b')\<rparr>"
    using assms(4,5) by (auto simp: admit_at_eq Let_def split: prod.splits)
  have conf: "es_config (bk_stats ?b) = Some c"
    using bucket_for_ok[OF assms(1), of k now] assms(2) by (simp add: bucket_ok_def)
  have "ec_control_reserve_bytes c * NANOS \<le> bk_credit b'"
    using admitted_iff[OF conf, of "length data + overhead" False now]
      Bucket_admit_spend[OF conf ad] ad by (simp add: add_mult_distrib)
  moreover have "es_config (bk_stats b') = Some c"
    using Bucket_admit_config[of ?b "length data + overhead" False now] ad conf by simp
  moreover have "bucket_for e' k now' = b'"
    using dest_bucket_put(1)[of e k b'] assms(1) by (simp add: e' bucket_for_dest egress_ok_def)
  moreover have "bk_credit b' \<le> cap_credit c"
    using Bucket_admit_spend[OF conf ad] refill_cap[of ?b c now] by simp
  then have "bk_credit b' \<le> refill b' c now'"
    using egress_config_okD[OF assms(3)]
    by (simp add: refill_def cap_credit_def sat_add128_def U128_MAX_def NANOS_def)
  ultimately have conf': "es_config (bk_stats (bucket_for e' k now')) = Some c"
    and "ec_control_reserve_bytes c * NANOS \<le> refill (bucket_for e' k now') c now'"
    by simp_all
  from mult_le_mono1[OF assms(7), of NANOS] this(2)
  have "(length ctl + overhead') * NANOS \<le> refill (bucket_for e' k now') c now'"
    by (rule order_trans)
  with conf' show ?thesis
    using assms(6,7) egress_config_okD[OF assms(3)] by (simp add: admit_at_accepts admitted_iff)
qed

definition sample_egress' :: "nat egress" where
  "sample_egress' = snd (Egress_admit_at sample_egress 7 [5, 1, 2] 28 10)"

theorem control_reserve_kept_witness:
  "fst (Egress_admit_at sample_egress' 7 (6 # replicate 15 0) 28 3)"
proof -
  have "fst (Egress_admit_at sample_egress 7 [5, 1, 2] 28 10)"
    by (simp add: admit_at_accepts sample_egress_def bucket_for_def MAX_PEERS_def Bucket_new_def
        Egress_new_def Bucket_admit_def refill_def is_control_def sample_config_def cap_credit_def
        arith_defs)
  then have "Egress_admit_at sample_egress 7 [5, 1, 2] 28 10 = (True, sample_egress')"
    by (simp add: sample_egress'_def prod_eq_iff)
  from control_reserve_kept[OF sample_egress_ok _ sample_config_ok _ this,
      of "6 # replicate 15 0" 28 3] show ?thesis
    by (simp add: sample_egress_def is_control_def sample_config_def)
qed

text \<open>
  C25: over every sequence of admissions, completions and reconfigurations of a fresh table, at
  most 4096 destinations are tracked, each once, every bucket follows the current policy and holds
  at most one burst of credit.
\<close>

theorem egress_run_invariant:
  fixes calls :: "'k egress_call list" and basis :: egress_basis
  defines "e \<equiv> run_state egress_call_step (Egress_new basis) calls"
  shows "length (eg_buckets e) \<le> 4096 \<and> distinct (map fst (eg_buckets e))
    \<and> (eg_config e = None \<or> (\<exists>c. eg_config e = Some c
         \<and> all_buckets e \<subseteq> {b. es_config (bk_stats b) = Some c
              \<and> bk_credit b \<le> ec_burst_bytes c * NANOS}))"
  using egr.run_inv[OF new_ok, of basis calls, folded e_def]
  by (cases "eg_config e")
    (auto simp: egress_ok_def bucket_ok_def MAX_PEERS_def cap_credit_def)

text \<open>
  A reconfiguration never restores spent credit: it fails without effect exactly when the
  accounting basis differs, and otherwise the overflow bucket and every destination keep at most the
  credit they had, nothing at all when pacing is switched off, and the same destinations stay tracked.
\<close>

lemma configure_never_mints:
  "(case Egress_configure e config now of
      Err err \<Rightarrow> err = BasisMismatch \<and> (\<exists>c. config = Some c \<and> ec_basis c \<noteq> eg_basis e)
    | Ok e' \<Rightarrow>
        (case config of None \<Rightarrow> True | Some c \<Rightarrow> ec_basis c = eg_basis e)
        \<and> map fst (eg_buckets e') = map fst (eg_buckets e)
        \<and> bk_credit (eg_overflow e') \<le> bk_credit (eg_overflow e)
        \<and> map_option bk_credit (hm_get (eg_buckets e') k) =
            map_option (\<lambda>b. min (bk_credit b) (case config of None \<Rightarrow> 0 | Some c \<Rightarrow> cap_credit c))
              (hm_get (eg_buckets e) k))"
  by (auto simp: Egress_configure_def reconfigure_bucket_def hm_map_values_get option.map_comp
      comp_def is_some_and_def split: option.splits intro!: option.map_cong)

end
