(* ===== verification/Transport_Env.thy ===== *)
theory Transport_Env
  imports Packet_Gate Egress
begin

text \<open>
  What the transports call but the repository does not contain: \<open>renetcode::NetcodeServer\<close>,
  \<open>renet::RenetServer\<close>, the operating system's UDP socket and its clocks.  Each is an abstract state
  with the operations the source uses, collected in the record \<open>env\<close> that the transport definitions
  take as an argument (\<open>nc_max_packet_bytes\<close> is \<open>NETCODE_MAX_PACKET_BYTES\<close>); errors the source
  only logs are \<open>None\<close>.  The record \<open>shared\<close> holds what is
  shared between transports: the Renet server, the store of conditioner handles and the clock.
  The bounded receive loop (\<open>src/src/udp_io.rs\<close>) is here too.
\<close>

section \<open>The environment\<close>

datatype server_authentication = AuthUnsecure | AuthSecure bytes

record server_config =
  vc_current_time :: duration
  vc_max_clients :: nat
  vc_protocol_id :: u64
  vc_public_addresses :: "socket_addr list"
  vc_authentication :: server_authentication

record ('n, 'r, 's, 'c) env =
  nc_max_packet_bytes :: nat
  nc_new :: "server_config \<Rightarrow> 'n"
  nc_update :: "duration \<Rightarrow> 'n \<Rightarrow> 'n"
  nc_process_packet :: "socket_addr \<Rightarrow> bytes \<Rightarrow> 'n \<Rightarrow> server_result \<times> 'n"
  nc_update_client :: "client_id \<Rightarrow> 'n \<Rightarrow> server_result \<times> 'n"
  nc_disconnect :: "client_id \<Rightarrow> 'n \<Rightarrow> server_result \<times> 'n"
  nc_generate_payload_packet :: "client_id \<Rightarrow> bytes \<Rightarrow> 'n \<Rightarrow> (socket_addr \<times> bytes) option \<times> 'n"
  nc_clients_id :: "'n \<Rightarrow> client_id list"
  nc_client_addr :: "client_id \<Rightarrow> 'n \<Rightarrow> socket_addr option"
  nc_addresses :: "'n \<Rightarrow> socket_addr list"
  nc_set_max_clients :: "nat \<Rightarrow> 'n \<Rightarrow> 'n"
  rs_is_connected :: "client_id \<Rightarrow> 'r \<Rightarrow> bool"
  rs_add_connection :: "client_id \<Rightarrow> 'r \<Rightarrow> 'r"
  rs_remove_connection :: "client_id \<Rightarrow> 'r \<Rightarrow> 'r"
  rs_process_packet_from :: "bytes \<Rightarrow> client_id \<Rightarrow> 'r \<Rightarrow> 'r"
  rs_get_packets_to_send :: "client_id \<Rightarrow> 'r \<Rightarrow> bytes list option \<times> 'r"
  rs_disconnections_id :: "'r \<Rightarrow> client_id list"
  so_set_nonblocking :: "'s \<Rightarrow> (io_error_kind, unit) result \<times> 's"
  so_local_addr :: "'s \<Rightarrow> (io_error_kind, socket_addr) result"
  so_recv_from :: "'s \<Rightarrow> (io_error_kind, bytes \<times> socket_addr) result \<times> 's"
  so_send_to :: "bytes \<Rightarrow> socket_addr \<Rightarrow> 's \<Rightarrow> (io_error_kind, nat) result \<times> 's"
  ck_now :: "'c \<Rightarrow> duration \<times> 'c"
  ck_elapsed :: "nat \<Rightarrow> 'c \<Rightarrow> duration \<times> 'c"

record ('r, 'c) shared =
  sh_renet :: 'r
  sh_handles :: handles
  sh_clock :: 'c

section \<open>Gates with the clock read\<close>

definition gate_defer ::
  "('n, 'r, 's, 'c, 'x) env_scheme \<Rightarrow> server_gate \<Rightarrow> direction \<Rightarrow> server_peer_id \<Rightarrow> bytes
    \<Rightarrow> ('r, 'c, 'z) shared_scheme \<Rightarrow> bool \<times> ('r, 'c, 'z) shared_scheme" where
  "gate_defer E g dir peer payload s =
     (case g of
        None \<Rightarrow> (False, s)
      | Some (h, _) \<Rightarrow>
          (let (t, c) = ck_elapsed E h (sh_clock s);
               (taken, hs) = ServerPacketGate_defer dir peer payload t g (sh_handles s)
           in (taken, s\<lparr>sh_handles := hs, sh_clock := c\<rparr>)))"

definition gate_drain ::
  "('n, 'r, 's, 'c, 'x) env_scheme \<Rightarrow> server_gate \<Rightarrow> direction
    \<Rightarrow> ('r, 'c, 'z) shared_scheme \<Rightarrow> (server_peer_id \<times> bytes) list \<times> ('r, 'c, 'z) shared_scheme" where
  "gate_drain E g dir s =
     (case g of
        None \<Rightarrow> ([], s)
      | Some (h, _) \<Rightarrow>
          (let (t, c) = ck_elapsed E h (sh_clock s);
               (ready, hs) = ServerPacketGate_drain dir t g (sh_handles s)
           in (ready, s\<lparr>sh_handles := hs, sh_clock := c\<rparr>)))"

definition gate_remove ::
  "server_gate \<Rightarrow> server_peer_id \<Rightarrow> ('r, 'c, 'z) shared_scheme \<Rightarrow> ('r, 'c, 'z) shared_scheme" where
  "gate_remove g peer s = s\<lparr>sh_handles := ServerPacketGate_remove peer g (sh_handles s)\<rparr>"

definition gate_reset ::
  "server_gate \<Rightarrow> ('r, 'c, 'z) shared_scheme \<Rightarrow> ('r, 'c, 'z) shared_scheme" where
  "gate_reset g s = s\<lparr>sh_handles := ServerPacketGate_reset g (sh_handles s)\<rparr>"

section \<open>Monitored Renet servers\<close>

text \<open>
  A Renet server that also records the connections added to it and not yet removed, and whether one
  was ever added while the server already reported it connected.
\<close>

record 'r monitored =
  mo_renet :: 'r
  mo_held :: "client_id list"
  mo_violated :: bool

definition monitor ::
  "('n, 'r, 's, 'c, 'x) env_scheme \<Rightarrow> ('n, 'r monitored, 's, 'c) env" where
  "monitor E =
     \<lparr>nc_max_packet_bytes = nc_max_packet_bytes E, nc_new = nc_new E, nc_update = nc_update E, nc_process_packet = nc_process_packet E,
      nc_update_client = nc_update_client E, nc_disconnect = nc_disconnect E,
      nc_generate_payload_packet = nc_generate_payload_packet E, nc_clients_id = nc_clients_id E,
      nc_client_addr = nc_client_addr E, nc_addresses = nc_addresses E,
      nc_set_max_clients = nc_set_max_clients E,
      rs_is_connected = (\<lambda>cid m. rs_is_connected E cid (mo_renet m)),
      rs_add_connection = (\<lambda>cid m. \<lparr>mo_renet = rs_add_connection E cid (mo_renet m),
                                   mo_held = List.insert cid (mo_held m),
                                   mo_violated = (mo_violated m \<or> rs_is_connected E cid (mo_renet m))\<rparr>),
      rs_remove_connection = (\<lambda>cid m. m\<lparr>mo_renet := rs_remove_connection E cid (mo_renet m),
                                       mo_held := removeAll cid (mo_held m)\<rparr>),
      rs_process_packet_from = (\<lambda>p cid m. m\<lparr>mo_renet := rs_process_packet_from E p cid (mo_renet m)\<rparr>),
      rs_get_packets_to_send = (\<lambda>cid m. case rs_get_packets_to_send E cid (mo_renet m) of
                                  (ps, r) \<Rightarrow> (ps, m\<lparr>mo_renet := r\<rparr>)),
      rs_disconnections_id = (\<lambda>m. rs_disconnections_id E (mo_renet m)),
      so_set_nonblocking = so_set_nonblocking E, so_local_addr = so_local_addr E,
      so_recv_from = so_recv_from E, so_send_to = so_send_to E,
      ck_now = ck_now E, ck_elapsed = ck_elapsed E\<rparr>"

section \<open>Bounded receive attempts\<close>

fun receive_with_budget ::
  "nat \<Rightarrow> ('s \<Rightarrow> (io_error_kind, unit) result \<times> 's) \<Rightarrow> 's \<Rightarrow> (io_error_kind, unit) result \<times> 's" where
  "receive_with_budget 0 receive s = (Ok (), s)"
| "receive_with_budget (Suc n) receive s =
     (case receive s of
        (Ok _, s') \<Rightarrow> receive_with_budget n receive s'
      | (Err kind, s') \<Rightarrow>
          if kind = WouldBlock then (Ok (), s')
          else if kind = Interrupted \<or> kind = ConnectionReset then receive_with_budget n receive s'
          else (Err kind, s'))"

definition after_attempts :: "('s \<Rightarrow> 'o \<times> 's) \<Rightarrow> nat \<Rightarrow> 's \<Rightarrow> 's" where
  "after_attempts receive n s = ((\<lambda>s. snd (receive s)) ^^ n) s"

lemma after_attempts_simps [simp]:
  "after_attempts receive 0 s = s"
  "after_attempts receive (Suc n) s = after_attempts receive n (snd (receive s))"
  by (simp_all add: after_attempts_def funpow_Suc_right del: funpow.simps)

text \<open>An outcome that ends the loop, with what the loop then returns.\<close>

definition ends_with :: "(io_error_kind, unit) result \<Rightarrow> (io_error_kind, unit) result \<Rightarrow> bool" where
  "ends_with outcome res \<longleftrightarrow>
     outcome = Err WouldBlock \<and> res = Ok ()
     \<or> (\<exists>kind. outcome = Err kind \<and> res = Err kind
          \<and> kind \<notin> {WouldBlock, Interrupted, ConnectionReset})"

lemma budget_invariant:
  assumes "\<And>s. I s \<Longrightarrow> I (snd (receive s))" "I s"
  shows "I (snd (receive_with_budget n receive s))"
  using assms(2)
proof (induction n arbitrary: s)
  case (Suc n)
  have "I (snd (receive s))" by (rule assms(1)[OF Suc.prems])
  then show ?case
    using Suc.IH by (auto split: prod.splits sum.splits)
qed simp

text \<open>
  The receive loop makes at most \<open>limit\<close> attempts, successful or not: exactly \<open>limit\<close>, unless
  an attempt finds the socket empty (the loop then succeeds) or fails with an error other than an
  interrupted call or a reset (the loop then returns that error).
\<close>

lemma receive_budget:
  "\<exists>n\<le>limit. snd (receive_with_budget limit receive s) = after_attempts receive n s
     \<and> (n = limit \<and> fst (receive_with_budget limit receive s) = Ok ()
        \<or> (\<exists>m<n. n = Suc m \<and> ends_with (fst (receive (after_attempts receive m s)))
                                 (fst (receive_with_budget limit receive s))))"
proof (induction limit arbitrary: s)
  case 0
  show ?case by simp
next
  case (Suc limit)
  obtain outcome s' where r: "receive s = (outcome, s')" by fastforce
  show ?case
  proof (cases "\<exists>res. ends_with outcome res")
    case True
    then show ?thesis
      by (intro exI[of _ 1]) (auto simp: r ends_with_def)
  next
    case False
    then have rec: "receive_with_budget (Suc limit) receive s = receive_with_budget limit receive s'"
      by (auto simp: r ends_with_def split: sum.splits)
    obtain n where n: "n \<le> limit" "snd (receive_with_budget limit receive s') = after_attempts receive n s'"
      "n = limit \<and> fst (receive_with_budget limit receive s') = Ok ()
        \<or> (\<exists>m<n. n = Suc m \<and> ends_with (fst (receive (after_attempts receive m s')))
                                 (fst (receive_with_budget limit receive s')))"
      using Suc.IH[of s'] by blast
    show ?thesis
      unfolding rec using n by (intro exI[of _ "Suc n"]) (auto simp: r)
  qed
qed

end
