(* ===== verification/Udp_Server.thy ===== *)
theory Udp_Server
  imports Transport_Env
begin

text \<open>
  The native UDP server transport (\<open>src/src/udp_server.rs\<close>).  Its state extends \<open>shared\<close> by the
  fields of \<open>UdpNetcodeServerTransport\<close>; the receive buffer carries no state between calls.  Logging
  is left out.
\<close>

section \<open>State and construction\<close>

record ('n, 'r, 's, 'c) udp_transport = "('r, 'c) shared" +
  ut_egress :: "socket_addr egress"
  ut_socket :: 's
  ut_netcode :: 'n
  ut_max_datagrams :: nat
  ut_packets :: server_gate

text \<open>\<open>conditioner\<close> names the handle of \<open>ServerTransportConfig\<close>; \<open>None\<close> as a result is its panic.\<close>

definition udp_new_with_config ::
  "('n, 'r, 's, 'c, 'x) env_scheme \<Rightarrow> server_config \<Rightarrow> 's \<Rightarrow> nat option \<Rightarrow> ('r, 'c) shared
    \<Rightarrow> (io_error_kind, ('n, 'r, 's, 'c) udp_transport) result option" where
  "udp_new_with_config E config socket conditioner sh =
     (case so_set_nonblocking E socket of
        (Err e, _) \<Rightarrow> Some (Err e)
      | (Ok _, socket') \<Rightarrow>
          (case (case conditioner of
                   None \<Rightarrow> Some (None, sh_handles sh)
                 | Some h \<Rightarrow> ServerPacketGate_attach h None (sh_handles sh)) of
             None \<Rightarrow> None
           | Some (gate, hs) \<Rightarrow>
               Some (Ok \<lparr>sh_renet = sh_renet sh, sh_handles = hs, sh_clock = sh_clock sh,
                         ut_egress = Egress_new NativeUdpIp, ut_socket = socket',
                         ut_netcode = nc_new E config, ut_max_datagrams = 256, ut_packets = gate\<rparr>)))"

definition udp_set_egress_limit ::
  "('n, 'r, 's, 'c, 'x) env_scheme \<Rightarrow> egress_config option \<Rightarrow> ('n, 'r, 's, 'c) udp_transport
    \<Rightarrow> (egress_config_error, unit) result \<times> ('n, 'r, 's, 'c) udp_transport" where
  "udp_set_egress_limit E config s =
     (let (t, c) = ck_now E (sh_clock s); s' = s\<lparr>sh_clock := c\<rparr>
      in case Egress_configure (ut_egress s') config t of
           Err e \<Rightarrow> (Err e, s')
         | Ok e \<Rightarrow> (Ok (), s'\<lparr>ut_egress := e\<rparr>))"

definition udp_peer_egress_stats ::
  "('n, 'r, 's, 'c, 'x) env_scheme \<Rightarrow> client_id \<Rightarrow> ('n, 'r, 's, 'c) udp_transport \<Rightarrow> egress_stats option" where
  "udp_peer_egress_stats E cid s =
     (case nc_client_addr E cid (ut_netcode s) of
        None \<Rightarrow> None
      | Some addr \<Rightarrow> Egress_peer_stats (ut_egress s) addr)"

definition udp_peer_egress_allowance ::
  "('n, 'r, 's, 'c, 'x) env_scheme \<Rightarrow> client_id \<Rightarrow> ('n, 'r, 's, 'c) udp_transport
    \<Rightarrow> egress_allowance option \<times> ('n, 'r, 's, 'c) udp_transport" where
  "udp_peer_egress_allowance E cid s =
     (case nc_client_addr E cid (ut_netcode s) of
        None \<Rightarrow> (None, s)
      | Some addr \<Rightarrow>
          (let (t, c) = ck_now E (sh_clock s);
               allowance = (Egress_peer_allowance (ut_egress s) addr t)
                             \<lparr>ea_ip_udp_overhead := ip_overhead addr\<rparr>;
               queued = ServerPacketGate_queued_outgoing (Udp addr) (ut_packets s) (sh_handles s)
           in (Some (EgressAllowance_reserve_queued allowance (ds_queued_bytes queued)
                       (ds_queued_packets queued)), s\<lparr>sh_clock := c\<rparr>)))"

definition udp_set_max_datagrams_per_update ::
  "nat \<Rightarrow> ('n, 'r, 's, 'c) udp_transport \<Rightarrow> ('n, 'r, 's, 'c) udp_transport" where
  "udp_set_max_datagrams_per_update limit s = s\<lparr>ut_max_datagrams := limit\<rparr>"

definition udp_set_max_clients ::
  "('n, 'r, 's, 'c, 'x) env_scheme \<Rightarrow> nat \<Rightarrow> ('n, 'r, 's, 'c) udp_transport \<Rightarrow> ('n, 'r, 's, 'c) udp_transport" where
  "udp_set_max_clients E n s = s\<lparr>ut_netcode := nc_set_max_clients E n (ut_netcode s)\<rparr>"

definition udp_set_conditioner ::
  "nat \<Rightarrow> ('n, 'r, 's, 'c) udp_transport \<Rightarrow> ('n, 'r, 's, 'c) udp_transport option" where
  "udp_set_conditioner h s =
     (case ServerPacketGate_attach h (ut_packets s) (sh_handles s) of
        None \<Rightarrow> None
      | Some (gate, hs) \<Rightarrow> Some (s\<lparr>sh_handles := hs, ut_packets := gate\<rparr>))"

definition udp_clear_conditioner ::
  "('n, 'r, 's, 'c) udp_transport \<Rightarrow> ('n, 'r, 's, 'c) udp_transport" where
  "udp_clear_conditioner s =
     (let (gate, hs) = ServerPacketGate_detach (ut_packets s) (sh_handles s)
      in s\<lparr>sh_handles := hs, ut_packets := gate\<rparr>)"

section \<open>Sending\<close>

definition send_datagram ::
  "('n, 'r, 's, 'c, 'x) env_scheme \<Rightarrow> bytes \<Rightarrow> socket_addr \<Rightarrow> ('n, 'r, 's, 'c) udp_transport
    \<Rightarrow> (io_error_kind, nat) result \<times> ('n, 'r, 's, 'c) udp_transport" where
  "send_datagram E payload addr s =
     (let overhead = ip_overhead addr;
          (t, c) = ck_now E (sh_clock s);
          (admitted, e) = Egress_admit_at (ut_egress s) addr payload overhead t;
          s1 = s\<lparr>sh_clock := c, ut_egress := e\<rparr>
      in if \<not> admitted then (Ok (length payload), s1)
         else
           (let (res, so) = so_send_to E payload addr (ut_socket s1);
                (t', c') = ck_now E (sh_clock s1);
                e' = Egress_complete (ut_egress s1) addr payload overhead (res = Ok (length payload)) t'
            in (res, s1\<lparr>sh_clock := c', ut_egress := e', ut_socket := so\<rparr>)))"

definition send_packet ::
  "('n, 'r, 's, 'c, 'x) env_scheme \<Rightarrow> bytes \<Rightarrow> socket_addr \<Rightarrow> ('n, 'r, 's, 'c) udp_transport
    \<Rightarrow> (io_error_kind, nat) result \<times> ('n, 'r, 's, 'c) udp_transport" where
  "send_packet E payload addr s =
     (let (taken, s') = gate_defer E (ut_packets s) Outgoing (Udp addr) payload s
      in if taken then (Ok (length payload), s') else send_datagram E payload addr s')"

section \<open>Results of the netcode server\<close>

definition udp_handle_server_result ::
  "('n, 'r, 's, 'c, 'x) env_scheme \<Rightarrow> owned_server_result \<Rightarrow> ('n, 'r, 's, 'c) udp_transport
    \<Rightarrow> ('n, 'r, 's, 'c) udp_transport" where
  "udp_handle_server_result E result s =
     (case result of
        ONone \<Rightarrow> s
      | OPacketToSend addr payload \<Rightarrow> snd (send_packet E payload addr s)
      | OPayload cid payload \<Rightarrow> s\<lparr>sh_renet := rs_process_packet_from E payload cid (sh_renet s)\<rparr>
      | OClientConnected cid addr payload \<Rightarrow>
          if rs_is_connected E cid (sh_renet s)
          then
            (let (disconnect, n) = nc_disconnect E cid (ut_netcode s);
                 s1 = s\<lparr>ut_netcode := n\<rparr>;
                 s2 = (case to_owned_server_result disconnect of
                         OClientDisconnected _ addr' (Some disconnect_payload) \<Rightarrow>
                           snd (send_datagram E disconnect_payload addr' s1)
                       | _ \<Rightarrow> s1)
             in gate_remove (ut_packets s2) (Udp addr) s2)
          else snd (send_packet E payload addr
                      (s\<lparr>sh_renet := rs_add_connection E cid (sh_renet s)\<rparr>))
      | OClientDisconnected cid addr payload \<Rightarrow>
          (let s1 = gate_remove (ut_packets s) (Udp addr) s;
               s2 = s1\<lparr>sh_renet := rs_remove_connection E cid (sh_renet s1)\<rparr>
           in case payload of
                None \<Rightarrow> s2
              | Some p \<Rightarrow> snd (send_datagram E p addr s2)))"

text \<open>One call of the netcode server, its result copied and handled.\<close>

definition udp_netcode_call ::
  "('n, 'r, 's, 'c, 'x) env_scheme \<Rightarrow> ('n \<Rightarrow> server_result \<times> 'n) \<Rightarrow> ('n, 'r, 's, 'c) udp_transport
    \<Rightarrow> ('n, 'r, 's, 'c) udp_transport" where
  "udp_netcode_call E call s =
     (let (result, n) = call (ut_netcode s)
      in udp_handle_server_result E (to_owned_server_result result) (s\<lparr>ut_netcode := n\<rparr>))"

section \<open>The operations\<close>

definition udp_disconnect_all ::
  "('n, 'r, 's, 'c, 'x) env_scheme \<Rightarrow> ('n, 'r, 's, 'c) udp_transport \<Rightarrow> ('n, 'r, 's, 'c) udp_transport" where
  "udp_disconnect_all E s =
     (let s1 = fold (\<lambda>cid. udp_netcode_call E (nc_disconnect E cid)) (nc_clients_id E (ut_netcode s)) s
      in gate_reset (ut_packets s1) s1)"

definition udp_receive ::
  "('n, 'r, 's, 'c, 'x) env_scheme \<Rightarrow> ('n, 'r, 's, 'c) udp_transport
    \<Rightarrow> (io_error_kind, unit) result \<times> ('n, 'r, 's, 'c) udp_transport" where
  "udp_receive E s =
     (case so_recv_from E (ut_socket s) of
        (Err e, so) \<Rightarrow> (Err e, s\<lparr>ut_socket := so\<rparr>)
      | (Ok (datagram, source), so) \<Rightarrow>
          (let s1 = s\<lparr>ut_socket := so\<rparr>
           in if length datagram \<le> nc_max_packet_bytes E
              then (let (taken, s2) = gate_defer E (ut_packets s1) Incoming (Udp source) datagram s1
                    in (Ok (), if taken then s2
                               else udp_netcode_call E (nc_process_packet E source datagram) s2))
              else (Ok (), s1)))"

definition udp_process_drained ::
  "('n, 'r, 's, 'c, 'x) env_scheme \<Rightarrow> server_peer_id \<times> bytes \<Rightarrow> ('n, 'r, 's, 'c) udp_transport
    \<Rightarrow> ('n, 'r, 's, 'c) udp_transport" where
  "udp_process_drained E drained s =
     (case drained of
        (Udp source, packet) \<Rightarrow> udp_netcode_call E (nc_process_packet E source packet) s
      | (WebRtc _, _) \<Rightarrow> s)"

definition udp_send_drained ::
  "('n, 'r, 's, 'c, 'x) env_scheme \<Rightarrow> server_peer_id \<times> bytes \<Rightarrow> ('n, 'r, 's, 'c) udp_transport
    \<Rightarrow> ('n, 'r, 's, 'c) udp_transport" where
  "udp_send_drained E drained s =
     (case drained of
        (Udp addr, packet) \<Rightarrow> snd (send_datagram E packet addr s)
      | (WebRtc _, _) \<Rightarrow> s)"

definition udp_flush_outgoing ::
  "('n, 'r, 's, 'c, 'x) env_scheme \<Rightarrow> ('n, 'r, 's, 'c) udp_transport \<Rightarrow> ('n, 'r, 's, 'c) udp_transport" where
  "udp_flush_outgoing E s =
     (let (ready, s1) = gate_drain E (ut_packets s) Outgoing s in fold (udp_send_drained E) ready s1)"

definition udp_update ::
  "('n, 'r, 's, 'c, 'x) env_scheme \<Rightarrow> duration \<Rightarrow> ('n, 'r, 's, 'c) udp_transport
    \<Rightarrow> (('ne, 'de, 're) transport_error, unit) result \<times> ('n, 'r, 's, 'c) udp_transport" where
  "udp_update E d s =
     (let s1 = s\<lparr>ut_netcode := nc_update E d (ut_netcode s)\<rparr>
      in case receive_with_budget (ut_max_datagrams s1) (udp_receive E) s1 of
           (Err e, s2) \<Rightarrow> (Err (IoErr e), s2)
         | (Ok _, s2) \<Rightarrow>
             (let (ready, s3) = gate_drain E (ut_packets s2) Incoming s2;
                  s4 = fold (udp_process_drained E) ready s3;
                  s5 = fold (\<lambda>cid. udp_netcode_call E (nc_update_client E cid))
                         (nc_clients_id E (ut_netcode s4)) s4;
                  s6 = fold (\<lambda>cid. udp_netcode_call E (nc_disconnect E cid))
                         (rs_disconnections_id E (sh_renet s5)) s5
              in (Ok (), udp_flush_outgoing E s6)))"

fun udp_send_payloads ::
  "('n, 'r, 's, 'c, 'x) env_scheme \<Rightarrow> client_id \<Rightarrow> bytes list \<Rightarrow> ('n, 'r, 's, 'c) udp_transport
    \<Rightarrow> ('n, 'r, 's, 'c) udp_transport" where
  "udp_send_payloads E cid [] s = s"
| "udp_send_payloads E cid (packet # packets) s =
     (let (generated, n) = nc_generate_payload_packet E cid packet (ut_netcode s);
          s1 = s\<lparr>ut_netcode := n\<rparr>
      in case generated of
           None \<Rightarrow> s1
         | Some (addr, payload) \<Rightarrow>
             (case send_packet E payload addr s1 of
                (Err _, s2) \<Rightarrow> s2
              | (Ok _, s2) \<Rightarrow> udp_send_payloads E cid packets s2))"

definition udp_send_client ::
  "('n, 'r, 's, 'c, 'x) env_scheme \<Rightarrow> client_id \<Rightarrow> ('n, 'r, 's, 'c) udp_transport
    \<Rightarrow> ('n, 'r, 's, 'c) udp_transport" where
  "udp_send_client E cid s =
     (let (packets, r) = rs_get_packets_to_send E cid (sh_renet s); s1 = s\<lparr>sh_renet := r\<rparr>
      in case packets of
           None \<Rightarrow> s1
         | Some ps \<Rightarrow> udp_send_payloads E cid ps s1)"

definition udp_send_packets ::
  "('n, 'r, 's, 'c, 'x) env_scheme \<Rightarrow> ('n, 'r, 's, 'c) udp_transport \<Rightarrow> ('n, 'r, 's, 'c) udp_transport" where
  "udp_send_packets E s =
     (let s1 = udp_flush_outgoing E s;
          s2 = fold (udp_send_client E) (nc_clients_id E (ut_netcode s1)) s1
      in udp_flush_outgoing E s2)"

section \<open>Invariants of the transport\<close>

text \<open>
  The calls a pump of the transport makes on its surroundings.  A property of the state that each of
  them keeps is kept by every operation; the Renet server sees a connection added only while it does
  not report the client connected.
\<close>

locale udp_invariant =
  fixes E :: "('n, 'r, 's, 'c, 'x) env_scheme"
    and I :: "('n, 'r, 's, 'c) udp_transport \<Rightarrow> bool"
  assumes on_netcode: "I s \<Longrightarrow> I (s\<lparr>ut_netcode := n\<rparr>)"
    and on_handles: "I s \<Longrightarrow> I (s\<lparr>sh_handles := hs\<rparr>)"
    and on_elapsed: "I s \<Longrightarrow> I (s\<lparr>sh_clock := snd (ck_elapsed E h (sh_clock s))\<rparr>)"
    and on_recv: "I s \<Longrightarrow> I (s\<lparr>ut_socket := snd (so_recv_from E (ut_socket s))\<rparr>)"
    and on_send: "I s \<Longrightarrow> I (snd (send_datagram E payload addr s))"
    and on_add: "I s \<Longrightarrow> \<not> rs_is_connected E cid (sh_renet s)
      \<Longrightarrow> I (s\<lparr>sh_renet := rs_add_connection E cid (sh_renet s)\<rparr>)"
    and on_remove: "I s \<Longrightarrow> I (s\<lparr>sh_renet := rs_remove_connection E cid (sh_renet s)\<rparr>)"
    and on_payload: "I s \<Longrightarrow> I (s\<lparr>sh_renet := rs_process_packet_from E payload cid (sh_renet s)\<rparr>)"
    and on_packets: "I s \<Longrightarrow> I (s\<lparr>sh_renet := snd (rs_get_packets_to_send E cid (sh_renet s))\<rparr>)"
begin

lemma fold_keeps: "(\<And>x s. I s \<Longrightarrow> I (f x s)) \<Longrightarrow> I s \<Longrightarrow> I (fold f xs s)"
  by (induction xs arbitrary: s) auto

lemma on_tick:
  "I s \<Longrightarrow> ck_elapsed E h (sh_clock s) = (t, c) \<Longrightarrow> I (s\<lparr>sh_handles := hs, sh_clock := c\<rparr>)"
  using on_elapsed[OF on_handles[of s hs], of h] by simp

lemma defer_keeps: "I s \<Longrightarrow> I (snd (gate_defer E g dir peer payload s))"
  by (auto simp: gate_defer_def Let_def on_tick split: option.split prod.split)

lemma drain_keeps: "I s \<Longrightarrow> I (snd (gate_drain E g dir s))"
  by (auto simp: gate_drain_def Let_def on_tick split: option.split prod.split)

lemma remove_keeps: "I s \<Longrightarrow> I (gate_remove g peer s)" "I s \<Longrightarrow> I (gate_reset g s)"
  by (simp_all add: gate_remove_def gate_reset_def on_handles)

lemma send_packet_keeps: "I s \<Longrightarrow> I (snd (send_packet E payload addr s))"
  using defer_keeps[of s "ut_packets s" Outgoing "Udp addr" payload]
  by (auto simp: send_packet_def Let_def on_send split: prod.split)

lemma handle_keeps:
  assumes "I s"
  shows "I (udp_handle_server_result E result s)"
proof (cases result)
  case (OClientConnected cid addr payload)
  show ?thesis
  proof (cases "rs_is_connected E cid (sh_renet s)")
    case True
    then show ?thesis
      using assms on_netcode on_send remove_keeps(1) OClientConnected
      by (auto simp: udp_handle_server_result_def Let_def split: prod.split owned_server_result.split option.split)
  next
    case False
    then show ?thesis
      using on_add[OF assms] send_packet_keeps OClientConnected by (simp add: udp_handle_server_result_def)
  qed
next
  case (OClientDisconnected cid addr payload)
  then show ?thesis
    using on_remove[OF remove_keeps(1)[OF assms]] on_send
    by (auto simp: udp_handle_server_result_def Let_def split: option.split)
qed (use assms send_packet_keeps on_payload in \<open>auto simp: udp_handle_server_result_def\<close>)

lemma call_keeps: "I s \<Longrightarrow> I (udp_netcode_call E call s)"
  by (simp add: udp_netcode_call_def handle_keeps on_netcode split: prod.split)

lemma receive_keeps:
  assumes "I s"
  shows "I (snd (udp_receive E s))"
proof -
  obtain res so where r: "so_recv_from E (ut_socket s) = (res, so)" by fastforce
  have so: "I (s\<lparr>ut_socket := so\<rparr>)"
    using on_recv[OF assms] by (simp add: r)
  show ?thesis
  proof (cases res)
    case (Inr got)
    obtain datagram source where "got = (datagram, source)" by fastforce
    with Inr so defer_keeps[OF so, of "ut_packets s" Incoming "Udp source" datagram] show ?thesis
      by (auto simp: udp_receive_def r Let_def call_keeps split: prod.split)
  qed (use so in \<open>simp add: udp_receive_def r\<close>)
qed

lemma flush_keeps: "I s \<Longrightarrow> I (udp_flush_outgoing E s)"
  using drain_keeps[of s "ut_packets s" Outgoing]
  by (auto simp: udp_flush_outgoing_def udp_send_drained_def Let_def on_send
      split: prod.split server_peer_id.split intro!: fold_keeps)

lemma update_keeps:
  assumes "I s"
  shows "I (snd (udp_update E d s))"
proof -
  let ?s1 = "s\<lparr>ut_netcode := nc_update E d (ut_netcode s)\<rparr>"
  obtain res s2 where r: "receive_with_budget (ut_max_datagrams ?s1) (udp_receive E) ?s1 = (res, s2)"
    by fastforce
  have s2: "I s2"
    using budget_invariant[of I "udp_receive E" ?s1 "ut_max_datagrams ?s1"] receive_keeps on_netcode[OF assms] r
    by auto
  obtain ready s3 where d: "gate_drain E (ut_packets s2) Incoming s2 = (ready, s3)" by fastforce
  have "I s3" using drain_keeps[OF s2, of "ut_packets s2" Incoming] by (simp add: d)
  then have s4: "I (fold (udp_process_drained E) ready s3)"
    by (rule fold_keeps[rotated]) (auto simp: udp_process_drained_def call_keeps split: prod.split server_peer_id.split)
  show ?thesis
  proof (cases res)
    case (Inl e)
    then show ?thesis using s2 r by (simp add: udp_update_def)
  next
    case (Inr u)
    then show ?thesis
      using r d by (simp add: udp_update_def Let_def flush_keeps fold_keeps[of "\<lambda>cid. udp_netcode_call E (f cid)" for f]
          call_keeps s4)
  qed
qed

lemma payloads_keep: "I s \<Longrightarrow> I (udp_send_payloads E cid packets s)"
proof (induction packets arbitrary: s)
  case (Cons packet packets)
  have n: "I (s\<lparr>ut_netcode := n\<rparr>)" for n by (rule on_netcode[OF Cons.prems])
  show ?case
    using Cons.IH send_packet_keeps[OF n]
    by (fastforce simp: n Let_def split: prod.split option.split sum.split dest: arg_cong[of _ _ snd])
qed simp

lemma send_packets_keeps:
  assumes "I s"
  shows "I (udp_send_packets E s)"
proof -
  have "I (udp_send_client E cid t)" if "I t" for cid t
    using on_packets[OF that, of cid]
    by (auto simp: udp_send_client_def Let_def payloads_keep split: prod.split option.split)
  then show ?thesis
    unfolding udp_send_packets_def Let_def by (intro flush_keeps fold_keeps assms)
qed

lemma disconnect_all_keeps: "I s \<Longrightarrow> I (udp_disconnect_all E s)"
  by (auto simp: udp_disconnect_all_def Let_def intro!: remove_keeps(2) fold_keeps call_keeps)

end

section \<open>Runs of the transport\<close>

datatype udp_op =
    UdpUpdate duration
  | UdpSendPackets
  | UdpDisconnectAll

fun udp_step ::
  "('n, 'r, 's, 'c, 'x) env_scheme \<Rightarrow> ('n, 'r, 's, 'c) udp_transport \<Rightarrow> udp_op
    \<Rightarrow> ('n, 'r, 's, 'c) udp_transport" where
  "udp_step E s (UdpUpdate d) = snd (udp_update E d s :: ((unit, unit, unit) transport_error, unit) result \<times> _)"
| "udp_step E s UdpSendPackets = udp_send_packets E s"
| "udp_step E s UdpDisconnectAll = udp_disconnect_all E s"

sublocale udp_invariant \<subseteq> udp_run: step_invariant "udp_step E" I
proof
  fix s op assume "I s"
  then show "I (udp_step E s op)"
    by (cases op) (simp_all add: update_keeps send_packets_keeps disconnect_all_keeps)
qed

section \<open>What reaches the wire\<close>

text \<open>A socket that also records every datagram handed to it, with its size.\<close>

definition log_sends ::
  "('n, 'r, 's, 'c, 'x) env_scheme \<Rightarrow> ('n, 'r, 's \<times> (socket_addr \<times> nat) list, 'c) env" where
  "log_sends E =
     \<lparr>nc_max_packet_bytes = nc_max_packet_bytes E, nc_new = nc_new E, nc_update = nc_update E,
      nc_process_packet = nc_process_packet E, nc_update_client = nc_update_client E,
      nc_disconnect = nc_disconnect E, nc_generate_payload_packet = nc_generate_payload_packet E,
      nc_clients_id = nc_clients_id E, nc_client_addr = nc_client_addr E,
      nc_addresses = nc_addresses E, nc_set_max_clients = nc_set_max_clients E,
      rs_is_connected = rs_is_connected E, rs_add_connection = rs_add_connection E,
      rs_remove_connection = rs_remove_connection E, rs_process_packet_from = rs_process_packet_from E,
      rs_get_packets_to_send = rs_get_packets_to_send E, rs_disconnections_id = rs_disconnections_id E,
      so_set_nonblocking = (\<lambda>(so, sent). case so_set_nonblocking E so of (r, so') \<Rightarrow> (r, so', sent)),
      so_local_addr = (\<lambda>(so, sent). so_local_addr E so),
      so_recv_from = (\<lambda>(so, sent). case so_recv_from E so of (r, so') \<Rightarrow> (r, so', sent)),
      so_send_to = (\<lambda>payload addr (so, sent). case so_send_to E payload addr so of
                      (r, so') \<Rightarrow> (r, so', sent @ [(addr, length payload)])),
      ck_now = ck_now E, ck_elapsed = ck_elapsed E\<rparr>"

text \<open>The bytes on the wire towards one destination, IP and UDP headers included.\<close>

definition wire_bytes :: "socket_addr \<Rightarrow> (socket_addr \<times> nat) list \<Rightarrow> nat" where
  "wire_bytes k sent = sum_list (map (\<lambda>(addr, n). if addr = k then n + ip_overhead addr else 0) sent)"

text \<open>From a clock state in \<open>K\<close> on, all readings of the egress clock lie between \<open>t0\<close> and \<open>T\<close>.\<close>

definition clock_within ::
  "('n, 'r, 's, 'c, 'x) env_scheme \<Rightarrow> ('c \<Rightarrow> bool) \<Rightarrow> duration \<Rightarrow> duration \<Rightarrow> bool" where
  "clock_within E K t0 T \<longleftrightarrow>
     (\<forall>c. K c \<longrightarrow> t0 \<le> fst (ck_now E c) \<and> fst (ck_now E c) \<le> T \<and> K (snd (ck_now E c))
                \<and> (\<forall>h. K (snd (ck_elapsed E h c))))"

definition wire_ok ::
  "('c \<Rightarrow> bool) \<Rightarrow> egress_config \<Rightarrow> duration \<Rightarrow> duration \<Rightarrow> socket_addr
    \<Rightarrow> ('n, 'r, 's \<times> (socket_addr \<times> nat) list, 'c) udp_transport \<Rightarrow> bool" where
  "wire_ok K c t0 T k s \<longleftrightarrow>
     K (sh_clock s) \<and> egress_good c t0 T (ut_egress s)
     \<and> dest_within k c t0 (cap_credit c) t0 (wire_bytes k (snd (ut_socket s)) * NANOS) (ut_egress s)"

lemma wire_send:
  assumes ck: "clock_within E K t0 T" and ok: "wire_ok K c t0 T k s"
  shows "wire_ok K c t0 T k (snd (send_datagram (log_sends E) payload addr s))"
proof -
  let ?n = "length payload + ip_overhead addr"
  obtain t c1 where t: "ck_now E (sh_clock s) = (t, c1)" by fastforce
  obtain t' c2 where t': "ck_now E c1 = (t', c2)" by fastforce
  have K: "K c1" "K c2" "t0 \<le> t" "t \<le> T" "t0 \<le> t'" "t' \<le> T"
    using ck[unfolded clock_within_def, rule_format, of "sh_clock s"] ok
      ck[unfolded clock_within_def, rule_format, of c1] by (auto simp: wire_ok_def t t')
  obtain acc e where ad: "Egress_admit_at (ut_egress s) addr payload (ip_overhead addr) t = (acc, e)"
    by fastforce
  let ?q = "AdmitOp addr payload (ip_overhead addr) t"
  have st: "egress_step k (ut_egress s) ?q = (if acc \<and> addr = k then ?n * NANOS else 0, e)"
    by (simp add: ad)
  have good: "egress_good c t0 T (ut_egress s)"
    and wi: "dest_within k c t0 (cap_credit c) t0 (wire_bytes k (snd (ut_socket s)) * NANOS) (ut_egress s)"
    using ok by (simp_all add: wire_ok_def)
  have g1: "egress_good c t0 T e"
    using dest.good_step[OF good, of ?q k] K st by simp
  have w1: "dest_within k c t0 (cap_credit c) t0
      (wire_bytes k (snd (ut_socket s)) * NANOS + (if acc \<and> addr = k then ?n * NANOS else 0)) e"
    by (rule dest.within_step[OF good _ wi st]) (use K in simp)
  show ?thesis
  proof (cases acc)
    case False
    then show ?thesis
      using g1 w1 K by (simp add: send_datagram_def log_sends_def t ad wire_ok_def)
  next
    case True
    obtain so sent where so: "ut_socket s = (so, sent)" by fastforce
    obtain r so' where r: "so_send_to E payload addr so = (r, so')" by fastforce
    let ?q' = "CompleteOp addr payload (ip_overhead addr) (r = Ok (length payload)) t'"
    let ?e' = "Egress_complete e addr payload (ip_overhead addr) (r = Ok (length payload)) t'"
    have st': "egress_step k e ?q' = (0, ?e')" by simp
    have g2: "egress_good c t0 T ?e'"
      using dest.good_step[OF g1, of ?q' k] K by simp
    have "dest_within k c t0 (cap_credit c) t0 (wire_bytes k (sent @ [(addr, length payload)]) * NANOS) ?e'"
      using dest.within_step[OF g1 _ w1 st'] K True
      by (cases "addr = k") (simp_all add: so wire_bytes_def add_mult_distrib)
    then show ?thesis
      using g2 K True by (simp add: send_datagram_def log_sends_def t t' ad so r wire_ok_def)
  qed
qed

interpretation udp_wire: udp_invariant "log_sends E"
  "\<lambda>s. clock_within E K t0 T \<longrightarrow> wire_ok K c t0 T k s" for E K t0 T c k
proof (unfold_locales, goal_cases)
  case (4 s)
  then show ?case by (cases "ut_socket s") (simp add: wire_ok_def log_sends_def split: prod.split)
next
  case (5 s payload addr)
  then show ?case using wire_send by blast
qed (auto simp: wire_ok_def log_sends_def clock_within_def)

text \<open>The monitored Renet server: sending never touches it.\<close>

lemma send_datagram_renet [simp]: "sh_renet (snd (send_datagram E payload addr s)) = sh_renet s"
  by (simp add: send_datagram_def Let_def split: prod.split)

section \<open>Theorems\<close>

text \<open>
  C7: from the moment a bandwidth limit is set, the datagrams the transport hands to the socket for
  one destination (handshake, keep-alive, payload, disconnect and conditioned traffic, sent in any
  sequence of updates, sends and disconnections) carry at most the burst plus the rate times the
  elapsed time, headers included, whatever netcode, Renet and the conditioner do.
\<close>

theorem udp_wire_ceiling:
  assumes "egress_ok (ut_egress s)" "snd (ut_socket s) = []"
    and set: "udp_set_egress_limit (log_sends E) (Some c) s = (Ok (), s')"
    and t0: "t0 = fst (ck_now E (sh_clock s))"
    and ck: "clock_within E K t0 T" "K (sh_clock s)"
  shows "wire_bytes k (snd (ut_socket (run_state (udp_step (log_sends E)) s' ops))) * NANOS
    \<le> ec_burst_bytes c * NANOS + ec_bytes_per_second c * (T - t0)"
proof -
  have good: "egress_good c t0 T (ut_egress s')" and so: "snd (ut_socket s') = []" and K: "K (sh_clock s')"
    using set assms(2) ck configure_good[OF assms(1), of c t0 _ T] unfolding t0
    by (auto simp: udp_set_egress_limit_def log_sends_def clock_within_def Let_def split: prod.splits sum.splits)
  have "wire_ok K c t0 T k s'"
    using good so K configure_within[OF good] by (simp add: wire_ok_def wire_bytes_def)
  then have "wire_ok K c t0 T k (run_state (udp_step (log_sends E)) s' ops)"
    using udp_wire.udp_run.run_inv[of E K t0 T c k s' ops] ck(1) by blast
  then have "egress_good c t0 T (ut_egress (run_state (udp_step (log_sends E)) s' ops))"
    "dest_within k c t0 (cap_credit c) t0
       (wire_bytes k (snd (ut_socket (run_state (udp_step (log_sends E)) s' ops))) * NANOS)
       (ut_egress (run_state (udp_step (log_sends E)) s' ops))"
    by (simp_all add: wire_ok_def)
  from dest.within_bound[OF this] show ?thesis
    by (simp add: cap_credit_def)
qed

text \<open>An environment with one client that always has a packet to send.\<close>

definition sample_env :: "(unit, unit, unit, unit) env" where
  "sample_env =
     \<lparr>nc_max_packet_bytes = 1400, nc_new = (\<lambda>_. ()), nc_update = (\<lambda>_ _. ()),
      nc_process_packet = (\<lambda>addr p n. (SRNone, n)), nc_update_client = (\<lambda>_ n. (SRNone, n)),
      nc_disconnect = (\<lambda>_ n. (SRNone, n)),
      nc_generate_payload_packet = (\<lambda>cid p n. (Some (SocketV4 1 2, 5 # p), n)),
      nc_clients_id = (\<lambda>_. [1]), nc_client_addr = (\<lambda>_ _. Some (SocketV4 1 2)),
      nc_addresses = (\<lambda>_. []), nc_set_max_clients = (\<lambda>_ n. n),
      rs_is_connected = (\<lambda>_ _. False), rs_add_connection = (\<lambda>_ r. r),
      rs_remove_connection = (\<lambda>_ r. r), rs_process_packet_from = (\<lambda>_ _ r. r),
      rs_get_packets_to_send = (\<lambda>_ r. (Some [[1, 2, 3]], r)), rs_disconnections_id = (\<lambda>_. []),
      so_set_nonblocking = (\<lambda>so. (Ok (), so)), so_local_addr = (\<lambda>_. Ok (SocketV4 3 4)),
      so_recv_from = (\<lambda>so. (Err WouldBlock, so)), so_send_to = (\<lambda>p _ so. (Ok (length p), so)),
      ck_now = (\<lambda>c. (7, c)), ck_elapsed = (\<lambda>_ c. (7, c))\<rparr>"

definition sample_udp_transport :: "(unit, unit, unit \<times> (socket_addr \<times> nat) list, unit) udp_transport" where
  "sample_udp_transport =
     \<lparr>sh_renet = (), sh_handles = (\<lambda>_. sample_server_state), sh_clock = (), ut_egress = Egress_new NativeUdpIp,
      ut_socket = ((), []), ut_netcode = (), ut_max_datagrams = 256, ut_packets = None\<rparr>"

theorem udp_wire_ceiling_witness:
  "wire_bytes (SocketV4 1 2) (snd (ut_socket (run_state (udp_step (log_sends sample_env))
     (snd (udp_set_egress_limit (log_sends sample_env) (Some sample_config) sample_udp_transport))
     [UdpSendPackets, UdpUpdate 5, UdpSendPackets]))) * NANOS
   \<le> ec_burst_bytes sample_config * NANOS + ec_bytes_per_second sample_config * (9 - 7)"
proof (rule udp_wire_ceiling)
  show "udp_set_egress_limit (log_sends sample_env) (Some sample_config) sample_udp_transport
      = (Ok (), snd (udp_set_egress_limit (log_sends sample_env) (Some sample_config) sample_udp_transport))"
    by (simp add: udp_set_egress_limit_def log_sends_def sample_env_def sample_udp_transport_def
        Egress_configure_def sample_config_def Egress_new_def)
  show "clock_within sample_env (\<lambda>_. True) 7 9"
    by (simp add: clock_within_def sample_env_def)
qed (simp_all add: sample_udp_transport_def new_ok sample_env_def)

end
