(* ===== verification/Webrtc_Server.thy ===== *)
theory Webrtc_Server
  imports Transport_Env "HOL-Library.Sublist"
begin

text \<open>
  The WebRTC server transport (\<open>src/src/server.rs\<close>).  str0m's \<open>Rtc\<close> is an abstract state with the
  operations the source uses, added to the environment in \<open>rtc_env\<close>.  The state extends \<open>shared\<close> by
  the fields of \<open>WebRtcNetcodeServerTransport\<close>; hash maps are association lists and hash sets lists,
  iterated in their order; buffers without state between calls and logging are left out.

  Handling a netcode result can write to a data channel, and driving that channel can yield further
  results, so \<open>apply_pending_results\<close> loops until none is left.  Whether it returns depends on str0m:
  the loop is a \<open>partial_function\<close> into \<open>option\<close>, \<open>None\<close> standing for a pump that never returns, and
  what uses it is in the option monad.
\<close>

unbundle bit_operations_syntax

section \<open>The RTC engine\<close>

type_synonym channel_id = nat

datatype ice_connection_state = IceDisconnected | IceOtherState

datatype rtc_event =
    ChannelOpen channel_id
  | ChannelData channel_id bool bytes
  | IceConnectionStateChange ice_connection_state
  | ChannelClose channel_id
  | OtherEvent

datatype rtc_output =
    OutTimeout duration
  | OutTransmit bytes socket_addr
  | OutEvent rtc_event

datatype rtc_input =
    InReceive duration socket_addr socket_addr bytes
  | InTimeout duration

text \<open>
  \<open>rtc_receive_ok\<close>: \<open>Receive::new\<close> recognises the datagram.  \<open>rtc_write\<close> is \<open>channel(id)\<close> followed by
  \<open>write(true, _)\<close>: \<open>None\<close> when there is no such channel.
\<close>

record ('n, 'r, 's, 'c, 'rtc, 're) rtc_env = "('n, 'r, 's, 'c) env" +
  rtc_is_alive :: "'rtc \<Rightarrow> bool"
  rtc_disconnect :: "'rtc \<Rightarrow> 'rtc"
  rtc_accepts :: "rtc_input \<Rightarrow> 'rtc \<Rightarrow> bool"
  rtc_receive_ok :: "socket_addr \<Rightarrow> socket_addr \<Rightarrow> bytes \<Rightarrow> bool"
  rtc_handle_input :: "rtc_input \<Rightarrow> 'rtc \<Rightarrow> ('re, unit) result \<times> 'rtc"
  rtc_poll_output :: "'rtc \<Rightarrow> ('re, rtc_output) result \<times> 'rtc"
  rtc_write :: "channel_id \<Rightarrow> bytes \<Rightarrow> 'rtc \<Rightarrow> ('re, bool) result option \<times> 'rtc"
  rtc_error_text :: "'re \<Rightarrow> string"

section \<open>State\<close>

definition MAX_WEBRTC_DATAGRAMS_PER_UPDATE :: nat where
  "MAX_WEBRTC_DATAGRAMS_PER_UPDATE = 256"

definition MAX_WEBRTC_DATAGRAMS_PER_PEER_PER_UPDATE :: nat where
  "MAX_WEBRTC_DATAGRAMS_PER_PEER_PER_UPDATE = 24"

definition MAX_WEBRTC_DRAIN_STEPS_PER_PEER :: nat where
  "MAX_WEBRTC_DRAIN_STEPS_PER_PEER = 256"

record 'rtc server_peer =
  pe_client_id :: client_id
  pe_virtual_addr :: socket_addr
  pe_rtc :: 'rtc
  pe_data_channel :: "channel_id option"
  pe_remote_addr :: "socket_addr option"
  pe_next_timeout :: "duration option"

definition virtual_addr_for_client :: "client_id \<Rightarrow> socket_addr" where
  "virtual_addr_for_client cid =
     SocketV6 (push_bit 112 0xfd00 OR push_bit 48 (ucast (ucast (drop_bit 48 cid) :: 16 word))
               OR push_bit 32 (ucast (ucast (drop_bit 32 cid) :: 16 word))
               OR push_bit 16 (ucast (ucast (drop_bit 16 cid) :: 16 word))
               OR ucast (ucast cid :: 16 word)) 1 0 0"

definition ServerPeer_new :: "client_id \<Rightarrow> 'rtc \<Rightarrow> 'rtc server_peer" where
  "ServerPeer_new cid rtc =
     \<lparr>pe_client_id = cid, pe_virtual_addr = virtual_addr_for_client cid, pe_rtc = rtc,
      pe_data_channel = None, pe_remote_addr = None, pe_next_timeout = None\<rparr>"

definition ServerPeer_set_data_channel :: "channel_id \<Rightarrow> 'rtc server_peer \<Rightarrow> 'rtc server_peer" where
  "ServerPeer_set_data_channel channel peer = peer\<lparr>pe_data_channel := Some channel\<rparr>"

record ('n, 'r, 's, 'c, 'rtc) webrtc_transport = "('r, 'c) shared" +
  wt_egress :: "client_id egress"
  wt_socket :: 's
  wt_netcode :: 'n
  wt_receive_destination :: socket_addr
  wt_peers :: "(client_id \<times> 'rtc server_peer) list"
  wt_connected :: "client_id list"
  wt_removals :: "client_id list"
  wt_routes :: "(socket_addr \<times> client_id) list"
  wt_pending :: "owned_server_result list"
  wt_gate :: server_gate

definition webrtc_new_with_config ::
  "('n, 'r, 's, 'c, 'x) env_scheme \<Rightarrow> server_config \<Rightarrow> 's \<Rightarrow> nat option \<Rightarrow> ('r, 'c) shared
    \<Rightarrow> (io_error_kind, ('n, 'r, 's, 'c, 'rtc) webrtc_transport) result option" where
  "webrtc_new_with_config E config socket conditioner sh =
     (case so_set_nonblocking E socket of
        (Err e, _) \<Rightarrow> Some (Err e)
      | (Ok _, socket') \<Rightarrow>
          (case so_local_addr E socket' of
             Err e \<Rightarrow> Some (Err e)
           | Ok local \<Rightarrow>
               (case (case conditioner of
                        None \<Rightarrow> Some (None, sh_handles sh)
                      | Some h \<Rightarrow> ServerPacketGate_attach h None (sh_handles sh)) of
                  None \<Rightarrow> None
                | Some (gate, hs) \<Rightarrow>
                    Some (Ok \<lparr>sh_renet = sh_renet sh, sh_handles = hs, sh_clock = sh_clock sh,
                              wt_egress = Egress_new EncryptedLogical, wt_socket = socket',
                              wt_netcode = nc_new E config,
                              wt_receive_destination =
                                (case vc_public_addresses config of [] \<Rightarrow> local | a # _ \<Rightarrow> a),
                              wt_peers = [], wt_connected = [], wt_removals = [], wt_routes = [],
                              wt_pending = [], wt_gate = gate\<rparr>))))"

section \<open>Errors that do not end a peer\<close>

definition to_ascii_lowercase :: "string \<Rightarrow> string" where
  "to_ascii_lowercase =
     map (\<lambda>c. if 65 \<le> (of_char c :: nat) \<and> (of_char c :: nat) \<le> 90 then char_of ((of_char c :: nat) + 32) else c)"

definition contains_str :: "string \<Rightarrow> string \<Rightarrow> bool" where
  "contains_str pat text = list_ex (prefix pat) (suffixes text)"

definition is_receive_queue_full_error :: "string \<Rightarrow> bool" where
  "is_receive_queue_full_error text = contains_str ''receive queue full'' (to_ascii_lowercase text)"

definition is_malformed_webrtc_input_error :: "string \<Rightarrow> bool" where
  "is_malformed_webrtc_input_error text =
     (let message = to_ascii_lowercase text
      in contains_str ''chunk too short'' message \<or> contains_str ''unable to parse sctp packet'' message
         \<or> contains_str ''failed to parse sctp packet'' message)"

definition is_non_fatal_webrtc_send_error :: "io_error_kind \<Rightarrow> bool" where
  "is_non_fatal_webrtc_send_error kind =
     (kind \<in> {WouldBlock, Interrupted, AddrNotAvailable, NetworkUnreachable, HostUnreachable,
              ConnectionReset, ConnectionAborted, ConnectionRefused, TimedOut, NotConnected})"

section \<open>Driving one peer\<close>

type_synonym ('n, 'r, 's, 'c, 'rtc) driven =
  "'rtc server_peer \<times> owned_server_result list \<times> ('n, 'r, 's, 'c, 'rtc) webrtc_transport"

definition disconnect_peer ::
  "('n, 'r, 's, 'c, 'rtc, 're, 'x) rtc_env_scheme \<Rightarrow> 'rtc server_peer \<Rightarrow> 'rtc server_peer" where
  "disconnect_peer E peer = peer\<lparr>pe_rtc := rtc_disconnect E (pe_rtc peer)\<rparr>"

definition process_peer_packet ::
  "('n, 'r, 's, 'c, 'rtc, 're, 'x) rtc_env_scheme \<Rightarrow> bytes \<Rightarrow> 'rtc server_peer \<Rightarrow> owned_server_result list
    \<Rightarrow> ('n, 'r, 's, 'c, 'rtc) webrtc_transport \<Rightarrow> ('n, 'r, 's, 'c, 'rtc) driven" where
  "process_peer_packet E packet peer results s =
     (let (res, n) = nc_process_packet E (pe_virtual_addr peer) packet (wt_netcode s);
          result = to_owned_server_result res;
          s1 = s\<lparr>wt_netcode := n\<rparr>
      in case result of
           OClientConnected cid _ _ \<Rightarrow>
             if cid \<noteq> pe_client_id peer
             then (disconnect_peer E peer, results,
                   s1\<lparr>wt_netcode := snd (nc_disconnect E cid (wt_netcode s1))\<rparr>)
             else (peer, results @ [result], s1)
         | _ \<Rightarrow> (peer, results @ [result], s1))"

definition handle_peer_event ::
  "('n, 'r, 's, 'c, 'rtc, 're, 'x) rtc_env_scheme \<Rightarrow> rtc_event \<Rightarrow> 'rtc server_peer \<Rightarrow> owned_server_result list
    \<Rightarrow> ('n, 'r, 's, 'c, 'rtc) webrtc_transport \<Rightarrow> ('n, 'r, 's, 'c, 'rtc) driven" where
  "handle_peer_event E event peer results s =
     (case event of
        ChannelOpen channel \<Rightarrow>
          (if pe_data_channel peer = None then peer\<lparr>pe_data_channel := Some channel\<rparr> else peer, results, s)
      | ChannelData channel binary payload \<Rightarrow>
          if pe_data_channel peer \<noteq> Some channel \<or> \<not> binary then (peer, results, s)
          else
            (let (taken, s1) = gate_defer E (wt_gate s) Incoming (WebRtc (pe_client_id peer)) payload s
             in if taken then (peer, results, s1) else process_peer_packet E payload peer results s1)
      | IceConnectionStateChange state \<Rightarrow>
          (if state = IceDisconnected then disconnect_peer E peer else peer, results, s)
      | ChannelClose channel \<Rightarrow>
          (if pe_data_channel peer = Some channel then disconnect_peer E peer else peer, results, s)
      | OtherEvent \<Rightarrow> (peer, results, s))"

text \<open>The loop of \<open>drive_peer_with_limit\<close>, with the number of steps left.\<close>

fun drive_loop ::
  "('n, 'r, 's, 'c, 'rtc, 're, 'x) rtc_env_scheme \<Rightarrow> nat \<Rightarrow> 'rtc server_peer \<Rightarrow> owned_server_result list
    \<Rightarrow> ('n, 'r, 's, 'c, 'rtc) webrtc_transport
    \<Rightarrow> ((unit, unit, 're) transport_error, unit) result \<times> ('n, 'r, 's, 'c, 'rtc) driven" where
  "drive_loop E 0 peer results s = (Ok (), peer, results, s)"
| "drive_loop E (Suc steps) peer results s =
     (let (out, rtc) = rtc_poll_output E (pe_rtc peer); peer1 = peer\<lparr>pe_rtc := rtc\<rparr>
      in case out of
           Err e \<Rightarrow> (Err (RtcErr e), peer1, results, s)
         | Ok (OutTimeout deadline) \<Rightarrow> (Ok (), peer1\<lparr>pe_next_timeout := Some deadline\<rparr>, results, s)
         | Ok (OutTransmit contents destination) \<Rightarrow>
             (let (sent, so) = so_send_to E contents destination (wt_socket s); s1 = s\<lparr>wt_socket := so\<rparr>
              in case sent of
                   Ok _ \<Rightarrow> drive_loop E steps peer1 results s1
                 | Err kind \<Rightarrow>
                     if is_non_fatal_webrtc_send_error kind then drive_loop E steps peer1 results s1
                     else (Err (IoErr kind), peer1, results, s1))
         | Ok (OutEvent event) \<Rightarrow>
             (let (peer2, results2, s2) = handle_peer_event E event peer1 results s
              in drive_loop E steps peer2 results2 s2))"

definition drive_peer_with_limit ::
  "('n, 'r, 's, 'c, 'rtc, 're, 'x) rtc_env_scheme \<Rightarrow> nat \<Rightarrow> 'rtc server_peer
    \<Rightarrow> ('n, 'r, 's, 'c, 'rtc) webrtc_transport
    \<Rightarrow> ((unit, unit, 're) transport_error, unit) result \<times> ('n, 'r, 's, 'c, 'rtc) driven" where
  "drive_peer_with_limit E max_steps peer s =
     drive_loop E max_steps (peer\<lparr>pe_next_timeout := None\<rparr>) [] s"

text \<open>The routes of a client are dropped from the address table.\<close>

definition drop_routes ::
  "client_id \<Rightarrow> ('n, 'r, 's, 'c, 'rtc) webrtc_transport \<Rightarrow> ('n, 'r, 's, 'c, 'rtc) webrtc_transport" where
  "drop_routes cid s = s\<lparr>wt_routes := hm_retain (\<lambda>_ value. value \<noteq> cid) (wt_routes s)\<rparr>"

definition push_result ::
  "owned_server_result \<Rightarrow> ('n, 'r, 's, 'c, 'rtc) webrtc_transport \<Rightarrow> ('n, 'r, 's, 'c, 'rtc) webrtc_transport" where
  "push_result result s = s\<lparr>wt_pending := wt_pending s @ [result]\<rparr>"

definition flush_peer_output ::
  "('n, 'r, 's, 'c, 'rtc, 're, 'x) rtc_env_scheme \<Rightarrow> client_id
    \<Rightarrow> ('n, 'r, 's, 'c, 'rtc) webrtc_transport \<Rightarrow> ('n, 'r, 's, 'c, 'rtc) webrtc_transport" where
  "flush_peer_output E cid s =
     (case hm_get (wt_peers s) cid of
        None \<Rightarrow> s
      | Some peer0 \<Rightarrow>
          (let s0 = s\<lparr>wt_peers := hm_remove cid (wt_peers s)\<rparr>;
               (peer, s1) =
                 (if rtc_is_alive E (pe_rtc peer0)
                  then (case drive_peer_with_limit E MAX_WEBRTC_DRAIN_STEPS_PER_PEER peer0 s0 of
                          (Ok _, p, results, t) \<Rightarrow> (p, t\<lparr>wt_pending := wt_pending t @ results\<rparr>)
                        | (Err _, p, _, t) \<Rightarrow> (disconnect_peer E p, t))
                  else (peer0, s0))
           in if rtc_is_alive E (pe_rtc peer)
              then s1\<lparr>wt_peers := hm_insert cid peer (wt_peers s1)\<rparr>
              else
                (let s2 = drop_routes cid (gate_remove (wt_gate s1) (WebRtc cid) s1);
                     (result, n) = nc_disconnect E cid (wt_netcode s2)
                 in push_result (to_owned_server_result result) (s2\<lparr>wt_netcode := n\<rparr>))))"

section \<open>Sending to a peer\<close>

definition send_to_peer_backend ::
  "('n, 'r, 's, 'c, 'rtc, 're, 'x) rtc_env_scheme \<Rightarrow> client_id \<Rightarrow> bytes
    \<Rightarrow> ('n, 'r, 's, 'c, 'rtc) webrtc_transport
    \<Rightarrow> ((unit, unit, 're) transport_error, unit) result \<times> ('n, 'r, 's, 'c, 'rtc) webrtc_transport" where
  "send_to_peer_backend E cid payload s0 =
     (let s = flush_peer_output E cid s0
      in case hm_get (wt_peers s) cid of
           None \<Rightarrow> (Err (MissingPeer cid), s)
         | Some peer \<Rightarrow>
             if pe_next_timeout peer = None then (Err (DataChannelBackpressure cid), s)
             else case pe_data_channel peer of
               None \<Rightarrow> (Err (DataChannelNotOpen cid), s)
             | Some channel \<Rightarrow>
                 (case rtc_write E channel payload (pe_rtc peer) of
                    (None, rtc) \<Rightarrow> (Err (DataChannelNotOpen cid), s)
                  | (Some accepted, rtc) \<Rightarrow>
                      (let s1 = flush_peer_output E cid
                                  (s\<lparr>wt_peers := hm_insert cid (peer\<lparr>pe_rtc := rtc\<rparr>) (wt_peers s)\<rparr>)
                       in case accepted of
                            Err e \<Rightarrow> (Err (RtcErr e), s1)
                          | Ok ok \<Rightarrow> (if ok then Ok () else Err (DataChannelBackpressure cid), s1))))"

definition send_to_peer_unconditioned ::
  "('n, 'r, 's, 'c, 'rtc, 're, 'x) rtc_env_scheme \<Rightarrow> client_id \<Rightarrow> bytes
    \<Rightarrow> ('n, 'r, 's, 'c, 'rtc) webrtc_transport
    \<Rightarrow> ((unit, unit, 're) transport_error, unit) result \<times> ('n, 'r, 's, 'c, 'rtc) webrtc_transport" where
  "send_to_peer_unconditioned E cid payload s =
     (let (t, c) = ck_now E (sh_clock s);
          (admitted, e) = Egress_admit_at (wt_egress s) cid payload 0 t;
          s1 = s\<lparr>sh_clock := c, wt_egress := e\<rparr>
      in if \<not> admitted then (Ok (), s1)
         else
           (let (res, s2) = send_to_peer_backend E cid payload s1;
                (t', c') = ck_now E (sh_clock s2)
            in (res, s2\<lparr>sh_clock := c',
                        wt_egress := Egress_complete (wt_egress s2) cid payload 0 (\<not> isl res) t'\<rparr>)))"

definition send_to_peer ::
  "('n, 'r, 's, 'c, 'rtc, 're, 'x) rtc_env_scheme \<Rightarrow> client_id \<Rightarrow> bytes
    \<Rightarrow> ('n, 'r, 's, 'c, 'rtc) webrtc_transport
    \<Rightarrow> ((unit, unit, 're) transport_error, unit) result \<times> ('n, 'r, 's, 'c, 'rtc) webrtc_transport" where
  "send_to_peer E cid payload s =
     (if \<not> hm_contains (wt_peers s) cid then (Err (MissingPeer cid), s)
      else
        (let (taken, s1) = gate_defer E (wt_gate s) Outgoing (WebRtc cid) payload s
         in if taken then (Ok (), s1) else send_to_peer_unconditioned E cid payload s1))"

definition send_to_peer_lossy ::
  "('n, 'r, 's, 'c, 'rtc, 're, 'x) rtc_env_scheme \<Rightarrow> client_id \<Rightarrow> bytes
    \<Rightarrow> ('n, 'r, 's, 'c, 'rtc) webrtc_transport \<Rightarrow> ('n, 'r, 's, 'c, 'rtc) webrtc_transport" where
  "send_to_peer_lossy E cid payload s = snd (send_to_peer E cid payload s)"

section \<open>Peers\<close>

text \<open>Results queued on behalf of a client that is being removed.\<close>

definition concerns :: "client_id \<Rightarrow> owned_server_result \<Rightarrow> bool" where
  "concerns cid result =
     (case result of
        ONone \<Rightarrow> False
      | OPacketToSend addr _ \<Rightarrow> addr = virtual_addr_for_client cid
      | OPayload cid' _ \<Rightarrow> cid' = cid
      | OClientConnected cid' _ _ \<Rightarrow> cid' = cid
      | OClientDisconnected cid' _ _ \<Rightarrow> cid' = cid)"

definition remove_peer ::
  "('n, 'r, 's, 'c, 'x) env_scheme \<Rightarrow> client_id \<Rightarrow> ('n, 'r, 's, 'c, 'rtc) webrtc_transport
    \<Rightarrow> 'rtc server_peer option \<times> ('n, 'r, 's, 'c, 'rtc) webrtc_transport" where
  "remove_peer E cid s =
     (let s1 = drop_routes cid (gate_remove (wt_gate s) (WebRtc cid) s);
          s2 = s1\<lparr>wt_netcode := snd (nc_disconnect E cid (wt_netcode s1))\<rparr>;
          s3 = (if cid \<in> set (wt_connected s2)
                then s2\<lparr>wt_connected := removeAll cid (wt_connected s2),
                        wt_removals := List.insert cid (wt_removals s2)\<rparr>
                else s2)
      in (hm_get (wt_peers s3) cid,
          s3\<lparr>wt_pending := filter (\<lambda>r. \<not> concerns cid r) (wt_pending s3),
             wt_peers := hm_remove cid (wt_peers s3)\<rparr>))"

definition add_peer ::
  "('n, 'r, 's, 'c, 'x) env_scheme \<Rightarrow> client_id \<Rightarrow> 'rtc \<Rightarrow> ('n, 'r, 's, 'c, 'rtc) webrtc_transport
    \<Rightarrow> 'rtc server_peer option \<times> ('n, 'r, 's, 'c, 'rtc) webrtc_transport" where
  "add_peer E cid rtc s =
     (let (previous, s1) = remove_peer E cid s; peer = ServerPeer_new cid rtc
      in (previous, s1\<lparr>wt_routes := hm_insert (pe_virtual_addr peer) cid (wt_routes s1),
                       wt_peers := hm_insert cid peer (wt_peers s1)\<rparr>))"

section \<open>Results of the netcode server\<close>

definition webrtc_handle_server_result ::
  "('n, 'r, 's, 'c, 'rtc, 're, 'x) rtc_env_scheme \<Rightarrow> owned_server_result
    \<Rightarrow> ('n, 'r, 's, 'c, 'rtc) webrtc_transport \<Rightarrow> ('n, 'r, 's, 'c, 'rtc) webrtc_transport" where
  "webrtc_handle_server_result E result s =
     (case result of
        ONone \<Rightarrow> s
      | OPacketToSend addr payload \<Rightarrow>
          (case hm_get (wt_routes s) addr of
             None \<Rightarrow> s
           | Some cid \<Rightarrow> send_to_peer_lossy E cid payload s)
      | OPayload cid payload \<Rightarrow> s\<lparr>sh_renet := rs_process_packet_from E payload cid (sh_renet s)\<rparr>
      | OClientConnected cid addr payload \<Rightarrow>
          if rs_is_connected E cid (sh_renet s)
          then
            (let (disconnect, n) = nc_disconnect E cid (wt_netcode s);
                 s1 = s\<lparr>wt_netcode := n\<rparr>;
                 s2 = (case to_owned_server_result disconnect of
                         OClientDisconnected _ _ (Some disconnect_payload) \<Rightarrow>
                           send_to_peer_lossy E cid disconnect_payload s1
                       | _ \<Rightarrow> s1)
             in snd (remove_peer E cid s2))
          else
            send_to_peer_lossy E cid payload
              (s\<lparr>sh_renet := rs_add_connection E cid (sh_renet s),
                 wt_connected := List.insert cid (wt_connected s),
                 wt_routes := hm_insert addr cid (wt_routes s)\<rparr>)
      | OClientDisconnected cid addr payload \<Rightarrow>
          (let s1 = (if cid \<in> set (wt_connected s)
                     then s\<lparr>wt_connected := removeAll cid (wt_connected s),
                            sh_renet := rs_remove_connection E cid (sh_renet s)\<rparr>
                     else s);
               s2 = s1\<lparr>wt_routes := hm_remove addr (wt_routes s1)\<rparr>;
               s3 = (case payload of None \<Rightarrow> s2 | Some p \<Rightarrow> send_to_peer_lossy E cid p s2);
               s4 = drop_routes cid s3
           in gate_remove (wt_gate s4) (WebRtc cid) (s4\<lparr>wt_peers := hm_remove cid (wt_peers s4)\<rparr>)))"

partial_function (option) apply_results_loop ::
  "('n, 'r, 's, 'c, 'rtc, 're, 'x) rtc_env_scheme \<Rightarrow> ('n, 'r, 's, 'c, 'rtc) webrtc_transport
    \<Rightarrow> ('n, 'r, 's, 'c, 'rtc) webrtc_transport option" where
  "apply_results_loop E s =
     (if wt_pending s = [] then Some s
      else apply_results_loop E
             (fold (webrtc_handle_server_result E) (wt_pending s) (s\<lparr>wt_pending := []\<rparr>)))"

definition apply_removals ::
  "('n, 'r, 's, 'c, 'x) env_scheme \<Rightarrow> ('n, 'r, 's, 'c, 'rtc) webrtc_transport
    \<Rightarrow> ('n, 'r, 's, 'c, 'rtc) webrtc_transport" where
  "apply_removals E s =
     s\<lparr>sh_renet := fold (rs_remove_connection E) (wt_removals s) (sh_renet s), wt_removals := []\<rparr>"

definition apply_pending_results ::
  "('n, 'r, 's, 'c, 'rtc, 're, 'x) rtc_env_scheme \<Rightarrow> ('n, 'r, 's, 'c, 'rtc) webrtc_transport
    \<Rightarrow> ('n, 'r, 's, 'c, 'rtc) webrtc_transport option" where
  "apply_pending_results E s = apply_results_loop E (apply_removals E s)"

section \<open>Conditioned packets\<close>

fun fold_option :: "('a \<Rightarrow> 's \<Rightarrow> 's option) \<Rightarrow> 'a list \<Rightarrow> 's \<Rightarrow> 's option" where
  "fold_option f [] s = Some s"
| "fold_option f (x # xs) s = (case f x s of None \<Rightarrow> None | Some s' \<Rightarrow> fold_option f xs s')"

definition drain_incoming ::
  "('n, 'r, 's, 'c, 'rtc, 're, 'x) rtc_env_scheme \<Rightarrow> server_peer_id \<times> bytes
    \<Rightarrow> ('n, 'r, 's, 'c, 'rtc) webrtc_transport \<Rightarrow> ('n, 'r, 's, 'c, 'rtc) webrtc_transport option" where
  "drain_incoming E drained s =
     (case drained of
        (Udp _, _) \<Rightarrow> Some s
      | (WebRtc cid, packet) \<Rightarrow>
          (case hm_get (wt_peers s) cid of
             None \<Rightarrow> Some s
           | Some peer \<Rightarrow>
               (let s0 = s\<lparr>wt_peers := hm_remove cid (wt_peers s)\<rparr>;
                    (peer1, results, s1) =
                      (if rtc_is_alive E (pe_rtc peer) then process_peer_packet E packet peer [] s0
                       else (peer, [], s0))
                in apply_pending_results E (flush_peer_output E cid
                     (s1\<lparr>wt_pending := wt_pending s1 @ results,
                         wt_peers := hm_insert cid peer1 (wt_peers s1)\<rparr>)))))"

definition drain_outgoing ::
  "('n, 'r, 's, 'c, 'rtc, 're, 'x) rtc_env_scheme \<Rightarrow> server_peer_id \<times> bytes
    \<Rightarrow> ('n, 'r, 's, 'c, 'rtc) webrtc_transport \<Rightarrow> ('n, 'r, 's, 'c, 'rtc) webrtc_transport" where
  "drain_outgoing E drained s =
     (case drained of
        (Udp _, _) \<Rightarrow> s
      | (WebRtc cid, packet) \<Rightarrow> snd (send_to_peer_unconditioned E cid packet s))"

definition drain_conditioned_packets ::
  "('n, 'r, 's, 'c, 'rtc, 're, 'x) rtc_env_scheme \<Rightarrow> ('n, 'r, 's, 'c, 'rtc) webrtc_transport
    \<Rightarrow> ('n, 'r, 's, 'c, 'rtc) webrtc_transport option" where
  "drain_conditioned_packets E s =
     (let (incoming, s1) = gate_drain E (wt_gate s) Incoming s
      in case fold_option (drain_incoming E) incoming s1 of
           None \<Rightarrow> None
         | Some s2 \<Rightarrow>
             (let (outgoing, s3) = gate_drain E (wt_gate s2) Outgoing s2
              in apply_pending_results E (fold (drain_outgoing E) outgoing s3)))"

section \<open>Routing socket input\<close>

definition resolve_client_for_input ::
  "('n, 'r, 's, 'c, 'rtc, 're, 'x) rtc_env_scheme \<Rightarrow> socket_addr \<Rightarrow> rtc_input
    \<Rightarrow> ('n, 'r, 's, 'c, 'rtc) webrtc_transport \<Rightarrow> client_id option" where
  "resolve_client_for_input E source input s =
     (let known = (case hm_get (wt_routes s) source of
                     None \<Rightarrow> None
                   | Some cid \<Rightarrow>
                       (case hm_get (wt_peers s) cid of
                          None \<Rightarrow> None
                        | Some peer \<Rightarrow> if rtc_accepts E input (pe_rtc peer) then Some cid else None))
      in case known of
           Some cid \<Rightarrow> Some cid
         | None \<Rightarrow> map_option fst (List.find (\<lambda>(_, peer). rtc_accepts E input (pe_rtc peer)) (wt_peers s)))"

text \<open>The peer that owns a datagram takes it in, unless it still has output to drain.\<close>

definition input_to_peer ::
  "('n, 'r, 's, 'c, 'rtc, 're, 'x) rtc_env_scheme \<Rightarrow> client_id \<Rightarrow> socket_addr \<Rightarrow> rtc_input
    \<Rightarrow> ('n, 'r, 's, 'c, 'rtc) webrtc_transport \<Rightarrow> ('n, 'r, 's, 'c, 'rtc) webrtc_transport" where
  "input_to_peer E cid source input s =
     (case hm_get (wt_peers s) cid of
        None \<Rightarrow> s
      | Some peer \<Rightarrow>
          if pe_next_timeout peer = None then s
          else
            (let routes = (case pe_remote_addr peer of
                             None \<Rightarrow> wt_routes s
                           | Some old \<Rightarrow>
                               if old \<noteq> source \<and> hm_get (wt_routes s) old = Some cid
                               then hm_remove old (wt_routes s) else wt_routes s);
                 (res, rtc) = rtc_handle_input E input (pe_rtc peer);
                 peer1 = peer\<lparr>pe_remote_addr := Some source, pe_rtc := rtc\<rparr>;
                 peer2 = (case res of
                            Ok _ \<Rightarrow> peer1
                          | Err e \<Rightarrow>
                              if \<not> is_receive_queue_full_error (rtc_error_text E e)
                                 \<and> \<not> is_malformed_webrtc_input_error (rtc_error_text E e)
                              then disconnect_peer E peer1 else peer1)
             in s\<lparr>wt_routes := hm_insert source cid routes,
                  wt_peers := hm_insert cid peer2 (wt_peers s)\<rparr>))"

text \<open>One accepted datagram.  The per-peer count decides whether it is taken in at all.\<close>

definition route_datagram ::
  "('n, 'r, 's, 'c, 'rtc, 're, 'x) rtc_env_scheme \<Rightarrow> duration \<Rightarrow> bytes \<Rightarrow> socket_addr
    \<Rightarrow> (client_id \<times> nat) list \<Rightarrow> ('n, 'r, 's, 'c, 'rtc) webrtc_transport
    \<Rightarrow> (client_id \<times> nat) list \<times> ('n, 'r, 's, 'c, 'rtc) webrtc_transport" where
  "route_datagram E now datagram source seen s =
     (if \<not> rtc_receive_ok E source (wt_receive_destination s) datagram then (seen, s)
      else
        (let input = InReceive now source (wt_receive_destination s) datagram
         in case resolve_client_for_input E source input s of
              None \<Rightarrow> (seen, s)
            | Some cid \<Rightarrow>
                (let count = (case hm_get seen cid of None \<Rightarrow> 0 | Some n \<Rightarrow> n)
                 in if count \<ge> MAX_WEBRTC_DATAGRAMS_PER_PEER_PER_UPDATE then (hm_insert cid count seen, s)
                    else (hm_insert cid (count + 1) seen,
                          flush_peer_output E cid (input_to_peer E cid source input s)))))"

fun route_loop ::
  "('n, 'r, 's, 'c, 'rtc, 're, 'x) rtc_env_scheme \<Rightarrow> duration \<Rightarrow> nat \<Rightarrow> (client_id \<times> nat) list
    \<Rightarrow> ('n, 'r, 's, 'c, 'rtc) webrtc_transport
    \<Rightarrow> (io_error_kind, unit) result \<times> ('n, 'r, 's, 'c, 'rtc) webrtc_transport" where
  "route_loop E now 0 seen s = (Ok (), s)"
| "route_loop E now (Suc attempts) seen s =
     (let (received, so) = so_recv_from E (wt_socket s); s1 = s\<lparr>wt_socket := so\<rparr>
      in case received of
           Err kind \<Rightarrow>
             if kind = WouldBlock then (Ok (), s1)
             else if kind = Interrupted \<or> kind = ConnectionReset then route_loop E now attempts seen s1
             else (Err kind, s1)
         | Ok (datagram, source) \<Rightarrow>
             (let (seen', s2) = route_datagram E now datagram source seen s1
              in route_loop E now attempts seen' s2))"

definition route_socket_input_to_peers ::
  "('n, 'r, 's, 'c, 'rtc, 're, 'x) rtc_env_scheme \<Rightarrow> duration \<Rightarrow> ('n, 'r, 's, 'c, 'rtc) webrtc_transport
    \<Rightarrow> ((unit, unit, 're) transport_error, owned_server_result list) result
         \<times> ('n, 'r, 's, 'c, 'rtc) webrtc_transport" where
  "route_socket_input_to_peers E now s =
     (case route_loop E now MAX_WEBRTC_DATAGRAMS_PER_UPDATE [] s of
        (Err kind, s1) \<Rightarrow> (Err (IoErr kind), s1)
      | (Ok _, s1) \<Rightarrow> (Ok (wt_pending s1), s1\<lparr>wt_pending := []\<rparr>))"

section \<open>The operations\<close>

definition webrtc_netcode_call ::
  "('n, 'r, 's, 'c, 'rtc, 're, 'x) rtc_env_scheme \<Rightarrow> ('n \<Rightarrow> server_result \<times> 'n)
    \<Rightarrow> ('n, 'r, 's, 'c, 'rtc) webrtc_transport \<Rightarrow> ('n, 'r, 's, 'c, 'rtc) webrtc_transport" where
  "webrtc_netcode_call E call s =
     (let (result, n) = call (wt_netcode s)
      in webrtc_handle_server_result E (to_owned_server_result result) (s\<lparr>wt_netcode := n\<rparr>))"

definition webrtc_disconnect_all ::
  "('n, 'r, 's, 'c, 'rtc, 're, 'x) rtc_env_scheme \<Rightarrow> ('n, 'r, 's, 'c, 'rtc) webrtc_transport
    \<Rightarrow> ('n, 'r, 's, 'c, 'rtc) webrtc_transport option" where
  "webrtc_disconnect_all E s =
     (case apply_pending_results E s of
        None \<Rightarrow> None
      | Some s1 \<Rightarrow>
          (let s2 = fold (\<lambda>cid. webrtc_netcode_call E (nc_disconnect E cid))
                      (nc_clients_id E (wt_netcode s1)) s1
           in apply_pending_results E
                (gate_reset (wt_gate s2) (s2\<lparr>wt_peers := [], wt_routes := []\<rparr>))))"

text \<open>A peer's timer runs only once its output is drained.\<close>

definition peer_timeout ::
  "('n, 'r, 's, 'c, 'rtc, 're, 'x) rtc_env_scheme \<Rightarrow> duration \<Rightarrow> client_id
    \<Rightarrow> ('n, 'r, 's, 'c, 'rtc) webrtc_transport \<Rightarrow> ('n, 'r, 's, 'c, 'rtc) webrtc_transport" where
  "peer_timeout E now cid s =
     (case hm_get (wt_peers s) cid of
        None \<Rightarrow> s
      | Some peer \<Rightarrow>
          if rtc_is_alive E (pe_rtc peer) \<and> is_some_and (\<lambda>deadline. deadline \<le> now) (pe_next_timeout peer)
          then
            (let (res, rtc) = rtc_handle_input E (InTimeout now) (pe_rtc peer);
                 peer1 = peer\<lparr>pe_rtc := rtc\<rparr>;
                 peer2 = (case res of Ok _ \<Rightarrow> peer1 | Err _ \<Rightarrow> disconnect_peer E peer1)
             in s\<lparr>wt_peers := hm_insert cid peer2 (wt_peers s)\<rparr>)
          else s)"

definition pump_peer ::
  "('n, 'r, 's, 'c, 'rtc, 're, 'x) rtc_env_scheme \<Rightarrow> duration \<Rightarrow> client_id
    \<Rightarrow> ('n, 'r, 's, 'c, 'rtc) webrtc_transport \<Rightarrow> ('n, 'r, 's, 'c, 'rtc) webrtc_transport" where
  "pump_peer E now cid s =
     flush_peer_output E cid (peer_timeout E now cid (flush_peer_output E cid s))"

text \<open>The second half of an update, from the routed results on.\<close>

definition webrtc_update_rest ::
  "('n, 'r, 's, 'c, 'rtc, 're, 'x) rtc_env_scheme \<Rightarrow> duration \<Rightarrow> owned_server_result list
    \<Rightarrow> ('n, 'r, 's, 'c, 'rtc) webrtc_transport \<Rightarrow> ('n, 'r, 's, 'c, 'rtc) webrtc_transport option" where
  "webrtc_update_rest E now routed s =
     (let s1 = fold (webrtc_handle_server_result E) routed s;
          s2 = fold (pump_peer E now) (map fst (wt_peers s1)) s1
      in case apply_pending_results E s2 of
           None \<Rightarrow> None
         | Some s3 \<Rightarrow>
             (let s4 = fold (\<lambda>cid. webrtc_netcode_call E (nc_update_client E cid))
                         (nc_clients_id E (wt_netcode s3)) s3;
                  s5 = fold (\<lambda>cid. webrtc_netcode_call E (nc_disconnect E cid))
                         (rs_disconnections_id E (sh_renet s4)) s4
              in case apply_pending_results E s5 of
                   None \<Rightarrow> None
                 | Some s6 \<Rightarrow> drain_conditioned_packets E s6))"

definition webrtc_update_at ::
  "('n, 'r, 's, 'c, 'rtc, 're, 'x) rtc_env_scheme \<Rightarrow> duration \<Rightarrow> duration
    \<Rightarrow> ('n, 'r, 's, 'c, 'rtc) webrtc_transport
    \<Rightarrow> (((unit, unit, 're) transport_error, unit) result \<times> ('n, 'r, 's, 'c, 'rtc) webrtc_transport) option" where
  "webrtc_update_at E d now s =
     (case apply_pending_results E s of
        None \<Rightarrow> None
      | Some s1 \<Rightarrow>
          (case drain_conditioned_packets E (s1\<lparr>wt_netcode := nc_update E d (wt_netcode s1)\<rparr>) of
             None \<Rightarrow> None
           | Some s2 \<Rightarrow>
               (case apply_pending_results E (fold (flush_peer_output E) (map fst (wt_peers s2)) s2) of
                  None \<Rightarrow> None
                | Some s3 \<Rightarrow>
                    (case route_socket_input_to_peers E now s3 of
                       (Err e, s4) \<Rightarrow> Some (Err e, s4)
                     | (Ok routed, s4) \<Rightarrow> map_option (Pair (Ok ())) (webrtc_update_rest E now routed s4)))))"

definition webrtc_update ::
  "('n, 'r, 's, 'c, 'rtc, 're, 'x) rtc_env_scheme \<Rightarrow> duration \<Rightarrow> ('n, 'r, 's, 'c, 'rtc) webrtc_transport
    \<Rightarrow> (((unit, unit, 're) transport_error, unit) result \<times> ('n, 'r, 's, 'c, 'rtc) webrtc_transport) option" where
  "webrtc_update E d s =
     (let (now, c) = ck_now E (sh_clock s) in webrtc_update_at E d now (s\<lparr>sh_clock := c\<rparr>))"

fun webrtc_send_payloads ::
  "('n, 'r, 's, 'c, 'rtc, 're, 'x) rtc_env_scheme \<Rightarrow> client_id \<Rightarrow> bytes list
    \<Rightarrow> ('n, 'r, 's, 'c, 'rtc) webrtc_transport \<Rightarrow> ('n, 'r, 's, 'c, 'rtc) webrtc_transport" where
  "webrtc_send_payloads E cid [] s = s"
| "webrtc_send_payloads E cid (packet # packets) s =
     (let (generated, n) = nc_generate_payload_packet E cid packet (wt_netcode s);
          s1 = s\<lparr>wt_netcode := n\<rparr>
      in case generated of
           None \<Rightarrow> s1
         | Some (_, payload) \<Rightarrow>
             webrtc_send_payloads E cid packets (send_to_peer_lossy E cid payload s1))"

definition webrtc_send_client ::
  "('n, 'r, 's, 'c, 'rtc, 're, 'x) rtc_env_scheme \<Rightarrow> client_id
    \<Rightarrow> ('n, 'r, 's, 'c, 'rtc) webrtc_transport \<Rightarrow> ('n, 'r, 's, 'c, 'rtc) webrtc_transport" where
  "webrtc_send_client E cid s =
     (let (packets, r) = rs_get_packets_to_send E cid (sh_renet s); s1 = s\<lparr>sh_renet := r\<rparr>
      in case packets of
           None \<Rightarrow> s1
         | Some ps \<Rightarrow> webrtc_send_payloads E cid ps s1)"

definition webrtc_send_packets ::
  "('n, 'r, 's, 'c, 'rtc, 're, 'x) rtc_env_scheme \<Rightarrow> ('n, 'r, 's, 'c, 'rtc) webrtc_transport
    \<Rightarrow> ('n, 'r, 's, 'c, 'rtc) webrtc_transport option" where
  "webrtc_send_packets E s =
     (case apply_pending_results E s of
        None \<Rightarrow> None
      | Some s1 \<Rightarrow>
          (case drain_conditioned_packets E s1 of
             None \<Rightarrow> None
           | Some s2 \<Rightarrow>
               (case apply_pending_results E
                       (fold (webrtc_send_client E) (nc_clients_id E (wt_netcode s2)) s2) of
                  None \<Rightarrow> None
                | Some s3 \<Rightarrow> drain_conditioned_packets E s3)))"

definition webrtc_set_egress_limit ::
  "('n, 'r, 's, 'c, 'x) env_scheme \<Rightarrow> egress_config option \<Rightarrow> ('n, 'r, 's, 'c, 'rtc) webrtc_transport
    \<Rightarrow> (egress_config_error, unit) result \<times> ('n, 'r, 's, 'c, 'rtc) webrtc_transport" where
  "webrtc_set_egress_limit E config s =
     (let (t, c) = ck_now E (sh_clock s); s' = s\<lparr>sh_clock := c\<rparr>
      in case Egress_configure (wt_egress s') config t of
           Err e \<Rightarrow> (Err e, s')
         | Ok e \<Rightarrow> (Ok (), s'\<lparr>wt_egress := e\<rparr>))"

definition webrtc_peer_egress_allowance ::
  "('n, 'r, 's, 'c, 'x) env_scheme \<Rightarrow> client_id \<Rightarrow> ('n, 'r, 's, 'c, 'rtc) webrtc_transport
    \<Rightarrow> egress_allowance option \<times> ('n, 'r, 's, 'c, 'rtc) webrtc_transport" where
  "webrtc_peer_egress_allowance E cid s =
     (if hm_contains (wt_peers s) cid
      then
        (let (t, c) = ck_now E (sh_clock s);
             queued = ServerPacketGate_queued_outgoing (WebRtc cid) (wt_gate s) (sh_handles s)
         in (Some (EgressAllowance_reserve_queued (Egress_peer_allowance (wt_egress s) cid t)
                     (ds_queued_bytes queued) (ds_queued_packets queued)), s\<lparr>sh_clock := c\<rparr>))
      else (None, s))"

definition webrtc_set_max_clients ::
  "('n, 'r, 's, 'c, 'x) env_scheme \<Rightarrow> nat \<Rightarrow> ('n, 'r, 's, 'c, 'rtc) webrtc_transport
    \<Rightarrow> ('n, 'r, 's, 'c, 'rtc) webrtc_transport" where
  "webrtc_set_max_clients E n s = s\<lparr>wt_netcode := nc_set_max_clients E n (wt_netcode s)\<rparr>"

definition webrtc_set_conditioner ::
  "nat \<Rightarrow> ('n, 'r, 's, 'c, 'rtc) webrtc_transport \<Rightarrow> ('n, 'r, 's, 'c, 'rtc) webrtc_transport option" where
  "webrtc_set_conditioner h s =
     (case ServerPacketGate_attach h (wt_gate s) (sh_handles s) of
        None \<Rightarrow> None
      | Some (gate, hs) \<Rightarrow> Some (s\<lparr>sh_handles := hs, wt_gate := gate\<rparr>))"

definition webrtc_clear_conditioner ::
  "('n, 'r, 's, 'c, 'rtc) webrtc_transport \<Rightarrow> ('n, 'r, 's, 'c, 'rtc) webrtc_transport" where
  "webrtc_clear_conditioner s =
     (let (gate, hs) = ServerPacketGate_detach (wt_gate s) (sh_handles s)
      in s\<lparr>sh_handles := hs, wt_gate := gate\<rparr>)"

section \<open>What driving a peer can change\<close>

text \<open>The part of the state that connections are about; the rest is neutral.\<close>

definition core ::
  "('n, 'r, 's, 'c, 'rtc) webrtc_transport \<Rightarrow>
     'r \<times> (client_id \<times> 'rtc server_peer) list \<times> client_id list \<times> client_id list \<times> owned_server_result list" where
  "core s = (sh_renet s, wt_peers s, wt_connected s, wt_removals s, wt_pending s)"

lemma core_neutral [simp]:
  "core (s\<lparr>wt_netcode := n\<rparr>) = core s" "core (s\<lparr>wt_socket := so\<rparr>) = core s"
  "core (s\<lparr>wt_routes := rt\<rparr>) = core s" "core (s\<lparr>sh_handles := hs\<rparr>) = core s"
  "core (s\<lparr>sh_clock := c\<rparr>) = core s" "core (s\<lparr>wt_egress := e\<rparr>) = core s"
  "core (drop_routes cid s) = core s" "core (gate_remove g peer s) = core s" "core (gate_reset g s) = core s"
  by (simp_all add: core_def drop_routes_def gate_remove_def gate_reset_def)

lemma core_gate [simp]:
  "core (snd (gate_defer E g dir peer payload s)) = core s" "core (snd (gate_drain E g dir s)) = core s"
  by (auto simp: core_def gate_defer_def gate_drain_def Let_def split: option.split prod.split)

text \<open>A result that does not report another client connected.\<close>

definition own_result :: "client_id \<Rightarrow> owned_server_result \<Rightarrow> bool" where
  "own_result cid r = (case r of OClientConnected cid' _ _ \<Rightarrow> cid' = cid | _ \<Rightarrow> True)"

text \<open>
  str0m reports received data from what it has already taken in: there is a measure of the data
  events still to come that polling such an event lowers and that neither polling anything else, nor
  disconnecting, nor writing raises.
\<close>

definition rtc_progress ::
  "('n, 'r, 's, 'c, 'rtc, 're, 'x) rtc_env_scheme \<Rightarrow> ('rtc \<Rightarrow> nat) \<Rightarrow> bool" where
  "rtc_progress E \<mu> \<longleftrightarrow>
     (\<forall>rtc. \<mu> (snd (rtc_poll_output E rtc))
        + (case fst (rtc_poll_output E rtc) of Ok (OutEvent (ChannelData _ _ _)) \<Rightarrow> 1 | _ \<Rightarrow> 0) \<le> \<mu> rtc)
     \<and> (\<forall>rtc. \<mu> (rtc_disconnect E rtc) \<le> \<mu> rtc)
     \<and> (\<forall>channel payload rtc. \<mu> (snd (rtc_write E channel payload rtc)) \<le> \<mu> rtc)"

text \<open>What driving leaves of a peer, with the results it yields.\<close>

definition driven_from ::
  "('n, 'r, 's, 'c, 'rtc, 're, 'x) rtc_env_scheme \<Rightarrow> 'rtc server_peer
    \<Rightarrow> ('n, 'r, 's, 'c, 'rtc) webrtc_transport \<Rightarrow> owned_server_result list \<Rightarrow> 'rtc server_peer
    \<Rightarrow> ('n, 'r, 's, 'c, 'rtc) webrtc_transport \<Rightarrow> bool" where
  "driven_from E peer s new peer' s' \<longleftrightarrow>
     core s' = core s \<and> pe_client_id peer' = pe_client_id peer
     \<and> list_all (own_result (pe_client_id peer)) new
     \<and> (\<forall>\<mu>. rtc_progress E \<mu> \<longrightarrow> length new + \<mu> (pe_rtc peer') \<le> \<mu> (pe_rtc peer))"

lemma driven_trans:
  "driven_from E p s new p' s' \<Longrightarrow> driven_from E p' s' new' p'' s''
    \<Longrightarrow> driven_from E p s (new @ new') p'' s''"
  unfolding driven_from_def by fastforce

lemma driven_refl: "core s' = core s \<Longrightarrow> pe_client_id p' = pe_client_id p \<Longrightarrow> pe_rtc p' = pe_rtc p
    \<Longrightarrow> driven_from E p s [] p' s'"
  by (simp add: driven_from_def)

lemma driven_disconnect: "core s' = core s \<Longrightarrow> driven_from E p s [] (disconnect_peer E p) s'"
  by (simp add: driven_from_def disconnect_peer_def rtc_progress_def)

text \<open>Handling one event: at most one result, and only for received data.\<close>

lemma process_packet_facts:
  assumes "process_peer_packet E packet peer results s = (peer', results', s')"
  shows "\<exists>new. results' = results @ new \<and> length new \<le> 1 \<and> list_all (own_result (pe_client_id peer)) new"
    and "core s' = core s" and "pe_client_id peer' = pe_client_id peer"
    and "pe_rtc peer' = pe_rtc peer \<or> pe_rtc peer' = rtc_disconnect E (pe_rtc peer)"
proof -
  obtain res n where r: "nc_process_packet E (pe_virtual_addr peer) packet (wt_netcode s) = (res, n)"
    by fastforce
  consider (other) "results' = results" "peer' = disconnect_peer E peer" "core s' = core s"
    | (own) "results' = results @ [to_owned_server_result res]" "peer' = peer" "core s' = core s"
        "own_result (pe_client_id peer) (to_owned_server_result res)"
  proof (cases "own_result (pe_client_id peer) (to_owned_server_result res)")
    case True
    then have "process_peer_packet E packet peer results s =
        (peer, results @ [to_owned_server_result res], s\<lparr>wt_netcode := n\<rparr>)"
      by (cases "to_owned_server_result res") (simp_all add: process_peer_packet_def r own_result_def)
    with True assms show thesis by (intro own) auto
  next
    case False
    then obtain cid a p where "to_owned_server_result res = OClientConnected cid a p" "cid \<noteq> pe_client_id peer"
      by (cases "to_owned_server_result res") (simp_all add: own_result_def)
    with assms have "results' = results" "peer' = disconnect_peer E peer"
        "s' = s\<lparr>wt_netcode := snd (nc_disconnect E cid n)\<rparr>"
      by (simp_all add: process_peer_packet_def r)
    then show thesis by (intro other) simp_all
  qed
  note cases = this
  show "\<exists>new. results' = results @ new \<and> length new \<le> 1 \<and> list_all (own_result (pe_client_id peer)) new"
    by (rule cases) auto
  show "core s' = core s" by (rule cases)
  show "pe_client_id peer' = pe_client_id peer" by (rule cases) (simp_all add: disconnect_peer_def)
  show "pe_rtc peer' = pe_rtc peer \<or> pe_rtc peer' = rtc_disconnect E (pe_rtc peer)"
    by (rule cases) (simp_all add: disconnect_peer_def)
qed

lemma event_facts:
  assumes "handle_peer_event E event peer results s = (peer', results', s')"
  shows "\<exists>new. results' = results @ new \<and> length new \<le> (case event of ChannelData _ _ _ \<Rightarrow> 1 | _ \<Rightarrow> 0)
      \<and> list_all (own_result (pe_client_id peer)) new"
    and "core s' = core s" and "pe_client_id peer' = pe_client_id peer"
    and "pe_rtc peer' = pe_rtc peer \<or> pe_rtc peer' = rtc_disconnect E (pe_rtc peer)"
proof -
  consider (quiet) "results' = results" "core s' = core s" "pe_client_id peer' = pe_client_id peer"
      "pe_rtc peer' = pe_rtc peer \<or> pe_rtc peer' = rtc_disconnect E (pe_rtc peer)"
    | (data) channel binary payload s1 where "event = ChannelData channel binary payload" "core s1 = core s"
        "process_peer_packet E payload peer results s1 = (peer', results', s')"
  proof (cases event)
    case (ChannelData channel binary payload)
    obtain taken s1 where d: "gate_defer E (wt_gate s) Incoming (WebRtc (pe_client_id peer)) payload s = (taken, s1)"
      by fastforce
    have "core s1 = core s"
      using core_gate(1)[of E "wt_gate s" Incoming "WebRtc (pe_client_id peer)" payload s] by (simp add: d)
    then show thesis
      using assms ChannelData quiet data by (auto simp: handle_peer_event_def d split: if_splits)
  qed (use assms quiet in \<open>auto simp: handle_peer_event_def disconnect_peer_def split: if_splits\<close>)
  note cases = this
  show "\<exists>new. results' = results @ new \<and> length new \<le> (case event of ChannelData _ _ _ \<Rightarrow> 1 | _ \<Rightarrow> 0)
      \<and> list_all (own_result (pe_client_id peer)) new"
    by (rule cases) (auto dest: process_packet_facts(1))
  show "core s' = core s" by (rule cases) (auto dest: process_packet_facts(2))
  show "pe_client_id peer' = pe_client_id peer" by (rule cases) (auto dest: process_packet_facts(3))
  show "pe_rtc peer' = pe_rtc peer \<or> pe_rtc peer' = rtc_disconnect E (pe_rtc peer)"
    by (rule cases) (use process_packet_facts(4) in blast)+
qed

lemma drive_facts:
  assumes "drive_loop E n peer results s = (res, peer', results', s')"
  obtains new where "results' = results @ new" "driven_from E peer s new peer' s'"
  using assms
proof (induction n arbitrary: peer results s thesis)
  case 0
  then show ?case by (force simp: driven_from_def)
next
  case (Suc n)
  obtain out rtc where po: "rtc_poll_output E (pe_rtc peer) = (out, rtc)" by fastforce
  let ?p = "peer\<lparr>pe_rtc := rtc\<rparr>"
  have "\<mu> rtc \<le> \<mu> (pe_rtc peer)" if "rtc_progress E \<mu>" for \<mu>
    using that[unfolded rtc_progress_def, THEN conjunct1, rule_format, of "pe_rtc peer"] by (simp add: po)
  then have base: "driven_from E peer s [] p' t"
    if "core t = core s" "pe_client_id p' = pe_client_id peer" "pe_rtc p' = rtc" for p' t
    using that by (simp add: driven_from_def)
  have rec: thesis if "drive_loop E n p' (results @ new) t = (res, peer', results', s')"
      "driven_from E peer s new p' t" for p' new t
    using Suc.IH[OF _ that(1)] driven_trans[OF that(2)] Suc.prems(1) by fastforce
  show ?case
  proof (cases out)
    case (Inl e)
    then show ?thesis using Suc.prems base[of s ?p] by (auto simp: po)
  next
    case (Inr o')
    show ?thesis
    proof (cases o')
      case (OutTimeout d)
      then show ?thesis
        using Suc.prems base[of s "?p\<lparr>pe_next_timeout := Some d\<rparr>"] Inr by (auto simp: po)
    next
      case (OutTransmit contents dest)
      obtain snt so where so: "so_send_to E contents dest (wt_socket s) = (snt, so)" by fastforce
      have "driven_from E peer s [] ?p (s\<lparr>wt_socket := so\<rparr>)" by (rule base) simp_all
      then show ?thesis
        using rec[of ?p "[]" "s\<lparr>wt_socket := so\<rparr>"] Suc.prems Inr OutTransmit
        by (auto simp: po so Let_def split: sum.splits if_splits)
    next
      case (OutEvent event)
      obtain p2 r2 s2 where ev: "handle_peer_event E event ?p results s = (p2, r2, s2)"
        by (metis prod_cases3)
      obtain new where new: "r2 = results @ new"
          "length new \<le> (case event of ChannelData _ _ _ \<Rightarrow> 1 | _ \<Rightarrow> 0)"
          "list_all (own_result (pe_client_id peer)) new" "core s2 = core s" "pe_client_id p2 = pe_client_id peer"
          "pe_rtc p2 = rtc \<or> pe_rtc p2 = rtc_disconnect E rtc"
        using event_facts[OF ev] by fastforce
      have "length new + \<mu> (pe_rtc p2) \<le> \<mu> (pe_rtc peer)" if pr: "rtc_progress E \<mu>" for \<mu>
      proof -
        have "\<mu> rtc + (case event of ChannelData _ _ _ \<Rightarrow> 1 | _ \<Rightarrow> 0) \<le> \<mu> (pe_rtc peer)"
          using pr[unfolded rtc_progress_def, THEN conjunct1, rule_format, of "pe_rtc peer"]
          by (simp add: po Inr OutEvent)
        moreover have "\<mu> (rtc_disconnect E rtc) \<le> \<mu> rtc"
          using pr by (simp add: rtc_progress_def)
        ultimately show ?thesis using new(2,6) by auto
      qed
      then have "driven_from E peer s new p2 s2"
        using new by (simp add: driven_from_def)
      then show ?thesis
        using rec[of p2 new s2] Suc.prems(2) new(1) by (simp add: po Inr OutEvent ev)
    qed
  qed
qed

lemma flush_facts:
  obtains (none) "flush_peer_output E cid s = s"
  | (alive) peer peer' new where "hm_get (wt_peers s) cid = Some peer" "pe_client_id peer' = pe_client_id peer"
      "list_all (own_result (pe_client_id peer)) new"
      "\<And>\<mu>. rtc_progress E \<mu> \<Longrightarrow> length new + \<mu> (pe_rtc peer') \<le> \<mu> (pe_rtc peer)"
      "core (flush_peer_output E cid s) = (sh_renet s, hm_insert cid peer' (hm_remove cid (wt_peers s)),
         wt_connected s, wt_removals s, wt_pending s @ new)"
  | (dead) peer new n where "hm_get (wt_peers s) cid = Some peer"
      "list_all (own_result (pe_client_id peer)) new"
      "\<And>\<mu>. rtc_progress E \<mu> \<Longrightarrow> length new \<le> \<mu> (pe_rtc peer)"
      "core (flush_peer_output E cid s) = (sh_renet s, hm_remove cid (wt_peers s),
         wt_connected s, wt_removals s,
         wt_pending s @ new @ [to_owned_server_result (fst (nc_disconnect E cid n))])"
proof (cases "hm_get (wt_peers s) cid")
  case None
  then show thesis by (intro none) (simp add: flush_peer_output_def)
next
  case (Some peer0)
  let ?s0 = "s\<lparr>wt_peers := hm_remove cid (wt_peers s)\<rparr>"
  obtain peer s1 new where d: "driven_from E peer0 ?s0 new peer s1"
    and fl: "flush_peer_output E cid s =
        (let s1 = s1\<lparr>wt_pending := wt_pending s1 @ new\<rparr>
         in if rtc_is_alive E (pe_rtc peer) then s1\<lparr>wt_peers := hm_insert cid peer (wt_peers s1)\<rparr>
            else (let s2 = drop_routes cid (gate_remove (wt_gate s1) (WebRtc cid) s1);
                      (result, n) = nc_disconnect E cid (wt_netcode s2)
                  in push_result (to_owned_server_result result) (s2\<lparr>wt_netcode := n\<rparr>)))"
  proof (cases "rtc_is_alive E (pe_rtc peer0)")
    case True
    obtain res p results t where dr: "drive_loop E MAX_WEBRTC_DRAIN_STEPS_PER_PEER
        (peer0\<lparr>pe_next_timeout := None\<rparr>) [] ?s0 = (res, p, results, t)"
      by (metis prod_cases4)
    obtain new where "results = [] @ new" "driven_from E (peer0\<lparr>pe_next_timeout := None\<rparr>) ?s0 new p t"
      by (rule drive_facts[OF dr])
    then have nd: "results = new" "driven_from E peer0 ?s0 new p t"
      by (simp_all add: driven_from_def)
    show thesis
    proof (cases res)
      case (Inl e)
      have "driven_from E peer0 ?s0 [] (disconnect_peer E p) t"
        using driven_disconnect[of t t E p] nd(2)
        by (fastforce simp: driven_from_def intro: order_trans[OF _ add_leD2])
      then show thesis
        using that[of "[]" "disconnect_peer E p" t] True Some dr Inl
        by (simp add: flush_peer_output_def drive_peer_with_limit_def)
    next
      case (Inr u)
      then show thesis
        using that[OF nd(2)] True Some dr nd(1) by (simp add: flush_peer_output_def drive_peer_with_limit_def)
    qed
  next
    case False
    then show thesis
      using that[of "[]" peer0 ?s0] Some by (simp add: flush_peer_output_def driven_from_def Let_def)
  qed
  show thesis
  proof (cases "rtc_is_alive E (pe_rtc peer)")
    case True
    then show thesis
      using d by (intro alive[OF Some, of peer new]) (simp_all add: fl driven_from_def core_def)
  next
    case False
    have "core (flush_peer_output E cid s) = (sh_renet s, hm_remove cid (wt_peers s), wt_connected s,
        wt_removals s, wt_pending s @ new @ [to_owned_server_result (fst (nc_disconnect E cid (wt_netcode s1)))])"
      using d unfolding fl
      by (simp add: False Let_def push_result_def core_def drop_routes_def gate_remove_def driven_from_def
          split: prod.split)
    with d show thesis
      by (intro dead[OF Some]) (auto simp: driven_from_def intro: add_leD1)
  qed
qed

section \<open>Invariants while results are handled\<close>

type_synonym ('r, 'rtc) core_state =
  "'r \<times> (client_id \<times> 'rtc server_peer) list \<times> client_id list \<times> client_id list \<times> owned_server_result list"

text \<open>
  What handling netcode results may do to the core state.  \<open>R\<close> holds of every queued result; the
  Renet server sees a connection added only for a client it does not report connected.
\<close>

locale webrtc_results =
  fixes E :: "('n, 'r, 's, 'c, 'rtc, 're, 'x) rtc_env_scheme"
    and R :: "owned_server_result \<Rightarrow> bool"
    and I :: "('r, 'rtc) core_state \<Rightarrow> bool"
  assumes on_flush: "I (core s) \<Longrightarrow> I (core (flush_peer_output E cid s))"
    and on_write: "I (r, peers, cn, rm, pend) \<Longrightarrow> hm_get peers cid = Some peer
      \<Longrightarrow> I (r, hm_insert cid (peer\<lparr>pe_rtc := snd (rtc_write E channel payload (pe_rtc peer))\<rparr>) peers, cn, rm, pend)"
    and on_drop: "I (r, peers, cn, rm, pend) \<Longrightarrow> I (r, hm_remove cid peers, cn, rm, pend)"
    and on_forget: "I (r, peers, cn, rm, pend) \<Longrightarrow> I (r, peers, cn, rm, filter Q pend)"
    and on_add: "I (r, peers, cn, rm, pend) \<Longrightarrow> R (OClientConnected cid addr payload)
      \<Longrightarrow> \<not> rs_is_connected E cid r
      \<Longrightarrow> I (rs_add_connection E cid r, peers, List.insert cid cn, rm, pend)"
    and on_remove: "I (r, peers, cn, rm, pend) \<Longrightarrow> cid \<in> set cn
      \<Longrightarrow> I (rs_remove_connection E cid r, peers, removeAll cid cn, rm, pend)"
    and on_schedule: "I (r, peers, cn, rm, pend) \<Longrightarrow> cid \<in> set cn
      \<Longrightarrow> I (r, peers, removeAll cid cn, List.insert cid rm, pend)"
    and on_payload: "I (r, peers, cn, rm, pend) \<Longrightarrow> I (rs_process_packet_from E payload cid r, peers, cn, rm, pend)"
    and on_removals: "I (r, peers, cn, rm, pend) \<Longrightarrow> I (fold (rs_remove_connection E) rm r, peers, cn, [], pend)"
    and pending_ok: "I (r, peers, cn, rm, pend) \<Longrightarrow> list_all R pend"
begin

lemma backend_keeps:
  assumes "I (core s)"
  shows "I (core (snd (send_to_peer_backend E cid payload s)))"
proof -
  let ?s = "flush_peer_output E cid s"
  have fl: "I (core ?s)" by (rule on_flush[OF assms])
  show ?thesis
  proof (cases "hm_get (wt_peers ?s) cid")
    case (Some peer)
    have wr: "I (core (?s\<lparr>wt_peers := hm_insert cid (peer\<lparr>pe_rtc := rtc\<rparr>) (wt_peers ?s)\<rparr>))"
      if "rtc_write E channel payload (pe_rtc peer) = (acc, rtc)" for channel acc rtc
      using on_write[OF fl[unfolded core_def] Some, of channel payload] that by (simp add: core_def)
    show ?thesis
      using fl Some on_flush[OF wr]
      by (auto simp: send_to_peer_backend_def Let_def split: option.split prod.split sum.split)
  qed (use fl in \<open>simp add: send_to_peer_backend_def Let_def\<close>)
qed

lemma unconditioned_keeps:
  assumes "I (core s)"
  shows "I (core (snd (send_to_peer_unconditioned E cid payload s)))"
proof -
  have "I (core (snd (send_to_peer_backend E cid payload (s\<lparr>sh_clock := c, wt_egress := e\<rparr>))))" for c e
    by (rule backend_keeps) (simp add: assms)
  then show ?thesis
    using assms by (auto simp: send_to_peer_unconditioned_def Let_def split: prod.split dest: arg_cong[of _ _ snd])
      (metis snd_conv)
qed

lemma lossy_keeps:
  assumes "I (core s)"
  shows "I (core (send_to_peer_lossy E cid payload s))"
proof -
  obtain taken s1 where d: "gate_defer E (wt_gate s) Outgoing (WebRtc cid) payload s = (taken, s1)"
    by fastforce
  have "core s1 = core s"
    using core_gate(1)[of E "wt_gate s" Outgoing "WebRtc cid" payload s] by (simp add: d)
  then show ?thesis
    using assms unconditioned_keeps[of s1] by (simp add: send_to_peer_lossy_def send_to_peer_def d)
qed

lemma remove_peer_keeps:
  assumes "I (core s)"
  shows "I (core (snd (remove_peer E cid s)))"
proof -
  have i: "I (sh_renet s, hm_remove cid (wt_peers s), wt_connected s, wt_removals s,
      filter (\<lambda>r. \<not> concerns cid r) (wt_pending s))"
    by (rule on_forget[OF on_drop[OF assms[unfolded core_def]]])
  show ?thesis
    using i on_schedule[OF i, of cid]
    by (simp add: remove_peer_def Let_def core_def drop_routes_def gate_remove_def)
qed

lemma handle_keeps:
  assumes "I (core s)" "R result"
  shows "I (core (webrtc_handle_server_result E result s))"
proof (cases result)
  case (OPacketToSend addr payload)
  then show ?thesis
    using assms(1) lossy_keeps by (simp add: webrtc_handle_server_result_def split: option.split)
next
  case (OPayload cid payload)
  then show ?thesis
    using on_payload[OF assms(1)[unfolded core_def], of payload cid]
    by (simp add: webrtc_handle_server_result_def core_def)
next
  case (OClientConnected cid addr payload)
  show ?thesis
  proof (cases "rs_is_connected E cid (sh_renet s)")
    case True
    then show ?thesis
      using OClientConnected assms(1) remove_peer_keeps lossy_keeps
      by (simp add: webrtc_handle_server_result_def Let_def
          split: prod.split owned_server_result.split option.split)
  next
    case False
    then show ?thesis
      using OClientConnected lossy_keeps on_add[OF assms(1)[unfolded core_def], of cid addr payload] assms(2)
      by (simp add: webrtc_handle_server_result_def core_def)
  qed
next
  case (OClientDisconnected cid addr payload)
  define s1 where "s1 = (if cid \<in> set (wt_connected s)
     then s\<lparr>wt_connected := removeAll cid (wt_connected s), sh_renet := rs_remove_connection E cid (sh_renet s)\<rparr>
     else s)"
  define s3 where "s3 = (case payload of None \<Rightarrow> s1\<lparr>wt_routes := hm_remove addr (wt_routes s1)\<rparr>
      | Some p \<Rightarrow> send_to_peer_lossy E cid p (s1\<lparr>wt_routes := hm_remove addr (wt_routes s1)\<rparr>))"
  have "I (core s1)"
    using assms(1) on_remove[OF assms(1)[unfolded core_def], of cid] by (simp add: s1_def core_def)
  then have s3: "I (core s3)"
    using lossy_keeps by (simp add: s3_def split: option.split)
  have "webrtc_handle_server_result E result s =
      (let s4 = drop_routes cid s3
       in gate_remove (wt_gate s4) (WebRtc cid) (s4\<lparr>wt_peers := hm_remove cid (wt_peers s4)\<rparr>))"
    unfolding OClientDisconnected webrtc_handle_server_result_def s1_def s3_def Let_def by simp
  then show ?thesis
    using on_drop[OF s3[unfolded core_def], of cid] by (simp add: Let_def core_def drop_routes_def gate_remove_def)
qed (use assms in \<open>simp add: webrtc_handle_server_result_def\<close>)

lemma handle_all_keeps:
  "I (core s) \<Longrightarrow> list_all R rs \<Longrightarrow> I (core (fold (webrtc_handle_server_result E) rs s))"
  by (induction rs arbitrary: s) (simp_all add: handle_keeps)

lemma round_keeps:
  assumes "I (core s)"
  shows "I (core (fold (webrtc_handle_server_result E) (wt_pending s) (s\<lparr>wt_pending := []\<rparr>)))"
proof (rule handle_all_keeps)
  show "I (core (s\<lparr>wt_pending := []\<rparr>))"
    using on_forget[OF assms[unfolded core_def], of "\<lambda>_. False"] by (simp add: core_def)
  show "list_all R (wt_pending s)"
    by (rule pending_ok[OF assms[unfolded core_def]])
qed

lemma loop_keeps:
  assumes "apply_results_loop E s = Some s'" "I (core s)"
  shows "I (core s') \<and> wt_pending s' = []"
proof -
  have "E' = E \<longrightarrow> I (core t) \<longrightarrow> I (core t') \<and> wt_pending t' = []"
    if "apply_results_loop E' t = Some t'" for E' t t'
  proof (rule apply_results_loop.raw_induct[OF _ that], goal_cases)
    case (1 loop E' t t')
    then show ?case
      using round_keeps[of t] by (auto split: if_splits)
  qed
  with assms show ?thesis by blast
qed

lemma removals_keep: "I (core s) \<Longrightarrow> I (core (apply_removals E s))"
  using on_removals[of "sh_renet s" "wt_peers s" "wt_connected s" "wt_removals s" "wt_pending s"]
  by (simp add: core_def apply_removals_def)

lemma apply_keeps: "apply_pending_results E s = Some s' \<Longrightarrow> I (core s) \<Longrightarrow> I (core s')"
  using loop_keeps removals_keep unfolding apply_pending_results_def by blast

end

section \<open>Handling results ends\<close>

text \<open>Every data event still to come and every peer may yield one more result.\<close>

definition peers_weight :: "('rtc \<Rightarrow> nat) \<Rightarrow> (client_id \<times> 'rtc server_peer) list \<Rightarrow> nat" where
  "peers_weight \<mu> peers = sum_list (map (\<lambda>(_, p). Suc (\<mu> (pe_rtc p))) peers)"

lemma weight_remove:
  "hm_wf m \<Longrightarrow> hm_get m k = Some p \<Longrightarrow> peers_weight \<mu> (hm_remove k m) + Suc (\<mu> (pe_rtc p)) = peers_weight \<mu> m"
proof (induction m)
  case (Cons x m)
  then show ?case
    by (cases x) (auto simp: peers_weight_def delete_id simp del: map_of_eq_Some_iff)
qed simp

lemma weight_remove_le: "peers_weight \<mu> (hm_remove k m) \<le> peers_weight \<mu> m"
  by (induction m) (auto simp: peers_weight_def)

lemma weight_insert_new:
  "k \<notin> hm_keys m \<Longrightarrow> peers_weight \<mu> (hm_insert k p m) = peers_weight \<mu> m + Suc (\<mu> (pe_rtc p))"
  by (induction m) (auto simp: peers_weight_def hm_keys_def)

lemma weight_insert_old:
  "hm_get m k = Some p \<Longrightarrow> \<mu> (pe_rtc p') \<le> \<mu> (pe_rtc p) \<Longrightarrow> peers_weight \<mu> (hm_insert k p' m) \<le> peers_weight \<mu> m"
  by (induction m) (auto simp: peers_weight_def split: if_splits)

definition bounded_work ::
  "('n, 'r, 's, 'c, 'rtc, 're, 'x) rtc_env_scheme \<Rightarrow> ('rtc \<Rightarrow> nat) \<Rightarrow> nat \<Rightarrow> ('r, 'rtc) core_state \<Rightarrow> bool" where
  "bounded_work E \<mu> B st \<longleftrightarrow> (case st of (r, peers, cn, rm, pend) \<Rightarrow>
     rtc_progress E \<mu> \<longrightarrow> hm_wf peers \<and> peers_weight \<mu> peers + length pend \<le> B)"

lemma flush_work:
  assumes "bounded_work E \<mu> B (core s)"
  shows "bounded_work E \<mu> B (core (flush_peer_output E cid s))"
proof (cases rule: flush_facts[of E cid s])
  case none
  with assms show ?thesis by simp
next
  case (alive peer peer' new)
  show ?thesis
    unfolding alive(5) bounded_work_def prod.case
  proof
    assume pr: "rtc_progress E \<mu>"
    have wf: "hm_wf (wt_peers s)" and le: "peers_weight \<mu> (wt_peers s) + length (wt_pending s) \<le> B"
      using assms pr by (simp_all add: bounded_work_def core_def)
    have "peers_weight \<mu> (hm_insert cid peer' (hm_remove cid (wt_peers s)))
        = peers_weight \<mu> (hm_remove cid (wt_peers s)) + Suc (\<mu> (pe_rtc peer'))"
      by (rule weight_insert_new) simp
    then show "hm_wf (hm_insert cid peer' (hm_remove cid (wt_peers s)))
        \<and> peers_weight \<mu> (hm_insert cid peer' (hm_remove cid (wt_peers s))) + length (wt_pending s @ new) \<le> B"
      using weight_remove[OF wf alive(1), of \<mu>] alive(4)[OF pr] wf le by simp
  qed
next
  case (dead peer new n)
  show ?thesis
    unfolding dead(4) bounded_work_def prod.case
  proof
    assume pr: "rtc_progress E \<mu>"
    have wf: "hm_wf (wt_peers s)" and le: "peers_weight \<mu> (wt_peers s) + length (wt_pending s) \<le> B"
      using assms pr by (simp_all add: bounded_work_def core_def)
    then show "hm_wf (hm_remove cid (wt_peers s)) \<and> peers_weight \<mu> (hm_remove cid (wt_peers s))
        + length (wt_pending s @ new @ [to_owned_server_result (fst (nc_disconnect E cid n))]) \<le> B"
      using weight_remove[OF wf dead(1), of \<mu>] dead(3)[OF pr] by simp
  qed
qed

interpretation work: webrtc_results E "\<lambda>_. True" "bounded_work E \<mu> B" for E \<mu> B
proof (unfold_locales, goal_cases)
  case (1 s cid)
  then show ?case by (rule flush_work)
next
  case (2 r peers cn rm pend cid peer channel payload)
  have "\<mu> (pe_rtc (peer\<lparr>pe_rtc := snd (rtc_write E channel payload (pe_rtc peer))\<rparr>)) \<le> \<mu> (pe_rtc peer)"
    if "rtc_progress E \<mu>"
    using that by (simp add: rtc_progress_def)
  then show ?case
    using 2 weight_insert_old[OF 2(2), of \<mu>] by (fastforce simp: bounded_work_def)
next
  case (3 r peers cn rm pend cid)
  then show ?case using weight_remove_le[of \<mu> cid peers] by (auto simp: bounded_work_def)
next
  case (4 r peers cn rm pend Q)
  then show ?case
    by (auto simp: bounded_work_def intro: order_trans[OF add_left_mono[OF length_filter_le]])
qed (auto simp: bounded_work_def list_all_iff)

lemma loop_returns:
  assumes "rtc_progress E \<mu>" "hm_wf (wt_peers s)"
  shows "\<exists>s'. apply_results_loop E s = Some s'"
  using assms(2)
proof (induction "peers_weight \<mu> (wt_peers s) + length (wt_pending s)" arbitrary: s rule: less_induct)
  case less
  show ?case
  proof (cases "wt_pending s = []")
    case True
    then show ?thesis by (subst apply_results_loop.simps) simp
  next
    case False
    let ?s = "fold (webrtc_handle_server_result E) (wt_pending s) (s\<lparr>wt_pending := []\<rparr>)"
    have "bounded_work E \<mu> (peers_weight \<mu> (wt_peers s)) (core (s\<lparr>wt_pending := []\<rparr>))"
      using less.prems by (simp add: bounded_work_def core_def)
    from work.handle_all_keeps[OF this, of "wt_pending s"]
    have "hm_wf (wt_peers ?s)" "peers_weight \<mu> (wt_peers ?s) + length (wt_pending ?s) \<le> peers_weight \<mu> (wt_peers s)"
      using assms(1) by (simp_all add: bounded_work_def core_def list_all_iff)
    then have "\<exists>s'. apply_results_loop E ?s = Some s'"
      using less.hyps[of ?s] False by (cases "wt_pending s") simp_all
    then show ?thesis
      using False by (subst apply_results_loop.simps) simp
  qed
qed

lemma apply_returns:
  "rtc_progress E \<mu> \<Longrightarrow> hm_wf (wt_peers s) \<Longrightarrow> \<exists>s'. apply_pending_results E s = Some s'"
  using loop_returns[of E \<mu> "apply_removals E s"] by (simp add: apply_pending_results_def apply_removals_def)

section \<open>Invariants of the transport\<close>

text \<open>The remaining ways in which the operations change the core state.\<close>

locale webrtc_invariant = webrtc_results +
  assumes on_update: "I (r, peers, cn, rm, pend) \<Longrightarrow> hm_get peers cid = Some peer
      \<Longrightarrow> pe_client_id peer' = pe_client_id peer \<Longrightarrow> I (r, hm_insert cid peer' peers, cn, rm, pend)"
    and on_reinsert: "I (r, peers, cn, rm, pend) \<Longrightarrow> hm_get peers cid = Some peer
      \<Longrightarrow> pe_client_id peer' = pe_client_id peer \<Longrightarrow> list_all (own_result (pe_client_id peer)) new
      \<Longrightarrow> I (r, hm_insert cid peer' (hm_remove cid peers), cn, rm, pend @ new)"
    and on_clear: "I (r, peers, cn, rm, pend) \<Longrightarrow> I (r, [], cn, rm, pend)"
    and on_packets: "I (r, peers, cn, rm, pend) \<Longrightarrow> I (snd (rs_get_packets_to_send E cid r), peers, cn, rm, pend)"
    and on_netcode: "I (r, peers, cn, rm, pend) \<Longrightarrow> R (to_owned_server_result (fst (nc_update_client E cid n)))"
      "I (r, peers, cn, rm, pend) \<Longrightarrow> R (to_owned_server_result (fst (nc_disconnect E cid n)))"
begin

lemma fold_keeps: "(\<And>x s. I (core s) \<Longrightarrow> I (core (f x s))) \<Longrightarrow> I (core s) \<Longrightarrow> I (core (fold f xs s))"
  by (induction xs arbitrary: s) auto

lemma fold_option_keeps:
  assumes "\<And>x s s'. f x s = Some s' \<Longrightarrow> I (core s) \<Longrightarrow> I (core s')" "fold_option f xs s = Some s'" "I (core s)"
  shows "I (core s')"
  using assms(2,3)
  by (induction xs arbitrary: s) (auto split: option.splits intro: assms(1))

lemma reinsert_keeps:
  assumes "I (core s)" "hm_get (wt_peers s) cid = Some peer"
    and "core s1 = core (s\<lparr>wt_peers := hm_remove cid (wt_peers s)\<rparr>)"
    and "pe_client_id peer' = pe_client_id peer" "list_all (own_result (pe_client_id peer)) new"
  shows "I (core (s1\<lparr>wt_pending := wt_pending s1 @ new, wt_peers := hm_insert cid peer' (wt_peers s1)\<rparr>))"
  using on_reinsert[OF assms(1)[unfolded core_def] assms(2,4,5)] assms(3) by (simp add: core_def)

lemma drain_incoming_keeps:
  assumes "drain_incoming E drained s = Some s'" "I (core s)"
  shows "I (core s')"
proof -
  obtain peer_id packet where d: "drained = (peer_id, packet)" by fastforce
  show ?thesis
  proof (cases peer_id)
    case (Udp a)
    with assms d show ?thesis by (simp add: drain_incoming_def)
  next
    case (WebRtc cid)
    show ?thesis
    proof (cases "hm_get (wt_peers s) cid")
      case None
      with assms d WebRtc show ?thesis by (simp add: drain_incoming_def)
    next
      case (Some peer)
      let ?s0 = "s\<lparr>wt_peers := hm_remove cid (wt_peers s)\<rparr>"
      obtain peer1 results s1 where p: "(if rtc_is_alive E (pe_rtc peer) then process_peer_packet E packet peer [] ?s0
           else (peer, [], ?s0)) = (peer1, results, s1)"
        by (rule prod_cases3)
      have "core s1 = core ?s0 \<and> pe_client_id peer1 = pe_client_id peer
          \<and> list_all (own_result (pe_client_id peer)) results"
      proof (cases "rtc_is_alive E (pe_rtc peer)")
        case True
        with p have "process_peer_packet E packet peer [] ?s0 = (peer1, results, s1)" by simp
        from process_packet_facts[OF this] show ?thesis by auto
      next
        case False
        with p show ?thesis by auto
      qed
      from reinsert_keeps[OF assms(2) Some, of s1 peer1 results] this
      have "I (core (flush_peer_output E cid (s1\<lparr>wt_pending := wt_pending s1 @ results,
          wt_peers := hm_insert cid peer1 (wt_peers s1)\<rparr>)))"
        by (intro on_flush) blast
      then show ?thesis
        using assms(1) apply_keeps by (auto simp: drain_incoming_def d WebRtc Some p Let_def)
    qed
  qed
qed

lemma drain_keeps:
  assumes "drain_conditioned_packets E s = Some s'" "I (core s)"
  shows "I (core s')"
proof -
  obtain incoming s1 where g: "gate_drain E (wt_gate s) Incoming s = (incoming, s1)" by fastforce
  have c1: "core s1 = core s" using core_gate(2)[of E "wt_gate s" Incoming s] by (simp add: g)
  from assms(1) g obtain s2 where s2: "fold_option (drain_incoming E) incoming s1 = Some s2"
    by (auto simp: drain_conditioned_packets_def split: option.splits)
  have i2: "I (core s2)"
    by (rule fold_option_keeps[OF _ s2]) (use drain_incoming_keeps assms(2) c1 in auto)
  obtain outgoing s3 where g3: "gate_drain E (wt_gate s2) Outgoing s2 = (outgoing, s3)" by fastforce
  have "core s3 = core s2" using core_gate(2)[of E "wt_gate s2" Outgoing s2] by (simp add: g3)
  moreover have "I (core (drain_outgoing E d t))" if "I (core t)" for d t
    using that unconditioned_keeps by (auto simp: drain_outgoing_def split: prod.split server_peer_id.split)
  ultimately have "I (core (fold (drain_outgoing E) outgoing s3))"
    using i2 by (intro fold_keeps) auto
  then show ?thesis
    using assms(1) apply_keeps by (auto simp: drain_conditioned_packets_def g s2 g3)
qed

lemma input_keeps: "I (core s) \<Longrightarrow> I (core (input_to_peer E cid source input s))"
proof (cases "hm_get (wt_peers s) cid")
  case (Some peer)
  assume "I (core s)"
  then have upd: "I (sh_renet s, hm_insert cid peer' (wt_peers s), wt_connected s, wt_removals s, wt_pending s)"
    if "pe_client_id peer' = pe_client_id peer" for peer'
    using on_update[OF _ Some that] by (simp add: core_def)
  show ?thesis
  proof (cases "pe_next_timeout peer = None")
    case True
    with Some \<open>I (core s)\<close> show ?thesis by (simp add: input_to_peer_def)
  next
    case False
    then show ?thesis
      using Some by (auto simp: input_to_peer_def Let_def core_def disconnect_peer_def
          split: prod.split sum.split intro!: upd)
  qed
qed (simp add: input_to_peer_def)

lemma route_keeps: "I (core s) \<Longrightarrow> I (core (snd (route_loop E now n seen s)))"
proof (induction n arbitrary: seen s)
  case (Suc n)
  have dg: "I (core (snd (route_datagram E now d src seen t)))" if "I (core t)" for d src seen t
    using that by (auto simp: route_datagram_def Let_def input_keeps on_flush split: option.split)
  have so: "I (core (s\<lparr>wt_socket := so\<rparr>))" for so using Suc.prems by simp
  show ?case
    using Suc.IH[OF dg[OF so]] Suc.IH[OF so] Suc.prems
    by (fastforce simp: Let_def split: prod.split sum.split dest: arg_cong[of _ _ snd])
qed simp

lemma timeout_keeps: "I (core s) \<Longrightarrow> I (core (peer_timeout E now cid s))"
  using on_update[of "sh_renet s" "wt_peers s" "wt_connected s" "wt_removals s" "wt_pending s" cid]
  by (auto simp: peer_timeout_def Let_def core_def disconnect_peer_def split: option.split prod.split sum.split)

lemma call_keeps:
  assumes "I (core s)" "\<And>n. R (to_owned_server_result (fst (call n)))"
  shows "I (core (webrtc_netcode_call E call s))"
  using assms(1) assms(2)[of "wt_netcode s"] handle_keeps
  by (auto simp: webrtc_netcode_call_def split: prod.split)

lemma calls_keep:
  assumes "I (core s)"
  shows "I (core (fold (\<lambda>cid. webrtc_netcode_call E (nc_update_client E cid)) cids s))"
    "I (core (fold (\<lambda>cid. webrtc_netcode_call E (nc_disconnect E cid)) cids s))"
  using on_netcode[OF assms[unfolded core_def]] by (auto intro!: fold_keeps call_keeps assms)

lemma rest_keeps:
  assumes "webrtc_update_rest E now routed s = Some s'" "I (core s)" "list_all R routed"
  shows "I (core s')"
proof -
  define s2 where "s2 = fold (pump_peer E now) (map fst (wt_peers (fold (webrtc_handle_server_result E) routed s)))
      (fold (webrtc_handle_server_result E) routed s)"
  have "I (core s2)"
    unfolding s2_def by (intro fold_keeps handle_all_keeps assms(2,3))
      (simp add: pump_peer_def on_flush timeout_keeps)
  moreover obtain s3 where s3: "apply_pending_results E s2 = Some s3"
    using assms(1) by (auto simp: webrtc_update_rest_def Let_def s2_def split: option.splits)
  ultimately have i3: "I (core s3)" using apply_keeps by blast
  define s5 where "s5 = (let s4 = fold (\<lambda>cid. webrtc_netcode_call E (nc_update_client E cid))
                         (nc_clients_id E (wt_netcode s3)) s3
      in fold (\<lambda>cid. webrtc_netcode_call E (nc_disconnect E cid)) (rs_disconnections_id E (sh_renet s4)) s4)"
  have "I (core s5)"
    unfolding s5_def Let_def by (intro calls_keep i3)
  moreover obtain s6 where "apply_pending_results E s5 = Some s6" "drain_conditioned_packets E s6 = Some s'"
    using assms(1) s3 by (auto simp: webrtc_update_rest_def Let_def s2_def[symmetric] s5_def split: option.splits)
  ultimately show ?thesis using apply_keeps drain_keeps by blast
qed

lemma update_keeps:
  assumes "webrtc_update_at E d now s = Some (res, s')" "I (core s)"
  shows "I (core s')"
proof -
  from assms(1) obtain s1 s2 s3 where
    ap: "apply_pending_results E s = Some s1"
    and dr: "drain_conditioned_packets E (s1\<lparr>wt_netcode := nc_update E d (wt_netcode s1)\<rparr>) = Some s2"
    and fl: "apply_pending_results E (fold (flush_peer_output E) (map fst (wt_peers s2)) s2) = Some s3"
    by (auto simp: webrtc_update_at_def split: option.splits)
  have "I (core s1)" by (rule apply_keeps[OF ap assms(2)])
  then have "I (core s2)" by (intro drain_keeps[OF dr]) simp
  then have i3: "I (core s3)" by (intro apply_keeps[OF fl] fold_keeps on_flush)
  obtain rl s4 where rt: "route_loop E now MAX_WEBRTC_DATAGRAMS_PER_UPDATE [] s3 = (rl, s4)" by fastforce
  have i4: "I (core s4)"
    using route_keeps[OF i3, of now MAX_WEBRTC_DATAGRAMS_PER_UPDATE "[]"] by (simp add: rt)
  have i4': "I (core (s4\<lparr>wt_pending := []\<rparr>))"
    using on_forget[OF i4[unfolded core_def], of "\<lambda>_. False"] by (simp add: core_def)
  have "list_all R (wt_pending s4)"
    by (rule pending_ok[OF i4[unfolded core_def]])
  with i4 i4' show ?thesis
    using assms(1) rest_keeps[OF _ i4'] ap dr fl
    by (auto simp: webrtc_update_at_def route_socket_input_to_peers_def rt split: sum.splits)
qed

lemma send_packets_keeps:
  assumes "webrtc_send_packets E s = Some s'" "I (core s)"
  shows "I (core s')"
proof -
  have pay: "I (core (webrtc_send_payloads E cid ps t))" if "I (core t)" for cid ps t
    using that
    by (induction ps arbitrary: t) (auto simp: Let_def lossy_keeps split: prod.split option.split)
  have cl: "I (core (webrtc_send_client E cid t))" if "I (core t)" for cid t
    using on_packets[OF that[unfolded core_def], of cid] pay
    by (auto simp: webrtc_send_client_def Let_def core_def split: prod.split option.split)
  from assms(1) obtain s1 s2 s3 where
    s: "apply_pending_results E s = Some s1" "drain_conditioned_packets E s1 = Some s2"
      "apply_pending_results E (fold (webrtc_send_client E) (nc_clients_id E (wt_netcode s2)) s2) = Some s3"
      "drain_conditioned_packets E s3 = Some s'"
    by (auto simp: webrtc_send_packets_def split: option.splits)
  have "I (core s2)" by (rule drain_keeps[OF s(2) apply_keeps[OF s(1) assms(2)]])
  then have "I (core (fold (webrtc_send_client E) (nc_clients_id E (wt_netcode s2)) s2))"
    by (intro fold_keeps cl)
  with s(3,4) show ?thesis using drain_keeps apply_keeps by blast
qed

lemma disconnect_all_keeps:
  assumes "webrtc_disconnect_all E s = Some s'" "I (core s)"
  shows "I (core s')"
proof -
  from assms(1) obtain s1 where s1: "apply_pending_results E s = Some s1"
    by (auto simp: webrtc_disconnect_all_def split: option.splits)
  define s2 where "s2 = fold (\<lambda>cid. webrtc_netcode_call E (nc_disconnect E cid)) (nc_clients_id E (wt_netcode s1)) s1"
  have "I (core s2)"
    unfolding s2_def by (intro calls_keep apply_keeps[OF s1 assms(2)])
  then have "I (core (gate_reset (wt_gate s2) (s2\<lparr>wt_peers := [], wt_routes := []\<rparr>)))"
    using on_clear by (simp add: core_def gate_reset_def)
  with assms(1) s1 show ?thesis
    using apply_keeps by (auto simp: webrtc_disconnect_all_def Let_def s2_def)
qed

end

section \<open>Runs of the transport\<close>

datatype 'rtc webrtc_op =
    WebAddPeer client_id 'rtc
  | WebRemovePeer client_id
  | WebUpdate duration duration
  | WebSendPackets
  | WebDisconnectAll

fun webrtc_step ::
  "('n, 'r, 's, 'c, 'rtc, 're, 'x) rtc_env_scheme \<Rightarrow> 'rtc webrtc_op
    \<Rightarrow> ('n, 'r, 's, 'c, 'rtc) webrtc_transport \<Rightarrow> ('n, 'r, 's, 'c, 'rtc) webrtc_transport option" where
  "webrtc_step E (WebAddPeer cid rtc) s = Some (snd (add_peer E cid rtc s))"
| "webrtc_step E (WebRemovePeer cid) s = Some (snd (remove_peer E cid s))"
| "webrtc_step E (WebUpdate d now) s = map_option snd (webrtc_update_at E d now s)"
| "webrtc_step E WebSendPackets s = webrtc_send_packets E s"
| "webrtc_step E WebDisconnectAll s = webrtc_disconnect_all E s"

abbreviation webrtc_run where
  "webrtc_run E ops s \<equiv> fold_option (webrtc_step E) ops s"

fun signalled_id :: "'rtc webrtc_op \<Rightarrow> client_id list" where
  "signalled_id (WebAddPeer cid _) = [cid]"
| "signalled_id _ = []"

context webrtc_invariant
begin

lemma run_keeps:
  assumes run: "webrtc_run E ops s = Some s'" and "I (core s)"
    and add: "\<And>r peers cn rm pend cid rtc. I (r, peers, cn, rm, pend) \<Longrightarrow> cid \<in> set (concat (map signalled_id ops))
      \<Longrightarrow> I (r, hm_insert cid (ServerPeer_new cid rtc) (hm_remove cid peers), cn, rm, pend)"
  shows "I (core s')"
  using assms
proof (induction ops arbitrary: s)
  case (Cons op ops)
  from Cons.prems(1) obtain s1 where s1: "webrtc_step E op s = Some s1" "webrtc_run E ops s1 = Some s'"
    by (auto split: option.splits)
  have "I (core s1)"
  proof (cases op)
    case (WebAddPeer cid rtc)
    obtain prev t where t: "remove_peer E cid s = (prev, t)" by fastforce
    have it: "I (core t)" using remove_peer_keeps[OF Cons.prems(2), of cid] by (simp add: t)
    have gone: "wt_peers t = hm_remove cid (wt_peers t)"
      using t by (auto simp: remove_peer_def Let_def drop_routes_def gate_remove_def delete_idem)
    have "I (sh_renet t, hm_insert cid (ServerPeer_new cid rtc) (hm_remove cid (wt_peers t)), wt_connected t,
        wt_removals t, wt_pending t)"
      by (rule Cons.prems(3)[OF it[unfolded core_def]]) (simp add: WebAddPeer)
    then show ?thesis
      using s1(1) by (auto simp: WebAddPeer add_peer_def t Let_def core_def gone[symmetric])
  next
    case (WebRemovePeer cid)
    then show ?thesis using s1(1) remove_peer_keeps[OF Cons.prems(2), of cid] by auto
  qed (use s1(1) Cons.prems(2) update_keeps send_packets_keeps disconnect_all_keeps in auto)
  with s1(2) Cons.prems(3) show ?case by (intro Cons.IH) auto
qed simp

end

text \<open>Peers are keyed once.\<close>

interpretation keyed: webrtc_invariant E "\<lambda>_. True" "\<lambda>(r, peers, cn, rm, pend). hm_wf peers" for E
proof (unfold_locales, goal_cases)
  case (1 s cid)
  then have "hm_wf (wt_peers s)" by (simp add: core_def)
  then show ?case
    by (cases rule: flush_facts[of E cid s]) (simp_all add: core_def)
qed (auto simp: list_all_iff)

lemma fold_option_returns:
  assumes "\<And>x s. J s \<Longrightarrow> \<exists>s'. f x s = Some s' \<and> J s'" "J s"
  shows "\<exists>s'. fold_option f xs s = Some s' \<and> J s'"
  using assms(2)
proof (induction xs arbitrary: s)
  case (Cons x xs)
  then show ?case using assms(1)[OF Cons.prems, of x] by force
qed simp

lemmas wf_flush = keyed.on_flush[unfolded core_def prod.case]
lemmas wf_keeps = wf_flush keyed.timeout_keeps[unfolded core_def prod.case]
  keyed.lossy_keeps[unfolded core_def prod.case] keyed.calls_keep[unfolded core_def prod.case]
  keyed.unconditioned_keeps[unfolded core_def prod.case] keyed.remove_peer_keeps[unfolded core_def prod.case]
lemmas wf_fold = keyed.fold_keeps[unfolded core_def prod.case]

text \<open>Under progress of the RTC engine every operation returns.\<close>

lemma apply_returns_wf:
  assumes "rtc_progress E \<mu>" "hm_wf (wt_peers s)"
  shows "\<exists>s'. apply_pending_results E s = Some s' \<and> hm_wf (wt_peers s')"
  using apply_returns[OF assms] keyed.apply_keeps[of E s] assms(2) by (fastforce simp: core_def)

lemma drain_incoming_returns:
  assumes "rtc_progress E \<mu>" "hm_wf (wt_peers s)"
  shows "\<exists>s'. drain_incoming E d s = Some s' \<and> hm_wf (wt_peers s')"
proof -
  obtain pid packet where d: "d = (pid, packet)" by fastforce
  show ?thesis
  proof (cases pid)
    case (Udp a)
    then show ?thesis using assms(2) by (simp add: drain_incoming_def d)
  next
    case (WebRtc cid)
    show ?thesis
    proof (cases "hm_get (wt_peers s) cid")
      case None
      then show ?thesis using assms(2) by (simp add: drain_incoming_def d WebRtc)
    next
      case (Some peer)
      let ?s0 = "s\<lparr>wt_peers := hm_remove cid (wt_peers s)\<rparr>"
      obtain peer1 results s1 where p: "(if rtc_is_alive E (pe_rtc peer) then process_peer_packet E packet peer [] ?s0
          else (peer, [], ?s0)) = (peer1, results, s1)"
        by (rule prod_cases3)
      have "wt_peers s1 = hm_remove cid (wt_peers s)"
      proof (cases "rtc_is_alive E (pe_rtc peer)")
        case True
        with p have "process_peer_packet E packet peer [] ?s0 = (peer1, results, s1)" by simp
        from process_packet_facts(2)[OF this] show ?thesis by (simp add: core_def)
      next
        case False
        with p show ?thesis by auto
      qed
      then have "hm_wf (wt_peers (s1\<lparr>wt_pending := wt_pending s1 @ results,
          wt_peers := hm_insert cid peer1 (wt_peers s1)\<rparr>))" (is "hm_wf (wt_peers ?t)")
        using assms(2) by simp
      then have "hm_wf (wt_peers (flush_peer_output E cid ?t))"
        using keyed.on_flush[of ?t E cid] by (simp add: core_def)
      from apply_returns_wf[OF assms(1) this] show ?thesis
        by (simp add: drain_incoming_def d WebRtc Some p Let_def)
    qed
  qed
qed

lemma drain_returns:
  assumes "rtc_progress E \<mu>" "hm_wf (wt_peers s)"
  shows "\<exists>s'. drain_conditioned_packets E s = Some s' \<and> hm_wf (wt_peers s')"
proof -
  obtain incoming s1 where g: "gate_drain E (wt_gate s) Incoming s = (incoming, s1)" by fastforce
  have "hm_wf (wt_peers s1)"
    using core_gate(2)[of E "wt_gate s" Incoming s] assms(2) by (simp add: g core_def)
  then obtain s2 where s2: "fold_option (drain_incoming E) incoming s1 = Some s2" "hm_wf (wt_peers s2)"
    using fold_option_returns[of "\<lambda>s. hm_wf (wt_peers s)" "drain_incoming E" s1 incoming]
      drain_incoming_returns[OF assms(1)] by blast
  obtain outgoing s3 where g3: "gate_drain E (wt_gate s2) Outgoing s2 = (outgoing, s3)" by fastforce
  have "hm_wf (wt_peers s3)"
    using core_gate(2)[of E "wt_gate s2" Outgoing s2] s2(2) by (simp add: g3 core_def)
  moreover have "hm_wf (wt_peers (drain_outgoing E d t))" if "hm_wf (wt_peers t)" for d t
    using that by (auto simp: drain_outgoing_def wf_keeps split: prod.split server_peer_id.split)
  ultimately have "hm_wf (wt_peers (fold (drain_outgoing E) outgoing s3))"
    by (intro wf_fold)
  from apply_returns_wf[OF assms(1) this] show ?thesis
    by (simp add: drain_conditioned_packets_def g s2(1) g3)
qed

lemma rest_returns:
  assumes "rtc_progress E \<mu>" "hm_wf (wt_peers s)"
  shows "\<exists>s'. webrtc_update_rest E now routed s = Some s' \<and> hm_wf (wt_peers s')"
proof -
  define s2 where "s2 = fold (pump_peer E now) (map fst (wt_peers (fold (webrtc_handle_server_result E) routed s)))
      (fold (webrtc_handle_server_result E) routed s)"
  have "hm_wf (wt_peers (fold (webrtc_handle_server_result E) routed s))"
    using keyed.handle_all_keeps[of s routed E] assms(2) by (simp add: core_def list_all_iff)
  then have "hm_wf (wt_peers s2)"
    unfolding s2_def by (rule wf_fold[rotated]) (simp add: pump_peer_def wf_keeps)
  then obtain s3 where s3: "apply_pending_results E s2 = Some s3" "hm_wf (wt_peers s3)"
    using apply_returns_wf[OF assms(1)] by blast
  define s5 where "s5 = (let s4 = fold (\<lambda>cid. webrtc_netcode_call E (nc_update_client E cid))
                         (nc_clients_id E (wt_netcode s3)) s3
      in fold (\<lambda>cid. webrtc_netcode_call E (nc_disconnect E cid)) (rs_disconnections_id E (sh_renet s4)) s4)"
  have "hm_wf (wt_peers s5)"
    unfolding s5_def Let_def by (intro wf_keeps s3(2))
  then obtain s6 where s6: "apply_pending_results E s5 = Some s6" "hm_wf (wt_peers s6)"
    using apply_returns_wf[OF assms(1)] by blast
  from drain_returns[OF assms(1) s6(2)] show ?thesis
    using s3(1) s6(1) by (simp add: webrtc_update_rest_def Let_def s2_def s5_def)
qed

lemma update_returns:
  assumes "rtc_progress E \<mu>" "hm_wf (wt_peers s)"
  shows "\<exists>res s'. webrtc_update_at E d now s = Some (res, s') \<and> hm_wf (wt_peers s')"
proof -
  obtain s1 where s1: "apply_pending_results E s = Some s1" "hm_wf (wt_peers s1)"
    using apply_returns_wf[OF assms] by blast
  then obtain s2 where s2: "drain_conditioned_packets E (s1\<lparr>wt_netcode := nc_update E d (wt_netcode s1)\<rparr>) = Some s2"
      "hm_wf (wt_peers s2)"
    using drain_returns[OF assms(1), of "s1\<lparr>wt_netcode := nc_update E d (wt_netcode s1)\<rparr>"] by auto
  have "hm_wf (wt_peers (fold (flush_peer_output E) (map fst (wt_peers s2)) s2))"
    by (intro wf_fold wf_keeps s2(2))
  then obtain s3 where s3: "apply_pending_results E (fold (flush_peer_output E) (map fst (wt_peers s2)) s2) = Some s3"
      "hm_wf (wt_peers s3)"
    using apply_returns_wf[OF assms(1)] by blast
  obtain rl s4 where rt: "route_loop E now MAX_WEBRTC_DATAGRAMS_PER_UPDATE [] s3 = (rl, s4)" by fastforce
  have s4: "hm_wf (wt_peers s4)"
    using keyed.route_keeps[of s3 E now MAX_WEBRTC_DATAGRAMS_PER_UPDATE "[]"] s3(2) by (simp add: core_def rt)
  then obtain s5 where "webrtc_update_rest E now (wt_pending s4) (s4\<lparr>wt_pending := []\<rparr>) = Some s5" "hm_wf (wt_peers s5)"
    using rest_returns[OF assms(1), of "s4\<lparr>wt_pending := []\<rparr>"] by auto
  then show ?thesis
    using s1(1) s2(1) s3(1) s4
    by (cases rl) (simp_all add: webrtc_update_at_def route_socket_input_to_peers_def rt)
qed

lemma send_returns:
  assumes "rtc_progress E \<mu>" "hm_wf (wt_peers s)"
  shows "\<exists>s'. webrtc_send_packets E s = Some s' \<and> hm_wf (wt_peers s')"
proof -
  obtain s1 where s1: "apply_pending_results E s = Some s1" "hm_wf (wt_peers s1)"
    using apply_returns_wf[OF assms] by blast
  obtain s2 where s2: "drain_conditioned_packets E s1 = Some s2" "hm_wf (wt_peers s2)"
    using drain_returns[OF assms(1) s1(2)] by blast
  have pay: "hm_wf (wt_peers (webrtc_send_payloads E cid ps t))" if "hm_wf (wt_peers t)" for cid ps t
    using that by (induction ps arbitrary: t) (auto simp: Let_def wf_keeps split: prod.split option.split)
  then have "hm_wf (wt_peers (webrtc_send_client E cid t))" if "hm_wf (wt_peers t)" for cid t
    using that by (simp add: webrtc_send_client_def Let_def split: prod.split option.split)
  then have "hm_wf (wt_peers (fold (webrtc_send_client E) (nc_clients_id E (wt_netcode s2)) s2))"
    by (intro wf_fold s2(2))
  then obtain s3 where s3: "apply_pending_results E
      (fold (webrtc_send_client E) (nc_clients_id E (wt_netcode s2)) s2) = Some s3" "hm_wf (wt_peers s3)"
    using apply_returns_wf[OF assms(1)] by blast
  from drain_returns[OF assms(1) s3(2)] show ?thesis
    using s1(1) s2(1) s3(1) by (simp add: webrtc_send_packets_def)
qed

lemma disconnect_all_returns:
  assumes "rtc_progress E \<mu>" "hm_wf (wt_peers s)"
  shows "\<exists>s'. webrtc_disconnect_all E s = Some s' \<and> hm_wf (wt_peers s')"
proof -
  obtain s1 where s1: "apply_pending_results E s = Some s1"
    using apply_returns_wf[OF assms] by blast
  have "\<exists>s'. apply_pending_results E (gate_reset g (t\<lparr>wt_peers := [], wt_routes := []\<rparr>)) = Some s'
      \<and> hm_wf (wt_peers s')" for g and t :: "('a, 'b, 'c, 'd, 'e) webrtc_transport"
    by (rule apply_returns_wf[OF assms(1)]) (simp add: gate_reset_def)
  then show ?thesis by (simp add: webrtc_disconnect_all_def s1 Let_def)
qed

lemma step_returns:
  assumes "rtc_progress E \<mu>" "hm_wf (wt_peers s)"
  shows "\<exists>s'. webrtc_step E op s = Some s' \<and> hm_wf (wt_peers s')"
proof (cases op)
  case (WebAddPeer cid rtc)
  then show ?thesis
    using wf_keeps(7)[OF assms(2), of E cid]
    by (cases "remove_peer E cid s") (simp add: add_peer_def Let_def)
next
  case (WebRemovePeer cid)
  then show ?thesis
    using keyed.remove_peer_keeps[of s E cid] assms(2) by (simp add: core_def)
next
  case (WebUpdate d now)
  then show ?thesis using update_returns[OF assms, of d now] by auto
qed (use send_returns[OF assms] disconnect_all_returns[OF assms] in auto)

section \<open>Connections held in the Renet server\<close>

text \<open>The environment of the transport with a monitored Renet server.\<close>

definition monitor_rtc ::
  "('n, 'r, 's, 'c, 'rtc, 're, 'x) rtc_env_scheme \<Rightarrow> ('n, 'r monitored, 's, 'c, 'rtc, 're, 'x) rtc_env_scheme" where
  "monitor_rtc E = env.extend (monitor E) (env.more E)"

lemmas monitor_rtc_simps = monitor_rtc_def monitor_def env.defs

text \<open>Only \<open>process_packet\<close> reports a new connection.\<close>

definition connects_on_packets :: "('n, 'r, 's, 'c, 'x) env_scheme \<Rightarrow> bool" where
  "connects_on_packets E \<longleftrightarrow>
     (\<forall>cid n cid' ud addr payload. fst (nc_update_client E cid n) \<noteq> SRClientConnected cid' ud addr payload
        \<and> fst (nc_disconnect E cid n) \<noteq> SRClientConnected cid' ud addr payload)"

definition signalled :: "client_id set \<Rightarrow> owned_server_result \<Rightarrow> bool" where
  "signalled A r = (case r of OClientConnected cid _ _ \<Rightarrow> cid \<in> A | _ \<Rightarrow> True)"

definition peers_own :: "client_id set \<Rightarrow> (client_id \<times> 'rtc server_peer) list \<Rightarrow> bool" where
  "peers_own A peers = list_all (\<lambda>(k, p). k \<in> A \<and> pe_client_id p = k) peers"

definition held_ok :: "client_id set \<Rightarrow> ('r monitored, 'rtc) core_state \<Rightarrow> bool" where
  "held_ok A st \<longleftrightarrow> (case st of (m, peers, cn, rm, pend) \<Rightarrow>
     \<not> mo_violated m \<and> set (mo_held m) \<subseteq> (set cn \<union> set rm) \<inter> A
     \<and> peers_own A peers \<and> list_all (signalled A) pend)"

lemma own_signalled: "cid \<in> A \<Longrightarrow> list_all (own_result cid) new \<Longrightarrow> list_all (signalled A) new"
  by (auto simp: list_all_iff own_result_def signalled_def split: owned_server_result.splits)

lemma keyed_peer:
  assumes "peers_own A peers"
  shows "hm_get peers cid = Some peer \<Longrightarrow> cid \<in> A \<and> pe_client_id peer = cid"
    and "peers_own A (hm_remove cid peers)"
    and "cid \<in> A \<Longrightarrow> pe_client_id peer = cid \<Longrightarrow> peers_own A (hm_insert cid peer peers)"
  using assms set_hm_insert[of cid peer peers]
  by (auto simp: peers_own_def list_all_iff AList.delete_eq dest!: map_of_SomeD)

lemma flush_held:
  assumes A: "connects_on_packets E \<or> A = UNIV" and held: "held_ok A (core s)"
  shows "held_ok A (core (flush_peer_output (monitor_rtc E) cid s))"
proof -
  note ok = held[unfolded held_ok_def core_def prod.case]
  have kp: "peers_own A (wt_peers s)" and pend: "list_all (signalled A) (wt_pending s)"
    using ok by simp_all
  show ?thesis
  proof (cases rule: flush_facts[of "monitor_rtc E" cid s])
    case none
    with held show ?thesis by simp
  next
    case (alive peer peer' new)
    have cid: "cid \<in> A" "pe_client_id peer = cid" using keyed_peer(1)[OF kp alive(1)] by simp_all
    have "peers_own A (hm_insert cid peer' (hm_remove cid (wt_peers s)))"
      using cid alive(2) by (intro keyed_peer(3) keyed_peer(2)[OF kp]) simp_all
    moreover have "list_all (signalled A) (wt_pending s @ new)"
      using pend own_signalled[of cid A new] alive(3) cid by simp
    ultimately show ?thesis
      using ok unfolding alive(5) held_ok_def by simp
  next
    case (dead peer new n)
    have cid: "cid \<in> A" "pe_client_id peer = cid" using keyed_peer(1)[OF kp dead(1)] by simp_all
    have "signalled A (to_owned_server_result (fst (nc_disconnect (monitor_rtc E) cid n)))"
      using A by (cases "fst (nc_disconnect E cid n)")
        (auto simp: signalled_def connects_on_packets_def monitor_rtc_simps)
    then have "list_all (signalled A) (wt_pending s @ new @ [to_owned_server_result (fst (nc_disconnect (monitor_rtc E) cid n))])"
      using pend own_signalled[of cid A new] dead(2) cid by simp
    then show ?thesis
      using ok keyed_peer(2)[OF kp] unfolding dead(4) held_ok_def by simp
  qed
qed

lemma held_remove_all:
  "mo_held (fold (rs_remove_connection (monitor_rtc E)) rm m) = filter (\<lambda>x. x \<notin> set rm) (mo_held m)"
  "mo_violated (fold (rs_remove_connection (monitor_rtc E)) rm m) = mo_violated m"
  by (induction rm arbitrary: m)
    (auto simp: monitor_rtc_simps removeAll_filter_not_eq intro!: filter_cong)

interpretation held: webrtc_invariant "monitor_rtc E"
  "\<lambda>r. connects_on_packets E \<or> A = UNIV \<longrightarrow> signalled A r"
  "\<lambda>st. connects_on_packets E \<or> A = UNIV \<longrightarrow> held_ok A st" for E A
proof (unfold_locales, goal_cases)
  case (1 s cid)
  then show ?case using flush_held by blast
next
  case (2 r peers cn rm pend cid peer channel payload)
  then show ?case by (auto simp: held_ok_def dest: keyed_peer(1) intro!: keyed_peer(3))
next
  case (3 r peers cn rm pend cid)
  then show ?case by (auto simp: held_ok_def intro!: keyed_peer(2))
next
  case (4 r peers cn rm pend Q)
  then show ?case by (auto simp: held_ok_def list_all_iff)
next
  case (5 r peers cn rm pend cid addr payload)
  then show ?case by (auto simp: held_ok_def signalled_def monitor_rtc_simps)
next
  case (6 r peers cn rm pend cid)
  then show ?case by (auto simp: held_ok_def monitor_rtc_simps)
next
  case (7 r peers cn rm pend cid)
  then show ?case by (auto simp: held_ok_def)
next
  case (8 r peers cn rm pend payload cid)
  then show ?case by (auto simp: held_ok_def monitor_rtc_simps)
next
  case (9 r peers cn rm pend)
  then show ?case by (auto simp: held_ok_def held_remove_all)
next
  case (10 r peers cn rm pend)
  then show ?case by (auto simp: held_ok_def list_all_iff)
next
  case (11 r peers cn rm pend cid peer peer')
  then show ?case by (auto simp: held_ok_def dest: keyed_peer(1) intro!: keyed_peer(3))
next
  case (12 r peers cn rm pend cid peer peer' new)
  then show ?case
    by (auto simp: held_ok_def dest: keyed_peer(1) intro!: keyed_peer(2,3) own_signalled[of cid])
next
  case (13 r peers cn rm pend)
  then show ?case by (auto simp: held_ok_def peers_own_def)
next
  case (14 r peers cn rm pend cid)
  then show ?case by (auto simp: held_ok_def monitor_rtc_simps split: prod.split)
next
  case (15 r peers cn rm pend cid n)
  then show ?case
    by (cases "fst (nc_update_client E cid n)") (auto simp: signalled_def connects_on_packets_def monitor_rtc_simps)
next
  case (16 r peers cn rm pend cid n)
  then show ?case
    by (cases "fst (nc_disconnect E cid n)") (auto simp: signalled_def connects_on_packets_def monitor_rtc_simps)
qed

lemma held_run:
  assumes run: "webrtc_run (monitor_rtc E) ops
      (s\<lparr>sh_renet := \<lparr>mo_renet = r, mo_held = [], mo_violated = False\<rparr>, wt_peers := [], wt_pending := []\<rparr>) = Some s'"
    and A: "connects_on_packets E \<or> A = UNIV" "set (concat (map signalled_id ops)) \<subseteq> A"
  shows "held_ok A (core s')"
proof -
  have "connects_on_packets E \<or> A = UNIV \<longrightarrow> held_ok A (core s')"
  proof (rule held.run_keeps[OF run])
    show "connects_on_packets E \<or> A = UNIV \<longrightarrow> held_ok A (core (s\<lparr>sh_renet := \<lparr>mo_renet = r, mo_held = [],
        mo_violated = False\<rparr>, wt_peers := [], wt_pending := []\<rparr>))"
      by (simp add: held_ok_def core_def peers_own_def)
  next
    fix r peers cn rm pend cid rtc
    assume "connects_on_packets E \<or> A = UNIV \<longrightarrow> held_ok A (r, peers, cn, rm, pend)"
      "cid \<in> set (concat (map signalled_id ops))"
    then show "connects_on_packets E \<or> A = UNIV \<longrightarrow>
        held_ok A (r, hm_insert cid (ServerPeer_new cid rtc) (hm_remove cid peers), cn, rm, pend)"
      using A(2) by (auto simp: held_ok_def ServerPeer_new_def intro!: keyed_peer(2,3))
  qed
  with A(1) show ?thesis by blast
qed

lemma run_returns_wf:
  assumes "rtc_progress E \<mu>" "hm_wf (wt_peers s)"
  shows "\<exists>s'. webrtc_run E ops s = Some s' \<and> hm_wf (wt_peers s')"
  using fold_option_returns[of "\<lambda>s. hm_wf (wt_peers s)" "webrtc_step E" s ops] step_returns[OF assms(1)] assms(2)
  by blast

section \<open>A sample environment\<close>

text \<open>An RTC engine that replays a list of outputs; the netcode server connects client 5 on every packet.\<close>

definition sample_rtc_env :: "(unit, 'r, unit, unit, rtc_output list, unit) rtc_env" where
  "sample_rtc_env =
     \<lparr>nc_max_packet_bytes = 1400, nc_new = (\<lambda>_. ()), nc_update = (\<lambda>_ _. ()),
      nc_process_packet = (\<lambda>addr p n. (SRClientConnected 5 [] addr [], n)), nc_update_client = (\<lambda>_ n. (SRNone, n)),
      nc_disconnect = (\<lambda>_ n. (SRNone, n)), nc_generate_payload_packet = (\<lambda>cid p n. (Some (SocketV4 1 2, 5 # p), n)),
      nc_clients_id = (\<lambda>_. [5]), nc_client_addr = (\<lambda>_ _. Some (SocketV4 1 2)), nc_addresses = (\<lambda>_. []),
      nc_set_max_clients = (\<lambda>_ n. n), rs_is_connected = (\<lambda>_ _. False), rs_add_connection = (\<lambda>_ r. r),
      rs_remove_connection = (\<lambda>_ r. r), rs_process_packet_from = (\<lambda>_ _ r. r),
      rs_get_packets_to_send = (\<lambda>_ r. (Some [[1, 2, 3]], r)), rs_disconnections_id = (\<lambda>_. []),
      so_set_nonblocking = (\<lambda>so. (Ok (), so)), so_local_addr = (\<lambda>_. Ok (SocketV4 3 4)),
      so_recv_from = (\<lambda>so. (Err WouldBlock, so)), so_send_to = (\<lambda>p _ so. (Ok (length p), so)),
      ck_now = (\<lambda>c. (7, c)), ck_elapsed = (\<lambda>_ c. (7, c)),
      rtc_is_alive = (\<lambda>_. True), rtc_disconnect = (\<lambda>rtc. rtc), rtc_accepts = (\<lambda>_ _. True),
      rtc_receive_ok = (\<lambda>_ _ _. True), rtc_handle_input = (\<lambda>_ rtc. (Ok (), rtc)),
      rtc_poll_output = (\<lambda>rtc. case rtc of [] \<Rightarrow> (Ok (OutTimeout 9), []) | x # xs \<Rightarrow> (Ok x, xs)),
      rtc_write = (\<lambda>_ _ rtc. (Some (Ok True), rtc)), rtc_error_text = (\<lambda>_. [])\<rparr>"

definition sample_ops :: "rtc_output list webrtc_op list" where
  "sample_ops =
     [WebAddPeer 5 [OutEvent (ChannelOpen 0), OutEvent (ChannelData 0 True [1, 2])],
      WebUpdate 10 20, WebSendPackets, WebRemovePeer 5, WebDisconnectAll]"

definition sample_webrtc :: "'r \<Rightarrow> (unit, 'r, unit, unit, rtc_output list) webrtc_transport" where
  "sample_webrtc r =
     \<lparr>sh_renet = r, sh_handles = (\<lambda>_. sample_server_state), sh_clock = (),
      wt_egress = Egress_new EncryptedLogical, wt_socket = (), wt_netcode = (),
      wt_receive_destination = SocketV4 3 4, wt_peers = [], wt_connected = [], wt_removals = [],
      wt_routes = [], wt_pending = [], wt_gate = None\<rparr>"

lemma sample_progress: "rtc_progress sample_rtc_env length" "rtc_progress (monitor_rtc sample_rtc_env) length"
  by (auto simp: rtc_progress_def sample_rtc_env_def monitor_rtc_simps split: list.split sum.split
      rtc_output.split rtc_event.split)

section \<open>Segments of a virtual address\<close>

lemma segments_low:
  fixes p :: "128 word" and cid :: client_id
  shows "ucast (push_bit 112 p OR push_bit 48 (ucast (ucast (drop_bit 48 cid) :: 16 word))
               OR push_bit 32 (ucast (ucast (drop_bit 32 cid) :: 16 word))
               OR push_bit 16 (ucast (ucast (drop_bit 16 cid) :: 16 word))
               OR ucast (ucast cid :: 16 word) :: 128 word) = cid"
proof (rule bit_word_eqI)
  fix n assume "n < LENGTH(64)"
  then consider "n < 16" | "16 \<le> n" "n < 32" | "32 \<le> n" "n < 48" | "48 \<le> n" "n < 64"
    by fastforce
  then show "bit (ucast (push_bit 112 p OR push_bit 48 (ucast (ucast (drop_bit 48 cid) :: 16 word))
             OR push_bit 32 (ucast (ucast (drop_bit 32 cid) :: 16 word))
             OR push_bit 16 (ucast (ucast (drop_bit 16 cid) :: 16 word))
             OR ucast (ucast cid :: 16 word) :: 128 word) :: client_id) n = bit cid n"
    by cases (auto simp: bit_simps)
qed

lemma segments_high:
  fixes p :: "128 word" and cid :: client_id
  shows "drop_bit 112 (push_bit 112 p OR push_bit 48 (ucast (ucast (drop_bit 48 cid) :: 16 word))
               OR push_bit 32 (ucast (ucast (drop_bit 32 cid) :: 16 word))
               OR push_bit 16 (ucast (ucast (drop_bit 16 cid) :: 16 word))
               OR ucast (ucast cid :: 16 word) :: 128 word) = take_bit 16 p"
  by (rule bit_word_eqI) (auto simp: bit_simps)

section \<open>Theorems\<close>

text \<open>
  C6: over every run of updates, sends, disconnections and signalling, the transport never adds a
  Renet connection for a client the Renet server reports connected, and it leaks none: every
  connection it has added and not yet removed belongs to a client it still lists as connected or has
  scheduled for removal at the next call.
\<close>

theorem webrtc_no_leaked_connection:
  "case webrtc_run (monitor_rtc E) ops
      (s\<lparr>sh_renet := \<lparr>mo_renet = r, mo_held = [], mo_violated = False\<rparr>, wt_peers := [], wt_pending := []\<rparr>) of
     None \<Rightarrow> True
   | Some s' \<Rightarrow> \<not> mo_violated (sh_renet s')
       \<and> set (mo_held (sh_renet s')) \<subseteq> set (wt_connected s') \<union> set (wt_removals s')"
  using held_run[where A = UNIV and E = E and ops = ops and s = s and r = r]
  by (auto simp: held_ok_def core_def split: option.split)



text \<open>
  C21: the pump returns.  When the RTC engine reports only data it has already taken in, every
  sequence of updates, sends, disconnections and signalling runs to its end, although handling one
  netcode result may write to a channel and thereby produce further results.
\<close>

theorem webrtc_run_returns:
  assumes "rtc_progress E \<mu>" "hm_wf (wt_peers s)"
  shows "\<exists>s'. webrtc_run E ops s = Some s'"
  using run_returns_wf[OF assms] by blast

theorem webrtc_run_returns_witness:
  "\<exists>s'. webrtc_run sample_rtc_env sample_ops (sample_webrtc ()) = Some s'"
  by (rule webrtc_run_returns[of _ length]) (simp_all add: sample_progress sample_webrtc_def)

text \<open>
  Virtual addresses identify clients: distinct client ids never share one, and every one of them
  lies in the unique local IPv6 block fd00::/16.
\<close>

lemma virtual_addr_injective:
  "inj virtual_addr_for_client
   \<and> (\<exists>ip. virtual_addr_for_client cid = SocketV6 ip 1 0 0 \<and> drop_bit 112 ip = 0xfd00)"
proof -
  have id: "ucast (case virtual_addr_for_client cid of SocketV6 ip _ _ _ \<Rightarrow> ip) = cid" for cid
    by (simp only: virtual_addr_for_client_def socket_addr.case segments_low)
  have "inj virtual_addr_for_client"
    by (rule injI) (metis id)
  moreover have "drop_bit 112 (push_bit 112 0xfd00 OR push_bit 48 (ucast (ucast (drop_bit 48 cid) :: 16 word))
               OR push_bit 32 (ucast (ucast (drop_bit 32 cid) :: 16 word))
               OR push_bit 16 (ucast (ucast (drop_bit 16 cid) :: 16 word))
               OR ucast (ucast cid :: 16 word) :: 128 word) = 0xfd00"
    unfolding segments_high by (simp add: take_bit_eq_mod)
  ultimately show ?thesis
    by (simp only: virtual_addr_for_client_def) blast
qed

end
