(* ===== verification/Mixed_Server.thy ===== *)
theory Mixed_Server
  imports Udp_Server Webrtc_Server
begin

text \<open>
  The transport that serves native and browser clients together (\<open>src/src/mixed_server.rs\<close>), its
  builder (\<open>src/src/transport_builder.rs\<close>, \<open>src/src/transport_config.rs\<close>) and the diagnostics
  snapshot (\<open>src/src/diagnostics.rs\<close>).  The backends of a mixed transport share one Renet server,
  one store of conditioner handles and one clock: the mixed state holds them, a backend sees them
  while one of its operations runs.
\<close>

section \<open>State\<close>

record ('n, 'r, 's, 'c, 'rtc) mixed_transport = "('r, 'c) shared" +
  mt_udp :: "('n, 'r, 's, 'c) udp_transport"
  mt_webrtc :: "('n, 'r, 's, 'c, 'rtc) webrtc_transport"

definition lend ::
  "('r, 'c, 'y) shared_scheme \<Rightarrow> ('r, 'c, 'z) shared_scheme \<Rightarrow> ('r, 'c, 'z) shared_scheme" where
  "lend from to = to\<lparr>sh_renet := sh_renet from, sh_handles := sh_handles from, sh_clock := sh_clock from\<rparr>"

definition MixedServerTransport_new ::
  "('n, 'r, 's, 'c) udp_transport \<Rightarrow> ('n, 'r, 's, 'c, 'rtc) webrtc_transport \<Rightarrow> ('r, 'c) shared
    \<Rightarrow> ('n, 'r, 's, 'c, 'rtc) mixed_transport" where
  "MixedServerTransport_new u w sh =
     \<lparr>sh_renet = sh_renet sh, sh_handles = sh_handles sh, sh_clock = sh_clock sh,
      mt_udp = u, mt_webrtc = w\<rparr>"

text \<open>The backends as \<open>udp_mut\<close> and \<open>webrtc_mut\<close> hand them out, and their return.\<close>

definition udp_mut ::
  "('n, 'r, 's, 'c, 'rtc) mixed_transport \<Rightarrow> ('n, 'r, 's, 'c) udp_transport" where
  "udp_mut m = lend m (mt_udp m)"

definition put_udp ::
  "('n, 'r, 's, 'c) udp_transport \<Rightarrow> ('n, 'r, 's, 'c, 'rtc) mixed_transport
    \<Rightarrow> ('n, 'r, 's, 'c, 'rtc) mixed_transport" where
  "put_udp u m = lend u (m\<lparr>mt_udp := u\<rparr>)"

definition webrtc_mut ::
  "('n, 'r, 's, 'c, 'rtc) mixed_transport \<Rightarrow> ('n, 'r, 's, 'c, 'rtc) webrtc_transport" where
  "webrtc_mut m = lend m (mt_webrtc m)"

definition put_webrtc ::
  "('n, 'r, 's, 'c, 'rtc) webrtc_transport \<Rightarrow> ('n, 'r, 's, 'c, 'rtc) mixed_transport
    \<Rightarrow> ('n, 'r, 's, 'c, 'rtc) mixed_transport" where
  "put_webrtc w m = lend w (m\<lparr>mt_webrtc := w\<rparr>)"

section \<open>Operations\<close>

text \<open>As in the WebRTC backend, \<open>None\<close> is a call that does not return (or, below, panics).\<close>

definition mixed_disconnect_all ::
  "('n, 'r, 's, 'c, 'rtc, 're, 'x) rtc_env_scheme \<Rightarrow> ('n, 'r, 's, 'c, 'rtc) mixed_transport
    \<Rightarrow> ('n, 'r, 's, 'c, 'rtc) mixed_transport option" where
  "mixed_disconnect_all E m =
     (let m1 = put_udp (udp_disconnect_all E (udp_mut m)) m
      in map_option (\<lambda>w. put_webrtc w m1) (webrtc_disconnect_all E (webrtc_mut m1)))"

definition mixed_update ::
  "('n, 'r, 's, 'c, 'rtc, 're, 'x) rtc_env_scheme \<Rightarrow> duration \<Rightarrow> ('n, 'r, 's, 'c, 'rtc) mixed_transport
    \<Rightarrow> (((unit, unit, 're) transport_error, unit) result \<times> ('n, 'r, 's, 'c, 'rtc) mixed_transport) option" where
  "mixed_update E d m =
     (case udp_update E d (udp_mut m) of
        (Err e, u) \<Rightarrow> Some (Err e, put_udp u m)
      | (Ok _, u) \<Rightarrow>
          (let m1 = put_udp u m
           in map_option (\<lambda>(res, w). (res, put_webrtc w m1)) (webrtc_update E d (webrtc_mut m1))))"

definition mixed_send_packets ::
  "('n, 'r, 's, 'c, 'rtc, 're, 'x) rtc_env_scheme \<Rightarrow> ('n, 'r, 's, 'c, 'rtc) mixed_transport
    \<Rightarrow> ('n, 'r, 's, 'c, 'rtc) mixed_transport option" where
  "mixed_send_packets E m =
     (let m1 = put_udp (udp_send_packets E (udp_mut m)) m
      in map_option (\<lambda>w. put_webrtc w m1) (webrtc_send_packets E (webrtc_mut m1)))"

definition mixed_set_conditioner ::
  "nat \<Rightarrow> ('n, 'r, 's, 'c, 'rtc) mixed_transport \<Rightarrow> ('n, 'r, 's, 'c, 'rtc) mixed_transport option" where
  "mixed_set_conditioner h m =
     (case udp_set_conditioner h (udp_mut m) of
        None \<Rightarrow> None
      | Some u \<Rightarrow>
          (let m1 = put_udp u m
           in map_option (\<lambda>w. put_webrtc w m1) (webrtc_set_conditioner h (webrtc_mut m1))))"

definition mixed_clear_conditioner ::
  "('n, 'r, 's, 'c, 'rtc) mixed_transport \<Rightarrow> ('n, 'r, 's, 'c, 'rtc) mixed_transport" where
  "mixed_clear_conditioner m =
     (let m1 = put_udp (udp_clear_conditioner (udp_mut m)) m
      in put_webrtc (webrtc_clear_conditioner (webrtc_mut m1)) m1)"

section \<open>The builder\<close>

record mixed_transport_builder =
  tb_protocol_id :: u64
  tb_udp_bind :: socket_addr
  tb_webrtc_bind :: socket_addr
  tb_public_udp_addr :: "socket_addr option"
  tb_public_webrtc_addr :: "socket_addr option"
  tb_max_clients :: nat
  tb_authentication :: server_authentication
  tb_transport :: "nat option"

definition MixedTransportBuilder_new :: "u64 \<Rightarrow> mixed_transport_builder" where
  "MixedTransportBuilder_new protocol_id =
     \<lparr>tb_protocol_id = protocol_id, tb_udp_bind = SocketV4 0 0, tb_webrtc_bind = SocketV4 0 0,
      tb_public_udp_addr = None, tb_public_webrtc_addr = None, tb_max_clients = 512,
      tb_authentication = AuthUnsecure, tb_transport = None\<rparr>"

text \<open>The setters, all of the form \<open>self.field = value\<close>.\<close>

datatype builder_setting =
    SetUdpBind socket_addr
  | SetWebrtcBind socket_addr
  | SetPublicUdpAddr socket_addr
  | SetPublicWebrtcAddr socket_addr
  | SetMaxClients nat
  | SetAuthentication server_authentication
  | SetTransportConfig "nat option"

fun builder_set :: "builder_setting \<Rightarrow> mixed_transport_builder \<Rightarrow> mixed_transport_builder" where
  "builder_set (SetUdpBind addr) b = b\<lparr>tb_udp_bind := addr\<rparr>"
| "builder_set (SetWebrtcBind addr) b = b\<lparr>tb_webrtc_bind := addr\<rparr>"
| "builder_set (SetPublicUdpAddr addr) b = b\<lparr>tb_public_udp_addr := Some addr\<rparr>"
| "builder_set (SetPublicWebrtcAddr addr) b = b\<lparr>tb_public_webrtc_addr := Some addr\<rparr>"
| "builder_set (SetMaxClients n) b = b\<lparr>tb_max_clients := n\<rparr>"
| "builder_set (SetAuthentication auth) b = b\<lparr>tb_authentication := auth\<rparr>"
| "builder_set (SetTransportConfig config) b = b\<lparr>tb_transport := config\<rparr>"

definition duplicate_server_authentication :: "server_authentication \<Rightarrow> server_authentication" where
  "duplicate_server_authentication auth =
     (case auth of AuthUnsecure \<Rightarrow> AuthUnsecure | AuthSecure private_key \<Rightarrow> AuthSecure private_key)"

text \<open>
  One socket bound and its transport made: \<open>bind\<close> is \<open>UdpSocket::bind\<close> on the state of the operating
  system.
\<close>

definition build_backend ::
  "('n, 'r, 's, 'c, 'x) env_scheme \<Rightarrow> (socket_addr \<Rightarrow> 'o \<Rightarrow> (io_error_kind, 's) result \<times> 'o)
    \<Rightarrow> (server_config \<Rightarrow> 's \<Rightarrow> nat option \<Rightarrow> ('r, 'c) shared \<Rightarrow> (io_error_kind, 't) result option)
    \<Rightarrow> mixed_transport_builder \<Rightarrow> duration \<Rightarrow> server_authentication \<Rightarrow> socket_addr \<Rightarrow> socket_addr option
    \<Rightarrow> ('r, 'c) shared \<Rightarrow> 'o \<Rightarrow> (io_error_kind, 't) result option \<times> 'o" where
  "build_backend E bind new b current_time auth bind_addr public_addr sh os =
     (case bind bind_addr os of
        (Err e, os') \<Rightarrow> (Some (Err e), os')
      | (Ok socket, os') \<Rightarrow>
          (case so_local_addr E socket of
             Err e \<Rightarrow> (Some (Err e), os')
           | Ok local \<Rightarrow>
               (new \<lparr>vc_current_time = current_time, vc_max_clients = tb_max_clients b,
                     vc_protocol_id = tb_protocol_id b,
                     vc_public_addresses = [case public_addr of None \<Rightarrow> local | Some a \<Rightarrow> a],
                     vc_authentication = auth\<rparr> socket (tb_transport b) sh, os')))"

definition MixedTransportBuilder_build ::
  "('n, 'r, 's, 'c, 'rtc, 're, 'x) rtc_env_scheme \<Rightarrow> (socket_addr \<Rightarrow> 'o \<Rightarrow> (io_error_kind, 's) result \<times> 'o)
    \<Rightarrow> duration option \<Rightarrow> mixed_transport_builder \<Rightarrow> ('r, 'c) shared \<Rightarrow> 'o
    \<Rightarrow> ((unit, unit, 're) transport_error, ('n, 'r, 's, 'c, 'rtc) mixed_transport) result option \<times> 'o" where
  "MixedTransportBuilder_build E bind unix b sh os =
     (case unix of
        None \<Rightarrow> (Some (Err (IoErr OtherIo)), os)
      | Some current_time \<Rightarrow>
          (case build_backend E bind (udp_new_with_config E) b current_time
                  (duplicate_server_authentication (tb_authentication b))
                  (tb_udp_bind b) (tb_public_udp_addr b) sh os of
             (None, os1) \<Rightarrow> (None, os1)
           | (Some (Err e), os1) \<Rightarrow> (Some (Err (IoErr e)), os1)
           | (Some (Ok u), os1) \<Rightarrow>
               (case build_backend E bind (webrtc_new_with_config E) b current_time (tb_authentication b)
                       (tb_webrtc_bind b) (tb_public_webrtc_addr b)
                       (sh\<lparr>sh_handles := sh_handles u, sh_clock := sh_clock u\<rparr>) os1 of
                  (None, os2) \<Rightarrow> (None, os2)
                | (Some (Err e), os2) \<Rightarrow> (Some (Err (IoErr e)), os2)
                | (Some (Ok w), os2) \<Rightarrow>
                    (Some (Ok (MixedServerTransport_new u w
                       (sh\<lparr>sh_handles := sh_handles w, sh_clock := sh_clock w\<rparr>))), os2))))"

section \<open>Diagnostics\<close>

datatype transport_kind = KindUdp | KindWebRtc | KindUnknown

text \<open>The measurements of Renet are opaque; \<open>zero\<close> is \<open>0.0\<close>.\<close>

record 'f network_info =
  ni_rtt :: 'f
  ni_packet_loss :: 'f
  ni_bytes_sent_per_second :: 'f
  ni_bytes_received_per_second :: 'f

record 'f client_network_snapshot =
  cs_client_id :: client_id
  cs_transport :: transport_kind
  cs_rtt_seconds :: 'f
  cs_packet_loss :: 'f
  cs_bytes_sent_per_second :: 'f
  cs_bytes_received_per_second :: 'f

definition is_udp_client ::
  "('n, 'r, 's, 'c, 'x) env_scheme \<Rightarrow> ('n, 'r, 's, 'c, 'rtc) mixed_transport \<Rightarrow> client_id \<Rightarrow> bool" where
  "is_udp_client E m cid = (nc_client_addr E cid (ut_netcode (mt_udp m)) \<noteq> None)"

definition is_webrtc_client ::
  "('n, 'r, 's, 'c, 'x) env_scheme \<Rightarrow> ('n, 'r, 's, 'c, 'rtc) mixed_transport \<Rightarrow> client_id \<Rightarrow> bool" where
  "is_webrtc_client E m cid = (nc_client_addr E cid (wt_netcode (mt_webrtc m)) \<noteq> None)"

definition classify_transport_kind ::
  "('n, 'r, 's, 'c, 'x) env_scheme \<Rightarrow> ('n, 'r, 's, 'c, 'rtc) mixed_transport \<Rightarrow> client_id \<Rightarrow> transport_kind" where
  "classify_transport_kind E m cid =
     (if is_udp_client E m cid then KindUdp
      else if is_webrtc_client E m cid then KindWebRtc else KindUnknown)"

definition collect_server_network_snapshot ::
  "('n, 'r, 's, 'c, 'x) env_scheme \<Rightarrow> 'f \<Rightarrow> client_id list \<Rightarrow> (client_id \<Rightarrow> 'f network_info option)
    \<Rightarrow> ('n, 'r, 's, 'c, 'rtc) mixed_transport \<Rightarrow> 'f client_network_snapshot list" where
  "collect_server_network_snapshot E zero clients_id network_info m =
     map (\<lambda>cid. case network_info cid of
            Some info \<Rightarrow>
              \<lparr>cs_client_id = cid, cs_transport = classify_transport_kind E m cid,
               cs_rtt_seconds = ni_rtt info, cs_packet_loss = ni_packet_loss info,
               cs_bytes_sent_per_second = ni_bytes_sent_per_second info,
               cs_bytes_received_per_second = ni_bytes_received_per_second info\<rparr>
          | None \<Rightarrow>
              \<lparr>cs_client_id = cid, cs_transport = classify_transport_kind E m cid,
               cs_rtt_seconds = zero, cs_packet_loss = zero,
               cs_bytes_sent_per_second = zero, cs_bytes_received_per_second = zero\<rparr>)
       (sort clients_id)"

section \<open>Runs of a mixed transport\<close>

datatype 'rtc mixed_op =
    MixUpdate duration
  | MixSendPackets
  | MixDisconnectAll
  | MixSetConditioner nat
  | MixClearConditioner
  | MixAddPeer client_id 'rtc
  | MixRemovePeer client_id

fun mixed_step ::
  "('n, 'r, 's, 'c, 'rtc, 're, 'x) rtc_env_scheme \<Rightarrow> 'rtc mixed_op
    \<Rightarrow> ('n, 'r, 's, 'c, 'rtc) mixed_transport \<Rightarrow> ('n, 'r, 's, 'c, 'rtc) mixed_transport option" where
  "mixed_step E (MixUpdate d) m = map_option snd (mixed_update E d m)"
| "mixed_step E MixSendPackets m = mixed_send_packets E m"
| "mixed_step E MixDisconnectAll m = mixed_disconnect_all E m"
| "mixed_step E (MixSetConditioner h) m = mixed_set_conditioner h m"
| "mixed_step E MixClearConditioner m = Some (mixed_clear_conditioner m)"
| "mixed_step E (MixAddPeer cid rtc) m = Some (put_webrtc (snd (add_peer E cid rtc (webrtc_mut m))) m)"
| "mixed_step E (MixRemovePeer cid) m = Some (put_webrtc (snd (remove_peer E cid (webrtc_mut m))) m)"

abbreviation mixed_run where
  "mixed_run E ops m \<equiv> fold_option (mixed_step E) ops m"

lemma lend_simps [simp]:
  "sh_renet (lend a b) = sh_renet a" "sh_handles (lend a b) = sh_handles a" "sh_clock (lend a b) = sh_clock a"
  by (simp_all add: lend_def)

lemma mut_simps [simp]:
  "sh_renet (udp_mut m) = sh_renet m" "sh_renet (webrtc_mut m) = sh_renet m"
  "sh_renet (put_udp u m) = sh_renet u" "sh_renet (put_webrtc w m) = sh_renet w"
  "sh_handles (udp_mut m) = sh_handles m" "sh_handles (webrtc_mut m) = sh_handles m"
  "sh_handles (put_udp u m) = sh_handles u" "sh_handles (put_webrtc w m) = sh_handles w"
  "ut_packets (udp_mut m) = ut_packets (mt_udp m)" "wt_gate (webrtc_mut m) = wt_gate (mt_webrtc m)"
  "mt_udp (put_udp u m) = u" "mt_webrtc (put_udp u m) = mt_webrtc m"
  "mt_udp (put_webrtc w m) = mt_udp m" "mt_webrtc (put_webrtc w m) = w"
  by (simp_all add: udp_mut_def webrtc_mut_def put_udp_def put_webrtc_def lend_def) (cases m; simp)+

text \<open>The WebRTC backend adds only what the Renet server does not report connected.\<close>

interpretation webrtc_once: webrtc_invariant "monitor_rtc E" "\<lambda>_. True" "\<lambda>(r, rest). \<not> mo_violated r" for E
proof (unfold_locales, goal_cases)
  case (1 s cid)
  then show ?case by (cases rule: flush_facts[of "monitor_rtc E" cid s]) (simp_all add: core_def)
next
  case (9 r peers cn rm pend)
  have "mo_violated (fold (rs_remove_connection (monitor_rtc E)) rm r) = mo_violated r"
    by (induction rm arbitrary: r) (simp_all add: monitor_rtc_simps)
  with 9 show ?case by simp
qed (auto simp: monitor_rtc_simps list_all_iff split: prod.split)

lemma webrtc_once_step:
  assumes "webrtc_step (monitor_rtc E) op w = Some w'" "\<not> mo_violated (sh_renet w)"
  shows "\<not> mo_violated (sh_renet w')"
  using webrtc_once.run_keeps[of E "[op]" w w'] assms by (simp add: core_def split: option.splits)

lemma webrtc_update_step:
  "map_option snd (webrtc_update E d w) =
     webrtc_step E (WebUpdate d (fst (ck_now E (sh_clock w)))) (w\<lparr>sh_clock := snd (ck_now E (sh_clock w))\<rparr>)"
  by (simp add: webrtc_update_def split: prod.split)


text \<open>So does the UDP backend in the same environment.\<close>

interpretation udp_mixed_once: udp_invariant "monitor_rtc E" "\<lambda>s. \<not> mo_violated (sh_renet s)" for E
  by unfold_locales (auto simp: monitor_rtc_simps split: prod.split)

lemma set_conditioner_renet:
  "udp_set_conditioner h u = Some u' \<Longrightarrow> sh_renet u' = sh_renet u"
  "webrtc_set_conditioner h w = Some w' \<Longrightarrow> sh_renet w' = sh_renet w"
  "sh_renet (udp_clear_conditioner u) = sh_renet u" "sh_renet (webrtc_clear_conditioner w) = sh_renet w"
  by (auto simp: udp_set_conditioner_def webrtc_set_conditioner_def udp_clear_conditioner_def
      webrtc_clear_conditioner_def split: option.splits prod.splits)

lemma mixed_once_step:
  fixes E :: "('n, 'r, 's, 'c, 'rtc, 're, 'x) rtc_env_scheme"
  assumes "mixed_step (monitor_rtc E) op m = Some m'" "\<not> mo_violated (sh_renet m)"
  shows "\<not> mo_violated (sh_renet m')"
proof (cases op)
  case (MixUpdate d)
  let ?E = "monitor_rtc E"
  obtain u and res :: "((unit, unit, 're) transport_error, unit) result"
    where u: "udp_update ?E d (udp_mut m) = (res, u)" by fastforce
  have "\<not> mo_violated (sh_renet (snd (res, u)))"
    unfolding u[symmetric] by (rule udp_mixed_once.update_keeps) (simp add: assms(2))
  then have ok: "\<not> mo_violated (sh_renet u)" by simp
  have "\<not> mo_violated (sh_renet w)" if "webrtc_update ?E d (webrtc_mut (put_udp u m)) = Some (r, w)" for r w
    by (rule webrtc_once_step[OF webrtc_update_step[of ?E d "webrtc_mut (put_udp u m)", symmetric, unfolded that,
          simplified option.map snd_conv]]) (simp add: ok)
  then show ?thesis
    using assms(1) ok MixUpdate u by (auto simp: mixed_update_def Let_def split: sum.splits)
next
  case MixSendPackets
  then show ?thesis
    using assms udp_mixed_once.send_packets_keeps[of "udp_mut m" E] webrtc_once_step[of E WebSendPackets]
    by (auto simp: mixed_send_packets_def Let_def)
next
  case MixDisconnectAll
  then show ?thesis
    using assms udp_mixed_once.disconnect_all_keeps[of "udp_mut m" E] webrtc_once_step[of E WebDisconnectAll]
    by (auto simp: mixed_disconnect_all_def Let_def)
next
  case (MixSetConditioner h)
  then show ?thesis
    using assms by (auto simp: mixed_set_conditioner_def set_conditioner_renet Let_def split: option.splits)
next
  case MixClearConditioner
  then show ?thesis
    using assms by (auto simp: mixed_clear_conditioner_def Let_def set_conditioner_renet)
next
  case (MixAddPeer cid rtc)
  then show ?thesis
    using assms webrtc_once_step[of E "WebAddPeer cid rtc" "webrtc_mut m"] by auto
next
  case (MixRemovePeer cid)
  then show ?thesis
    using assms webrtc_once_step[of E "WebRemovePeer cid" "webrtc_mut m"] by auto
qed

text \<open>Attaching a handle takes a fresh owner.\<close>

definition separately_attached :: "nat \<Rightarrow> ('n, 'r, 's, 'c, 'rtc) mixed_transport \<Rightarrow> bool" where
  "separately_attached h m \<longleftrightarrow>
     (\<exists>o1 o2. ut_packets (mt_udp m) = Some (h, o1) \<and> wt_gate (mt_webrtc m) = Some (h, o2) \<and> o1 \<noteq> o2)"

lemma detach_next_owner: "st_next_owner (snd (ServerPacketGate_detach g hs) h) = st_next_owner (hs h)"
proof -
  have "st_next_owner (foldl State_retire st ids) = st_next_owner st" for st ids
    by (induction ids arbitrary: st) (simp_all add: State_retire_def split: option.split)
  then show ?thesis
    by (auto simp: ServerPacketGate_detach_def ServerPacketGate_reset_def
        ServerConditionerHandle_remove_owner_def split: option.split)
qed

lemma checked_succ_differs: "checked_succ x \<noteq> Some x"
  by (auto dest: checked_succ_Some)

lemma attach_twice:
  assumes "ServerPacketGate_attach h g hs = Some (g1, hs1)" "ServerPacketGate_attach h g' hs1 = Some (g2, hs2)"
  shows "\<exists>o1 o2. g1 = Some (h, o1) \<and> g2 = Some (h, o2) \<and> o1 \<noteq> o2"
  using assms
  by (auto simp: ServerPacketGate_attach_def ServerConditionerHandle_allocate_owner_def detach_next_owner
      checked_succ_differs Let_def split: option.splits prod.splits)

section \<open>Theorems\<close>

text \<open>
  C18: a client is connected through one backend at a time.  Over every run of a mixed transport, with
  peers signalled and removed and the conditioner changed in between, neither backend adds a Renet
  connection for a client that the shared Renet server reports connected, whichever backend serves it.
\<close>

theorem mixed_one_backend_per_client:
  "case mixed_run (monitor_rtc E) ops (m\<lparr>sh_renet := \<lparr>mo_renet = r, mo_held = [], mo_violated = False\<rparr>\<rparr>) of
     None \<Rightarrow> True
   | Some m' \<Rightarrow> \<not> mo_violated (sh_renet m')"
proof -
  have "\<not> mo_violated (sh_renet m')" if "mixed_run (monitor_rtc E) ops m = Some m'" "\<not> mo_violated (sh_renet m)"
    for m m'
    using that by (induction ops arbitrary: m) (auto split: option.splits dest: mixed_once_step)
  then show ?thesis by (simp split: option.split)
qed

text \<open>
  One handle governs both backends of a mixed transport, with separate queues: whether the handle
  is set at run time or given to the builder, both gates are attached to it under different owners.
\<close>

lemma mixed_conditioner_separate_queues:
  "(case mixed_set_conditioner h m of
      None \<Rightarrow> True
    | Some m' \<Rightarrow> separately_attached h m')
   \<and> (case fst (MixedTransportBuilder_build E bind unix (builder_set (SetTransportConfig (Some h)) b) sh os) of
        Some (Ok m') \<Rightarrow> separately_attached h m'
      | _ \<Rightarrow> True)"
proof
  show "case mixed_set_conditioner h m of None \<Rightarrow> True | Some m' \<Rightarrow> separately_attached h m'"
    by (auto simp: mixed_set_conditioner_def udp_set_conditioner_def webrtc_set_conditioner_def Let_def
        separately_attached_def dest: attach_twice split: option.split prod.split)
  show "case fst (MixedTransportBuilder_build E bind unix (builder_set (SetTransportConfig (Some h)) b) sh os) of
      Some (Ok m') \<Rightarrow> separately_attached h m' | _ \<Rightarrow> True"
    by (auto simp: MixedTransportBuilder_build_def build_backend_def udp_new_with_config_def
        webrtc_new_with_config_def MixedServerTransport_new_def separately_attached_def
        dest: attach_twice split: option.split prod.split sum.split)
qed

end
