(* ===== verification/Signaling.thy ===== *)
theory Signaling
  imports Bootstrap Mixed_Server
begin

text \<open>
  Signalling over HTTP: the hook that answers an SDP offer and adds the peer
  (\<open>src/src/sdp_http.rs\<close>) and the routes of the bootstrap service (\<open>src/src/axum_bootstrap.rs\<close>).
  SDP and ICE processing of str0m, JSON and the capacity of the netcode server are operations of the
  record \<open>sdp_env\<close>; the axum framework is represented by what the routes configure: the body limit of
  each route and the extractors that precede the handlers.
\<close>

section \<open>Answering an offer\<close>

record sdp_answer =
  an_client_id :: client_id
  an_sdp :: string

datatype ('ice, 're) sdp_hook_error =
    DuplicateClientId client_id
  | CapacityReached nat
  | InvalidOffer string
  | IceError 'ice
  | HookRtcError 're

text \<open>
  \<open>sd_accept_offer\<close> is \<open>sdp_api().accept_offer\<close> with the answer printed; \<open>sd_json_len\<close> the length of
  the serialised answer, \<open>None\<close> when serialisation fails; the last two are the \<open>Display\<close> texts.
\<close>

record ('n, 'offer, 'rtc, 'cand, 'ice, 're) sdp_env =
  sd_max_clients :: "'n \<Rightarrow> nat"
  sd_parse :: "string \<Rightarrow> (string, 'offer) result"
  sd_build :: "duration \<Rightarrow> 'rtc"
  sd_host_candidate :: "socket_addr \<Rightarrow> ('ice, 'cand) result"
  sd_add_local_candidate :: "'cand \<Rightarrow> 'rtc \<Rightarrow> 'rtc"
  sd_accept_offer :: "'offer \<Rightarrow> 'rtc \<Rightarrow> ('re, string) result \<times> 'rtc"
  sd_json_len :: "sdp_answer \<Rightarrow> nat option"
  sd_ice_text :: "'ice \<Rightarrow> string"
  sd_rtc_text :: "'re \<Rightarrow> string"

text \<open>The RTC instance built for an offer, and its answer.\<close>

definition negotiate ::
  "('n, 'offer, 'rtc, 'cand, 'ice, 're) sdp_env \<Rightarrow> client_id \<Rightarrow> string \<Rightarrow> socket_addr \<Rightarrow> duration
    \<Rightarrow> (('ice, 're) sdp_hook_error, sdp_answer \<times> 'rtc) result" where
  "negotiate D cid sdp local_candidate_addr now =
     (case sd_parse D sdp of
        Err message \<Rightarrow> Err (InvalidOffer message)
      | Ok offer \<Rightarrow>
          (let rtc = sd_build D now
           in case sd_host_candidate D local_candidate_addr of
                Err e \<Rightarrow> Err (IceError e)
              | Ok candidate \<Rightarrow>
                  (case sd_accept_offer D offer (sd_add_local_candidate D candidate rtc) of
                     (Err e, _) \<Rightarrow> Err (HookRtcError e)
                   | (Ok answer, rtc') \<Rightarrow>
                       (let response = \<lparr>an_client_id = cid, an_sdp = answer\<rparr>
                        in if is_none_or (\<lambda>len. len > MAX_SDP_BODY_BYTES) (sd_json_len D response)
                           then Err (InvalidOffer ''answer exceeds size limit'')
                           else Ok (response, rtc')))))"

definition accept_offer_and_add_peer ::
  "('m, 'r, 's, 'c, 'x) env_scheme \<Rightarrow> ('m, 'offer, 'rtc, 'cand, 'ice, 're) sdp_env \<Rightarrow> socket_addr
    \<Rightarrow> ('m, 'r, 's, 'c, 'rtc) webrtc_transport \<Rightarrow> client_id \<Rightarrow> sdp_offer_request
    \<Rightarrow> (('ice, 're) sdp_hook_error, sdp_answer) result \<times> ('m, 'r, 's, 'c, 'rtc) webrtc_transport" where
  "accept_offer_and_add_peer E D local_candidate_addr s cid offer =
     (if length (so_sdp offer) > MAX_SDP_BODY_BYTES
         \<or> is_some_and (\<lambda>t. length t > MAX_SESSION_TOKEN_BYTES) (so_session_token offer)
      then (Err (InvalidOffer ''offer exceeds size limit''), s)
      else if hm_get (wt_peers s) cid \<noteq> None then (Err (DuplicateClientId cid), s)
      else if length (wt_peers s) \<ge> sd_max_clients D (wt_netcode s)
      then (Err (CapacityReached (sd_max_clients D (wt_netcode s))), s)
      else
        (let (now, c) = ck_now E (sh_clock s); s1 = s\<lparr>sh_clock := c\<rparr>
         in case negotiate D cid (so_sdp offer) local_candidate_addr now of
              Err e \<Rightarrow> (Err e, s1)
            | Ok (response, rtc) \<Rightarrow> (Ok response, snd (add_peer E cid rtc s1))))"

section \<open>Responses\<close>

text \<open>A status code with the error text of the JSON body.\<close>

type_synonym http_error = "nat \<times> string"

definition hook_error_text ::
  "('n, 'offer, 'rtc, 'cand, 'ice, 're) sdp_env \<Rightarrow> ('ice, 're) sdp_hook_error \<Rightarrow> string" where
  "hook_error_text D err =
     (case err of
        DuplicateClientId cid \<Rightarrow> ''client '' @ show_nat (unat cid) @ '' already exists in webrtc transport''
      | CapacityReached n \<Rightarrow> ''webrtc peer capacity reached ('' @ show_nat n @ '')''
      | InvalidOffer message \<Rightarrow> ''invalid SDP offer: '' @ message
      | IceError e \<Rightarrow> sd_ice_text D e
      | HookRtcError e \<Rightarrow> sd_rtc_text D e)"

definition hook_into_response ::
  "('n, 'offer, 'rtc, 'cand, 'ice, 're) sdp_env \<Rightarrow> ('ice, 're) sdp_hook_error \<Rightarrow> http_error" where
  "hook_into_response D err =
     (case err of
        DuplicateClientId _ \<Rightarrow> 409
      | CapacityReached _ \<Rightarrow> 503
      | InvalidOffer _ \<Rightarrow> 400
      | IceError _ \<Rightarrow> 422
      | HookRtcError _ \<Rightarrow> 422, hook_error_text D err)"

datatype 'h api_error = ApiBootstrap "'h bootstrap_error" | TransportLockPoisoned

definition api_into_response ::
  "('n, 'offer, 'rtc, 'cand, 'ice, 're) sdp_env \<Rightarrow> ('ice, 're) sdp_hook_error api_error \<Rightarrow> http_error" where
  "api_into_response D err =
     (case err of
        ApiBootstrap (UnknownSession cid) \<Rightarrow> (404, ''unknown or expired session id: '' @ show_nat (unat cid))
      | ApiBootstrap (Auth e) \<Rightarrow>
          (case e of
             MissingToken _ \<Rightarrow> 401 | InvalidToken _ \<Rightarrow> 401 | InvalidRequest \<Rightarrow> 400 | _ \<Rightarrow> 403,
           ''bootstrap authentication rejected'')
      | ApiBootstrap (Hook e) \<Rightarrow> hook_into_response D e
      | ApiBootstrap BodyTooLarge \<Rightarrow> (413, ''bootstrap body too large'')
      | ApiBootstrap Capacity \<Rightarrow> (503, ''bootstrap capacity reached'')
      | ApiBootstrap DuplicateSession \<Rightarrow> (409, ''session unavailable'')
      | ApiBootstrap SessionRegistryPoisoned \<Rightarrow> (500, ''internal server error'')
      | ApiBootstrap Clock \<Rightarrow> (500, ''internal server error'')
      | TransportLockPoisoned \<Rightarrow> (500, ''internal server error''))"

section \<open>Handlers\<close>

text \<open>
  What the handlers are configured with: allocator and policy of the bootstrap service, the hook
  configuration, \<open>serde_json\<close> (\<open>ha_parse_request\<close> is \<open>from_slice\<close>) and the JSON extractor of the offer
  route, which refuses a body with a status and text of its own.
\<close>

record 'a http_app =
  ha_alloc :: "'a \<Rightarrow> (client_id \<times> 'a) option"
  ha_policy :: auth_policy
  ha_json_len :: "session_create_response \<Rightarrow> nat option"
  ha_parse_request :: "bytes \<Rightarrow> session_create_request option"
  ha_parse_offer :: "bytes \<Rightarrow> (http_error, sdp_offer_request) result"
  ha_local_candidate_addr :: socket_addr

text \<open>
  What a request meets: whether the transport's lock is poisoned, the entropy, the system clock (\<open>None\<close>
  before the epoch) and the monotonic clock.
\<close>

record request_context =
  rc_poisoned :: bool
  rc_entropy :: nat
  rc_unix :: "duration option"
  rc_instant :: duration

definition session_new ::
  "'a http_app \<Rightarrow> request_context \<Rightarrow> bytes \<Rightarrow> 'a service
    \<Rightarrow> ('h api_error, session_create_response) result \<times> 'a service" where
  "session_new A x body sv =
     (case (if body = [] then Some SessionCreateRequest_default else ha_parse_request A body) of
        None \<Rightarrow> (Err (ApiBootstrap (Auth InvalidRequest)), sv)
      | Some request \<Rightarrow>
          (case create_session_with_request (ha_alloc A) (ha_policy A) (ha_json_len A) (rc_entropy x)
                  (rc_unix x) (rc_instant x) sv request of
             (Err e, sv') \<Rightarrow> (Err (ApiBootstrap e), sv')
           | (Ok session, sv') \<Rightarrow> (Ok session, sv')))"

definition webrtc_offer ::
  "('m, 'r, 's, 'c, 'rtc, 'rte, 'x) rtc_env_scheme \<Rightarrow> ('m, 'offer, 'rtc, 'cand, 'ice, 're) sdp_env
    \<Rightarrow> 'a http_app \<Rightarrow> request_context \<Rightarrow> client_id \<Rightarrow> sdp_offer_request
    \<Rightarrow> 'a service \<Rightarrow> ('m, 'r, 's, 'c, 'rtc) mixed_transport
    \<Rightarrow> (('ice, 're) sdp_hook_error api_error, sdp_answer) result
         \<times> 'a service \<times> ('m, 'r, 's, 'c, 'rtc) mixed_transport" where
  "webrtc_offer E D A x cid offer sv m =
     (if rc_poisoned x then (Err TransportLockPoisoned, sv, m)
      else
        (case accept_offer (ha_policy A) (accept_offer_and_add_peer E D (ha_local_candidate_addr A))
                (rc_unix x) (rc_instant x) sv (webrtc_mut m) cid offer of
           (Err e, sv', w) \<Rightarrow> (Err (ApiBootstrap e), sv', put_webrtc w m)
         | (Ok answer, sv', w) \<Rightarrow> (Ok answer, sv', put_webrtc w m)))"

text \<open>
  The routes.  A body over the route's limit is refused before its handler runs; the text of that
  response is the framework's and left empty here.
\<close>

datatype http_request =
    GetHealthz
  | PostSessionNew bytes
  | PostWebrtcOffer client_id bytes

datatype http_response =
    HealthOk string
  | SessionCreated session_create_response
  | OfferAnswered sdp_answer
  | Refused http_error

fun bootstrap_router ::
  "('m, 'r, 's, 'c, 'rtc, 'rte, 'x) rtc_env_scheme \<Rightarrow> ('m, 'offer, 'rtc, 'cand, 'ice, 're) sdp_env
    \<Rightarrow> 'a http_app \<Rightarrow> request_context \<Rightarrow> http_request
    \<Rightarrow> 'a service \<times> ('m, 'r, 's, 'c, 'rtc) mixed_transport
    \<Rightarrow> http_response \<times> 'a service \<times> ('m, 'r, 's, 'c, 'rtc) mixed_transport" where
  "bootstrap_router E D A x GetHealthz (sv, m) = (HealthOk ''ok'', sv, m)"
| "bootstrap_router E D A x (PostSessionNew body) (sv, m) =
     (if length body > MAX_SESSION_REQUEST_BYTES then (Refused (413, []), sv, m)
      else (case session_new A x body sv of
              (Err e, sv') \<Rightarrow> (Refused (api_into_response D e), sv', m)
            | (Ok session, sv') \<Rightarrow> (SessionCreated session, sv', m)))"
| "bootstrap_router E D A x (PostWebrtcOffer cid body) (sv, m) =
     (if length body > MAX_SDP_BODY_BYTES then (Refused (413, []), sv, m)
      else (case ha_parse_offer A body of
              Err e \<Rightarrow> (Refused e, sv, m)
            | Ok offer \<Rightarrow>
                (case webrtc_offer E D A x cid offer sv m of
                   (Err e, sv', m') \<Rightarrow> (Refused (api_into_response D e), sv', m')
                 | (Ok answer, sv', m') \<Rightarrow> (OfferAnswered answer, sv', m'))))"

section \<open>Peers and capacity\<close>

text \<open>What an accepted offer does to the peers: one new peer within the capacity.\<close>

definition admits ::
  "('m, 'offer, 'rtc, 'cand, 'ice, 're) sdp_env \<Rightarrow> client_id \<Rightarrow> ('m, 'r, 's, 'c, 'rtc) webrtc_transport
    \<Rightarrow> ('m, 'r, 's, 'c, 'rtc) webrtc_transport \<Rightarrow> bool" where
  "admits D cid s s' \<longleftrightarrow>
     hm_get (wt_peers s) cid = None \<and> length (wt_peers s) < sd_max_clients D (wt_netcode s)
     \<and> (\<exists>rtc. wt_peers s' = hm_insert cid (ServerPeer_new cid rtc) (wt_peers s))"

lemma add_peer_fresh:
  "hm_get (wt_peers s) cid = None
    \<Longrightarrow> wt_peers (snd (add_peer E cid rtc s)) = hm_insert cid (ServerPeer_new cid rtc) (wt_peers s)"
  by (auto simp: add_peer_def remove_peer_def Let_def drop_routes_def gate_remove_def map_of_eq_None_iff
      AList.delete_id)

lemma offer_cases:
  obtains (refused) e c where "accept_offer_and_add_peer E D a s cid offer = (Err e, s\<lparr>sh_clock := c\<rparr>)"
  | (admitted) answer s' where "accept_offer_and_add_peer E D a s cid offer = (Ok answer, s')"
      "an_client_id answer = cid" "admits D cid s s'"
proof (cases "accept_offer_and_add_peer E D a s cid offer")
  case (Pair res s')
  show thesis
  proof (cases res)
    case (Inl e)
    then have "\<exists>c. s' = s\<lparr>sh_clock := c\<rparr>"
      using Pair by (auto simp: accept_offer_and_add_peer_def Let_def split: if_splits prod.splits sum.splits
          intro: exI[of _ "sh_clock s"])
    then show thesis using refused Pair Inl by blast
  next
    case (Inr answer)
    have "an_client_id answer = cid" "admits D cid s s'"
      using Pair Inr
      by (auto simp: accept_offer_and_add_peer_def negotiate_def admits_def Let_def add_peer_fresh
          split: if_splits prod.splits sum.splits)
    then show thesis using admitted Pair Inr by blast
  qed
qed

text \<open>A request that adds no peer at most advances the clock.\<close>

definition idle ::
  "('m, 'r, 's, 'c, 'rtc) mixed_transport \<Rightarrow> ('m, 'r, 's, 'c, 'rtc) mixed_transport \<Rightarrow> bool" where
  "idle m m' \<longleftrightarrow> m' = m \<or> (\<exists>c. m' = put_webrtc ((webrtc_mut m)\<lparr>sh_clock := c\<rparr>) m)"

lemma webrtc_offer_cases:
  fixes D :: "('m, 'offer, 'rtc, 'cand, 'ice, 're) sdp_env"
  obtains (refused) e sv' m' where "webrtc_offer E D A x cid offer sv m = (Err e, sv', m')" "idle m m'"
  | (admitted) answer sv' w where "webrtc_offer E D A x cid offer sv m = (Ok answer, sv', put_webrtc w m)"
      "an_client_id answer = cid" "admits D cid (webrtc_mut m) w"
proof (cases "rc_poisoned x")
  case True
  then show thesis
    by (intro refused[of TransportLockPoisoned sv m]) (simp_all add: webrtc_offer_def idle_def)
next
  case False
  note ev = webrtc_offer_def accept_offer_def False
  obtain sv' and r :: "(('ice, 're) sdp_hook_error bootstrap_error, unit) result"
    where cl: "claim_offer (ha_policy A) (rc_unix x) (rc_instant x) sv cid offer = (r, sv')" by fastforce
  have same: "put_webrtc (webrtc_mut m) m = put_webrtc ((webrtc_mut m)\<lparr>sh_clock := sh_clock (webrtc_mut m)\<rparr>) m"
    by simp
  show thesis
  proof (cases r)
    case (Inl e)
    then show thesis
      by (intro refused[of "ApiBootstrap e" sv' "put_webrtc (webrtc_mut m) m"])
        (simp add: ev cl, unfold idle_def, blast intro: same)
  next
    case (Inr u)
    show thesis
    proof (cases rule: offer_cases[of E D "ha_local_candidate_addr A" "webrtc_mut m" cid offer])
      case (refused e c)
      then show thesis
        by (intro that(1)[of "ApiBootstrap (Hook e)" sv']) (auto simp: ev cl Inr idle_def)
    next
      case (admitted answer w)
      then show thesis
        by (intro that(2)[of answer sv' w]) (simp_all add: ev cl Inr)
    qed
  qed
qed

lemma request_cases:
  obtains (idle) response sv' m' where "bootstrap_router E D A x request (sv, m) = (response, sv', m')"
      "idle m m'" "\<And>answer. response \<noteq> OfferAnswered answer"
  | (admitted) cid body answer sv' w where "request = PostWebrtcOffer cid body"
      "bootstrap_router E D A x request (sv, m) = (OfferAnswered answer, sv', put_webrtc w m)"
      "an_client_id answer = cid" "admits D cid (webrtc_mut m) w"
proof (cases request)
  case GetHealthz
  then show thesis by (intro that(1)[of "HealthOk ''ok''" sv m]) (simp_all add: idle_def)
next
  case (PostSessionNew body)
  show thesis
    by (cases "bootstrap_router E D A x request (sv, m)", rule that(1))
      (auto simp: PostSessionNew idle_def split: if_splits sum.splits prod.splits)
next
  case (PostWebrtcOffer cid body)
  show thesis
  proof (cases "length body \<le> MAX_SDP_BODY_BYTES \<and> \<not> isl (ha_parse_offer A body)")
    case False
    then show thesis
      by (cases "bootstrap_router E D A x request (sv, m)", intro that(1))
        (auto simp: PostWebrtcOffer idle_def split: if_splits sum.splits)
  next
    case True
    then obtain offer where off: "ha_parse_offer A body = Ok offer" "length body \<le> MAX_SDP_BODY_BYTES"
      by (cases "ha_parse_offer A body") auto
    show thesis
    proof (cases rule: webrtc_offer_cases[of E D A x cid offer sv m])
      case (refused e sv' m')
      then show thesis
        using off(2) by (intro that(1)[of "Refused (api_into_response D e)" sv' m']) (simp_all add: PostWebrtcOffer off(1))
    next
      case (admitted answer sv' w)
      then show thesis
        using off(2) by (intro that(2)[OF PostWebrtcOffer, of answer sv' w]) (simp_all add: PostWebrtcOffer off(1))
    qed
  qed
qed

text \<open>Replacing the value of a key that is present does not add an entry.\<close>

lemma length_replace:
  assumes "hm_get m k = Some v"
  shows "length (hm_insert k v' m) = length m" "length (hm_insert k v' (hm_remove k m)) \<le> length m"
proof -
  show "length (hm_insert k v' m) = length m"
    using assms by (induction m) (auto split: if_splits)
  have "length (hm_remove k m) < length m"
    using assms
  proof (induction m)
    case (Cons a m)
    then show ?case using length_delete_le[of k m] by (cases a) (auto simp: less_Suc_eq_le split: if_splits)
  qed simp
  then show "length (hm_insert k v' (hm_remove k m)) \<le> length m"
    using length_hm_insert[of k v' "hm_remove k m"] by linarith
qed

text \<open>No pump of the WebRTC backend adds a peer or a client id.\<close>

interpretation crowd: webrtc_invariant E "\<lambda>_. True"
  "\<lambda>(r, peers, cn, rm, pend). hm_wf peers \<and> length peers \<le> M \<and> hm_keys peers \<subseteq> S" for E M S
proof (unfold_locales, goal_cases)
  case (1 s cid)
  then have I: "hm_wf (wt_peers s)" "length (wt_peers s) \<le> M" "hm_keys (wt_peers s) \<subseteq> S"
    by (simp_all add: core_def)
  show ?case
  proof (cases rule: flush_facts[of E cid s])
    case (alive peer peer' new)
    then show ?thesis
      using I length_replace(2)[OF alive(1), of peer'] hm_get_keys(3)[OF alive(1)] by (auto simp: core_def)
  qed (use I in \<open>auto simp: core_def length_hm_remove\<close>)
next
  case (2 r peers cn rm pend cid peer)
  then show ?case using length_replace(1)[OF 2(2)] hm_get_keys(3)[OF 2(2)] by auto
next
  case (11 r peers cn rm pend cid peer peer')
  then show ?case using length_replace(1)[OF 11(2), of peer'] hm_get_keys(3)[OF 11(2)] by auto
next
  case (12 r peers cn rm pend cid peer peer' new)
  then show ?case using length_replace(2)[OF 12(2), of peer'] hm_get_keys(3)[OF 12(2)] by auto
qed (auto simp: list_all_iff length_replace length_hm_remove)

lemma mut_peers [simp]: "wt_peers (webrtc_mut m) = wt_peers (mt_webrtc m)"
  "wt_netcode (webrtc_mut m) = wt_netcode (mt_webrtc m)"
  by (simp_all add: webrtc_mut_def lend_def)

definition crowd_ok :: "nat \<Rightarrow> client_id set \<Rightarrow> ('m, 'r, 's, 'c, 'rtc) mixed_transport \<Rightarrow> bool" where
  "crowd_ok M S m \<longleftrightarrow>
     hm_wf (wt_peers (mt_webrtc m)) \<and> length (wt_peers (mt_webrtc m)) \<le> M
     \<and> hm_keys (wt_peers (mt_webrtc m)) \<subseteq> S"

lemma crowd_put_udp [simp]: "crowd_ok M S (put_udp u m) = crowd_ok M S m"
  by (simp add: crowd_ok_def)

lemma crowd_webrtc:
  assumes "webrtc_step E op w = Some w'" "signalled_id op = []" "wt_peers w = wt_peers (mt_webrtc m)" "crowd_ok M S m"
  shows "crowd_ok M S (put_webrtc w' n)"
proof -
  have "webrtc_run E [op] w = Some w'" using assms(1) by simp
  from crowd.run_keeps[OF this, of M S] show ?thesis
    using assms(2-4) by (simp add: core_def crowd_ok_def)
qed

section \<open>Runs of the server\<close>

datatype http_op =
    HttpRequest request_context http_request
  | HttpUpdate duration
  | HttpSendPackets
  | HttpDisconnectAll
  | HttpRemovePeer client_id

text \<open>The service, the transport behind its lock, and the responses so far.\<close>

record ('m, 'r, 's, 'c, 'rtc, 'a) http_server =
  hs_service :: "'a service"
  hs_transport :: "('m, 'r, 's, 'c, 'rtc) mixed_transport"
  hs_log :: "http_response list"

definition pump ::
  "('m, 'r, 's, 'c, 'rtc, 'rte, 'x) rtc_env_scheme \<Rightarrow> 'rtc mixed_op
    \<Rightarrow> ('m, 'r, 's, 'c, 'rtc, 'a) http_server \<Rightarrow> ('m, 'r, 's, 'c, 'rtc, 'a) http_server option" where
  "pump E op st = map_option (\<lambda>m. st\<lparr>hs_transport := m\<rparr>) (mixed_step E op (hs_transport st))"

fun http_step ::
  "('m, 'r, 's, 'c, 'rtc, 'rte, 'x) rtc_env_scheme \<Rightarrow> ('m, 'offer, 'rtc, 'cand, 'ice, 're) sdp_env
    \<Rightarrow> 'a http_app \<Rightarrow> http_op
    \<Rightarrow> ('m, 'r, 's, 'c, 'rtc, 'a) http_server \<Rightarrow> ('m, 'r, 's, 'c, 'rtc, 'a) http_server option" where
  "http_step E D A (HttpRequest x request) st =
     (case bootstrap_router E D A x request (hs_service st, hs_transport st) of
        (response, sv, m) \<Rightarrow> Some \<lparr>hs_service = sv, hs_transport = m, hs_log = hs_log st @ [response]\<rparr>)"
| "http_step E D A (HttpUpdate d) st = pump E (MixUpdate d) st"
| "http_step E D A HttpSendPackets st = pump E MixSendPackets st"
| "http_step E D A HttpDisconnectAll st = pump E MixDisconnectAll st"
| "http_step E D A (HttpRemovePeer cid) st = pump E (MixRemovePeer cid) st"

abbreviation http_run where
  "http_run E D A ops st \<equiv> fold_option (http_step E D A) ops st"

lemma crowd_pump:
  assumes "mixed_step E op m = Some m'" "crowd_ok M S m"
    and "op \<in> {MixUpdate d, MixSendPackets, MixDisconnectAll, MixRemovePeer cid}"
  shows "crowd_ok M S m'"
proof -
  have udp: "wt_peers (webrtc_mut (put_udp u m)) = wt_peers (mt_webrtc m)" for u by simp
  consider (update) "op = MixUpdate d" | (send) "op = MixSendPackets" | (dis) "op = MixDisconnectAll"
    | (remove) "op = MixRemovePeer cid" using assms(3) by blast
  then show ?thesis
  proof cases
    case update
    have "crowd_ok M S (put_webrtc w n)" if "webrtc_update E d (webrtc_mut (put_udp u m)) = Some (r, w)" for r w u n
      by (rule crowd_webrtc[OF webrtc_update_step[of E d "webrtc_mut (put_udp u m)", symmetric, unfolded that,
            simplified option.map snd_conv] _ _ assms(2)]) simp_all
    then show ?thesis
      using assms(1,2) update
      by (auto simp: mixed_update_def Let_def crowd_put_udp split: sum.splits prod.splits)
  next
    case send
    then show ?thesis
      using assms(1) crowd_webrtc[OF _ _ udp assms(2), of E WebSendPackets]
      by (auto simp: mixed_send_packets_def Let_def)
  next
    case dis
    then show ?thesis
      using assms(1) crowd_webrtc[OF _ _ udp assms(2), of E WebDisconnectAll]
      by (auto simp: mixed_disconnect_all_def Let_def)
  next
    case remove
    then show ?thesis
      using assms(1) crowd_webrtc[OF _ _ _ assms(2), of E "WebRemovePeer cid" "webrtc_mut m"] by auto
  qed
qed

section \<open>Sessions before answers\<close>

fun created_ids :: "http_response list \<Rightarrow> client_id list" where
  "created_ids [] = []"
| "created_ids (SessionCreated session # rs) = rp_client_id session # created_ids rs"
| "created_ids (_ # rs) = created_ids rs"

fun answered_ids :: "http_response list \<Rightarrow> client_id list" where
  "answered_ids [] = []"
| "answered_ids (OfferAnswered answer # rs) = an_client_id answer # answered_ids rs"
| "answered_ids (_ # rs) = answered_ids rs"

text \<open>Every answer is for a session created before it, or already \<open>known\<close>.\<close>

fun answers_follow :: "client_id list \<Rightarrow> http_response list \<Rightarrow> bool" where
  "answers_follow known [] = True"
| "answers_follow known (SessionCreated session # rs) = answers_follow (rp_client_id session # known) rs"
| "answers_follow known (OfferAnswered answer # rs) =
     (an_client_id answer \<in> set known \<and> answers_follow known rs)"
| "answers_follow known (_ # rs) = answers_follow known rs"

lemma created_append [simp]: "created_ids (xs @ ys) = created_ids xs @ created_ids ys"
  by (induction xs rule: created_ids.induct) simp_all

lemma answered_append [simp]: "answered_ids (xs @ ys) = answered_ids xs @ answered_ids ys"
  by (induction xs rule: answered_ids.induct) simp_all

lemma follow_append:
  "answers_follow known (xs @ ys) \<longleftrightarrow> answers_follow known xs \<and> answers_follow (rev (created_ids xs) @ known) ys"
  by (induction known xs rule: answers_follow.induct) simp_all

lemma create_pending:
  assumes "create_session_with_request alloc P json_len ent unix inst sv rq = (res, sv')"
  shows "pending_ids (sv_registry sv') \<subseteq> pending_ids (sv_registry sv)
      \<union> (case res of Err _ \<Rightarrow> {} | Ok response \<Rightarrow> {rp_client_id response})"
proof (cases rule: create_cases[OF assms])
  case (1 e)
  then show ?thesis by simp
next
  case (2 e r' a')
  then show ?thesis
    using cleanup_keys(1)[of "sv_registry sv" inst] cleanup_keys(1)[of "cleanup_at (sv_registry sv) inst" inst]
    by auto
next
  case (3 response cid a' now details replay r')
  have "rp_client_id response = cid" using 3(4) by (rule plan_facts)
  moreover have "pending_ids r' \<subseteq> insert cid (pending_ids (sv_registry sv))"
    using cleanup_keys(1)[of "sv_registry sv" inst] cleanup_keys(1)[of "cleanup_at (sv_registry sv) inst" inst]
    by (cases rule: try_issue_cases[OF 3(5)]) auto
  ultimately show ?thesis using 3(1,6) by auto
qed

lemma claim_pending:
  assumes "claim_offer P unix inst sv cid offer = (res, sv')"
  shows "pending_ids (sv_registry sv') \<subseteq> pending_ids (sv_registry sv)"
    "\<not> isl res \<Longrightarrow> cid \<in> pending_ids (sv_registry sv)"
  using cleanup_keys(1)[of "sv_registry sv" inst] by (cases rule: claim_cases[OF assms]; auto)+

lemma offer_pending:
  fixes D :: "('m, 'offer, 'rtc, 'cand, 'ice, 're) sdp_env"
  assumes "webrtc_offer E D A x cid offer sv m = (res, sv', m')"
  shows "pending_ids (sv_registry sv') \<subseteq> pending_ids (sv_registry sv)"
    "\<not> isl res \<Longrightarrow> cid \<in> pending_ids (sv_registry sv)"
proof -
  obtain sv1 and r :: "(('ice, 're) sdp_hook_error bootstrap_error, unit) result"
    where cl: "claim_offer (ha_policy A) (rc_unix x) (rc_instant x) sv cid offer = (r, sv1)" by fastforce
  have "sv' = sv \<or> sv' = sv1" "\<not> isl res \<Longrightarrow> \<not> isl r"
    using assms by (auto simp: webrtc_offer_def accept_offer_def cl split: sum.splits prod.splits if_splits)
  with claim_pending[OF cl] show "pending_ids (sv_registry sv') \<subseteq> pending_ids (sv_registry sv)"
    "\<not> isl res \<Longrightarrow> cid \<in> pending_ids (sv_registry sv)" by auto
qed

lemma session_pending:
  assumes "session_new A x body sv = ((res :: ('h api_error, session_create_response) result), sv')"
  shows "pending_ids (sv_registry sv') \<subseteq> pending_ids (sv_registry sv)
      \<union> (case res of Err _ \<Rightarrow> {} | Ok session \<Rightarrow> {rp_client_id session})"
proof (cases "if body = [] then Some SessionCreateRequest_default else ha_parse_request A body")
  case None
  then show ?thesis using assms by (simp add: session_new_def)
next
  case (Some request)
  obtain sv1 and r :: "('h bootstrap_error, session_create_response) result"
    where cr: "create_session_with_request (ha_alloc A) (ha_policy A) (ha_json_len A) (rc_entropy x)
                  (rc_unix x) (rc_instant x) sv request = (r, sv1)" by fastforce
  show ?thesis
    using create_pending[OF cr] assms[unfolded session_new_def Some option.case cr]
    by (cases r) auto
qed

lemma router_pending:
  fixes D :: "('m, 'offer, 'rtc, 'cand, 'ice, 're) sdp_env"
  assumes "bootstrap_router E D A x request (sv, m) = (response, sv', m')"
  shows "pending_ids (sv_registry sv') \<subseteq> pending_ids (sv_registry sv) \<union> set (created_ids [response])"
    "response = OfferAnswered answer \<Longrightarrow> request = PostWebrtcOffer cid body \<Longrightarrow> cid \<in> pending_ids (sv_registry sv)"
proof -
  show "pending_ids (sv_registry sv') \<subseteq> pending_ids (sv_registry sv) \<union> set (created_ids [response])"
  proof (cases request)
    case GetHealthz
    then show ?thesis using assms by auto
  next
    case (PostSessionNew body)
    show ?thesis
    proof (cases "session_new A x body sv :: (('ice, 're) sdp_hook_error api_error, _) result \<times> _")
      case (Pair res sv1)
      from session_pending[OF Pair] show ?thesis
        using assms[unfolded PostSessionNew bootstrap_router.simps Pair] by (cases res) (auto split: if_splits)
    qed
  next
    case (PostWebrtcOffer cid body)
    have "pending_ids (sv_registry sv2) \<subseteq> pending_ids (sv_registry sv)"
      if "webrtc_offer E D A x cid off sv m = (res, sv2, m2)" for off res sv2 m2
      by (rule offer_pending[OF that])
    then show ?thesis
      using assms PostWebrtcOffer by (fastforce split: if_splits prod.splits sum.splits)
  qed
  show "cid \<in> pending_ids (sv_registry sv)" if rr: "response = OfferAnswered answer" "request = PostWebrtcOffer cid body"
  proof -
    obtain offer a2 where "webrtc_offer E D A x cid offer sv m = (Ok a2, sv', m')"
      using rr assms by (auto split: if_splits prod.splits sum.splits)
    from offer_pending(2)[OF this] show ?thesis by simp
  qed
qed

text \<open>The invariant of a serving process, for a netcode server of capacity at most \<open>M\<close>.\<close>

definition server_ok ::
  "('m, 'offer, 'rtc, 'cand, 'ice, 're) sdp_env \<Rightarrow> nat \<Rightarrow> ('m, 'r, 's, 'c, 'rtc, 'a) http_server \<Rightarrow> bool" where
  "server_ok D M st \<longleftrightarrow>
     (\<exists>N. crowd_ok N (set (answered_ids (hs_log st))) (hs_transport st)
          \<and> ((\<forall>n. sd_max_clients D n \<le> M) \<longrightarrow> N \<le> M))
     \<and> pending_ids (sv_registry (hs_service st)) \<subseteq> set (created_ids (hs_log st))
     \<and> answers_follow [] (hs_log st)"

lemma crowd_idle: "idle m m' \<Longrightarrow> crowd_ok N S m' = crowd_ok N S m"
  by (auto simp: idle_def crowd_ok_def)

lemma crowd_admits:
  assumes "admits D cid (webrtc_mut m) w" "crowd_ok N S m" "(\<forall>n. sd_max_clients D n \<le> M) \<longrightarrow> N \<le> M"
  shows "\<exists>N'. crowd_ok N' (S \<union> {cid}) (put_webrtc w m) \<and> ((\<forall>n. sd_max_clients D n \<le> M) \<longrightarrow> N' \<le> M)"
proof (intro exI conjI)
  obtain rtc where w: "wt_peers w = hm_insert cid (ServerPeer_new cid rtc) (wt_peers (mt_webrtc m))"
    and cap: "length (wt_peers (mt_webrtc m)) < sd_max_clients D (wt_netcode (mt_webrtc m))"
    using assms(1) by (auto simp: admits_def)
  show "crowd_ok (length (wt_peers w)) (S \<union> {cid}) (put_webrtc w m)"
    using assms(2) by (auto simp: crowd_ok_def w)
  have "length (wt_peers w) \<le> sd_max_clients D (wt_netcode (mt_webrtc m))"
    using cap length_hm_insert[of cid "ServerPeer_new cid rtc" "wt_peers (mt_webrtc m)"] by (simp add: w)
  then show "(\<forall>n. sd_max_clients D n \<le> M) \<longrightarrow> length (wt_peers w) \<le> M"
    using le_trans by blast
qed

lemma server_pump:
  assumes "pump E op st = Some st'" "server_ok D M st"
    and "op \<in> {MixUpdate d, MixSendPackets, MixDisconnectAll, MixRemovePeer cid}"
  shows "server_ok D M st'"
  using assms(1,2) crowd_pump[OF _ _ assms(3)] by (fastforce simp: pump_def server_ok_def)

lemma server_request:
  assumes "http_step E D A (HttpRequest x request) st = Some st'" "server_ok D M st"
  shows "server_ok D M st'"
proof -
  let ?sv = "hs_service st" and ?m = "hs_transport st"
  obtain N where N: "crowd_ok N (set (answered_ids (hs_log st))) ?m" "(\<forall>n. sd_max_clients D n \<le> M) \<longrightarrow> N \<le> M"
    and P: "pending_ids (sv_registry ?sv) \<subseteq> set (created_ids (hs_log st))" "answers_follow [] (hs_log st)"
    using assms(2) by (auto simp: server_ok_def)
  show ?thesis
  proof (cases rule: request_cases[of E D A x request ?sv ?m])
    case (idle response sv' m')
    have ids: "answered_ids [response] = []" using idle(3) by (cases response) auto
    moreover have "answers_follow known [response]" for known using idle(3) by (cases response) auto
    moreover have "pending_ids (sv_registry sv') \<subseteq> set (created_ids (hs_log st @ [response]))"
      using router_pending(1)[OF idle(1)] P(1) unfolding created_append set_append by blast
    ultimately show ?thesis
      using assms(1) idle(1) N P(2)
      by (auto simp: server_ok_def follow_append crowd_idle[OF idle(2)])
  next
    case (admitted cid body answer sv' w)
    have "cid \<in> pending_ids (sv_registry ?sv)" by (rule router_pending(2)[OF admitted(2) refl admitted(1)])
    with P have "cid \<in> set (created_ids (hs_log st))" by blast
    moreover have "pending_ids (sv_registry sv') \<subseteq> set (created_ids (hs_log st))"
      using router_pending(1)[OF admitted(2)] P(1) by auto
    ultimately show ?thesis
      using assms(1) admitted(2,3) P(2) crowd_admits[OF admitted(4) N]
      by (auto simp: server_ok_def follow_append)
  qed
qed

lemma server_run:
  assumes "http_run E D A ops st = Some st'" "server_ok D M st"
  shows "server_ok D M st'"
proof -
  have "server_ok D M t'" if "http_step E D A op t = Some t'" "server_ok D M t" for op t t'
  proof (cases op)
    case (HttpRequest x request)
    then show ?thesis using server_request that by blast
  next
    case (HttpUpdate d)
    then show ?thesis using that server_pump[of E "MixUpdate d" t t' D M d] by simp
  next
    case (HttpRemovePeer cid)
    then show ?thesis using that server_pump[of E "MixRemovePeer cid" t t' D M _ cid] by simp
  qed (use that server_pump[of E _ t t' D M] in simp_all)
  then show ?thesis
    using assms by (induction ops arbitrary: st) (auto split: option.splits)
qed

text \<open>A server before its first request.\<close>

definition fresh_server ::
  "bootstrap_config \<Rightarrow> 'a \<Rightarrow> ('m, 'r, 's, 'c, 'rtc) mixed_transport \<Rightarrow> ('m, 'r, 's, 'c, 'rtc, 'a) http_server" where
  "fresh_server config allocator m =
     \<lparr>hs_service = BootstrapService_new config allocator,
      hs_transport = m\<lparr>mt_webrtc := (mt_webrtc m)\<lparr>wt_peers := []\<rparr>\<rparr>, hs_log = []\<rparr>"

lemma fresh_server_ok: "server_ok D M (fresh_server config allocator m)"
  by (auto simp: server_ok_def fresh_server_def crowd_ok_def BootstrapService_new_def InMemorySessionRegistry_new_def
      intro!: exI[of _ 0])

section \<open>Theorems\<close>

text \<open>
  C1: signalling starts with a session.  Over every run of a fresh server (requests in any order,
  updates, sends, disconnections, removals) an offer is answered only for a client id that an earlier
  session request returned, and every peer of the transport is for an answered offer.
\<close>

theorem answers_follow_sessions:
  "case http_run E D A ops (fresh_server config allocator m) of
     None \<Rightarrow> True
   | Some st \<Rightarrow> answers_follow [] (hs_log st)
       \<and> hm_keys (wt_peers (mt_webrtc (hs_transport st))) \<subseteq> set (answered_ids (hs_log st))"
  using server_run[OF _ fresh_server_ok, of E D A ops config allocator m]
  by (auto simp: server_ok_def crowd_ok_def split: option.split)

text \<open>
  C33: half-open negotiations are bounded too.  When the netcode server's capacity never exceeds \<open>M\<close>,
  the transport never holds more than \<open>M\<close> peers, connected or not, over any run of a fresh server.
\<close>

theorem peers_within_capacity:
  "case http_run E (D\<lparr>sd_max_clients := \<lambda>n. min M (sd_max_clients D n)\<rparr>) A ops (fresh_server config allocator m) of
     None \<Rightarrow> True
   | Some st \<Rightarrow> length (wt_peers (mt_webrtc (hs_transport st))) \<le> M"
  using server_run[OF _ fresh_server_ok, of E "D\<lparr>sd_max_clients := \<lambda>n. min M (sd_max_clients D n)\<rparr>" A ops config
      allocator m _ M]
  by (force simp: server_ok_def crowd_ok_def split: option.split)

text \<open>
  C34: a request that is not answered with an SDP answer leaves no trace in the transport: the peers,
  the routes, the native backend and the Renet server are as before.  An answered offer adds exactly
  one peer, for the client id of the request, where there was none, within the capacity.
\<close>

theorem request_outcome:
  "case bootstrap_router E D A x request (sv, m) of
     (OfferAnswered answer, sv', m') \<Rightarrow>
       (\<exists>cid body w. request = PostWebrtcOffer cid body \<and> an_client_id answer = cid
          \<and> m' = put_webrtc w m \<and> admits D cid (webrtc_mut m) w)
   | (_, sv', m') \<Rightarrow>
       wt_peers (mt_webrtc m') = wt_peers (mt_webrtc m) \<and> wt_routes (mt_webrtc m') = wt_routes (mt_webrtc m)
       \<and> mt_udp m' = mt_udp m \<and> sh_renet m' = sh_renet m"
proof (cases rule: request_cases[of E D A x request sv m])
  case (idle response sv' m')
  then show ?thesis
    by (cases response) (auto simp: idle_def webrtc_mut_def lend_def)
qed auto

end
