(* ===== verification/Native_Client.thy ===== *)
theory Native_Client
  imports Packet_Gate Egress Session_Security Transport_Env
begin

text \<open>
  The native UDP client (\<open>src/src/native_client.rs\<close>): the transport, connecting from a session, the
  session request and the decoders of its response.  \<open>renetcode::NetcodeClient\<close>, \<open>renet::RenetClient\<close>,
  the socket and the clocks are operations of the record \<open>client_env\<close>; JSON, address parsing and the
  HTTP client are arguments.  The state holds the Renet client the methods borrow, the store of
  conditioner handles and the clock beside the transport's own fields.
\<close>

section \<open>Environment and state\<close>

datatype ('ne, 'why) netcode_error = Disconnected 'why | OtherNetcodeError 'ne

record ('n, 'r, 's, 'c, 'ne, 'why) client_env =
  cn_max_packet_bytes :: nat
  cn_new :: "duration \<Rightarrow> client_authentication \<Rightarrow> (('ne, 'why) netcode_error, 'n) result"
  cn_server_addr :: "'n \<Rightarrow> socket_addr"
  cn_disconnect_reason :: "'n \<Rightarrow> 'why option"
  cn_is_disconnected :: "'n \<Rightarrow> bool"
  cn_is_connected :: "'n \<Rightarrow> bool"
  cn_is_connecting :: "'n \<Rightarrow> bool"
  cn_disconnect :: "'n \<Rightarrow> (('ne, 'why) netcode_error, socket_addr \<times> bytes) result \<times> 'n"
  cn_process_packet :: "bytes \<Rightarrow> 'n \<Rightarrow> bytes option \<times> 'n"
  cn_update :: "duration \<Rightarrow> 'n \<Rightarrow> (bytes \<times> socket_addr) option \<times> 'n"
  cn_generate_payload_packet :: "bytes \<Rightarrow> 'n \<Rightarrow> (('ne, 'why) netcode_error, socket_addr \<times> bytes) result \<times> 'n"
  rn_disconnected :: "'r \<Rightarrow> bool"
  rn_disconnect_due_to_transport :: "'r \<Rightarrow> 'r"
  rn_set_connected :: "'r \<Rightarrow> 'r"
  rn_set_connecting :: "'r \<Rightarrow> 'r"
  rn_process_packet :: "bytes \<Rightarrow> 'r \<Rightarrow> 'r"
  rn_get_packets_to_send :: "'r \<Rightarrow> bytes list \<times> 'r"
  cs_set_nonblocking :: "'s \<Rightarrow> (io_error_kind, unit) result \<times> 's"
  cs_recv_from :: "'s \<Rightarrow> (io_error_kind, bytes \<times> socket_addr) result \<times> 's"
  cs_send_to :: "bytes \<Rightarrow> socket_addr \<Rightarrow> 's \<Rightarrow> (io_error_kind, nat) result \<times> 's"
  cc_now :: "'c \<Rightarrow> duration \<times> 'c"
  cc_elapsed :: "'c \<Rightarrow> duration \<times> 'c"

datatype ('ne, 'why, 'pe) native_error =
    NativeBootstrapAuth bootstrap_auth_error
  | NativeSecurity session_security_error
  | NativeBodyTooLarge
  | NativeIo io_error_kind
  | NativeNetcode "('ne, 'why) netcode_error"
  | InvalidSessionUdpAddr string 'pe
  | NativeHttpRequest string string
  | NativeHttpStatus string nat string
  | NativeHttpDecode string string
  | NativeClock

record ('n, 'r, 's, 'c) native_transport =
  nt_renet :: 'r
  nt_controls :: controls
  nt_clock :: 'c
  nt_egress :: "socket_addr egress"
  nt_socket :: 's
  nt_netcode :: 'n
  nt_max_datagrams :: nat
  nt_packets :: "socket_addr packet_gate"

record 'cc native_connect_options =
  no_connection_config :: 'cc
  no_udp_bind :: socket_addr
  no_override_udp_addr :: "socket_addr option"
  no_conditioner :: "nat option"
  no_session_request :: session_create_request
  no_require_secure :: bool

definition NativeConnectOptions_default :: "'cc \<Rightarrow> 'cc native_connect_options" where
  "NativeConnectOptions_default connection_config =
     \<lparr>no_connection_config = connection_config, no_udp_bind = SocketV4 0 0, no_override_udp_addr = None,
      no_conditioner = None, no_session_request = SessionCreateRequest_default, no_require_secure = False\<rparr>"

text \<open>The packet gate of the transport with its clock read.\<close>

definition native_defer ::
  "('n, 'r, 's, 'c, 'ne, 'why) client_env \<Rightarrow> direction \<Rightarrow> socket_addr \<Rightarrow> bytes
    \<Rightarrow> ('n, 'r, 's, 'c) native_transport \<Rightarrow> bool \<times> ('n, 'r, 's, 'c) native_transport" where
  "native_defer E dir addr payload s =
     (let (t, c) = cc_elapsed E (nt_clock s);
          (taken, g, cs) = PacketGate_defer dir addr payload t (nt_packets s) (nt_controls s)
      in (taken, s\<lparr>nt_clock := c, nt_packets := g, nt_controls := cs\<rparr>))"

definition native_drain ::
  "('n, 'r, 's, 'c, 'ne, 'why) client_env \<Rightarrow> direction
    \<Rightarrow> ('n, 'r, 's, 'c) native_transport \<Rightarrow> (socket_addr \<times> bytes) list \<times> ('n, 'r, 's, 'c) native_transport" where
  "native_drain E dir s =
     (let (t, c) = cc_elapsed E (nt_clock s);
          (ready, g, cs) = PacketGate_drain dir t (nt_packets s) (nt_controls s)
      in (ready, s\<lparr>nt_clock := c, nt_packets := g, nt_controls := cs\<rparr>))"

definition native_reset :: "('n, 'r, 's, 'c) native_transport \<Rightarrow> ('n, 'r, 's, 'c) native_transport" where
  "native_reset s =
     (let (g, cs) = PacketGate_reset (nt_packets s) (nt_controls s) in s\<lparr>nt_packets := g, nt_controls := cs\<rparr>)"

section \<open>Construction and settings\<close>

definition native_new_with_config ::
  "('n, 'r, 's, 'c, 'ne, 'why) client_env \<Rightarrow> duration \<Rightarrow> client_authentication \<Rightarrow> 's \<Rightarrow> nat option
    \<Rightarrow> 'r \<Rightarrow> controls \<Rightarrow> 'c \<Rightarrow> (('ne, 'why, 'pe) native_error, ('n, 'r, 's, 'c) native_transport) result" where
  "native_new_with_config E current_time authentication socket conditioner renet cs clock =
     (case cs_set_nonblocking E socket of
        (Err e, _) \<Rightarrow> Err (NativeIo e)
      | (Ok _, socket') \<Rightarrow>
          (case cn_new E current_time authentication of
             Err e \<Rightarrow> Err (NativeNetcode e)
           | Ok netcode \<Rightarrow>
               (let (g, cs') = (case conditioner of
                                  None \<Rightarrow> (PacketGate_default, cs)
                                | Some h \<Rightarrow> PacketGate_attach h PacketGate_default cs)
                in Ok \<lparr>nt_renet = renet, nt_controls = cs', nt_clock = clock,
                       nt_egress = Egress_new NativeUdpIp, nt_socket = socket', nt_netcode = netcode,
                       nt_max_datagrams = 256, nt_packets = g\<rparr>)))"

definition native_set_egress_limit ::
  "('n, 'r, 's, 'c, 'ne, 'why) client_env \<Rightarrow> egress_config option \<Rightarrow> ('n, 'r, 's, 'c) native_transport
    \<Rightarrow> (egress_config_error, unit) result \<times> ('n, 'r, 's, 'c) native_transport" where
  "native_set_egress_limit E config s =
     (let (t, c) = cc_now E (nt_clock s); s' = s\<lparr>nt_clock := c\<rparr>
      in case Egress_configure (nt_egress s') config t of
           Err e \<Rightarrow> (Err e, s')
         | Ok e \<Rightarrow> (Ok (), s'\<lparr>nt_egress := e\<rparr>))"

definition native_set_max_datagrams_per_update ::
  "nat \<Rightarrow> ('n, 'r, 's, 'c) native_transport \<Rightarrow> ('n, 'r, 's, 'c) native_transport" where
  "native_set_max_datagrams_per_update limit s = s\<lparr>nt_max_datagrams := limit\<rparr>"

definition native_set_conditioner ::
  "nat \<Rightarrow> ('n, 'r, 's, 'c) native_transport \<Rightarrow> ('n, 'r, 's, 'c) native_transport" where
  "native_set_conditioner h s =
     (let (g, cs) = PacketGate_attach h (nt_packets s) (nt_controls s) in s\<lparr>nt_packets := g, nt_controls := cs\<rparr>)"

definition native_clear_conditioner ::
  "('n, 'r, 's, 'c) native_transport \<Rightarrow> ('n, 'r, 's, 'c) native_transport" where
  "native_clear_conditioner s =
     (let (g, cs) = PacketGate_detach (nt_packets s) (nt_controls s) in s\<lparr>nt_packets := g, nt_controls := cs\<rparr>)"

section \<open>Sending\<close>

definition native_send_datagram ::
  "('n, 'r, 's, 'c, 'ne, 'why) client_env \<Rightarrow> bytes \<Rightarrow> socket_addr \<Rightarrow> ('n, 'r, 's, 'c) native_transport
    \<Rightarrow> (io_error_kind, unit) result \<times> ('n, 'r, 's, 'c) native_transport" where
  "native_send_datagram E payload addr s =
     (let overhead = ip_overhead addr;
          (t, c) = cc_now E (nt_clock s);
          (admitted, e) = Egress_admit_at (nt_egress s) addr payload overhead t;
          s1 = s\<lparr>nt_clock := c, nt_egress := e\<rparr>
      in if \<not> admitted then (Ok (), s1)
         else
           (let (res, so) = cs_send_to E payload addr (nt_socket s1);
                (t', c') = cc_now E (nt_clock s1);
                e' = Egress_complete (nt_egress s1) addr payload overhead (res = Ok (length payload)) t';
                s2 = s1\<lparr>nt_clock := c', nt_egress := e', nt_socket := so\<rparr>
            in case res of
                 Ok _ \<Rightarrow> (Ok (), s2)
               | Err kind \<Rightarrow> (if kind = WouldBlock \<or> kind = Interrupted then Ok () else Err kind, s2)))"

text \<open>Queued packets for one destination; the first failure ends the loop.\<close>

fun native_send_queued ::
  "('n, 'r, 's, 'c, 'ne, 'why) client_env \<Rightarrow> socket_addr \<Rightarrow> (socket_addr \<times> bytes) list
    \<Rightarrow> ('n, 'r, 's, 'c) native_transport \<Rightarrow> (io_error_kind, unit) result \<times> ('n, 'r, 's, 'c) native_transport" where
  "native_send_queued E addr [] s = (Ok (), s)"
| "native_send_queued E addr ((destination, packet) # queued) s =
     (if destination = addr
      then (case native_send_datagram E packet destination s of
              (Err e, s') \<Rightarrow> (Err e, s')
            | (Ok _, s') \<Rightarrow> native_send_queued E addr queued s')
      else native_send_queued E addr queued s)"

definition native_flush_outgoing ::
  "('n, 'r, 's, 'c, 'ne, 'why) client_env \<Rightarrow> ('n, 'r, 's, 'c) native_transport
    \<Rightarrow> (io_error_kind, unit) result \<times> ('n, 'r, 's, 'c) native_transport" where
  "native_flush_outgoing E s =
     (let (ready, s1) = native_drain E Outgoing s
      in native_send_queued E (cn_server_addr E (nt_netcode s1)) ready s1)"

definition native_send_packet ::
  "('n, 'r, 's, 'c, 'ne, 'why) client_env \<Rightarrow> bytes \<Rightarrow> socket_addr \<Rightarrow> ('n, 'r, 's, 'c) native_transport
    \<Rightarrow> (io_error_kind, unit) result \<times> ('n, 'r, 's, 'c) native_transport" where
  "native_send_packet E payload addr s =
     (let (taken, s1) = native_defer E Outgoing addr payload s
      in case (if taken then (Ok (), s1) else native_send_datagram E payload addr s1) of
           (Err e, s2) \<Rightarrow> (Err e, s2)
         | (Ok _, s2) \<Rightarrow> (let (ready, s3) = native_drain E Outgoing s2 in native_send_queued E addr ready s3))"

section \<open>Receiving\<close>

definition native_process ::
  "('n, 'r, 's, 'c, 'ne, 'why) client_env \<Rightarrow> bytes \<Rightarrow> ('n, 'r, 's, 'c) native_transport
    \<Rightarrow> ('n, 'r, 's, 'c) native_transport" where
  "native_process E packet s =
     (let (payload, n) = cn_process_packet E packet (nt_netcode s); s1 = s\<lparr>nt_netcode := n\<rparr>
      in case payload of None \<Rightarrow> s1 | Some p \<Rightarrow> s1\<lparr>nt_renet := rn_process_packet E p (nt_renet s1)\<rparr>)"

definition native_deliver ::
  "('n, 'r, 's, 'c, 'ne, 'why) client_env \<Rightarrow> socket_addr \<times> bytes \<Rightarrow> ('n, 'r, 's, 'c) native_transport
    \<Rightarrow> ('n, 'r, 's, 'c) native_transport" where
  "native_deliver E = (\<lambda>(addr, packet) s.
     if addr = cn_server_addr E (nt_netcode s) then native_process E packet s else s)"

definition native_deliver_incoming ::
  "('n, 'r, 's, 'c, 'ne, 'why) client_env \<Rightarrow> ('n, 'r, 's, 'c) native_transport \<Rightarrow> ('n, 'r, 's, 'c) native_transport" where
  "native_deliver_incoming E s =
     (let (ready, s1) = native_drain E Incoming s in fold (native_deliver E) ready s1)"

definition native_receive ::
  "('n, 'r, 's, 'c, 'ne, 'why) client_env \<Rightarrow> ('n, 'r, 's, 'c) native_transport
    \<Rightarrow> (io_error_kind, unit) result \<times> ('n, 'r, 's, 'c) native_transport" where
  "native_receive E s =
     (case cs_recv_from E (nt_socket s) of
        (Err e, so) \<Rightarrow> (Err e, s\<lparr>nt_socket := so\<rparr>)
      | (Ok (datagram, source), so) \<Rightarrow>
          (let s1 = s\<lparr>nt_socket := so\<rparr>
           in if source \<noteq> cn_server_addr E (nt_netcode s1) \<or> length datagram > cn_max_packet_bytes E
              then (Ok (), s1)
              else
                (let (taken, s2) = native_defer E Incoming source datagram s1
                 in (Ok (), if taken then s2 else native_process E datagram s2))))"

section \<open>Update and send\<close>

definition native_fail ::
  "('n, 'r, 's, 'c, 'ne, 'why) client_env \<Rightarrow> 'why \<Rightarrow> ('n, 'r, 's, 'c) native_transport
    \<Rightarrow> (('ne, 'why, 'pe) native_error, unit) result \<times> ('n, 'r, 's, 'c) native_transport" where
  "native_fail E reason s =
     (let s1 = native_reset s
      in (Err (NativeNetcode (Disconnected reason)),
          s1\<lparr>nt_renet := rn_disconnect_due_to_transport E (nt_renet s1)\<rparr>))"

text \<open>A disconnect asked for by Renet, and the status shown to it.\<close>

definition native_disconnect_requested ::
  "('n, 'r, 's, 'c, 'ne, 'why) client_env \<Rightarrow> ('n, 'r, 's, 'c) native_transport \<Rightarrow> ('n, 'r, 's, 'c) native_transport" where
  "native_disconnect_requested E s =
     (if rn_disconnected E (nt_renet s) \<and> \<not> cn_is_disconnected E (nt_netcode s)
      then (let (res, n) = cn_disconnect E (nt_netcode s); s1 = s\<lparr>nt_netcode := n\<rparr>
            in case res of
                 Err _ \<Rightarrow> s1
               | Ok (addr, packet) \<Rightarrow> snd (native_send_packet E packet addr s1))
      else s)"

definition native_show_status ::
  "('n, 'r, 's, 'c, 'ne, 'why) client_env \<Rightarrow> ('n, 'r, 's, 'c) native_transport \<Rightarrow> ('n, 'r, 's, 'c) native_transport" where
  "native_show_status E s =
     (if cn_is_connected E (nt_netcode s) then s\<lparr>nt_renet := rn_set_connected E (nt_renet s)\<rparr>
      else if cn_is_connecting E (nt_netcode s) then s\<lparr>nt_renet := rn_set_connecting E (nt_renet s)\<rparr>
      else s)"

text \<open>The netcode timer, and the handshake or timeout it may report.\<close>

definition native_tick ::
  "('n, 'r, 's, 'c, 'ne, 'why) client_env \<Rightarrow> duration \<Rightarrow> ('n, 'r, 's, 'c) native_transport
    \<Rightarrow> (('ne, 'why, 'pe) native_error, unit) result \<times> ('n, 'r, 's, 'c) native_transport" where
  "native_tick E d s =
     (let (out, n) = cn_update E d (nt_netcode s); s1 = s\<lparr>nt_netcode := n\<rparr>
      in case (case out of None \<Rightarrow> (Ok (), s1) | Some (packet, addr) \<Rightarrow> native_send_packet E packet addr s1) of
           (Err e, s2) \<Rightarrow> (Err (NativeIo e), s2)
         | (Ok _, s2) \<Rightarrow>
             (case cn_disconnect_reason E (nt_netcode s2) of
                Some reason \<Rightarrow> native_fail E reason s2
              | None \<Rightarrow>
                  (Ok (), if cn_is_connected E (nt_netcode s2)
                          then s2\<lparr>nt_renet := rn_set_connected E (nt_renet s2)\<rparr> else s2)))"

definition native_update ::
  "('n, 'r, 's, 'c, 'ne, 'why) client_env \<Rightarrow> duration \<Rightarrow> ('n, 'r, 's, 'c) native_transport
    \<Rightarrow> (('ne, 'why, 'pe) native_error, unit) result \<times> ('n, 'r, 's, 'c) native_transport" where
  "native_update E d s =
     (case cn_disconnect_reason E (nt_netcode s) of
        Some reason \<Rightarrow> native_fail E reason s
      | None \<Rightarrow>
          (let s1 = native_show_status E (native_disconnect_requested E s)
           in case receive_with_budget (nt_max_datagrams s1) (native_receive E) s1 of
                (Err e, s2) \<Rightarrow> (Err (NativeIo e), s2)
              | (Ok _, s2) \<Rightarrow>
                  (case native_flush_outgoing E s2 of
                     (Err e, s3) \<Rightarrow> (Err (NativeIo e), s3)
                   | (Ok _, s3) \<Rightarrow> native_tick E d (native_deliver_incoming E s3))))"

fun native_send_payloads ::
  "('n, 'r, 's, 'c, 'ne, 'why) client_env \<Rightarrow> bytes list \<Rightarrow> ('n, 'r, 's, 'c) native_transport
    \<Rightarrow> (('ne, 'why, 'pe) native_error, unit) result \<times> ('n, 'r, 's, 'c) native_transport" where
  "native_send_payloads E [] s = (Ok (), s)"
| "native_send_payloads E (packet # packets) s =
     (let (generated, n) = cn_generate_payload_packet E packet (nt_netcode s); s1 = s\<lparr>nt_netcode := n\<rparr>
      in case generated of
           Err e \<Rightarrow> (Err (NativeNetcode e), s1)
         | Ok (addr, payload) \<Rightarrow>
             (case native_send_packet E payload addr s1 of
                (Err e, s2) \<Rightarrow> (Err (NativeIo e), s2)
              | (Ok _, s2) \<Rightarrow> native_send_payloads E packets s2))"

definition native_send_packets ::
  "('n, 'r, 's, 'c, 'ne, 'why) client_env \<Rightarrow> ('n, 'r, 's, 'c) native_transport
    \<Rightarrow> (('ne, 'why, 'pe) native_error, unit) result \<times> ('n, 'r, 's, 'c) native_transport" where
  "native_send_packets E s =
     (case cn_disconnect_reason E (nt_netcode s) of
        Some reason \<Rightarrow> (Err (NativeNetcode (Disconnected reason)), native_reset s)
      | None \<Rightarrow>
          (case native_flush_outgoing E s of
             (Err e, s1) \<Rightarrow> (Err (NativeIo e), s1)
           | (Ok _, s1) \<Rightarrow>
               (let (packets, r) = rn_get_packets_to_send E (nt_renet s1)
                in native_send_payloads E packets (s1\<lparr>nt_renet := r\<rparr>))))"

section \<open>Connecting\<close>

text \<open>
  \<open>parse_addr\<close> is \<open>SocketAddr::from_str\<close>, \<open>bind\<close> is \<open>UdpSocket::bind\<close>, \<open>X\<close> reads connect tokens,
  \<open>unix\<close> is the system clock (\<open>None\<close> before the epoch) and \<open>new_client\<close> is \<open>RenetClient::new\<close>.
\<close>

definition connect_from_session ::
  "('n, 'r, 's, 'c, 'ne, 'why) client_env \<Rightarrow> token_codec \<Rightarrow> (string \<Rightarrow> ('pe, socket_addr) result)
    \<Rightarrow> (socket_addr \<Rightarrow> (io_error_kind, 's) result) \<Rightarrow> ('cc \<Rightarrow> 'r) \<Rightarrow> duration option \<Rightarrow> controls \<Rightarrow> 'c
    \<Rightarrow> session_create_response \<Rightarrow> u64 \<Rightarrow> 'cc native_connect_options
    \<Rightarrow> (('ne, 'why, 'pe) native_error, ('n, 'r, 's, 'c) native_transport \<times> client_id) result" where
  "connect_from_session E X parse_addr bind new_client unix cs clock session protocol_id options =
     (case (case no_override_udp_addr options of
              Some override_addr \<Rightarrow> Ok override_addr
            | None \<Rightarrow> (case parse_addr (rp_udp_addr session) of
                         Err source \<Rightarrow> Err (InvalidSessionUdpAddr ''<invalid endpoint>'' source)
                       | Ok a \<Rightarrow> Ok a)) of
        Err e \<Rightarrow> Err e
      | Ok server_addr \<Rightarrow>
      case unix of None \<Rightarrow> Err NativeClock | Some now \<Rightarrow>
      case SessionCreateResponse_authentication X session protocol_id server_addr UdpSession now
             (no_require_secure options) (no_session_request options) of
        Err e \<Rightarrow> Err (NativeSecurity e)
      | Ok authentication \<Rightarrow>
      case bind (no_udp_bind options) of
        Err e \<Rightarrow> Err (NativeIo e)
      | Ok socket \<Rightarrow>
      case native_new_with_config E now authentication socket (no_conditioner options)
             (new_client (no_connection_config options)) cs clock of
        Err e \<Rightarrow> Err e
      | Ok transport \<Rightarrow> Ok (transport, rp_client_id session))"

text \<open>\<open>to_vec\<close> is \<open>serde_json::to_vec\<close>.\<close>

definition session_request_body ::
  "(session_create_request \<Rightarrow> bytes option) \<Rightarrow> 'cc native_connect_options \<Rightarrow> u64
    \<Rightarrow> (('ne, 'why, 'pe) native_error, bytes) result" where
  "session_request_body to_vec options protocol_id =
     (let request = (no_session_request options)
            \<lparr>rq_require_secure := rq_require_secure (no_session_request options) \<or> no_require_secure options\<rparr>
      in case (if SessionCreateRequest_requests_authentication request
               then (if is_some_and (\<lambda>p. p \<noteq> protocol_id) (rq_protocol_id request)
                     then Err (NativeSecurity BindingMismatch)
                     else Ok (request\<lparr>rq_protocol_id := Some protocol_id\<rparr>))
               else Ok request) of
           Err e \<Rightarrow> Err e
         | Ok request' \<Rightarrow>
         case SessionCreateRequest_validate request' of
           Err e \<Rightarrow> Err (NativeBootstrapAuth e)
         | Ok _ \<Rightarrow>
         case to_vec request' of
           None \<Rightarrow> Err NativeBodyTooLarge
         | Some body \<Rightarrow> if length body > MAX_SESSION_REQUEST_BYTES then Err NativeBodyTooLarge else Ok body)"

section \<open>Reading the response\<close>

text \<open>A response, its body as it arrives: chunks, or an error in place of one.\<close>

record http_body =
  hb_status :: nat
  hb_content_length :: "nat option"
  hb_chunks :: "(io_error_kind, bytes) result list"

definition is_success :: "nat \<Rightarrow> bool" where
  "is_success status \<longleftrightarrow> 200 \<le> status \<and> status < 300"

text \<open>\<open>take(n).read_to_end\<close>: once \<open>n\<close> bytes are read the body is not read any further.\<close>

fun read_limited :: "nat \<Rightarrow> (io_error_kind, bytes) result list \<Rightarrow> (io_error_kind, bytes) result" where
  "read_limited n [] = Ok []"
| "read_limited n (chunk # chunks) =
     (if n = 0 then Ok []
      else case chunk of
        Err e \<Rightarrow> Err e
      | Ok bs \<Rightarrow>
          (case read_limited (n - length bs) chunks of
             Err e \<Rightarrow> Err e
           | Ok rest \<Rightarrow> Ok (take n bs @ rest)))"

text \<open>\<open>parse\<close> is \<open>serde_json::from_slice\<close>.\<close>

definition parse_body ::
  "(bytes \<Rightarrow> 'v option) \<Rightarrow> string \<Rightarrow> bytes \<Rightarrow> (('ne, 'why, 'pe) native_error, 'v) result" where
  "parse_body parse url body =
     (case parse body of None \<Rightarrow> Err (NativeHttpDecode url ''invalid bootstrap JSON'') | Some v \<Rightarrow> Ok v)"

definition decode_json_response_blocking ::
  "(bytes \<Rightarrow> 'v option) \<Rightarrow> http_body \<Rightarrow> string \<Rightarrow> (('ne, 'why, 'pe) native_error, 'v) result" where
  "decode_json_response_blocking parse response url =
     (if \<not> is_success (hb_status response)
      then Err (NativeHttpStatus url (hb_status response) ''bootstrap request rejected'')
      else if is_some_and (\<lambda>n. n > MAX_SESSION_RESPONSE_BYTES) (hb_content_length response)
      then Err NativeBodyTooLarge
      else case read_limited (MAX_SESSION_RESPONSE_BYTES + 1) (hb_chunks response) of
        Err e \<Rightarrow> Err (NativeIo e)
      | Ok body \<Rightarrow>
          if length body > MAX_SESSION_RESPONSE_BYTES then Err NativeBodyTooLarge
          else parse_body parse url body)"

fun collect_chunks ::
  "string \<Rightarrow> bytes \<Rightarrow> (io_error_kind, bytes) result list \<Rightarrow> (('ne, 'why, 'pe) native_error, bytes) result" where
  "collect_chunks url body [] = Ok body"
| "collect_chunks url body (chunk # chunks) =
     (case chunk of
        Err _ \<Rightarrow> Err (NativeHttpDecode url ''failed to read bootstrap response'')
      | Ok bs \<Rightarrow>
          if length bs > MAX_SESSION_RESPONSE_BYTES - length body then Err NativeBodyTooLarge
          else collect_chunks url (body @ bs) chunks)"

definition decode_json_response_async ::
  "(bytes \<Rightarrow> 'v option) \<Rightarrow> http_body \<Rightarrow> string \<Rightarrow> (('ne, 'why, 'pe) native_error, 'v) result" where
  "decode_json_response_async parse response url =
     (if \<not> is_success (hb_status response)
      then Err (NativeHttpStatus url (hb_status response) ''bootstrap request rejected'')
      else if is_some_and (\<lambda>n. n > MAX_SESSION_RESPONSE_BYTES) (hb_content_length response)
      then Err NativeBodyTooLarge
      else case collect_chunks url [] (hb_chunks response) of
        Err e \<Rightarrow> Err e
      | Ok body \<Rightarrow> parse_body parse url body)"

text \<open>
  \<open>post\<close> sends the request (\<open>Err\<close> is the text of its failure); \<open>connect\<close> is \<open>connect_from_session\<close>
  with its surroundings.
\<close>

definition session_url :: "string \<Rightarrow> string" where
  "session_url base_http = trim_end_slashes base_http @ ''/api/session/new''"

definition connect_via_session_http_blocking ::
  "(session_create_request \<Rightarrow> bytes option) \<Rightarrow> bool \<Rightarrow> (string \<Rightarrow> bytes \<Rightarrow> (string, http_body) result)
    \<Rightarrow> (bytes \<Rightarrow> session_create_response option)
    \<Rightarrow> (session_create_response \<Rightarrow> u64 \<Rightarrow> 'cc native_connect_options \<Rightarrow> (('ne, 'why, 'pe) native_error, 'v) result)
    \<Rightarrow> string \<Rightarrow> u64 \<Rightarrow> 'cc native_connect_options \<Rightarrow> (('ne, 'why, 'pe) native_error, 'v) result" where
  "connect_via_session_http_blocking to_vec client_built post parse connect base_http protocol_id options =
     (let url = session_url base_http
      in case session_request_body to_vec options protocol_id of
           Err e \<Rightarrow> Err e
         | Ok body \<Rightarrow>
             if \<not> client_built then Err (NativeHttpRequest url ''failed to construct HTTP client'')
             else case post url body of
               Err detail \<Rightarrow> Err (NativeHttpRequest url detail)
             | Ok response \<Rightarrow>
                 (case decode_json_response_blocking parse response url of
                    Err e \<Rightarrow> Err e
                  | Ok session \<Rightarrow> connect session protocol_id options))"

definition connect_via_session_http_async ::
  "(session_create_request \<Rightarrow> bytes option) \<Rightarrow> bool \<Rightarrow> (string \<Rightarrow> bytes \<Rightarrow> (string, http_body) result)
    \<Rightarrow> (bytes \<Rightarrow> session_create_response option)
    \<Rightarrow> (session_create_response \<Rightarrow> u64 \<Rightarrow> 'cc native_connect_options \<Rightarrow> (('ne, 'why, 'pe) native_error, 'v) result)
    \<Rightarrow> string \<Rightarrow> u64 \<Rightarrow> 'cc native_connect_options \<Rightarrow> (('ne, 'why, 'pe) native_error, 'v) result" where
  "connect_via_session_http_async to_vec client_built post parse connect base_http protocol_id options =
     (let url = session_url base_http
      in case session_request_body to_vec options protocol_id of
           Err e \<Rightarrow> Err e
         | Ok body \<Rightarrow>
             if \<not> client_built then Err (NativeHttpRequest url ''failed to construct HTTP client'')
             else case post url body of
               Err detail \<Rightarrow> Err (NativeHttpRequest url detail)
             | Ok response \<Rightarrow>
                 (case decode_json_response_async parse response url of
                    Err e \<Rightarrow> Err e
                  | Ok session \<Rightarrow> connect session protocol_id options))"

section \<open>Invariants of the transport\<close>

text \<open>
  The calls a client makes on its surroundings.  A property of the state that each of them keeps, when
  datagrams go only to addresses in \<open>ok_addr\<close> and netcode names only such addresses, is kept by every
  operation.
\<close>

locale native_invariant =
  fixes E :: "('n, 'r, 's, 'c, 'ne, 'why) client_env"
    and ok_addr :: "socket_addr \<Rightarrow> bool"
    and I :: "('n, 'r, 's, 'c) native_transport \<Rightarrow> bool"
  assumes on_gate: "I s \<Longrightarrow> I (s\<lparr>nt_packets := g, nt_controls := cs\<rparr>)"
    and on_elapsed: "I s \<Longrightarrow> I (s\<lparr>nt_clock := snd (cc_elapsed E (nt_clock s))\<rparr>)"
    and on_renet: "I s \<Longrightarrow> I (s\<lparr>nt_renet := r\<rparr>)"
    and on_recv: "I s \<Longrightarrow> I (s\<lparr>nt_socket := snd (cs_recv_from E (nt_socket s))\<rparr>)"
    and on_process: "I s \<Longrightarrow> I (s\<lparr>nt_netcode := snd (cn_process_packet E p (nt_netcode s))\<rparr>)"
    and on_disconnect: "I s \<Longrightarrow> I (s\<lparr>nt_netcode := snd (cn_disconnect E (nt_netcode s))\<rparr>)"
    and on_update: "I s \<Longrightarrow> I (s\<lparr>nt_netcode := snd (cn_update E d (nt_netcode s))\<rparr>)"
    and on_generate: "I s \<Longrightarrow> I (s\<lparr>nt_netcode := snd (cn_generate_payload_packet E p (nt_netcode s))\<rparr>)"
    and on_send: "I s \<Longrightarrow> ok_addr addr \<Longrightarrow> I (snd (native_send_datagram E payload addr s))"
    and server_ok: "I s \<Longrightarrow> ok_addr (cn_server_addr E (nt_netcode s))"
    and disconnect_ok: "I s \<Longrightarrow> fst (cn_disconnect E (nt_netcode s)) = Ok (addr, p) \<Longrightarrow> ok_addr addr"
    and update_ok: "I s \<Longrightarrow> fst (cn_update E d (nt_netcode s)) = Some (p, addr) \<Longrightarrow> ok_addr addr"
    and generate_ok: "I s \<Longrightarrow> fst (cn_generate_payload_packet E q (nt_netcode s)) = Ok (addr, p) \<Longrightarrow> ok_addr addr"
begin

lemma gate_keeps:
  "I s \<Longrightarrow> I (snd (native_defer E dir addr payload s))" "I s \<Longrightarrow> I (snd (native_drain E dir s))"
  "I s \<Longrightarrow> I (native_reset s)"
  using on_gate[OF on_elapsed] on_gate
  by (auto simp: native_defer_def native_drain_def native_reset_def Let_def case_prod_unfold)

lemma queued_keep: "I s \<Longrightarrow> ok_addr addr \<Longrightarrow> I (snd (native_send_queued E addr queued s))"
proof (induction queued arbitrary: s)
  case (Cons q queued)
  then show ?case
    using on_send[OF Cons.prems(1), of addr "snd q"]
    by (cases q) (auto split: prod.split sum.split)
qed simp

lemma flush_keeps: "I s \<Longrightarrow> I (snd (native_flush_outgoing E s))"
proof -
  assume "I s"
  then have "I (snd (native_drain E Outgoing s))" by (rule gate_keeps)
  then show ?thesis
    using queued_keep server_ok by (auto simp: native_flush_outgoing_def split: prod.split)
qed

lemma packet_keeps:
  assumes "I s" "ok_addr addr"
  shows "I (snd (native_send_packet E payload addr s))"
proof -
  obtain taken s1 where d: "native_defer E Outgoing addr payload s = (taken, s1)" by fastforce
  have "I s1" using gate_keeps(1)[OF assms(1), of Outgoing addr payload] by (simp add: d)
  then have "I (snd (if taken then (Ok (), s1) else native_send_datagram E payload addr s1))"
    using on_send[OF _ assms(2)] by auto
  then show ?thesis
    using gate_keeps(2)[of _ Outgoing] queued_keep[OF _ assms(2)]
    by (fastforce simp: native_send_packet_def d Let_def case_prod_unfold split: sum.split)
qed

lemma process_keeps: "I s \<Longrightarrow> I (native_process E packet s)"
  using on_process[of s packet] on_renet
  by (auto simp: native_process_def Let_def case_prod_unfold split: option.split)

lemma deliver_keeps: "I s \<Longrightarrow> I (native_deliver_incoming E s)"
proof -
  have "I (fold (native_deliver E) ready t)" if "I t" for ready t
    using that by (induction ready arbitrary: t) (auto simp: native_deliver_def process_keeps)
  then show "I s \<Longrightarrow> I (native_deliver_incoming E s)"
    using gate_keeps(2)[of s Incoming] by (simp add: native_deliver_incoming_def Let_def case_prod_unfold)
qed

lemma receive_keeps: "I s \<Longrightarrow> I (snd (native_receive E s))"
  using on_recv[of s] gate_keeps(1) process_keeps
  by (fastforce simp: native_receive_def Let_def case_prod_unfold split: sum.split)

lemma fail_keeps: "I s \<Longrightarrow> I (snd (native_fail E reason s :: (('ne, 'why, 'pe) native_error, unit) result \<times> _))"
  by (simp add: native_fail_def Let_def on_renet gate_keeps)

lemma requested_keeps: "I s \<Longrightarrow> I (native_disconnect_requested E s)"
  using on_disconnect[of s] packet_keeps disconnect_ok[of s]
  by (auto simp: native_disconnect_requested_def Let_def case_prod_unfold split: sum.split)

lemma tick_keeps:
  assumes "I s"
  shows "I (snd (native_tick E d s))"
proof -
  let ?sent = "case fst (cn_update E d (nt_netcode s)) of
      None \<Rightarrow> (Ok (), s\<lparr>nt_netcode := snd (cn_update E d (nt_netcode s))\<rparr>)
    | Some (packet, addr) \<Rightarrow> native_send_packet E packet addr (s\<lparr>nt_netcode := snd (cn_update E d (nt_netcode s))\<rparr>)"
  have "I (snd ?sent)"
    using on_update[OF assms, of d] packet_keeps update_ok[OF assms] by (auto split: option.split)
  then show ?thesis
    using fail_keeps on_renet
    by (auto simp: native_tick_def Let_def case_prod_unfold split: sum.split option.split)
qed

lemma update_keeps:
  assumes "I s"
  shows "I (snd (native_update E d s :: (('ne, 'why, 'pe) native_error, unit) result \<times> _))"
proof -
  define s1 where "s1 = native_show_status E (native_disconnect_requested E s)"
  have "I s1" using on_renet requested_keeps[OF assms] by (simp add: s1_def native_show_status_def)
  then have r: "I (snd (receive_with_budget (nt_max_datagrams s1) (native_receive E) s1))"
    using budget_invariant[of I "native_receive E"] receive_keeps by blast
  then have "I (snd (native_tick E d (native_deliver_incoming E
      (snd (native_flush_outgoing E (snd (receive_with_budget (nt_max_datagrams s1) (native_receive E) s1))))) :: (('ne, 'why, 'pe) native_error, unit) result \<times> _))"
    by (intro tick_keeps deliver_keeps flush_keeps)
  with r show ?thesis
    using fail_keeps[OF assms, where ?'pe = 'pe] flush_keeps[OF r]
    by (simp add: native_update_def Let_def s1_def[symmetric] case_prod_unfold split: option.split sum.split)
qed

lemma payloads_keep: "I s \<Longrightarrow> I (snd (native_send_payloads E packets s))"
proof (induction packets arbitrary: s)
  case (Cons p packets)
  have "I (snd (native_send_packet E payload addr (s\<lparr>nt_netcode := snd (cn_generate_payload_packet E p (nt_netcode s))\<rparr>)))"
    if "fst (cn_generate_payload_packet E p (nt_netcode s)) = Ok (addr, payload)" for addr payload
    using packet_keeps[OF on_generate[OF Cons.prems]] generate_ok[OF Cons.prems that] by blast
  then show ?case
    using Cons.IH on_generate[OF Cons.prems, of p]
    by (fastforce simp: Let_def case_prod_unfold split: sum.split)
qed simp

lemma send_packets_keeps:
  assumes "I s"
  shows "I (snd (native_send_packets E s))"
proof -
  have "I (snd (native_send_payloads E ps ((snd (native_flush_outgoing E s))\<lparr>nt_renet := r\<rparr>)))" for ps r
    by (intro payloads_keep on_renet flush_keeps assms)
  then show ?thesis
    using flush_keeps[OF assms] gate_keeps(3)[OF assms]
    by (auto simp: native_send_packets_def Let_def case_prod_unfold split: option.split sum.split)
qed

end

section \<open>Runs of the client\<close>

datatype native_op =
    NativeUpdate duration
  | NativeSendPackets
  | NativeSetConditioner nat
  | NativeClearConditioner

fun native_step ::
  "('n, 'r, 's, 'c, 'ne, 'why) client_env \<Rightarrow> ('n, 'r, 's, 'c) native_transport \<Rightarrow> native_op
    \<Rightarrow> ('n, 'r, 's, 'c) native_transport" where
  "native_step E s (NativeUpdate d) = snd (native_update E d s :: (('ne, 'why, unit) native_error, unit) result \<times> _)"
| "native_step E s NativeSendPackets = snd (native_send_packets E s :: (('ne, 'why, unit) native_error, unit) result \<times> _)"
| "native_step E s (NativeSetConditioner h) = native_set_conditioner h s"
| "native_step E s NativeClearConditioner = native_clear_conditioner s"

sublocale native_invariant \<subseteq> native_run: step_invariant "native_step E" I
proof
  fix s op assume "I s"
  then show "I (native_step E s op)"
    by (cases op) (auto simp: update_keeps send_packets_keeps native_set_conditioner_def native_clear_conditioner_def
        on_gate split: prod.split)
qed

text \<open>A socket that also records the destination of every datagram handed to it.\<close>

definition log_destinations ::
  "('n, 'r, 's, 'c, 'ne, 'why) client_env \<Rightarrow> ('n, 'r, 's \<times> socket_addr list, 'c, 'ne, 'why) client_env" where
  "log_destinations E =
     \<lparr>cn_max_packet_bytes = cn_max_packet_bytes E, cn_new = cn_new E, cn_server_addr = cn_server_addr E,
      cn_disconnect_reason = cn_disconnect_reason E, cn_is_disconnected = cn_is_disconnected E,
      cn_is_connected = cn_is_connected E, cn_is_connecting = cn_is_connecting E,
      cn_disconnect = cn_disconnect E, cn_process_packet = cn_process_packet E, cn_update = cn_update E,
      cn_generate_payload_packet = cn_generate_payload_packet E, rn_disconnected = rn_disconnected E,
      rn_disconnect_due_to_transport = rn_disconnect_due_to_transport E, rn_set_connected = rn_set_connected E,
      rn_set_connecting = rn_set_connecting E, rn_process_packet = rn_process_packet E,
      rn_get_packets_to_send = rn_get_packets_to_send E,
      cs_set_nonblocking = (\<lambda>(so, sent). case cs_set_nonblocking E so of (r, so') \<Rightarrow> (r, so', sent)),
      cs_recv_from = (\<lambda>(so, sent). case cs_recv_from E so of (r, so') \<Rightarrow> (r, so', sent)),
      cs_send_to = (\<lambda>payload addr (so, sent). case cs_send_to E payload addr so of
                      (r, so') \<Rightarrow> (r, so', sent @ [addr])),
      cc_now = cc_now E, cc_elapsed = cc_elapsed E\<rparr>"

text \<open>Netcode keeps its server address and addresses its packets to it.\<close>

definition addresses_server :: "('n, 'r, 's, 'c, 'ne, 'why) client_env \<Rightarrow> bool" where
  "addresses_server E \<longleftrightarrow>
     (\<forall>n p d.
        cn_server_addr E (snd (cn_process_packet E p n)) = cn_server_addr E n
        \<and> cn_server_addr E (snd (cn_disconnect E n)) = cn_server_addr E n
        \<and> cn_server_addr E (snd (cn_update E d n)) = cn_server_addr E n
        \<and> cn_server_addr E (snd (cn_generate_payload_packet E p n)) = cn_server_addr E n
        \<and> (case fst (cn_disconnect E n) of Err _ \<Rightarrow> True | Ok (addr, _) \<Rightarrow> addr = cn_server_addr E n)
        \<and> (case fst (cn_update E d n) of None \<Rightarrow> True | Some (_, addr) \<Rightarrow> addr = cn_server_addr E n)
        \<and> (case fst (cn_generate_payload_packet E p n) of
              Err _ \<Rightarrow> True | Ok (addr, _) \<Rightarrow> addr = cn_server_addr E n))"

definition only_to ::
  "('n, 'r, 's, 'c, 'ne, 'why) client_env \<Rightarrow> socket_addr \<Rightarrow> ('n, 'r, 's \<times> socket_addr list, 'c) native_transport \<Rightarrow> bool" where
  "only_to E a s \<longleftrightarrow> cn_server_addr E (nt_netcode s) = a \<and> set (snd (nt_socket s)) \<subseteq> {a}"

lemma only_to_send: "only_to E a s \<Longrightarrow> only_to E a (snd (native_send_datagram (log_destinations E) payload a s))"
  by (auto simp: native_send_datagram_def log_destinations_def only_to_def Let_def case_prod_unfold split: sum.split)

lemma addresses_serverD:
  assumes "addresses_server E"
  shows "cn_server_addr E (snd (cn_process_packet E p n)) = cn_server_addr E n"
    "cn_server_addr E (snd (cn_disconnect E n)) = cn_server_addr E n"
    "cn_server_addr E (snd (cn_update E d n)) = cn_server_addr E n"
    "cn_server_addr E (snd (cn_generate_payload_packet E p n)) = cn_server_addr E n"
    "fst (cn_disconnect E n) = Ok (addr, q) \<Longrightarrow> addr = cn_server_addr E n"
    "fst (cn_update E d n) = Some (q, addr) \<Longrightarrow> addr = cn_server_addr E n"
    "fst (cn_generate_payload_packet E p n) = Ok (addr, q) \<Longrightarrow> addr = cn_server_addr E n"
  using assms[unfolded addresses_server_def, rule_format, of p n d] by auto

lemma log_destinations_simps [simp]:
  "cn_server_addr (log_destinations E) = cn_server_addr E" "cn_process_packet (log_destinations E) = cn_process_packet E"
  "cn_disconnect (log_destinations E) = cn_disconnect E" "cn_update (log_destinations E) = cn_update E"
  "cn_generate_payload_packet (log_destinations E) = cn_generate_payload_packet E"
  "snd (snd (cs_recv_from (log_destinations E) so)) = snd so"
  by (simp_all add: log_destinations_def case_prod_unfold)

interpretation native_dest: native_invariant "log_destinations E"
  "\<lambda>addr. addresses_server E \<longrightarrow> addr = a" "\<lambda>s. addresses_server E \<longrightarrow> only_to E a s" for E a
proof (unfold_locales, goal_cases)
  case (9 s addr payload)
  then show ?case using only_to_send by blast
next
  case (11 s addr p)
  then show ?case using addresses_serverD(5) by (auto simp: only_to_def)
next
  case (12 s d p addr)
  then show ?case using addresses_serverD(6) by (auto simp: only_to_def)
next
  case (13 s q addr p)
  then show ?case using addresses_serverD(7) by (auto simp: only_to_def)
qed (auto simp: only_to_def addresses_serverD)

section \<open>Theorems\<close>


text \<open>A client that always has a keep-alive and a payload to send.\<close>

definition sample_client_env :: "(unit, unit, unit, unit, unit, unit) client_env" where
  "sample_client_env =
     \<lparr>cn_max_packet_bytes = 1400, cn_new = (\<lambda>_ _. Ok ()), cn_server_addr = (\<lambda>_. SocketV4 1 2),
      cn_disconnect_reason = (\<lambda>_. None), cn_is_disconnected = (\<lambda>_. False), cn_is_connected = (\<lambda>_. True),
      cn_is_connecting = (\<lambda>_. False), cn_disconnect = (\<lambda>n. (Ok (SocketV4 1 2, [0]), n)),
      cn_process_packet = (\<lambda>_ n. (None, n)), cn_update = (\<lambda>_ n. (Some ([4], SocketV4 1 2), n)),
      cn_generate_payload_packet = (\<lambda>p n. (Ok (SocketV4 1 2, p), n)), rn_disconnected = (\<lambda>_. False),
      rn_disconnect_due_to_transport = id, rn_set_connected = id, rn_set_connecting = id,
      rn_process_packet = (\<lambda>_ r. r), rn_get_packets_to_send = (\<lambda>r. ([[5, 6]], r)),
      cs_set_nonblocking = (\<lambda>s. (Ok (), s)), cs_recv_from = (\<lambda>s. (Err WouldBlock, s)),
      cs_send_to = (\<lambda>p _ s. (Ok (length p), s)), cc_now = (\<lambda>c. (7, c)), cc_elapsed = (\<lambda>c. (7, c))\<rparr>"

definition sample_native :: "(unit, unit, unit \<times> socket_addr list, unit) native_transport" where
  "sample_native =
     \<lparr>nt_renet = (), nt_controls = (\<lambda>_. undefined), nt_clock = (), nt_egress = Egress_new NativeUdpIp,
      nt_socket = ((), []), nt_netcode = (), nt_max_datagrams = 256, nt_packets = None\<rparr>"


section \<open>The two decoders\<close>

lemma read_limited_chunks: "read_limited n (map Ok chunks) = Ok (take n (concat chunks))"
  by (induction chunks arbitrary: n) auto

lemma collect_within:
  "length body + length (concat chunks) \<le> MAX_SESSION_RESPONSE_BYTES
    \<Longrightarrow> collect_chunks url body (map Ok chunks) = Ok (body @ concat chunks)"
  by (induction chunks arbitrary: body) auto

lemma collect_beyond:
  "length body \<le> MAX_SESSION_RESPONSE_BYTES \<Longrightarrow> length body + length (concat chunks) > MAX_SESSION_RESPONSE_BYTES
    \<Longrightarrow> collect_chunks url body (map Ok chunks) = Err NativeBodyTooLarge"
  by (induction chunks arbitrary: body) auto

text \<open>
  C37: the blocking and the asynchronous client read a session response alike.  For every status,
  announced length and split of the body into chunks both decoders return the same, although one
  reads the whole bounded body and the other checks chunk by chunk; in particular both refuse exactly
  the bodies over the limit.
\<close>

theorem decoders_agree:
  "(decode_json_response_blocking parse \<lparr>hb_status = status, hb_content_length = announced, hb_chunks = map Ok chunks\<rparr> url
     :: (('ne, 'why, 'pe) native_error, 'v) result)
   = decode_json_response_async parse \<lparr>hb_status = status, hb_content_length = announced, hb_chunks = map Ok chunks\<rparr> url"
proof (cases "length (concat chunks) \<le> MAX_SESSION_RESPONSE_BYTES")
  case True
  then have "take (MAX_SESSION_RESPONSE_BYTES + 1) (concat chunks) = concat chunks" by simp
  with True show ?thesis
    by (simp add: decode_json_response_blocking_def decode_json_response_async_def read_limited_chunks
        collect_within)
next
  case False
  then have "length (take (MAX_SESSION_RESPONSE_BYTES + 1) (concat chunks)) = MAX_SESSION_RESPONSE_BYTES + 1" by simp
  with False show ?thesis
    by (simp add: decode_json_response_blocking_def decode_json_response_async_def read_limited_chunks
        collect_beyond del: length_take length_concat)
qed

end
