(* ===== verification/Web_Config.thy ===== *)
theory Web_Config
  imports Session_Security "HOL-Library.Sublist"
begin

text \<open>
  The policy of a browser client (\<open>src/src/web_config.rs\<close>): options and their validation, the send
  budget of a data channel, and the bounded inbox between the browser's callback and the next update.
  \<open>renetcode\<close>'s \<open>NETCODE_MAX_PACKET_BYTES\<close> is an argument.
\<close>

section \<open>Options\<close>

record webrtc_ice_server =
  ice_urls :: "string list"
  ice_username :: "string option"
  ice_credential :: "string option"

text \<open>The conditioner handle of \<open>transport\<close> is its number in the store; \<open>'cc\<close> is Renet's configuration.\<close>

record 'cc webrtc_connect_options =
  wo_override_webrtc_addr :: "string option"
  wo_connection_config :: 'cc
  wo_conditioner :: "nat option"
  wo_session_request :: session_create_request
  wo_require_secure :: bool
  wo_ice_servers :: "webrtc_ice_server list"
  wo_max_buffered_amount :: u32
  wo_max_inbox_packets :: nat

definition WebRtcConnectOptions_default :: "'cc \<Rightarrow> 'cc webrtc_connect_options" where
  "WebRtcConnectOptions_default connection_config =
     \<lparr>wo_override_webrtc_addr = None, wo_connection_config = connection_config, wo_conditioner = None,
      wo_session_request = SessionCreateRequest_default, wo_require_secure = False,
      wo_ice_servers =
        [\<lparr>ice_urls = [''stun:stun.l.google.com:19302'', ''stun:stun1.l.google.com:19302''],
          ice_username = None, ice_credential = None\<rparr>],
      wo_max_buffered_amount = 64 * 1024, wo_max_inbox_packets = 256\<rparr>"

datatype webrtc_options_error = WebRtcOptionsError string

text \<open>
  \<open>s.trim().is_empty()\<close>: nothing but characters of the Unicode property White\_Space, in UTF-8.
\<close>

fun trim_is_empty_bytes :: "nat list \<Rightarrow> bool" where
  "trim_is_empty_bytes [] = True"
| "trim_is_empty_bytes (b # bs) =
     (if b \<in> {9, 10, 11, 12, 13, 32} then trim_is_empty_bytes bs
      else case bs of
        b2 # bs2 \<Rightarrow>
          if b = 0xC2 then b2 \<in> {0x85, 0xA0} \<and> trim_is_empty_bytes bs2
          else (case bs2 of
             b3 # bs3 \<Rightarrow>
               ((b, b2, b3) \<in> {(0xE1, 0x9A, 0x80), (0xE2, 0x80, 0xA8), (0xE2, 0x80, 0xA9), (0xE2, 0x80, 0xAF),
                               (0xE2, 0x81, 0x9F), (0xE3, 0x80, 0x80)}
                \<or> b = 0xE2 \<and> b2 = 0x80 \<and> 0x80 \<le> b3 \<and> b3 \<le> 0x8A)
               \<and> trim_is_empty_bytes bs3
           | [] \<Rightarrow> False)
      | [] \<Rightarrow> False)"

definition trim_is_empty :: "string \<Rightarrow> bool" where
  "trim_is_empty s = trim_is_empty_bytes (map of_char s)"

definition WebRtcConnectOptions_validate ::
  "nat \<Rightarrow> 'cc webrtc_connect_options \<Rightarrow> (webrtc_options_error, unit) result" where
  "WebRtcConnectOptions_validate max_packet_bytes options =
     (if wo_max_buffered_amount options < of_nat max_packet_bytes
      then Err (WebRtcOptionsError ''max_buffered_amount must fit a netcode packet'')
      else if wo_max_inbox_packets options = 0
      then Err (WebRtcOptionsError ''max_inbox_packets must be nonzero'')
      else if \<exists>server \<in> set (wo_ice_servers options). ice_urls server = [] \<or> (\<exists>url \<in> set (ice_urls server). trim_is_empty url)
      then Err (WebRtcOptionsError ''ICE servers must contain nonempty URLs'')
      else Ok ())"

section \<open>Send budget\<close>

definition fits_send_budget :: "u32 \<Rightarrow> nat \<Rightarrow> u32 \<Rightarrow> bool" where
  "fits_send_budget buffered packet_len limit \<longleftrightarrow>
     packet_len \<le> unat limit - unat buffered \<and> buffered \<le> limit"

section \<open>Inbox\<close>

record webrtc_client_stats =
  cl_send_backpressure_drops :: u64
  cl_receive_overflow_drops :: u64
  cl_receive_invalid_size_drops :: u64

definition WebRtcClientStats_default :: webrtc_client_stats where
  "WebRtcClientStats_default =
     \<lparr>cl_send_backpressure_drops = 0, cl_receive_overflow_drops = 0, cl_receive_invalid_size_drops = 0\<rparr>"

record packet_inbox =
  ib_packets :: "bytes list"
  ib_capacity :: nat
  ib_stats :: webrtc_client_stats

definition PacketInbox_new :: "nat \<Rightarrow> packet_inbox" where
  "PacketInbox_new capacity = \<lparr>ib_packets = [], ib_capacity = capacity, ib_stats = WebRtcClientStats_default\<rparr>"

definition PacketInbox_accepts_size :: "nat \<Rightarrow> nat \<Rightarrow> packet_inbox \<Rightarrow> bool \<times> packet_inbox" where
  "PacketInbox_accepts_size max_packet_bytes len inbox =
     (if len = 0 \<or> len > max_packet_bytes
      then (False, inbox\<lparr>ib_stats := (ib_stats inbox)\<lparr>cl_receive_invalid_size_drops :=
                     cl_receive_invalid_size_drops (ib_stats inbox) + 1\<rparr>\<rparr>)
      else (True, inbox))"

definition overflow_drop :: "packet_inbox \<Rightarrow> packet_inbox" where
  "overflow_drop inbox =
     inbox\<lparr>ib_stats := (ib_stats inbox)\<lparr>cl_receive_overflow_drops := cl_receive_overflow_drops (ib_stats inbox) + 1\<rparr>\<rparr>"

definition PacketInbox_push :: "bytes \<Rightarrow> packet_inbox \<Rightarrow> packet_inbox" where
  "PacketInbox_push packet inbox =
     (if ib_capacity inbox = 0 then overflow_drop inbox
      else
        (let inbox' = (if length (ib_packets inbox) = ib_capacity inbox
                       then overflow_drop (inbox\<lparr>ib_packets := tl (ib_packets inbox)\<rparr>) else inbox)
         in inbox'\<lparr>ib_packets := ib_packets inbox' @ [packet]\<rparr>))"

definition PacketInbox_pop :: "packet_inbox \<Rightarrow> bytes option \<times> packet_inbox" where
  "PacketInbox_pop inbox =
     (case ib_packets inbox of
        [] \<Rightarrow> (None, inbox)
      | packet # packets \<Rightarrow> (Some packet, inbox\<lparr>ib_packets := packets\<rparr>))"

section \<open>Runs of the inbox\<close>

text \<open>
  The specification of the inbox: a queue that after every arrival keeps the newest \<open>capacity\<close>
  packets and counts the rest as lost.
\<close>

record inbox_spec =
  is_queue :: "bytes list"
  is_lost :: nat

definition newest :: "nat \<Rightarrow> 'a list \<Rightarrow> 'a list" where
  "newest n xs = drop (length xs - n) xs"

definition spec_push :: "nat \<Rightarrow> bytes \<Rightarrow> inbox_spec \<Rightarrow> inbox_spec" where
  "spec_push capacity packet sp =
     (let queue = is_queue sp @ [packet]
      in \<lparr>is_queue = newest capacity queue, is_lost = is_lost sp + (length queue - capacity)\<rparr>)"

definition spec_pop :: "inbox_spec \<Rightarrow> bytes option \<times> inbox_spec" where
  "spec_pop sp = (case is_queue sp of [] \<Rightarrow> (None, sp) | p # ps \<Rightarrow> (Some p, sp\<lparr>is_queue := ps\<rparr>))"

datatype inbox_op = InboxPush bytes | InboxPop

fun inbox_step :: "packet_inbox \<Rightarrow> inbox_op \<Rightarrow> bytes option \<times> packet_inbox" where
  "inbox_step inbox (InboxPush packet) = (None, PacketInbox_push packet inbox)"
| "inbox_step inbox InboxPop = PacketInbox_pop inbox"

fun spec_step :: "nat \<Rightarrow> inbox_spec \<Rightarrow> inbox_op \<Rightarrow> bytes option \<times> inbox_spec" where
  "spec_step capacity sp (InboxPush packet) = (None, spec_push capacity packet sp)"
| "spec_step capacity sp InboxPop = spec_pop sp"

text \<open>The abstraction: a state of the specification an inbox stands for.\<close>

definition inbox_abs :: "packet_inbox \<Rightarrow> inbox_spec \<Rightarrow> bool" where
  "inbox_abs inbox sp \<longleftrightarrow>
     ib_packets inbox = is_queue sp \<and> length (ib_packets inbox) \<le> ib_capacity inbox
     \<and> cl_receive_overflow_drops (ib_stats inbox) = of_nat (is_lost sp)"

lemma newest_simps:
  "length xs \<le> n \<Longrightarrow> newest n xs = xs" "newest 0 xs = []"
  "length xs = n \<Longrightarrow> 0 < n \<Longrightarrow> newest n (xs @ [x]) = tl xs @ [x]"
  by (auto simp: newest_def drop_Suc)

interpretation inbox: simulation inbox_step "spec_step c" "\<lambda>inbox sp. inbox_abs inbox sp \<and> ib_capacity inbox = c" for c
proof (unfold_locales, goal_cases)
  case (1 inbox sp op)
  show ?case
  proof (cases op)
    case (InboxPush packet)
    have "c = 0 \<or> length (ib_packets inbox) = c \<and> 0 < c \<or> length (ib_packets inbox) < c"
      using 1 by (auto simp: inbox_abs_def)
    with 1 show ?thesis
      by (auto simp: InboxPush inbox_abs_def PacketInbox_push_def overflow_drop_def spec_push_def Let_def newest_simps)
  next
    case InboxPop
    with 1 show ?thesis
      by (auto simp: inbox_abs_def PacketInbox_pop_def spec_pop_def split: list.split)
  qed
qed

section \<open>Theorems\<close>

text \<open>
  C35: the inbox refines its specification.  Over every sequence of arrivals and removals a fresh inbox
  hands out what the queue of the newest \<open>capacity\<close> packets hands out, holds what it holds, and its
  overflow counter is the number of packets lost (modulo \<open>2\<^sup>6\<^sup>4\<close>).
\<close>

theorem inbox_refines:
  "case (run_io inbox_step (PacketInbox_new c) ops, run_io (spec_step c) \<lparr>is_queue = [], is_lost = 0\<rparr> ops) of
     ((handed_out, inbox), (expected, sp)) \<Rightarrow> handed_out = expected \<and> inbox_abs inbox sp"
proof -
  have "inbox_abs (PacketInbox_new c) \<lparr>is_queue = [], is_lost = 0\<rparr> \<and> ib_capacity (PacketInbox_new c) = c"
    by (simp add: inbox_abs_def PacketInbox_new_def WebRtcClientStats_default_def)
  from inbox.sim_run[OF this, of ops] show ?thesis
    by (simp add: case_prod_unfold)
qed

text \<open>The send budget is exact: it neither wraps nor saturates in the wrong direction.\<close>

lemma fits_send_budget_exact: "fits_send_budget buffered len limit \<longleftrightarrow> unat buffered + len \<le> unat limit"
  by (auto simp: fits_send_budget_def word_le_nat_alt)

end
