(* ===== verification/Web_Client.thy ===== *)
theory Web_Client
  imports Native_Client Web_Config
begin

text \<open>
  The browser client (\<open>src/src/web_client.rs\<close>): the transport over a WebRTC data channel, the bootstrap
  over HTTP and the negotiation.  The netcode and Renet clients and the clocks are those of
  \<open>client_env\<close>; the data channel (\<open>web_env\<close>) and the peer connection (\<open>browser_env\<close>) are records of
  browser operations, JSON and address parsing are arguments.
\<close>

section \<open>Environment and state\<close>

datatype channel_state = ChConnecting | ChOpen | ChClosing | ChClosed | ChUnknown

datatype ice_state = IceNew | IceGathering | IceComplete | IceUnknown

fun data_channel_state_label :: "channel_state \<Rightarrow> string" where
  "data_channel_state_label ChConnecting = ''connecting''"
| "data_channel_state_label ChOpen = ''open''"
| "data_channel_state_label ChClosing = ''closing''"
| "data_channel_state_label ChClosed = ''closed''"
| "data_channel_state_label ChUnknown = ''unknown''"

fun ice_gather_state_label :: "ice_state \<Rightarrow> string" where
  "ice_gather_state_label IceNew = ''new''"
| "ice_gather_state_label IceGathering = ''gathering''"
| "ice_gather_state_label IceComplete = ''complete''"
| "ice_gather_state_label IceUnknown = ''unknown''"

datatype ('ne, 'why, 'pe) web_error =
    WebBootstrapAuth bootstrap_auth_error
  | WebSecurity session_security_error
  | WebBodyTooLarge
  | WebOptions webrtc_options_error
  | WebHttpRequest string string
  | WebHttpStatus string nat string
  | WebHttpDecode string string
  | InvalidSessionWebRtcAddr string 'pe
  | ClientIdMismatch u64 u64
  | MissingLocalSdp
  | IceGatherTimeout nat
  | DataChannelOpenTimeout nat
  | DataChannelState string
  | Javascript string
  | WebNetcode "('ne, 'why) netcode_error"

record ('n, 'r, 's, 'c, 'ne, 'why) web_env = "('n, 'r, 's, 'c, 'ne, 'why) client_env" +
  dc_ready_state :: "'s \<Rightarrow> channel_state"
  dc_buffered_amount :: "'s \<Rightarrow> u32"
  dc_send :: "bytes \<Rightarrow> 's \<Rightarrow> (string, unit) result \<times> 's"
  dc_set_onmessage :: "bool \<Rightarrow> 's \<Rightarrow> 's"
  dc_close :: "'s \<Rightarrow> 's"
  pc_close :: "'s \<Rightarrow> 's"

record ('n, 'r, 's, 'c) web_transport =
  ww_renet :: 'r
  ww_controls :: controls
  ww_clock :: 'c
  ww_egress :: "unit egress"
  ww_channel :: 's
  ww_netcode :: 'n
  ww_inbox :: packet_inbox
  ww_max_buffered_amount :: u32
  ww_packets :: "unit packet_gate"

section \<open>Conditioning\<close>

definition web_defer ::
  "('n, 'r, 's, 'c, 'ne, 'why) web_env \<Rightarrow> direction \<Rightarrow> bytes \<Rightarrow> ('n, 'r, 's, 'c) web_transport
    \<Rightarrow> bool \<times> ('n, 'r, 's, 'c) web_transport" where
  "web_defer E dir payload s =
     (let (t, c) = cc_elapsed E (ww_clock s);
          (taken, g, cs) = PacketGate_defer dir () payload t (ww_packets s) (ww_controls s)
      in (taken, s\<lparr>ww_clock := c, ww_packets := g, ww_controls := cs\<rparr>))"

definition web_drain ::
  "('n, 'r, 's, 'c, 'ne, 'why) web_env \<Rightarrow> direction \<Rightarrow> ('n, 'r, 's, 'c) web_transport
    \<Rightarrow> bytes list \<times> ('n, 'r, 's, 'c) web_transport" where
  "web_drain E dir s =
     (let (t, c) = cc_elapsed E (ww_clock s);
          (ready, g, cs) = PacketGate_drain dir t (ww_packets s) (ww_controls s)
      in (map snd ready, s\<lparr>ww_clock := c, ww_packets := g, ww_controls := cs\<rparr>))"

text \<open>The loop \<open>while inbox.pop().is_some()\<close> empties the inbox.\<close>

definition clear_pending_packets :: "('n, 'r, 's, 'c) web_transport \<Rightarrow> ('n, 'r, 's, 'c) web_transport" where
  "clear_pending_packets s =
     (let (g, cs) = PacketGate_reset (ww_packets s) (ww_controls s)
      in s\<lparr>ww_packets := g, ww_controls := cs, ww_inbox := (ww_inbox s)\<lparr>ib_packets := []\<rparr>\<rparr>)"

definition web_set_egress_limit ::
  "('n, 'r, 's, 'c, 'ne, 'why) web_env \<Rightarrow> egress_config option \<Rightarrow> ('n, 'r, 's, 'c) web_transport
    \<Rightarrow> (egress_config_error, unit) result \<times> ('n, 'r, 's, 'c) web_transport" where
  "web_set_egress_limit E config s =
     (let (t, c) = cc_now E (ww_clock s); s' = s\<lparr>ww_clock := c\<rparr>
      in case Egress_configure (ww_egress s') config t of
           Err e \<Rightarrow> (Err e, s')
         | Ok e \<Rightarrow> (Ok (), s'\<lparr>ww_egress := e\<rparr>))"

definition web_set_conditioner :: "nat \<Rightarrow> ('n, 'r, 's, 'c) web_transport \<Rightarrow> ('n, 'r, 's, 'c) web_transport" where
  "web_set_conditioner h s =
     (let s1 = clear_pending_packets s; (g, cs) = PacketGate_attach h (ww_packets s1) (ww_controls s1)
      in s1\<lparr>ww_packets := g, ww_controls := cs\<rparr>)"

definition web_clear_conditioner :: "('n, 'r, 's, 'c) web_transport \<Rightarrow> ('n, 'r, 's, 'c) web_transport" where
  "web_clear_conditioner s =
     (let s1 = clear_pending_packets s; (g, cs) = PacketGate_detach (ww_packets s1) (ww_controls s1)
      in s1\<lparr>ww_packets := g, ww_controls := cs\<rparr>)"

section \<open>Sending\<close>

definition count_backpressure :: "packet_inbox \<Rightarrow> packet_inbox" where
  "count_backpressure inbox =
     inbox\<lparr>ib_stats := (ib_stats inbox)\<lparr>cl_send_backpressure_drops := cl_send_backpressure_drops (ib_stats inbox) + 1\<rparr>\<rparr>"

text \<open>Settle an admitted packet with the egress limiter.\<close>

definition web_complete ::
  "('n, 'r, 's, 'c, 'ne, 'why) web_env \<Rightarrow> bytes \<Rightarrow> bool \<Rightarrow> ('n, 'r, 's, 'c) web_transport
    \<Rightarrow> ('n, 'r, 's, 'c) web_transport" where
  "web_complete E payload sent s =
     (let (t, c) = cc_now E (ww_clock s)
      in s\<lparr>ww_clock := c, ww_egress := Egress_complete (ww_egress s) () payload 0 sent t\<rparr>)"

definition send_data_channel_packet_unconditioned ::
  "('n, 'r, 's, 'c, 'ne, 'why) web_env \<Rightarrow> bytes \<Rightarrow> ('n, 'r, 's, 'c) web_transport
    \<Rightarrow> (('ne, 'why, 'pe) web_error, unit) result \<times> ('n, 'r, 's, 'c) web_transport" where
  "send_data_channel_packet_unconditioned E payload s =
     (let (t, c) = cc_now E (ww_clock s);
          (admitted, e) = Egress_admit_at (ww_egress s) () payload 0 t;
          s1 = s\<lparr>ww_clock := c, ww_egress := e\<rparr>
      in if \<not> admitted then (Ok (), s1)
         else case dc_ready_state E (ww_channel s1) of
           ChOpen \<Rightarrow>
             if \<not> fits_send_budget (dc_buffered_amount E (ww_channel s1)) (length payload) (ww_max_buffered_amount s1)
             then (Ok (), web_complete E payload False (s1\<lparr>ww_inbox := count_backpressure (ww_inbox s1)\<rparr>))
             else
               (let (res, d) = dc_send E payload (ww_channel s1);
                    s2 = web_complete E payload (res = Ok ()) (s1\<lparr>ww_channel := d\<rparr>)
                in (case res of Ok _ \<Rightarrow> Ok () | Err v \<Rightarrow> Err (Javascript v), s2))
         | ChConnecting \<Rightarrow> (Ok (), web_complete E payload False s1)
         | state \<Rightarrow> (Err (DataChannelState (data_channel_state_label state)), web_complete E payload False s1))"

fun send_queued ::
  "('n, 'r, 's, 'c, 'ne, 'why) web_env \<Rightarrow> bytes list \<Rightarrow> ('n, 'r, 's, 'c) web_transport
    \<Rightarrow> (('ne, 'why, 'pe) web_error, unit) result \<times> ('n, 'r, 's, 'c) web_transport" where
  "send_queued E [] s = (Ok (), s)"
| "send_queued E (packet # packets) s =
     (case send_data_channel_packet_unconditioned E packet s of
        (Err e, s') \<Rightarrow> (Err e, s')
      | (Ok _, s') \<Rightarrow> send_queued E packets s')"

definition flush_pending_sends ::
  "('n, 'r, 's, 'c, 'ne, 'why) web_env \<Rightarrow> ('n, 'r, 's, 'c) web_transport
    \<Rightarrow> (('ne, 'why, 'pe) web_error, unit) result \<times> ('n, 'r, 's, 'c) web_transport" where
  "flush_pending_sends E s = (let (ready, s1) = web_drain E Outgoing s in send_queued E ready s1)"

definition send_data_channel_packet ::
  "('n, 'r, 's, 'c, 'ne, 'why) web_env \<Rightarrow> bytes \<Rightarrow> ('n, 'r, 's, 'c) web_transport
    \<Rightarrow> (('ne, 'why, 'pe) web_error, unit) result \<times> ('n, 'r, 's, 'c) web_transport" where
  "send_data_channel_packet E payload s =
     (let (taken, s1) = web_defer E Outgoing payload s
      in case (if taken then (Ok (), s1) else send_data_channel_packet_unconditioned E payload s1) of
           (Err e, s2) \<Rightarrow> (Err e, s2)
         | (Ok _, s2) \<Rightarrow> flush_pending_sends E s2)"

section \<open>Receiving\<close>

definition web_process ::
  "('n, 'r, 's, 'c, 'ne, 'why) web_env \<Rightarrow> bytes \<Rightarrow> ('n, 'r, 's, 'c) web_transport \<Rightarrow> ('n, 'r, 's, 'c) web_transport" where
  "web_process E packet s =
     (let (payload, n) = cn_process_packet E packet (ww_netcode s); s1 = s\<lparr>ww_netcode := n\<rparr>
      in case payload of None \<Rightarrow> s1 | Some p \<Rightarrow> s1\<lparr>ww_renet := rn_process_packet E p (ww_renet s1)\<rparr>)"

definition deliver_pending_packets ::
  "('n, 'r, 's, 'c, 'ne, 'why) web_env \<Rightarrow> ('n, 'r, 's, 'c) web_transport
    \<Rightarrow> (('ne, 'why, 'pe) web_error, unit) result \<times> ('n, 'r, 's, 'c) web_transport" where
  "deliver_pending_packets E s =
     (let (ready, s1) = web_drain E Incoming s in flush_pending_sends E (fold (web_process E) ready s1))"

text \<open>The data of a message event: an array buffer or a byte array, or anything else.\<close>

datatype message_data = DataArrayBuffer bytes | DataUint8Array bytes | DataOther

fun message_bytes :: "nat \<Rightarrow> message_data \<Rightarrow> packet_inbox \<Rightarrow> bytes option \<times> packet_inbox" where
  "message_bytes max_packet_bytes (DataArrayBuffer bs) inbox =
     (let (ok, inbox') = PacketInbox_accepts_size max_packet_bytes (length bs) inbox
      in (if ok then Some bs else None, inbox'))"
| "message_bytes max_packet_bytes (DataUint8Array bs) inbox =
     (let (ok, inbox') = PacketInbox_accepts_size max_packet_bytes (length bs) inbox
      in (if ok then Some bs else None, inbox'))"
| "message_bytes max_packet_bytes DataOther inbox = (None, inbox)"

text \<open>The callback of the data channel.\<close>

definition web_on_message ::
  "('n, 'r, 's, 'c, 'ne, 'why) web_env \<Rightarrow> message_data \<Rightarrow> ('n, 'r, 's, 'c) web_transport
    \<Rightarrow> ('n, 'r, 's, 'c) web_transport" where
  "web_on_message E data s =
     (let (accepted, inbox) = message_bytes (cn_max_packet_bytes E) data (ww_inbox s);
          s1 = s\<lparr>ww_inbox := inbox\<rparr>
      in case accepted of
           None \<Rightarrow> s1
         | Some bs \<Rightarrow>
             (let (taken, s2) = web_defer E Incoming bs s1
              in if taken then s2 else s2\<lparr>ww_inbox := PacketInbox_push bs (ww_inbox s2)\<rparr>))"

text \<open>The loop \<open>while let Some(packet) = inbox.pop()\<close>: no packet arrives while the update runs.\<close>

definition web_process_inbox ::
  "('n, 'r, 's, 'c, 'ne, 'why) web_env \<Rightarrow> ('n, 'r, 's, 'c) web_transport \<Rightarrow> ('n, 'r, 's, 'c) web_transport" where
  "web_process_inbox E s =
     fold (web_process E) (ib_packets (ww_inbox s)) (s\<lparr>ww_inbox := (ww_inbox s)\<lparr>ib_packets := []\<rparr>\<rparr>)"

section \<open>Update and send\<close>

definition web_fail ::
  "('n, 'r, 's, 'c, 'ne, 'why) web_env \<Rightarrow> ('ne, 'why, 'pe) web_error \<Rightarrow> ('n, 'r, 's, 'c) web_transport
    \<Rightarrow> (('ne, 'why, 'pe) web_error, unit) result \<times> ('n, 'r, 's, 'c) web_transport" where
  "web_fail E err s =
     (let s1 = clear_pending_packets s
      in (Err err, s1\<lparr>ww_renet := rn_disconnect_due_to_transport E (ww_renet s1)\<rparr>))"

definition web_disconnect_requested ::
  "('n, 'r, 's, 'c, 'ne, 'why) web_env \<Rightarrow> ('n, 'r, 's, 'c) web_transport \<Rightarrow> ('n, 'r, 's, 'c) web_transport" where
  "web_disconnect_requested E s =
     (if rn_disconnected E (ww_renet s) \<and> \<not> cn_is_disconnected E (ww_netcode s)
      then (let (res, n) = cn_disconnect E (ww_netcode s); s1 = s\<lparr>ww_netcode := n\<rparr>
            in case res of
                 Err _ \<Rightarrow> s1
               | Ok (_, packet) \<Rightarrow>
                   clear_pending_packets
                     (snd (send_data_channel_packet E packet s1 :: (('ne, 'why, unit) web_error, unit) result \<times> _)))
      else s)"

definition web_tick ::
  "('n, 'r, 's, 'c, 'ne, 'why) web_env \<Rightarrow> duration \<Rightarrow> ('n, 'r, 's, 'c) web_transport
    \<Rightarrow> (('ne, 'why, 'pe) web_error, unit) result \<times> ('n, 'r, 's, 'c) web_transport" where
  "web_tick E d s =
     (let (out, n) = cn_update E d (ww_netcode s); s1 = s\<lparr>ww_netcode := n\<rparr>
      in case (case out of None \<Rightarrow> (Ok (), s1) | Some (packet, _) \<Rightarrow> send_data_channel_packet E packet s1) of
           (Err e, s2) \<Rightarrow> (Err e, s2)
         | (Ok _, s2) \<Rightarrow>
             (case cn_disconnect_reason E (ww_netcode s2) of
                Some reason \<Rightarrow> web_fail E (WebNetcode (Disconnected reason)) s2
              | None \<Rightarrow>
                  (Ok (), if cn_is_connected E (ww_netcode s2) then s2\<lparr>ww_renet := rn_set_connected E (ww_renet s2)\<rparr>
                          else if cn_is_connecting E (ww_netcode s2) then s2\<lparr>ww_renet := rn_set_connecting E (ww_renet s2)\<rparr>
                          else s2)))"

definition web_update ::
  "('n, 'r, 's, 'c, 'ne, 'why) web_env \<Rightarrow> duration \<Rightarrow> ('n, 'r, 's, 'c) web_transport
    \<Rightarrow> (('ne, 'why, 'pe) web_error, unit) result \<times> ('n, 'r, 's, 'c) web_transport" where
  "web_update E d s =
     (case cn_disconnect_reason E (ww_netcode s) of
        Some reason \<Rightarrow> web_fail E (WebNetcode (Disconnected reason)) s
      | None \<Rightarrow>
          (let s1 = web_disconnect_requested E s; state = dc_ready_state E (ww_channel s1)
           in if state = ChClosing \<or> state = ChClosed
              then web_fail E (DataChannelState (data_channel_state_label state)) s1
              else case deliver_pending_packets E s1 of
                (Err e, s2) \<Rightarrow> (Err e, s2)
              | (Ok _, s2) \<Rightarrow> web_tick E d (web_process_inbox E s2)))"

fun web_send_payloads ::
  "('n, 'r, 's, 'c, 'ne, 'why) web_env \<Rightarrow> bytes list \<Rightarrow> ('n, 'r, 's, 'c) web_transport
    \<Rightarrow> (('ne, 'why, 'pe) web_error, unit) result \<times> ('n, 'r, 's, 'c) web_transport" where
  "web_send_payloads E [] s = (Ok (), s)"
| "web_send_payloads E (packet # packets) s =
     (let (generated, n) = cn_generate_payload_packet E packet (ww_netcode s); s1 = s\<lparr>ww_netcode := n\<rparr>
      in case generated of
           Err e \<Rightarrow> (Err (WebNetcode e), s1)
         | Ok (_, payload) \<Rightarrow>
             (case send_data_channel_packet E payload s1 of
                (Err e, s2) \<Rightarrow> (Err e, s2)
              | (Ok _, s2) \<Rightarrow> web_send_payloads E packets s2))"

definition web_send_packets ::
  "('n, 'r, 's, 'c, 'ne, 'why) web_env \<Rightarrow> ('n, 'r, 's, 'c) web_transport
    \<Rightarrow> (('ne, 'why, 'pe) web_error, unit) result \<times> ('n, 'r, 's, 'c) web_transport" where
  "web_send_packets E s =
     (case cn_disconnect_reason E (ww_netcode s) of
        Some reason \<Rightarrow> (Err (WebNetcode (Disconnected reason)), clear_pending_packets s)
      | None \<Rightarrow>
          (case flush_pending_sends E s of
             (Err e, s1) \<Rightarrow> (Err e, s1)
           | (Ok _, s1) \<Rightarrow>
               (let (packets, r) = rn_get_packets_to_send E (ww_renet s1)
                in web_send_payloads E packets (s1\<lparr>ww_renet := r\<rparr>))))"


text \<open>
  Dropping the transport: its own \<open>drop\<close>, then those of its fields, of which the peer guard closes the
  connection and the gate, once the callback is gone, clears its session.
\<close>

definition web_drop ::
  "('n, 'r, 's, 'c, 'ne, 'why) web_env \<Rightarrow> ('n, 'r, 's, 'c) web_transport \<Rightarrow> controls \<times> 's" where
  "web_drop E s =
     (let s1 = clear_pending_packets s;
          channel = dc_close E (dc_set_onmessage E False (ww_channel s1))
      in (PacketGate_drop (ww_packets s1) (ww_controls s1), pc_close E channel))"

section \<open>Negotiation\<close>

definition ICE_GATHER_TIMEOUT_MS :: nat where "ICE_GATHER_TIMEOUT_MS = 8000"
definition DATA_CHANNEL_OPEN_TIMEOUT_MS :: nat where "DATA_CHANNEL_OPEN_TIMEOUT_MS = 30000"
definition STATE_POLL_INTERVAL_MS :: nat where "STATE_POLL_INTERVAL_MS = 20"

record sdp_http_offer_request =
  ho_sdp :: string
  ho_session_token :: "string option"

record sdp_http_answer_response =
  hr_client_id :: u64
  hr_sdp :: string

text \<open>A response: its status and, unless it has none, the reads of its body until the stream is done.\<close>

record web_response =
  wr_status :: nat
  wr_body :: "(string, (string, bytes) result list) result option"

text \<open>
  The peer connection, timers, the HTTP client and JSON.  \<open>Date.now()\<close> counts milliseconds.  A request
  fails while it is built (\<open>None\<close>) or while it is sent.
\<close>

record ('n, 'r, 's, 'c, 'ne, 'why, 'pe) browser_env = "('n, 'r, 's, 'c, 'ne, 'why) web_env" +
  br_date_now :: "'s \<Rightarrow> nat \<times> 's"
  br_sleep :: "nat \<Rightarrow> 's \<Rightarrow> 's"
  br_new_peer :: "webrtc_ice_server list \<Rightarrow> 's \<Rightarrow> (string, unit) result \<times> 's"
  br_create_data_channel :: "string \<Rightarrow> bool \<Rightarrow> nat \<Rightarrow> 's \<Rightarrow> 's"
  br_create_offer :: "'s \<Rightarrow> (string, string option) result \<times> 's"
  br_set_local_description :: "string \<Rightarrow> 's \<Rightarrow> (string, unit) result \<times> 's"
  br_set_remote_description :: "string \<Rightarrow> 's \<Rightarrow> (string, unit) result \<times> 's"
  br_ice_gathering_state :: "'s \<Rightarrow> ice_state"
  br_local_description :: "'s \<Rightarrow> string option"
  br_post :: "string \<Rightarrow> bytes \<Rightarrow> 's \<Rightarrow> (string option, web_response) result \<times> 's"
  br_parse_addr :: "string \<Rightarrow> ('pe, socket_addr) result"
  br_session_json :: "session_create_request \<Rightarrow> bytes option"
  br_offer_json :: "sdp_http_offer_request \<Rightarrow> bytes option"
  br_parse_session :: "bytes \<Rightarrow> session_create_response option"
  br_parse_answer :: "bytes \<Rightarrow> sdp_http_answer_response option"

text \<open>
  An asynchronous step over the browser's state: \<open>None\<close> when it never completes.  \<open>and_then\<close> is
  \<open>await\<close> followed by the question mark.
\<close>

type_synonym ('e, 's, 'a) async = "'s \<Rightarrow> (('e, 'a) result \<times> 's) option"

definition and_then :: "('e, 's, 'a) async \<Rightarrow> ('a \<Rightarrow> ('e, 's, 'b) async) \<Rightarrow> ('e, 's, 'b) async" where
  "and_then m k w =
     (case m w of
        None \<Rightarrow> None
      | Some (Err e, w1) \<Rightarrow> Some (Err e, w1)
      | Some (Ok a, w1) \<Rightarrow> k a w1)"

definition ready :: "('e, 'a) result \<Rightarrow> ('e, 's, 'a) async" where
  "ready r w = Some (r, w)"

definition js_error ::
  "('s \<Rightarrow> (string, 'a) result \<times> 's) \<Rightarrow> (('ne, 'why, 'pe) web_error, 's, 'a) async" where
  "js_error f w = (case f w of (Err v, w1) \<Rightarrow> Some (Err (Javascript v), w1) | (Ok a, w1) \<Rightarrow> Some (Ok a, w1))"

subsection \<open>HTTP\<close>

fun read_chunks ::
  "nat \<Rightarrow> bytes \<Rightarrow> (string, bytes) result list \<Rightarrow> (('ne, 'why, 'pe) web_error, bytes) result" where
  "read_chunks limit body [] = Ok body"
| "read_chunks limit body (chunk # chunks) =
     (case chunk of
        Err v \<Rightarrow> Err (Javascript v)
      | Ok bs \<Rightarrow>
          if length bs > limit - length body then Err WebBodyTooLarge
          else read_chunks limit (body @ bs) chunks)"

definition decode_json_response ::
  "(bytes \<Rightarrow> 'v option) \<Rightarrow> web_response \<Rightarrow> string \<Rightarrow> nat \<Rightarrow> (('ne, 'why, 'pe) web_error, 'v) result" where
  "decode_json_response parse response url limit =
     (if \<not> is_success (wr_status response)
      then Err (WebHttpStatus url (wr_status response) ''bootstrap request rejected'')
      else case wr_body response of
        None \<Rightarrow> Err (WebHttpDecode url ''missing response body'')
      | Some (Err v) \<Rightarrow> Err (Javascript v)
      | Some (Ok chunks) \<Rightarrow>
          (case read_chunks limit [] chunks of
             Err e \<Rightarrow> Err e
           | Ok body \<Rightarrow>
               (case parse body of
                  None \<Rightarrow> Err (WebHttpDecode url ''invalid bootstrap JSON'')
                | Some v \<Rightarrow> Ok v)))"

definition post_json ::
  "('n, 'r, 's, 'c, 'ne, 'why, 'pe) browser_env \<Rightarrow> string \<Rightarrow> bytes
    \<Rightarrow> (('ne, 'why, 'pe) web_error, 's, web_response) async" where
  "post_json E url body w =
     (case br_post E url body w of
        (Err None, w1) \<Rightarrow> Some (Err WebBodyTooLarge, w1)
      | (Err (Some detail), w1) \<Rightarrow> Some (Err (WebHttpRequest url detail), w1)
      | (Ok response, w1) \<Rightarrow> Some (Ok response, w1))"

definition create_session ::
  "('n, 'r, 's, 'c, 'ne, 'why, 'pe) browser_env \<Rightarrow> string \<Rightarrow> session_create_request
    \<Rightarrow> (('ne, 'why, 'pe) web_error, 's, session_create_response) async" where
  "create_session E base_http request =
     (let url = session_url base_http
      in case br_session_json E request of
           None \<Rightarrow> ready (Err WebBodyTooLarge)
         | Some body \<Rightarrow>
             if length body > MAX_SESSION_REQUEST_BYTES then ready (Err WebBodyTooLarge)
             else and_then (post_json E url body) (\<lambda>response.
               ready (decode_json_response (br_parse_session E) response url MAX_SESSION_RESPONSE_BYTES)))"

definition post_offer ::
  "('n, 'r, 's, 'c, 'ne, 'why, 'pe) browser_env \<Rightarrow> string \<Rightarrow> string \<Rightarrow> string option
    \<Rightarrow> (('ne, 'why, 'pe) web_error, 's, sdp_http_answer_response) async" where
  "post_offer E url sdp session_token =
     (if length sdp > MAX_SDP_BODY_BYTES \<or> is_some_and (\<lambda>t. length t > MAX_SESSION_TOKEN_BYTES) session_token
      then ready (Err WebBodyTooLarge)
      else case br_offer_json E \<lparr>ho_sdp = sdp, ho_session_token = session_token\<rparr> of
        None \<Rightarrow> ready (Err WebBodyTooLarge)
      | Some body \<Rightarrow>
          if length body > MAX_SDP_BODY_BYTES then ready (Err WebBodyTooLarge)
          else and_then (post_json E url body) (\<lambda>response.
            ready (decode_json_response (br_parse_answer E) response url MAX_SDP_BODY_BYTES)))"

subsection \<open>Waiting\<close>

definition elapsed_ms :: "nat \<Rightarrow> nat \<Rightarrow> nat" where
  "elapsed_ms started_at now = min (now - started_at) (2 ^ 32 - 1)"

partial_function (option) poll_ice ::
  "('n, 'r, 's, 'c, 'ne, 'why, 'pe) browser_env \<Rightarrow> nat \<Rightarrow> 's
    \<Rightarrow> ((('ne, 'why, 'pe) web_error, unit) result \<times> 's) option" where
  "poll_ice E started_at w =
     (if br_ice_gathering_state E w = IceComplete then Some (Ok (), w)
      else case br_date_now E w of (now, w1) \<Rightarrow>
        if elapsed_ms started_at now > ICE_GATHER_TIMEOUT_MS
        then Some (Err (IceGatherTimeout ICE_GATHER_TIMEOUT_MS), w1)
        else poll_ice E started_at (br_sleep E STATE_POLL_INTERVAL_MS w1))"

definition await_ice_complete ::
  "('n, 'r, 's, 'c, 'ne, 'why, 'pe) browser_env \<Rightarrow> (('ne, 'why, 'pe) web_error, 's, unit) async" where
  "await_ice_complete E w =
     (if br_ice_gathering_state E w = IceComplete then Some (Ok (), w)
      else case br_date_now E w of (started_at, w1) \<Rightarrow> poll_ice E started_at w1)"

partial_function (option) poll_channel ::
  "('n, 'r, 's, 'c, 'ne, 'why, 'pe) browser_env \<Rightarrow> nat \<Rightarrow> 's
    \<Rightarrow> ((('ne, 'why, 'pe) web_error, unit) result \<times> 's) option" where
  "poll_channel E started_at w =
     (if dc_ready_state E w = ChOpen then Some (Ok (), w)
      else if dc_ready_state E w = ChClosing \<or> dc_ready_state E w = ChClosed
      then Some (Err (DataChannelState (data_channel_state_label (dc_ready_state E w))), w)
      else case br_date_now E w of (now, w1) \<Rightarrow>
        if elapsed_ms started_at now > DATA_CHANNEL_OPEN_TIMEOUT_MS
        then Some (Err (DataChannelOpenTimeout DATA_CHANNEL_OPEN_TIMEOUT_MS), w1)
        else poll_channel E started_at (br_sleep E STATE_POLL_INTERVAL_MS w1))"

definition await_data_channel_open ::
  "('n, 'r, 's, 'c, 'ne, 'why, 'pe) browser_env \<Rightarrow> (('ne, 'why, 'pe) web_error, 's, unit) async" where
  "await_data_channel_open E w =
     (if dc_ready_state E w = ChOpen then Some (Ok (), w)
      else case br_date_now E w of (started_at, w1) \<Rightarrow> poll_channel E started_at w1)"

definition local_sdp_has_candidates :: "('n, 'r, 's, 'c, 'ne, 'why, 'pe) browser_env \<Rightarrow> 's \<Rightarrow> bool" where
  "local_sdp_has_candidates E w = is_some_and (sublist ''a=candidate:'') (br_local_description E w)"

text \<open>Gathering that times out is good enough once the local description has a candidate.\<close>

definition gather_candidates ::
  "('n, 'r, 's, 'c, 'ne, 'why, 'pe) browser_env \<Rightarrow> (('ne, 'why, 'pe) web_error, 's, unit) async" where
  "gather_candidates E w =
     (case await_ice_complete E w of
        Some (Err (IceGatherTimeout timeout_ms), w1) \<Rightarrow>
          if local_sdp_has_candidates E w1 then Some (Ok (), w1)
          else Some (Err (IceGatherTimeout timeout_ms), w1)
      | r \<Rightarrow> r)"

subsection \<open>Connecting\<close>

definition browser_now_duration ::
  "('n, 'r, 's, 'c, 'ne, 'why, 'pe) browser_env \<Rightarrow> ('e, 's, duration) async" where
  "browser_now_duration E w = (case br_date_now E w of (ms, w1) \<Rightarrow> Some (Ok (from_millis ms), w1))"

definition present_sdp :: "string option \<Rightarrow> (('ne, 'why, 'pe) web_error, string) result" where
  "present_sdp sdp =
     (case sdp of None \<Rightarrow> Err MissingLocalSdp | Some t \<Rightarrow> if trim_is_empty t then Err MissingLocalSdp else Ok t)"

definition local_offer ::
  "('n, 'r, 's, 'c, 'ne, 'why, 'pe) browser_env \<Rightarrow> (('ne, 'why, 'pe) web_error, 's, string) async" where
  "local_offer E =
     and_then (js_error (br_create_offer E)) (\<lambda>offer.
     and_then (ready (present_sdp offer)) (\<lambda>offer_sdp.
     and_then (js_error (br_set_local_description E offer_sdp)) (\<lambda>_.
     and_then (gather_candidates E) (\<lambda>_ w. ready (present_sdp (br_local_description E w)) w))))"

definition exchange_sdp ::
  "('n, 'r, 's, 'c, 'ne, 'why, 'pe) browser_env \<Rightarrow> session_create_response
    \<Rightarrow> (('ne, 'why, 'pe) web_error, 's, sdp_http_answer_response) async" where
  "exchange_sdp E session =
     and_then (local_offer E) (\<lambda>local_sdp.
     and_then (post_offer E (rp_webrtc_offer_url session) local_sdp (rp_session_token session)) (\<lambda>answer.
     if hr_client_id answer \<noteq> rp_client_id session
     then ready (Err (ClientIdMismatch (rp_client_id session) (hr_client_id answer)))
     else
     and_then (js_error (br_set_remote_description E (hr_sdp answer))) (\<lambda>_.
     and_then (await_data_channel_open E) (\<lambda>_. ready (Ok answer)))))"

definition session_authentication ::
  "('n, 'r, 's, 'c, 'ne, 'why, 'pe) browser_env \<Rightarrow> token_codec \<Rightarrow> session_create_response \<Rightarrow> u64 \<Rightarrow> socket_addr
    \<Rightarrow> 'cc webrtc_connect_options \<Rightarrow> (('ne, 'why, 'pe) web_error, 's, client_authentication) async" where
  "session_authentication E X session protocol_id server_addr options =
     and_then (browser_now_duration E) (\<lambda>now.
       ready (case SessionCreateResponse_authentication X session protocol_id server_addr WebRtcSession now
                     (wo_require_secure options) (wo_session_request options) of
                Err e \<Rightarrow> Err (WebSecurity e)
              | Ok authentication \<Rightarrow> Ok authentication))"

definition new_netcode_client ::
  "('n, 'r, 's, 'c, 'ne, 'why, 'pe) browser_env \<Rightarrow> client_authentication
    \<Rightarrow> (('ne, 'why, 'pe) web_error, 's, 'n) async" where
  "new_netcode_client E authentication =
     and_then (browser_now_duration E) (\<lambda>now.
       ready (case cn_new E now authentication of Err e \<Rightarrow> Err (WebNetcode e) | Ok n \<Rightarrow> Ok n))"

definition assemble_transport ::
  "('n, 'r, 's, 'c, 'ne, 'why, 'pe) browser_env \<Rightarrow> ('cc \<Rightarrow> 'r) \<Rightarrow> controls \<Rightarrow> 'c \<Rightarrow> 'cc webrtc_connect_options
    \<Rightarrow> 'n \<Rightarrow> 's \<Rightarrow> ('n, 'r, 's, 'c) web_transport" where
  "assemble_transport E new_client cs clock options netcode w =
     (let (g, cs1) = (case wo_conditioner options of
                        None \<Rightarrow> (PacketGate_default, cs)
                      | Some h \<Rightarrow> PacketGate_attach h PacketGate_default cs)
      in \<lparr>ww_renet = new_client (wo_connection_config options), ww_controls = cs1, ww_clock = clock,
          ww_egress = Egress_new EncryptedLogical, ww_channel = dc_set_onmessage E True w, ww_netcode = netcode,
          ww_inbox = PacketInbox_new (wo_max_inbox_packets options),
          ww_max_buffered_amount = wo_max_buffered_amount options, ww_packets = g\<rparr>)"

text \<open>
  What happens while the peer guard is alive and not yet owned by a transport.  The gate is attached
  before the token is checked again; a failure there drops it with everything it holds, so the store
  of handles is handed back only with a transport.
\<close>

definition build_transport ::
  "('n, 'r, 's, 'c, 'ne, 'why, 'pe) browser_env \<Rightarrow> token_codec \<Rightarrow> ('cc \<Rightarrow> 'r) \<Rightarrow> controls \<Rightarrow> 'c
    \<Rightarrow> session_create_response \<Rightarrow> u64 \<Rightarrow> socket_addr \<Rightarrow> 'cc webrtc_connect_options
    \<Rightarrow> (('ne, 'why, 'pe) web_error, 's, ('n, 'r, 's, 'c) web_transport \<times> u64) async" where
  "build_transport E X new_client cs clock session protocol_id server_addr options w =
     and_then (exchange_sdp E session) (\<lambda>answer.
     and_then (session_authentication E X session protocol_id server_addr options) (\<lambda>authentication.
     and_then (new_netcode_client E authentication) (\<lambda>netcode w1.
       let transport = assemble_transport E new_client cs clock options netcode w1
       in Some (Ok (transport, hr_client_id answer), ww_channel transport))))
       (br_create_data_channel E ''renet'' False 0 w)"

text \<open>Dropping the guard on an early return closes the peer.\<close>

definition with_peer_guard ::
  "('n, 'r, 's, 'c, 'ne, 'why, 'pe) browser_env \<Rightarrow> webrtc_ice_server list \<Rightarrow> (('ne, 'why, 'pe) web_error, 's, 'a) async
    \<Rightarrow> (('ne, 'why, 'pe) web_error, 's, 'a) async" where
  "with_peer_guard E ice_servers body =
     and_then (js_error (br_new_peer E ice_servers)) (\<lambda>_ w.
       case body w of
         Some (Err e, w1) \<Rightarrow> Some (Err e, pc_close E w1)
       | r \<Rightarrow> r)"

definition selected_webrtc_addr :: "'cc webrtc_connect_options \<Rightarrow> session_create_response \<Rightarrow> string" where
  "selected_webrtc_addr options session =
     (case wo_override_webrtc_addr options of
        Some addr \<Rightarrow> if trim_is_empty addr then rp_webrtc_addr session else addr
      | None \<Rightarrow> rp_webrtc_addr session)"

definition connect_webrtc_from_session ::
  "('n, 'r, 's, 'c, 'ne, 'why, 'pe) browser_env \<Rightarrow> token_codec \<Rightarrow> ('cc \<Rightarrow> 'r) \<Rightarrow> controls \<Rightarrow> 'c
    \<Rightarrow> session_create_response \<Rightarrow> u64 \<Rightarrow> 'cc webrtc_connect_options
    \<Rightarrow> (('ne, 'why, 'pe) web_error, 's, ('n, 'r, 's, 'c) web_transport \<times> u64) async" where
  "connect_webrtc_from_session E X new_client cs clock session protocol_id options =
     (case WebRtcConnectOptions_validate (cn_max_packet_bytes E) options of
        Err e \<Rightarrow> ready (Err (WebOptions e))
      | Ok _ \<Rightarrow>
      case br_parse_addr E (selected_webrtc_addr options session) of
        Err source \<Rightarrow> ready (Err (InvalidSessionWebRtcAddr ''<invalid endpoint>'' source))
      | Ok server_addr \<Rightarrow>
        and_then (session_authentication E X session protocol_id server_addr options) (\<lambda>_.
          with_peer_guard E (wo_ice_servers options)
            (build_transport E X new_client cs clock session protocol_id server_addr options)))"

definition connect_via_sdp_http_with_options ::
  "('n, 'r, 's, 'c, 'ne, 'why, 'pe) browser_env \<Rightarrow> token_codec \<Rightarrow> ('cc \<Rightarrow> 'r) \<Rightarrow> controls \<Rightarrow> 'c
    \<Rightarrow> string \<Rightarrow> u64 \<Rightarrow> 'cc webrtc_connect_options
    \<Rightarrow> (('ne, 'why, 'pe) web_error, 's, ('n, 'r, 's, 'c) web_transport \<times> u64) async" where
  "connect_via_sdp_http_with_options E X new_client cs clock base_http protocol_id options =
     (case WebRtcConnectOptions_validate (cn_max_packet_bytes E) options of
        Err e \<Rightarrow> ready (Err (WebOptions e))
      | Ok _ \<Rightarrow>
      let request = (wo_session_request options)
            \<lparr>rq_require_secure := rq_require_secure (wo_session_request options) \<or> wo_require_secure options\<rparr>;
          bound = SessionCreateRequest_requests_authentication request;
          request' = (if bound then request\<lparr>rq_protocol_id := Some protocol_id\<rparr> else request)
      in if bound \<and> is_some_and (\<lambda>p. p \<noteq> protocol_id) (rq_protocol_id request)
         then ready (Err (WebSecurity BindingMismatch))
         else case SessionCreateRequest_validate request' of
           Err e \<Rightarrow> ready (Err (WebBootstrapAuth e))
         | Ok _ \<Rightarrow>
             and_then (create_session E base_http request') (\<lambda>session.
               connect_webrtc_from_session E X new_client cs clock session protocol_id options))"

definition connect_via_sdp_http_with_overrides ::
  "('n, 'r, 's, 'c, 'ne, 'why, 'pe) browser_env \<Rightarrow> token_codec \<Rightarrow> ('cc \<Rightarrow> 'r) \<Rightarrow> 'cc \<Rightarrow> controls \<Rightarrow> 'c
    \<Rightarrow> string \<Rightarrow> u64 \<Rightarrow> string option
    \<Rightarrow> (('ne, 'why, 'pe) web_error, 's, ('n, 'r, 's, 'c) web_transport \<times> u64) async" where
  "connect_via_sdp_http_with_overrides E X new_client connection_config cs clock base_http protocol_id webrtc_addr_override =
     connect_via_sdp_http_with_options E X new_client cs clock base_http protocol_id
       ((WebRtcConnectOptions_default connection_config)\<lparr>wo_override_webrtc_addr := webrtc_addr_override\<rparr>)"

definition connect_via_sdp_http ::
  "('n, 'r, 's, 'c, 'ne, 'why, 'pe) browser_env \<Rightarrow> token_codec \<Rightarrow> ('cc \<Rightarrow> 'r) \<Rightarrow> 'cc \<Rightarrow> controls \<Rightarrow> 'c
    \<Rightarrow> string \<Rightarrow> u64 \<Rightarrow> (('ne, 'why, 'pe) web_error, 's, ('n, 'r, 's, 'c) web_transport \<times> u64) async" where
  "connect_via_sdp_http E X new_client connection_config cs clock base_http protocol_id =
     connect_via_sdp_http_with_overrides E X new_client connection_config cs clock base_http protocol_id None"


section \<open>Waiting comes to an end\<close>

text \<open>
  \<open>t\<close> is the time the browser's clock shows: it is not set back, and a timer of \<open>n\<close> milliseconds fires
  no earlier.
\<close>

definition clock_runs :: "('n, 'r, 's, 'c, 'ne, 'why, 'pe) browser_env \<Rightarrow> ('s \<Rightarrow> nat) \<Rightarrow> bool" where
  "clock_runs E t \<longleftrightarrow>
     (\<forall>w n. fst (br_date_now E w) = t w \<and> t w \<le> t (snd (br_date_now E w)) \<and> t w + n \<le> t (br_sleep E n w))"

lemma loop_returns_measure:
  fixes m :: "'a \<Rightarrow> nat"
  assumes "\<And>w. (\<exists>r. f w = Some r) \<or> (\<exists>w'. f w = f w' \<and> m w' < m w)"
  shows "\<exists>r. f w = Some r"
proof (induction w rule: measure_induct_rule[of m])
  case (less w)
  then show ?case using assms[of w] by metis
qed

lemma poll_later:
  assumes "clock_runs E t" "\<not> limit < elapsed_ms started (fst (br_date_now E w))" "limit < 2 ^ 32 - 1"
  shows "started + limit + 1 - t (br_sleep E STATE_POLL_INTERVAL_MS (snd (br_date_now E w))) < started + limit + 1 - t w"
proof -
  have "fst (br_date_now E w) = t w" "t w \<le> t (snd (br_date_now E w))"
    "t (snd (br_date_now E w)) + STATE_POLL_INTERVAL_MS \<le> t (br_sleep E STATE_POLL_INTERVAL_MS (snd (br_date_now E w)))"
    using assms(1) by (auto simp: clock_runs_def)
  then show ?thesis using assms(2,3) by (auto simp: elapsed_ms_def STATE_POLL_INTERVAL_MS_def)
qed

lemma polls_return:
  assumes "clock_runs E t"
  shows "\<exists>r. poll_ice E started w = Some r" "\<exists>r. poll_channel E started w = Some r"
proof -
  let ?next = "\<lambda>w. br_sleep E STATE_POLL_INTERVAL_MS (snd (br_date_now E w))"
  have "(\<exists>r. poll_ice E started w = Some r)
      \<or> (\<exists>w'. poll_ice E started w = poll_ice E started w' \<and> started + 8000 + 1 - t w' < started + 8000 + 1 - t w)" for w
    using poll_later[OF assms, of 8000 started w] poll_ice.simps[of E started w]
    by (cases "ICE_GATHER_TIMEOUT_MS < elapsed_ms started (fst (br_date_now E w))")
      (auto simp: case_prod_unfold ICE_GATHER_TIMEOUT_MS_def)
  then show "\<exists>r. poll_ice E started w = Some r" by (rule loop_returns_measure)
  have "(\<exists>r. poll_channel E started w = Some r)
      \<or> (\<exists>w'. poll_channel E started w = poll_channel E started w' \<and> started + 30000 + 1 - t w' < started + 30000 + 1 - t w)" for w
    using poll_later[OF assms, of 30000 started w] poll_channel.simps[of E started w]
    by (cases "DATA_CHANNEL_OPEN_TIMEOUT_MS < elapsed_ms started (fst (br_date_now E w))")
      (auto simp: case_prod_unfold DATA_CHANNEL_OPEN_TIMEOUT_MS_def)
  then show "\<exists>r. poll_channel E started w = Some r" by (rule loop_returns_measure)
qed

text \<open>A step that completes from every state.\<close>

definition completes :: "('e, 's, 'a) async \<Rightarrow> bool" where
  "completes f \<longleftrightarrow> (\<forall>w. f w \<noteq> None)"

lemma completes_intros [intro]:
  "completes m \<Longrightarrow> (\<And>a. completes (k a)) \<Longrightarrow> completes (and_then m k)"
  "completes (ready r)" "completes (js_error f)" "completes (post_json E url body)" "completes (browser_now_duration E)"
  by (auto simp: completes_def and_then_def ready_def js_error_def post_json_def browser_now_duration_def
      split: option.split prod.split sum.split)

lemma some_not_None: "\<exists>r. x = Some r \<Longrightarrow> x \<noteq> None"
  by auto

lemma waits_complete:
  assumes "clock_runs E t"
  shows "completes (gather_candidates E)" "completes (await_data_channel_open E)"
  by (auto simp: polls_return[OF assms, THEN some_not_None] completes_def gather_candidates_def await_ice_complete_def await_data_channel_open_def
      simp del: not_None_eq split: option.split prod.split sum.split web_error.split)

lemma exchange_completes:
  assumes "clock_runs E t"
  shows "completes (exchange_sdp E session)"
proof -
  have "completes (\<lambda>w. ready (present_sdp (br_local_description E w)) w)" by (simp add: completes_def ready_def)
  then have "completes (local_offer E)"
    unfolding local_offer_def using waits_complete[OF assms] by blast
  moreover have "completes (post_offer E url sdp token)" for url sdp token
    by (auto simp: post_offer_def split: option.split)
  ultimately show ?thesis
    unfolding exchange_sdp_def using waits_complete[OF assms] by (intro completes_intros) auto
qed

lemma build_completes:
  assumes "clock_runs E t"
  shows "completes (build_transport E X new_client cs clock session protocol_id server_addr options)"
proof -
  have "completes (session_authentication E X session protocol_id server_addr options)" "\<And>a. completes (new_netcode_client E a)"
    by (auto simp: session_authentication_def new_netcode_client_def)
  moreover have "completes (\<lambda>w. let tr = assemble_transport E new_client cs clock options netcode w
      in Some (Ok (tr, cid), ww_channel tr))" for netcode cid
    by (simp add: completes_def Let_def)
  ultimately have "completes (and_then (exchange_sdp E session) (\<lambda>answer.
     and_then (session_authentication E X session protocol_id server_addr options) (\<lambda>authentication.
     and_then (new_netcode_client E authentication) (\<lambda>netcode w1.
       let transport = assemble_transport E new_client cs clock options netcode w1
       in Some (Ok (transport, hr_client_id answer), ww_channel transport)))))"
    using exchange_completes[OF assms] by (intro completes_intros) auto
  then show ?thesis by (simp add: completes_def build_transport_def)
qed

lemma connect_completes:
  assumes "clock_runs E t"
  shows "completes (connect_webrtc_from_session E X new_client cs clock session protocol_id options)"
proof -
  have "completes (with_peer_guard E servers (build_transport E X new_client cs clock session protocol_id a options))" for servers a
    using build_completes[OF assms, of X new_client cs clock session protocol_id a options]
    by (auto simp: completes_def with_peer_guard_def and_then_def js_error_def
        simp del: not_None_eq split: option.split prod.split sum.split)
  moreover have "completes (session_authentication E X session protocol_id a options)" for a
    by (auto simp: session_authentication_def)
  ultimately show ?thesis
    by (auto simp: connect_webrtc_from_session_def split: sum.split)
qed

section \<open>What a negotiation leaves behind\<close>

text \<open>
  \<open>peers\<close> counts the open peer connections of the page: a constructor that succeeds opens one, closing
  closes one, and nothing else opens or closes any.
\<close>

definition keeps :: "('s \<Rightarrow> 'm) \<Rightarrow> ('e, 's, 'a) async \<Rightarrow> bool" where
  "keeps peers f \<longleftrightarrow> (\<forall>w. case f w of None \<Rightarrow> True | Some (_, w1) \<Rightarrow> peers w1 = peers w)"

definition counts_peers :: "('n, 'r, 's, 'c, 'ne, 'why, 'pe) browser_env \<Rightarrow> ('s \<Rightarrow> nat) \<Rightarrow> bool" where
  "counts_peers E peers \<longleftrightarrow>
     (\<forall>w n b t servers body.
        peers (snd (br_new_peer E servers w))
          = (case fst (br_new_peer E servers w) of Err _ \<Rightarrow> peers w | Ok _ \<Rightarrow> Suc (peers w))
        \<and> peers (pc_close E w) = peers w - 1
        \<and> peers (snd (br_date_now E w)) = peers w \<and> peers (br_sleep E n w) = peers w
        \<and> peers (br_create_data_channel E t b n w) = peers w \<and> peers (snd (br_create_offer E w)) = peers w
        \<and> peers (snd (br_set_local_description E t w)) = peers w
        \<and> peers (snd (br_set_remote_description E t w)) = peers w
        \<and> peers (snd (br_post E t body w)) = peers w \<and> peers (dc_set_onmessage E b w) = peers w)"

lemma counts_peersD:
  assumes "counts_peers E peers"
  shows "peers (snd (br_new_peer E servers w))
      = (case fst (br_new_peer E servers w) of Err _ \<Rightarrow> peers w | Ok _ \<Rightarrow> Suc (peers w))"
    "peers (pc_close E w) = peers w - 1" "peers (snd (br_date_now E w)) = peers w" "peers (br_sleep E n w) = peers w"
    "peers (br_create_data_channel E t b n w) = peers w" "peers (snd (br_create_offer E w)) = peers w"
    "peers (snd (br_set_local_description E t w)) = peers w" "peers (snd (br_set_remote_description E t w)) = peers w"
    "peers (snd (br_post E t body w)) = peers w" "peers (dc_set_onmessage E b w) = peers w"
  using assms[unfolded counts_peers_def, rule_format, of servers w n t b body] by auto

lemma keepsD: "keeps peers f \<Longrightarrow> f w = Some (r, w1) \<Longrightarrow> peers w1 = peers w"
  by (auto simp: keeps_def dest: spec[of _ w])

lemma keeps_and_then [intro]:
  assumes "keeps peers m" "\<And>a. keeps peers (k a)"
  shows "keeps peers (and_then m k)"
  using keepsD[OF assms(1)] keepsD[OF assms(2)]
  by (auto simp: keeps_def and_then_def split: option.split prod.split sum.split)

lemma keeps_ready [intro]: "keeps peers (ready r)" "keeps peers (\<lambda>w. ready (f w) w)"
  by (simp_all add: keeps_def ready_def)

lemma keeps_js [intro]: "(\<And>w. peers (snd (f w)) = peers w) \<Longrightarrow> keeps peers (js_error f)"
  by (simp add: keeps_def js_error_def case_prod_unfold split: sum.split)

lemma keeps_browser:
  assumes "counts_peers E peers"
  shows "keeps peers (post_json E url body)" "keeps peers (browser_now_duration E)"
  using counts_peersD(3,9)[OF assms]
  by (simp_all add: keeps_def post_json_def browser_now_duration_def case_prod_unfold split: sum.split option.split)

lemma polls_keep:
  assumes "counts_peers E peers"
  shows "poll_ice E started w = Some r \<Longrightarrow> peers (snd r) = peers w"
    "poll_channel E started w = Some r \<Longrightarrow> peers (snd r) = peers w"
proof -
  show "poll_ice E started w = Some r \<Longrightarrow> peers (snd r) = peers w"
    by (rule poll_ice.raw_induct[of "\<lambda>E' s w r. E' = E \<longrightarrow> peers (snd r) = peers w", rule_format, OF _ _ refl])
      (auto simp: counts_peersD[OF assms] case_prod_unfold split: if_splits)
  show "poll_channel E started w = Some r \<Longrightarrow> peers (snd r) = peers w"
    by (rule poll_channel.raw_induct[of "\<lambda>E' s w r. E' = E \<longrightarrow> peers (snd r) = peers w", rule_format, OF _ _ refl])
      (auto simp: counts_peersD[OF assms] case_prod_unfold split: if_splits)
qed

lemma waits_keep:
  assumes "counts_peers E peers"
  shows "keeps peers (await_data_channel_open E)" "keeps peers (gather_candidates E)"
proof -
  have "keeps peers (await_ice_complete E)"
    using polls_keep(1)[OF assms] counts_peersD(3)[OF assms]
    by (fastforce simp: keeps_def await_ice_complete_def case_prod_unfold split: option.split)
  from keepsD[OF this] show "keeps peers (gather_candidates E)"
    by (auto simp: keeps_def gather_candidates_def split: option.split sum.split web_error.split)
  show "keeps peers (await_data_channel_open E)"
    using polls_keep(2)[OF assms] counts_peersD(3)[OF assms]
    by (fastforce simp: keeps_def await_data_channel_open_def case_prod_unfold split: option.split)
qed

lemma exchange_keeps:
  assumes "counts_peers E peers"
  shows "keeps peers (exchange_sdp E session)" "keeps peers (session_authentication E X session protocol_id a options)"
    "keeps peers (new_netcode_client E authentication)"
proof -
  have offer: "keeps peers (local_offer E)"
    unfolding local_offer_def using waits_keep(2)[OF assms]
    by (intro keeps_and_then keeps_js keeps_ready) (auto simp: counts_peersD[OF assms])
  have "keeps peers (post_offer E url sdp token)" for url sdp token
    using keeps_browser(1)[OF assms] by (auto simp: post_offer_def split: option.split)
  with offer show "keeps peers (exchange_sdp E session)"
    unfolding exchange_sdp_def using waits_keep(1)[OF assms]
    by (auto intro!: keeps_and_then keeps_js keeps_ready simp: counts_peersD[OF assms])
  show "keeps peers (session_authentication E X session protocol_id a options)" "keeps peers (new_netcode_client E authentication)"
    using keeps_browser(2)[OF assms] by (auto simp: session_authentication_def new_netcode_client_def)
qed

lemma and_then_Ok:
  "and_then m k w = Some (Ok b, w2) \<longleftrightarrow> (\<exists>a w1. m w = Some (Ok a, w1) \<and> k a w1 = Some (Ok b, w2))"
  by (auto simp: and_then_def split: option.split prod.split sum.split)

lemma exchange_answers:
  "exchange_sdp E session w = Some (Ok answer, w1) \<Longrightarrow> hr_client_id answer = rp_client_id session"
  by (auto simp: exchange_sdp_def and_then_Ok ready_def split: if_splits)

lemma map_err_Ok: "(case x of Err e \<Rightarrow> Err (f e) | Ok a \<Rightarrow> Ok a) = Ok b \<longleftrightarrow> x = Ok b"
  by (cases x) auto

lemma authentication_Ok:
  "session_authentication E X session protocol_id a options w = Some (Ok authentication, w1)
    \<Longrightarrow> \<exists>now. SessionCreateResponse_authentication X session protocol_id a WebRtcSession now
          (wo_require_secure options) (wo_session_request options) = Ok authentication"
  "new_netcode_client E authentication w = Some (Ok netcode, w1) \<Longrightarrow> \<exists>now. cn_new E now authentication = Ok netcode"
  by (auto simp: session_authentication_def new_netcode_client_def and_then_Ok ready_def map_err_Ok)

text \<open>The peers after a step that failed or succeeded, and what a success established.\<close>

definition outcome ::
  "('s \<Rightarrow> nat) \<Rightarrow> nat \<Rightarrow> nat \<Rightarrow> ('a \<Rightarrow> 's \<Rightarrow> bool) \<Rightarrow> (('e, 'a) result \<times> 's) option \<Rightarrow> bool" where
  "outcome peers failed succeeded P r =
     (case r of
        None \<Rightarrow> True
      | Some (Err _, w) \<Rightarrow> peers w = failed
      | Some (Ok a, w) \<Rightarrow> peers w = succeeded \<and> P a w)"

lemma outcome_and_then:
  assumes "keeps peers m" "peers w = n0" "\<And>a w1. m w = Some (Ok a, w1) \<Longrightarrow> peers w1 = n0 \<Longrightarrow> outcome peers n0 n P (k a w1)"
  shows "outcome peers n0 n P (and_then m k w)"
  using keepsD[OF assms(1), of w] assms(2,3)
  by (auto simp: and_then_def outcome_def[of _ _ _ _ None] outcome_def[of _ _ _ _ "Some (Err _, _)"]
      split: option.split sum.split)

lemma outcome_mono: "outcome peers n0 n P r \<Longrightarrow> (\<And>a w. P a w \<Longrightarrow> Q a w) \<Longrightarrow> outcome peers n0 n Q r"
  by (auto simp: outcome_def split: option.split_asm prod.split_asm sum.split_asm)

lemma outcome_guard:
  assumes "counts_peers E peers" "\<And>w1. outcome peers (peers w1) (peers w1) P (body w1)" "peers w = n"
  shows "outcome peers n (Suc n) P (with_peer_guard E servers body w)"
proof (cases "br_new_peer E servers w")
  case (Pair r w1)
  then have "peers w1 = (case r of Err _ \<Rightarrow> peers w | Ok _ \<Rightarrow> Suc (peers w))"
    using counts_peersD(1)[OF assms(1), of servers w] by simp
  with assms(2)[of w1] assms(3) Pair counts_peersD(2)[OF assms(1)] show ?thesis
    by (auto simp: outcome_def with_peer_guard_def and_then_def js_error_def split: sum.splits option.split)
qed

lemma build_outcome:
  assumes "counts_peers E peers"
  shows "outcome peers (peers w) (peers w) (\<lambda>(transport, cid) w1.
      ww_channel transport = w1 \<and> cid = rp_client_id session
      \<and> (\<exists>now authentication now'.
            SessionCreateResponse_authentication X session protocol_id server_addr WebRtcSession now
              (wo_require_secure options) (wo_session_request options) = Ok authentication
            \<and> cn_new E now' authentication = Ok (ww_netcode transport)))
    (build_transport E X new_client cs clock session protocol_id server_addr options w)"
proof -
  have at: "ww_channel (assemble_transport E new_client cs clock options netcode w1) = dc_set_onmessage E True w1"
    "ww_netcode (assemble_transport E new_client cs clock options netcode w1) = netcode" for netcode w1
    by (simp_all add: assemble_transport_def Let_def case_prod_unfold)
  show ?thesis
    unfolding build_transport_def
  proof (intro outcome_and_then exchange_keeps[OF assms])
    fix answer w1 authentication w2 netcode w3
    assume "exchange_sdp E session (br_create_data_channel E ''renet'' False 0 w) = Some (Ok answer, w1)"
      "session_authentication E X session protocol_id server_addr options w1 = Some (Ok authentication, w2)"
      "new_netcode_client E authentication w2 = Some (Ok netcode, w3)" "peers w3 = peers w"
    then show "outcome peers (peers w) (peers w) (\<lambda>(transport, cid) w1.
      ww_channel transport = w1 \<and> cid = rp_client_id session
      \<and> (\<exists>now authentication now'.
            SessionCreateResponse_authentication X session protocol_id server_addr WebRtcSession now
              (wo_require_secure options) (wo_session_request options) = Ok authentication
            \<and> cn_new E now' authentication = Ok (ww_netcode transport)))
      (let transport = assemble_transport E new_client cs clock options netcode w3
       in Some (Ok (transport, hr_client_id answer), ww_channel transport))"
      by (auto simp: outcome_def at Let_def counts_peersD[OF assms] dest!: exchange_answers authentication_Ok)
  qed (auto simp: counts_peersD[OF assms])
qed

text \<open>
  C13: a negotiation leaks nothing and connects only who it checked.  When it fails, at any step, the page
  has as many open peer connections as before; when it succeeds there is one more, which the transport
  owns, the client id is the session's, and the netcode client was built from an authentication that the
  session response passed for the selected address after the SDP exchange.
\<close>

theorem connect_outcome:
  assumes "counts_peers E peers"
  shows "case connect_webrtc_from_session E X new_client cs clock session protocol_id options w of
     None \<Rightarrow> True
   | Some (Err _, w1) \<Rightarrow> peers w1 = peers w
   | Some (Ok (transport, cid), w1) \<Rightarrow>
       peers w1 = Suc (peers w) \<and> ww_channel transport = w1 \<and> cid = rp_client_id session
       \<and> (\<exists>server_addr now authentication now'.
            br_parse_addr E (selected_webrtc_addr options session) = Ok server_addr
            \<and> SessionCreateResponse_authentication X session protocol_id server_addr WebRtcSession now
                (wo_require_secure options) (wo_session_request options) = Ok authentication
            \<and> cn_new E now' authentication = Ok (ww_netcode transport))"
proof -
  have "outcome peers (peers w) (Suc (peers w)) (\<lambda>(transport, cid) w1.
      ww_channel transport = w1 \<and> cid = rp_client_id session
      \<and> (\<exists>server_addr now authentication now'.
            br_parse_addr E (selected_webrtc_addr options session) = Ok server_addr
            \<and> SessionCreateResponse_authentication X session protocol_id server_addr WebRtcSession now
                (wo_require_secure options) (wo_session_request options) = Ok authentication
            \<and> cn_new E now' authentication = Ok (ww_netcode transport)))
    (connect_webrtc_from_session E X new_client cs clock session protocol_id options w)"
    unfolding connect_webrtc_from_session_def
    by (auto simp: ready_def outcome_def[of _ _ _ _ "Some (Err _, _)"] split: sum.split
        intro!: outcome_and_then exchange_keeps[OF assms] outcome_mono[OF outcome_guard[OF assms build_outcome[OF assms]]])
  then show ?thesis by (auto simp: outcome_def split: option.split sum.split)
qed

text \<open>
  A page whose state is its clock, its open peers and the bytes it buffers.  Gathering completes and the
  channel opens only after a minute: from an earlier clock both waits run into their limits.
\<close>

definition sample_browser_env :: "(unit, unit, nat \<times> nat \<times> nat, unit, unit, unit, unit) browser_env" where
  "sample_browser_env =
     \<lparr>cn_max_packet_bytes = 1400, cn_new = (\<lambda>_ _. Ok ()), cn_server_addr = (\<lambda>_. SocketV4 1 2),
      cn_disconnect_reason = (\<lambda>_. None), cn_is_disconnected = (\<lambda>_. False), cn_is_connected = (\<lambda>_. True),
      cn_is_connecting = (\<lambda>_. False), cn_disconnect = (\<lambda>n. (Ok (SocketV4 1 2, [0]), n)),
      cn_process_packet = (\<lambda>_ n. (None, n)), cn_update = (\<lambda>_ n. (Some ([4], SocketV4 1 2), n)),
      cn_generate_payload_packet = (\<lambda>p n. (Ok (SocketV4 1 2, p), n)), rn_disconnected = (\<lambda>_. False),
      rn_disconnect_due_to_transport = id, rn_set_connected = id, rn_set_connecting = id,
      rn_process_packet = (\<lambda>_ r. r), rn_get_packets_to_send = (\<lambda>r. ([[5, 6], [7]], r)),
      cs_set_nonblocking = (\<lambda>s. (Ok (), s)), cs_recv_from = (\<lambda>s. (Err WouldBlock, s)),
      cs_send_to = (\<lambda>p _ s. (Ok (length p), s)), cc_now = (\<lambda>c. (7, c)), cc_elapsed = (\<lambda>c. (7, c)),
      dc_ready_state = (\<lambda>(t, _, _). if t > 60000 then ChOpen else ChConnecting),
      dc_buffered_amount = (\<lambda>(_, _, b). of_nat (min b 65535)),
      dc_send = (\<lambda>p (t, n, b). (Ok (), (t, n, b + length p))),
      dc_set_onmessage = (\<lambda>_ w. w), dc_close = id, pc_close = (\<lambda>(t, n, b). (t, n - 1, b)),
      br_date_now = (\<lambda>(t, n, b). (t, (t + 1, n, b))), br_sleep = (\<lambda>ms (t, n, b). (t + ms, n, b)),
      br_new_peer = (\<lambda>_ (t, n, b). (Ok (), (t, Suc n, b))), br_create_data_channel = (\<lambda>_ _ _ w. w),
      br_create_offer = (\<lambda>w. (Ok (Some ''v=0''), w)), br_set_local_description = (\<lambda>_ w. (Ok (), w)),
      br_set_remote_description = (\<lambda>_ w. (Ok (), w)), br_ice_gathering_state = (\<lambda>(t, _, _). if t > 60000 then IceComplete else IceGathering),
      br_local_description = (\<lambda>_. Some ''a=candidate:1''),
      br_post = (\<lambda>_ _ w. (Ok \<lparr>wr_status = 200, wr_body = Some (Ok [Ok [1]])\<rparr>, w)),
      br_parse_addr = (\<lambda>_. Ok (SocketV4 1 2)), br_session_json = (\<lambda>_. Some [1]), br_offer_json = (\<lambda>_. Some [1]),
      br_parse_session = (\<lambda>_. None), br_parse_answer = (\<lambda>_. Some \<lparr>hr_client_id = 9, hr_sdp = ''v=0''\<rparr>)\<rparr>"

definition sample_session :: session_create_response where
  "sample_session =
     \<lparr>rp_client_id = 9, rp_udp_addr = ''u'', rp_webrtc_addr = ''w'', rp_webrtc_offer_url = ''o'',
      rp_session_token = None, rp_security = None\<rparr>"

lemma sample_browser:
  "cn_max_packet_bytes sample_browser_env = 1400" "cn_new sample_browser_env now a = Ok ()"
  "dc_ready_state sample_browser_env (t, n, b) = (if t > 60000 then ChOpen else ChConnecting)"
  "dc_set_onmessage sample_browser_env on w = w" "br_date_now sample_browser_env (t, n, b) = (t, (t + 1, n, b))"
  "br_new_peer sample_browser_env servers (t, n, b) = (Ok (), (t, Suc n, b))"
  "br_create_data_channel sample_browser_env label ord k w = w"
  "br_create_offer sample_browser_env w = (Ok (Some ''v=0''), w)"
  "br_set_local_description sample_browser_env sdp w = (Ok (), w)"
  "br_set_remote_description sample_browser_env sdp w = (Ok (), w)"
  "br_ice_gathering_state sample_browser_env (t, n, b) = (if t > 60000 then IceComplete else IceGathering)"
  "br_local_description sample_browser_env w = Some ''a=candidate:1''"
  "br_post sample_browser_env url body w = (Ok \<lparr>wr_status = 200, wr_body = Some (Ok [Ok [1]])\<rparr>, w)"
  "br_parse_addr sample_browser_env text = Ok (SocketV4 1 2)" "br_offer_json sample_browser_env offer = Some [1]"
  "br_parse_answer sample_browser_env body = Some \<lparr>hr_client_id = 9, hr_sdp = ''v=0''\<rparr>"
  by (simp_all add: sample_browser_env_def)

lemma sample_exchange:
  "exchange_sdp sample_browser_env sample_session (61001, 4, 0) = Some (Ok \<lparr>hr_client_id = 9, hr_sdp = ''v=0''\<rparr>, (61001, 4, 0))"
  by (simp add: exchange_sdp_def local_offer_def post_offer_def sample_browser sample_session_def and_then_def js_error_def ready_def
      present_sdp_def trim_is_empty_def gather_candidates_def await_ice_complete_def await_data_channel_open_def post_json_def
      decode_json_response_def is_success_def MAX_SDP_BODY_BYTES_def)

lemma sample_connects:
  "\<exists>transport w1. connect_webrtc_from_session sample_browser_env sample_codec (\<lambda>_ :: unit. ()) (\<lambda>_. undefined) ()
     sample_session 5 (WebRtcConnectOptions_default ()) (61000, 3, 0) = Some (Ok (transport, 9), w1)"
proof -
  have ok: "WebRtcConnectOptions_validate 1400 (WebRtcConnectOptions_default ()) = Ok ()"
    by (simp add: WebRtcConnectOptions_validate_def WebRtcConnectOptions_default_def trim_is_empty_def)
  have "SessionCreateResponse_authentication sample_codec sample_session 5 a WebRtcSession now False SessionCreateRequest_default
      = Ok (Unsecure 5 9 a None)" for a now
    by (simp add: SessionCreateResponse_authentication_def sample_session_def SessionCreateRequest_validate_def
        SessionCreateRequest_default_def SessionCreateRequest_requests_authentication_def)
  then have auth: "session_authentication sample_browser_env sample_codec sample_session 5 a (WebRtcConnectOptions_default ()) (t, n, b)
      = Some (Ok (Unsecure 5 9 a None), (t + 1, n, b))" for a t n b
    by (simp add: session_authentication_def and_then_def browser_now_duration_def ready_def sample_browser
        WebRtcConnectOptions_default_def)
  show ?thesis
    by (simp add: connect_webrtc_from_session_def ok sample_browser auth sample_exchange with_peer_guard_def js_error_def
        and_then_def build_transport_def new_netcode_client_def browser_now_duration_def ready_def assemble_transport_def
        Let_def case_prod_unfold)
qed

theorem connect_outcome_witness:
  "\<exists>transport w1. connect_webrtc_from_session sample_browser_env sample_codec (\<lambda>_ :: unit. ()) (\<lambda>_. undefined) ()
     sample_session 5 (WebRtcConnectOptions_default ()) (61000, 3, 0) = Some (Ok (transport, 9), w1) \<and> fst (snd w1) = 4"
proof -
  have "counts_peers sample_browser_env (fst \<circ> snd)"
    by (simp add: counts_peers_def sample_browser_env_def case_prod_unfold)
  from connect_outcome[OF this, where X = sample_codec and new_client = "\<lambda>_ :: unit. ()" and cs = "\<lambda>_. undefined"
      and clock = "()" and session = sample_session and protocol_id = 5 and options = "WebRtcConnectOptions_default ()"
      and w = "(61000, 3, 0)"]
  show ?thesis using sample_connects by auto
qed



section \<open>Invariants of the transport\<close>

text \<open>
  The elementary effects of the transport: a property of the state that each of them keeps, given that
  a packet goes to the channel only within the send budget, is kept by every operation.
\<close>

locale web_invariant =
  fixes E :: "('n, 'r, 's, 'c, 'ne, 'why) web_env"
    and I :: "('n, 'r, 's, 'c) web_transport \<Rightarrow> bool"
  assumes on_gate: "I s \<Longrightarrow> I (s\<lparr>ww_packets := g, ww_controls := cs\<rparr>)"
    and on_clock: "I s \<Longrightarrow> I (s\<lparr>ww_clock := c\<rparr>)"
    and on_renet: "I s \<Longrightarrow> I (s\<lparr>ww_renet := r\<rparr>)"
    and on_netcode: "I s \<Longrightarrow> I (s\<lparr>ww_netcode := n\<rparr>)"
    and on_egress: "I s \<Longrightarrow> I (s\<lparr>ww_egress := e\<rparr>)"
    and on_clear: "I s \<Longrightarrow> I (s\<lparr>ww_inbox := (ww_inbox s)\<lparr>ib_packets := []\<rparr>\<rparr>)"
    and on_push: "I s \<Longrightarrow> I (s\<lparr>ww_inbox := PacketInbox_push bs (ww_inbox s)\<rparr>)"
    and on_refuse: "I s \<Longrightarrow> I (s\<lparr>ww_inbox := snd (PacketInbox_accepts_size k len (ww_inbox s))\<rparr>)"
    and on_backpressure: "I s \<Longrightarrow> I (s\<lparr>ww_inbox := count_backpressure (ww_inbox s)\<rparr>)"
    and on_send: "I s \<Longrightarrow> fits_send_budget (dc_buffered_amount E (ww_channel s)) (length p) (ww_max_buffered_amount s)
      \<Longrightarrow> I (s\<lparr>ww_channel := snd (dc_send E p (ww_channel s))\<rparr>)"
begin

lemma gate_keeps:
  "I s \<Longrightarrow> I (snd (web_defer E dir payload s))" "I s \<Longrightarrow> I (snd (web_drain E dir s))" "I s \<Longrightarrow> I (clear_pending_packets s)"
proof -
  show "I s \<Longrightarrow> I (snd (web_defer E dir payload s))" "I s \<Longrightarrow> I (snd (web_drain E dir s))"
    using on_gate[OF on_clock] by (auto simp: web_defer_def web_drain_def Let_def case_prod_unfold)
  show "I s \<Longrightarrow> I (clear_pending_packets s)"
    using on_clear[OF on_gate, of s] by (auto simp: clear_pending_packets_def Let_def case_prod_unfold)
qed

lemma settle_keeps: "I s \<Longrightarrow> I (web_complete E payload sent s)"
  using on_egress[OF on_clock, of s] by (auto simp: web_complete_def Let_def case_prod_unfold)

lemma raw_send_keeps:
  assumes "I s"
  shows "I (snd (send_data_channel_packet_unconditioned E payload s :: (('ne, 'why, 'pe) web_error, unit) result \<times> _))"
proof -
  have s1: "I (s\<lparr>ww_clock := c, ww_egress := e\<rparr>)" for c e by (intro on_egress on_clock assms)
  show ?thesis
    using s1 settle_keeps[OF s1] settle_keeps[OF on_backpressure[OF s1]] settle_keeps[OF on_send[OF s1]]
    by (simp add: send_data_channel_packet_unconditioned_def Let_def case_prod_unfold split: channel_state.split)
qed

lemma queued_keep:
  "I s \<Longrightarrow> I (snd (send_queued E packets s :: (('ne, 'why, 'pe) web_error, unit) result \<times> _))"
proof (induction packets arbitrary: s)
  case (Cons p packets)
  then show ?case using raw_send_keeps[OF Cons.prems, of p, where ?'pe = 'pe] by (auto split: prod.split sum.split)
qed simp

lemma flush_keeps:
  "I s \<Longrightarrow> I (snd (flush_pending_sends E s :: (('ne, 'why, 'pe) web_error, unit) result \<times> _))"
  using queued_keep[OF gate_keeps(2)[of s Outgoing], where ?'pe = 'pe]
  by (auto simp: flush_pending_sends_def case_prod_unfold Let_def)

lemma packet_keeps:
  assumes "I s"
  shows "I (snd (send_data_channel_packet E payload s :: (('ne, 'why, 'pe) web_error, unit) result \<times> _))"
proof -
  have s1: "I (snd (web_defer E Outgoing payload s))" by (intro gate_keeps assms)
  show ?thesis
    using s1 raw_send_keeps[OF s1, of payload, where ?'pe = 'pe]
      flush_keeps[OF raw_send_keeps[OF s1, of payload, where ?'pe = 'pe], where ?'pe = 'pe] flush_keeps[OF s1, where ?'pe = 'pe]
    by (simp add: send_data_channel_packet_def Let_def case_prod_unfold split: sum.split)
qed

lemma process_keeps: "I s \<Longrightarrow> I (fold (web_process E) packets s)"
proof (induction packets arbitrary: s)
  case (Cons p packets)
  have "I (web_process E p s)"
    using on_netcode[OF Cons.prems] on_renet[OF on_netcode[OF Cons.prems]]
    by (auto simp: web_process_def Let_def case_prod_unfold split: option.split)
  then show ?case by (simp add: Cons.IH)
qed simp

lemma deliver_keeps: "I s \<Longrightarrow> I (snd (deliver_pending_packets E s))"
  using flush_keeps[OF process_keeps[OF gate_keeps(2)[of s Incoming]]]
  by (auto simp: deliver_pending_packets_def split: prod.split)

lemma on_message_keeps: "I s \<Longrightarrow> I (web_on_message E data s)"
proof -
  assume "I s"
  have "message_bytes k data inbox = (b, inbox') \<Longrightarrow> inbox' = inbox \<or> (\<exists>len. inbox' = snd (PacketInbox_accepts_size k len inbox))"
    for k inbox b inbox'
    by (cases data) (auto simp: case_prod_unfold Let_def)
  then have "I (s\<lparr>ww_inbox := snd (message_bytes (cn_max_packet_bytes E) data (ww_inbox s))\<rparr>)"
    using \<open>I s\<close> on_refuse[OF \<open>I s\<close>] by (metis (no_types, lifting) prod.collapse web_transport.surjective web_transport.update_convs(7))
  then show ?thesis
    using on_push[OF gate_keeps(1)] gate_keeps(1)
    by (auto simp: web_on_message_def Let_def case_prod_unfold split: option.split)
qed

lemma fail_keeps: "I s \<Longrightarrow> I (snd (web_fail E err s))"
  using on_renet[OF gate_keeps(3)] by (simp add: web_fail_def Let_def)

lemma requested_keeps: "I s \<Longrightarrow> I (web_disconnect_requested E s)"
  using on_netcode[of s] gate_keeps(3)[OF packet_keeps[OF on_netcode]]
  by (auto simp: web_disconnect_requested_def Let_def case_prod_unfold split: sum.split)

lemma tick_keeps:
  assumes "I s"
  shows "I (snd (web_tick E d s :: (('ne, 'why, 'pe) web_error, unit) result \<times> _))"
proof -
  let ?s1 = "s\<lparr>ww_netcode := snd (cn_update E d (ww_netcode s))\<rparr>"
  let ?sent = "case fst (cn_update E d (ww_netcode s)) of
      None \<Rightarrow> (Ok (), ?s1)
    | Some (packet, _) \<Rightarrow> (send_data_channel_packet E packet ?s1 :: (('ne, 'why, 'pe) web_error, unit) result \<times> _)"
  have "I (snd ?sent)"
    using on_netcode[OF assms] packet_keeps[OF on_netcode[OF assms], where ?'pe = 'pe] by (simp split: option.split)
  then show ?thesis
    using fail_keeps on_renet
    by (auto simp: web_tick_def Let_def case_prod_unfold split: sum.split option.split)
qed

lemma update_keeps:
  assumes "I s"
  shows "I (snd (web_update E d s :: (('ne, 'why, 'pe) web_error, unit) result \<times> _))"
proof -
  have s1: "I (web_disconnect_requested E s)" by (intro requested_keeps assms)
  have s2: "I (snd (deliver_pending_packets E (web_disconnect_requested E s) :: (('ne, 'why, 'pe) web_error, unit) result \<times> _))"
    by (intro deliver_keeps s1)
  have "I (web_process_inbox E t)" if "I t" for t
    unfolding web_process_inbox_def by (intro process_keeps on_clear that)
  from tick_keeps[OF this[OF s2], where ?'pe = 'pe] s2 show ?thesis
    by (simp add: fail_keeps[OF s1] fail_keeps[OF assms] web_update_def Let_def case_prod_unfold split: option.split sum.split)
qed

lemma payloads_keep:
  "I s \<Longrightarrow> I (snd (web_send_payloads E packets s :: (('ne, 'why, 'pe) web_error, unit) result \<times> _))"
proof (induction packets arbitrary: s)
  case (Cons p packets)
  then show ?case
    using on_netcode[OF Cons.prems] packet_keeps[OF on_netcode[OF Cons.prems], where ?'pe = 'pe]
    by (simp add: Let_def case_prod_unfold split: sum.split)
qed simp

lemma send_packets_keeps:
  assumes "I s"
  shows "I (snd (web_send_packets E s :: (('ne, 'why, 'pe) web_error, unit) result \<times> _))"
proof -
  have s1: "I (snd (flush_pending_sends E s :: (('ne, 'why, 'pe) web_error, unit) result \<times> _))" by (intro flush_keeps assms)
  show ?thesis
    using s1 payloads_keep[OF on_renet[OF s1], where ?'pe = 'pe] gate_keeps(3)[OF assms]
    by (simp add: web_send_packets_def Let_def case_prod_unfold split: option.split sum.split)
qed

lemma settings_keep:
  assumes "I s"
  shows "I (web_set_conditioner h s)" "I (web_clear_conditioner s)" "I (snd (web_set_egress_limit E config s))"
  using on_gate[OF gate_keeps(3)[OF assms]] on_clock[OF assms] on_egress[OF on_clock[OF assms]]
  by (simp_all add: web_set_conditioner_def web_clear_conditioner_def web_set_egress_limit_def Let_def case_prod_unfold
      split: sum.split)

end

section \<open>Runs of the browser client\<close>

text \<open>
  \<open>WebProgress w\<close> is the browser at work between two calls: its state becomes \<open>w\<close>, whose buffer is no
  fuller than before.
\<close>

datatype 's web_op =
    WebUpdate duration
  | WebSendPackets
  | WebMessage message_data
  | WebSetConditioner nat
  | WebClearConditioner
  | WebSetEgressLimit "egress_config option"
  | WebProgress 's

fun web_step ::
  "('n, 'r, 's, 'c, 'ne, 'why) web_env \<Rightarrow> ('n, 'r, 's, 'c) web_transport \<Rightarrow> 's web_op \<Rightarrow> ('n, 'r, 's, 'c) web_transport" where
  "web_step E s (WebUpdate d) = snd (web_update E d s :: (('ne, 'why, unit) web_error, unit) result \<times> _)"
| "web_step E s WebSendPackets = snd (web_send_packets E s :: (('ne, 'why, unit) web_error, unit) result \<times> _)"
| "web_step E s (WebMessage data) = web_on_message E data s"
| "web_step E s (WebSetConditioner h) = web_set_conditioner h s"
| "web_step E s WebClearConditioner = web_clear_conditioner s"
| "web_step E s (WebSetEgressLimit config) = snd (web_set_egress_limit E config s)"
| "web_step E s (WebProgress w) =
     (if dc_buffered_amount E w \<le> dc_buffered_amount E (ww_channel s) then s\<lparr>ww_channel := w\<rparr> else s)"

text \<open>A send adds at most the packet to what the channel buffers.\<close>

definition buffers_honestly :: "('n, 'r, 's, 'c, 'ne, 'why) web_env \<Rightarrow> bool" where
  "buffers_honestly E \<longleftrightarrow>
     (\<forall>p w. unat (dc_buffered_amount E (snd (dc_send E p w))) \<le> unat (dc_buffered_amount E w) + length p)"

definition web_bounded :: "('n, 'r, 's, 'c, 'ne, 'why) web_env \<Rightarrow> u32 \<Rightarrow> nat \<Rightarrow> ('n, 'r, 's, 'c) web_transport \<Rightarrow> bool" where
  "web_bounded E limit capacity s \<longleftrightarrow>
     ww_max_buffered_amount s = limit \<and> dc_buffered_amount E (ww_channel s) \<le> limit
     \<and> ib_capacity (ww_inbox s) = capacity \<and> length (ib_packets (ww_inbox s)) \<le> capacity"

lemma inbox_push_bounded:
  "length (ib_packets ib) \<le> ib_capacity ib \<Longrightarrow> length (ib_packets (PacketInbox_push bs ib)) \<le> ib_capacity ib
     \<and> ib_capacity (PacketInbox_push bs ib) = ib_capacity ib"
  by (cases "ib_packets ib") (auto simp: PacketInbox_push_def overflow_drop_def Let_def)

interpretation web_memory: web_invariant E "\<lambda>s. buffers_honestly E \<longrightarrow> web_bounded E limit capacity s" for E limit capacity
proof (unfold_locales, goal_cases)
  case (7 s bs)
  then show ?case using inbox_push_bounded[of "ww_inbox s" bs] by (auto simp: web_bounded_def)
next
  case (8 s k len)
  then show ?case by (auto simp: web_bounded_def PacketInbox_accepts_size_def)
next
  case (9 s)
  then show ?case by (auto simp: web_bounded_def count_backpressure_def)
next
  case (10 s p)
  show ?case
  proof
    assume honest: "buffers_honestly E"
    then have "unat (dc_buffered_amount E (snd (dc_send E p (ww_channel s)))) \<le> unat (ww_max_buffered_amount s)"
      using 10(2) spec[OF spec[OF honest[unfolded buffers_honestly_def]], of p "ww_channel s"] by (simp add: fits_send_budget_exact)
    with honest 10(1) show "web_bounded E limit capacity (s\<lparr>ww_channel := snd (dc_send E p (ww_channel s))\<rparr>)"
      by (auto simp: web_bounded_def word_le_nat_alt)
  qed
qed (auto simp: web_bounded_def)

interpretation web_run: step_invariant "web_step E" "\<lambda>s. buffers_honestly E \<longrightarrow> web_bounded E limit capacity s" for E limit capacity
proof
  fix s op
  assume I: "buffers_honestly E \<longrightarrow> web_bounded E limit capacity s"
  then show "buffers_honestly E \<longrightarrow> web_bounded E limit capacity (web_step E s op)"
    using web_memory.update_keeps[OF I, where ?'pe = unit] web_memory.send_packets_keeps[OF I, where ?'pe = unit]
      web_memory.on_message_keeps[OF I] web_memory.settings_keep[OF I]
    by (cases op) (auto simp: web_bounded_def)
qed

text \<open>
  C10: a browser client's buffers are bounded.  When a send adds no more than the packet to the channel's
  buffer, then in every run of updates, sends, incoming messages, changes of the settings and progress
  of the browser the channel never buffers more than \<open>max_buffered_amount\<close> bytes and the inbox never
  holds more than its capacity, whatever arrives and however much there is to send.
\<close>

theorem web_buffers_bounded:
  assumes "buffers_honestly E" "dc_buffered_amount E (ww_channel s) \<le> ww_max_buffered_amount s"
    "length (ib_packets (ww_inbox s)) \<le> ib_capacity (ww_inbox s)"
  shows "case run_state (web_step E) s ops of s' \<Rightarrow>
     dc_buffered_amount E (ww_channel s') \<le> ww_max_buffered_amount s
     \<and> length (ib_packets (ww_inbox s')) \<le> ib_capacity (ww_inbox s)"
  using web_run.run_inv[of E "ww_max_buffered_amount s" "ib_capacity (ww_inbox s)" s ops] assms
  by (simp add: web_bounded_def)

definition sample_web :: "(unit, unit, nat \<times> nat \<times> nat, unit) web_transport" where
  "sample_web =
     \<lparr>ww_renet = (), ww_controls = (\<lambda>_. undefined), ww_clock = (), ww_egress = Egress_new EncryptedLogical,
      ww_channel = (61000, 1, 0), ww_netcode = (), ww_inbox = PacketInbox_new 1, ww_max_buffered_amount = 3,
      ww_packets = None\<rparr>"

theorem web_buffers_bounded_witness:
  "case run_state (web_step (web_env.truncate sample_browser_env)) sample_web
       [WebSendPackets, WebUpdate 5, WebMessage (DataArrayBuffer [1]), WebMessage (DataUint8Array [2]), WebSendPackets] of
     s \<Rightarrow> dc_buffered_amount (web_env.truncate sample_browser_env) (ww_channel s) \<le> 3 \<and> length (ib_packets (ww_inbox s)) \<le> 1"
proof -
  have "unat (of_nat (min (b + l) 65535) :: u32) \<le> unat (of_nat (min b 65535) :: u32) + l" for b l
    by (simp add: unat_of_nat min_def)
  then have "buffers_honestly (web_env.truncate sample_browser_env)"
    by (auto simp: buffers_honestly_def sample_browser_env_def web_env.truncate_def)
  moreover have "dc_buffered_amount (web_env.truncate sample_browser_env) (ww_channel sample_web) \<le> ww_max_buffered_amount sample_web"
    by (simp add: sample_browser_env_def web_env.truncate_def sample_web_def)
  moreover have "length (ib_packets (ww_inbox sample_web)) \<le> ib_capacity (ww_inbox sample_web)"
    by (simp add: sample_web_def PacketInbox_new_def)
  ultimately show ?thesis
    using web_buffers_bounded[of "web_env.truncate sample_browser_env" sample_web
        "[WebSendPackets, WebUpdate 5, WebMessage (DataArrayBuffer [1]), WebMessage (DataUint8Array [2]), WebSendPackets]"]
    by (simp add: sample_web_def PacketInbox_new_def)
qed

end
