(* ===== verification/F32.thy ===== *)
theory F32
  imports Floats Net
begin

text \<open>
  Single-precision arithmetic.  A value is a NaN, an infinity or the rational a finite \<open>f32\<close> denotes
  (signed zeros are identified: no modelled code divides by a zero).  Every operation is the exact
  operation followed by \<open>f32_round\<close>: to nearest with ties to even, 24-bit significand, subnormals from
  exponent -149, overflow to an infinity.  Comparisons with a NaN are false, \<open>min\<close> and \<open>max\<close> return the
  other operand, \<open>clamp\<close> keeps a NaN: the rules of the standard library's \<open>f32\<close>.  Decimal formatting with
  a fixed number of digits is here too.
\<close>

type_synonym f32 = float_val

section \<open>Rounding\<close>

text \<open>The exponent computed on integers, for evaluation.\<close>

lemma ilog2_rat_code [code]:
  "ilog2_rat x =
     (let (n, d) = quotient_of x; k = bitlen n - bitlen d in if 2 powi k \<le> x then k else k - 1)"
  by (simp add: ilog2_rat_def bitlen_def)

definition f32_ulp :: "rat \<Rightarrow> rat" where
  "f32_ulp x = 2 powi (max (ilog2_rat \<bar>x\<bar> - 23) (- 149))"

definition F32_MAX :: rat where
  "F32_MAX = (2 - 1 / 2 ^ 23) * 2 ^ 127"

definition f32_round :: "rat \<Rightarrow> f32" where
  "f32_round x =
     (if x = 0 then Fin 0
      else let r = of_int (round_half_even (x / f32_ulp x)) * f32_ulp x
           in if \<bar>r\<bar> > F32_MAX then Infinite (x < 0) else Fin r)"

section \<open>Operations\<close>

fun fadd :: "f32 \<Rightarrow> f32 \<Rightarrow> f32" where
  "fadd (Fin a) (Fin b) = f32_round (a + b)"
| "fadd (Infinite s) (Fin _) = Infinite s"
| "fadd (Fin _) (Infinite s) = Infinite s"
| "fadd (Infinite s) (Infinite t) = (if s = t then Infinite s else NaN)"
| "fadd _ _ = NaN"

fun fneg :: "f32 \<Rightarrow> f32" where
  "fneg (Fin a) = Fin (- a)"
| "fneg (Infinite s) = Infinite (\<not> s)"
| "fneg NaN = NaN"

definition fsub :: "f32 \<Rightarrow> f32 \<Rightarrow> f32" where
  "fsub x y = fadd x (fneg y)"

fun fmul :: "f32 \<Rightarrow> f32 \<Rightarrow> f32" where
  "fmul (Fin a) (Fin b) = f32_round (a * b)"
| "fmul (Infinite s) (Fin b) = (if b = 0 then NaN else Infinite (s \<noteq> (b < 0)))"
| "fmul (Fin a) (Infinite s) = (if a = 0 then NaN else Infinite (s \<noteq> (a < 0)))"
| "fmul (Infinite s) (Infinite t) = Infinite (s \<noteq> t)"
| "fmul _ _ = NaN"

fun fdiv :: "f32 \<Rightarrow> f32 \<Rightarrow> f32" where
  "fdiv (Fin a) (Fin b) =
     (if b = 0 then if a = 0 then NaN else Infinite (a < 0) else f32_round (a / b))"
| "fdiv (Infinite s) (Fin b) = Infinite (s \<noteq> (b < 0))"
| "fdiv (Fin _) (Infinite _) = Fin 0"
| "fdiv _ _ = NaN"

fun f32_abs :: "f32 \<Rightarrow> f32" where
  "f32_abs (Fin a) = Fin \<bar>a\<bar>"
| "f32_abs (Infinite _) = Infinite False"
| "f32_abs NaN = NaN"

text \<open>The integer square root, two binary digits at a time.\<close>

function isqrt :: "int \<Rightarrow> int" where
  "isqrt n =
     (if n \<le> 0 then 0
      else let r = 2 * isqrt (n div 4) in if (r + 1) * (r + 1) \<le> n then r + 1 else r)"
  by auto
termination
  by (relation "measure nat") auto

declare isqrt.simps [simp del]

text \<open>The square root of a rational rounded to an integer, to nearest with ties to even.\<close>

definition isqrt_round :: "rat \<Rightarrow> int" where
  "isqrt_round q =
     (let f = isqrt \<lfloor>q\<rfloor>; mid = (of_int f + 1 / 2) * (of_int f + 1 / 2)
      in if q < mid then f else if q > mid then f + 1 else if even f then f else f + 1)"

text \<open>The correctly rounded square root: the last place of the result is known from the exponent of
  the operand, and the square of the exact result in units of that place is rounded.\<close>

definition f32_sqrt_ulp :: "rat \<Rightarrow> rat" where
  "f32_sqrt_ulp a = 2 powi (max (ilog2_rat a div 2 - 23) (- 149))"

definition f32_sqrt_fin :: "rat \<Rightarrow> rat" where
  "f32_sqrt_fin a =
     (if a = 0 then 0
      else of_int (isqrt_round (a / (f32_sqrt_ulp a * f32_sqrt_ulp a))) * f32_sqrt_ulp a)"

fun f32_sqrt :: "f32 \<Rightarrow> f32" where
  "f32_sqrt (Fin a) = (if a < 0 then NaN else Fin (f32_sqrt_fin a))"
| "f32_sqrt (Infinite s) = (if s then NaN else Infinite False)"
| "f32_sqrt NaN = NaN"

fun fle :: "f32 \<Rightarrow> f32 \<Rightarrow> bool" where
  "fle (Fin a) (Fin b) = (a \<le> b)"
| "fle (Infinite s) (Fin _) = s"
| "fle (Fin _) (Infinite s) = (\<not> s)"
| "fle (Infinite s) (Infinite t) = (s \<or> \<not> t)"
| "fle _ _ = False"

fun flt :: "f32 \<Rightarrow> f32 \<Rightarrow> bool" where
  "flt (Fin a) (Fin b) = (a < b)"
| "flt (Infinite s) (Fin _) = s"
| "flt (Fin _) (Infinite s) = (\<not> s)"
| "flt (Infinite s) (Infinite t) = (s \<and> \<not> t)"
| "flt _ _ = False"

text \<open>\<open>==\<close> on \<open>f32\<close>: a NaN is not equal to itself.\<close>

definition feq :: "f32 \<Rightarrow> f32 \<Rightarrow> bool" where
  "feq x y \<longleftrightarrow> x = y \<and> x \<noteq> NaN"

definition f32_min :: "f32 \<Rightarrow> f32 \<Rightarrow> f32" where
  "f32_min x y = (if x = NaN then y else if y = NaN then x else if flt y x then y else x)"

definition f32_max :: "f32 \<Rightarrow> f32 \<Rightarrow> f32" where
  "f32_max x y = (if x = NaN then y else if y = NaN then x else if flt x y then y else x)"

definition f32_clamp :: "f32 \<Rightarrow> f32 \<Rightarrow> f32 \<Rightarrow> f32" where
  "f32_clamp v lo hi = (let w = if flt v lo then lo else v in if flt hi w then hi else w)"

text \<open>\<open>%\<close> and \<open>rem_euclid\<close>; the remainder of two \<open>f32\<close> values is exact.\<close>

fun frem :: "f32 \<Rightarrow> f32 \<Rightarrow> f32" where
  "frem (Fin a) (Fin b) =
     (if b = 0 then NaN
      else Fin (a - b * of_int (if 0 \<le> a / b then \<lfloor>a / b\<rfloor> else \<lceil>a / b\<rceil>)))"
| "frem (Fin a) (Infinite _) = Fin a"
| "frem _ _ = NaN"

definition f32_rem_euclid :: "f32 \<Rightarrow> f32 \<Rightarrow> f32" where
  "f32_rem_euclid x y = (let r = frem x y in if flt r (Fin 0) then fadd r (f32_abs y) else r)"

definition F32_EPSILON :: f32 where
  "F32_EPSILON = Fin (1 / 2 ^ 23)"

text \<open>\<open>Duration::as_secs_f32\<close> and \<open>Duration::from_secs_f32\<close>; \<open>None\<close> is the panic on a NaN, an
  infinity, a negative value or one out of range.\<close>

definition as_secs_f32 :: "duration \<Rightarrow> f32" where
  "as_secs_f32 d =
     fadd (f32_round (of_nat (d div NANOS))) (fdiv (f32_round (of_nat (d mod NANOS))) (f32_round (of_nat NANOS)))"

fun from_secs_f32 :: "f32 \<Rightarrow> duration option" where
  "from_secs_f32 (Fin x) = try_from_secs_f64 x"
| "from_secs_f32 _ = None"

text \<open>Decimal formatting with a fixed number of digits: the nearest decimal, ties to even.\<close>

definition pad_left :: "nat \<Rightarrow> string \<Rightarrow> string" where
  "pad_left k s = replicate (k - length s) CHR ''0'' @ s"

definition format_fixed :: "nat \<Rightarrow> rat \<Rightarrow> string" where
  "format_fixed k q =
     (let n = nat (round_half_even (\<bar>q\<bar> * 10 ^ k));
          digits = (if k = 0 then show_nat n
                    else show_nat (n div 10 ^ k) @ ''.'' @ pad_left k (show_nat (n mod 10 ^ k)))
      in if q < 0 then ''-'' @ digits else digits)"

fun format_float :: "nat \<Rightarrow> float_val \<Rightarrow> string" where
  "format_float k (Fin q) = format_fixed k q"
| "format_float k (Infinite neg) = (if neg then ''-inf'' else ''inf'')"
| "format_float k NaN = ''NaN''"

text \<open>\<open>{:>w}\<close>: blanks in front up to a width.\<close>

definition align_right :: "nat \<Rightarrow> string \<Rightarrow> string" where
  "align_right w s = replicate (w - length s) CHR '' '' @ s"

text \<open>The functions of the standard library whose precision is left to the platform.\<close>

record f32_math =
  m_sin :: "f32 \<Rightarrow> f32"
  m_cos :: "f32 \<Rightarrow> f32"
  m_exp :: "f32 \<Rightarrow> f32"

text \<open>What the code relies on of them: sine and cosine of a finite angle are finite.\<close>

definition math_ok :: "f32_math \<Rightarrow> bool" where
  "math_ok m \<longleftrightarrow> (\<forall>x. is_finite (m_sin m (Fin x)) \<and> is_finite (m_cos m (Fin x)))"

section \<open>Rounding lemmas\<close>

lemma round_half_even_le: "q \<le> of_int N \<Longrightarrow> round_half_even q \<le> N"
  by (cases "q = of_int N") (auto simp: round_half_even_def Let_def, linarith+)

lemma round_half_even_ge: "of_int N \<le> q \<Longrightarrow> N \<le> round_half_even q"
  by (auto simp: round_half_even_def Let_def le_floor_iff) linarith+

lemma f32_ulp_pos [simp]: "0 < f32_ulp x"
  by (simp add: f32_ulp_def)

text \<open>A value below a bound that an \<open>f32\<close> represents is rounded to a value below it.\<close>

lemma f32_round_bound:
  assumes x: "\<bar>x\<bar> \<le> of_int k * 2 powi e" and k: "k < 2 ^ 24" and e: "- 149 \<le> e"
    and b: "of_int k * 2 powi e \<le> F32_MAX"
  shows "\<exists>r. f32_round x = Fin r \<and> \<bar>r\<bar> \<le> of_int k * 2 powi e \<and> (0 \<le> x \<longrightarrow> 0 \<le> r)"
proof (cases "x = 0")
  case False
  then have pos: "0 < \<bar>x\<bar>" by simp
  define e1 where "e1 = max (ilog2_rat \<bar>x\<bar> - 23) (- 149)"
  have u: "f32_ulp x = 2 powi e1"
    by (simp add: f32_ulp_def e1_def)
  have "2 powi ilog2_rat \<bar>x\<bar> \<le> \<bar>x\<bar>"
    by (rule ilog2_rat_bounds[OF pos])
  also have "\<dots> \<le> of_int k * 2 powi e"
    by (rule x)
  also have "\<dots> < 2 ^ 24 * 2 powi e"
  proof (rule mult_strict_right_mono)
    show "(of_int k :: rat) < 2 ^ 24"
      using k by (metis of_int_less_iff of_int_numeral of_int_power)
  qed simp
  also have "\<dots> = 2 powi (24 + e)"
    by (simp add: power_int_add)
  finally have "ilog2_rat \<bar>x\<bar> < 24 + e"
    by (metis linorder_not_less one_le_numeral power_int_increasing)
  with e have e1: "e1 \<le> e"
    by (simp add: e1_def)
  define N where "N = k * 2 ^ nat (e - e1)"
  have N: "of_int N * f32_ulp x = of_int k * 2 powi e"
  proof -
    have "(2::rat) powi e = 2 ^ nat (e - e1) * 2 powi e1"
      using e1 by (simp add: power_int_def[of 2 "e - e1", symmetric] power_int_add[symmetric] flip: power_int_of_nat)
    then show ?thesis
      by (simp add: N_def u)
  qed
  have q: "\<bar>x / f32_ulp x\<bar> \<le> of_int N"
  proof -
    have "\<bar>x / f32_ulp x\<bar> = \<bar>x\<bar> / f32_ulp x"
      by (simp add: abs_divide less_imp_le)
    also have "\<dots> \<le> of_int N"
      using x N by (simp add: pos_divide_le_eq)
    finally show ?thesis .
  qed
  let ?n = "round_half_even (x / f32_ulp x)"
  have "x / f32_ulp x \<le> of_int N" "of_int (- N) \<le> x / f32_ulp x"
    using q unfolding of_int_minus by linarith+
  then have "?n \<le> N" "- N \<le> ?n"
    by (simp_all only: round_half_even_le round_half_even_ge)
  then have "\<bar>of_int ?n :: rat\<bar> \<le> of_int N"
    by linarith
  then have r: "\<bar>of_int ?n * f32_ulp x\<bar> \<le> of_int k * 2 powi e"
    unfolding N[symmetric] by (simp add: abs_mult less_imp_le mult_right_mono)
  moreover have "0 \<le> of_int ?n * f32_ulp x" if "0 \<le> x"
    using round_half_even_ge[of 0 "x / f32_ulp x"] that by (simp add: less_imp_le)
  ultimately show ?thesis
    using False b by (auto simp: f32_round_def Let_def)
qed (use x in \<open>simp add: f32_round_def\<close>)

text \<open>The two uses: bounds that are small integers, and the absence of overflow.\<close>

lemma f32_round_bound_int:
  assumes "\<bar>x\<bar> \<le> of_int k" "k < 2 ^ 24"
  shows "\<exists>r. f32_round x = Fin r \<and> \<bar>r\<bar> \<le> of_int k \<and> (0 \<le> x \<longrightarrow> 0 \<le> r)"
proof -
  have "(of_int k :: rat) \<le> of_int (2 ^ 24)"
    using assms(2) by (simp only: of_int_le_iff)
  then have "of_int k \<le> F32_MAX"
    by (simp add: F32_MAX_def)
  then show ?thesis
    using f32_round_bound[of x k 0] assms by simp
qed

lemma f32_round_no_overflow:
  assumes "\<bar>x\<bar> \<le> 2 ^ 127"
  shows "\<exists>r. f32_round x = Fin r \<and> \<bar>r\<bar> \<le> 2 ^ 127 \<and> (0 \<le> x \<longrightarrow> 0 \<le> r)"
  using f32_round_bound[of x 1 127] assms by (simp add: F32_MAX_def)

lemma f32_round_not_NaN [simp]: "f32_round x \<noteq> NaN"
  by (simp add: f32_round_def Let_def)

text \<open>Normal values are rounded with relative error at most \<open>2 ^ (-24)\<close>.\<close>

lemma f32_round_Fin_error:
  assumes "f32_round x = Fin r" "2 powi (- 126) \<le> \<bar>x\<bar>"
  shows "\<bar>r - x\<bar> \<le> \<bar>x\<bar> / 2 ^ 24"
proof -
  have pos: "0 < \<bar>x\<bar>"
    using assms(2) by (rule less_le_trans[rotated]) simp
  then have r: "r = of_int (round_half_even (x / f32_ulp x)) * f32_ulp x"
    using assms(1) by (auto simp: f32_round_def Let_def split: if_splits)
  have "r - x = (of_int (round_half_even (x / f32_ulp x)) - x / f32_ulp x) * f32_ulp x"
    using f32_ulp_pos[of x] unfolding r by (simp add: left_diff_distrib less_imp_neq[symmetric])
  then have "\<bar>r - x\<bar> = \<bar>of_int (round_half_even (x / f32_ulp x)) - x / f32_ulp x\<bar> * f32_ulp x"
    by (simp add: abs_mult less_imp_le)
  also have "\<dots> \<le> 1 / 2 * f32_ulp x"
    by (intro mult_right_mono round_half_even_error) (simp add: less_imp_le)
  also have "f32_ulp x \<le> \<bar>x\<bar> / 2 ^ 23"
  proof -
    have "(2 :: rat) powi (- 126) < 2 powi (ilog2_rat \<bar>x\<bar> + 1)"
      using assms(2) ilog2_rat_bounds(2)[OF pos] by simp
    then have "- 126 < ilog2_rat \<bar>x\<bar> + 1"
      using power_int_increasing[of "ilog2_rat \<bar>x\<bar> + 1" "- 126" "2 :: rat"] by linarith
    then have "f32_ulp x = 2 powi (ilog2_rat \<bar>x\<bar>) / 2 ^ 23"
      by (simp add: f32_ulp_def power_int_diff)
    then show ?thesis
      using ilog2_rat_bounds(1)[OF pos] by (simp add: divide_right_mono)
  qed
  finally show ?thesis by simp
qed

text \<open>Rounding a given value: the integer nearest to it in units of its last place.\<close>

lemma ilog2_unique:
  assumes "2 powi k \<le> x" "x < 2 powi (k + 1)"
  shows "ilog2_rat x = k"
proof -
  have "0 < (2 :: rat) powi k"
    by simp
  with assms(1) have "0 < x"
    by (rule less_le_trans[rotated])
  note b = ilog2_rat_bounds[OF this]
  have "(2::rat) powi k < 2 powi (ilog2_rat x + 1)" "(2::rat) powi (ilog2_rat x) < 2 powi (k + 1)"
    using assms b by simp_all
  then have "k < ilog2_rat x + 1" "ilog2_rat x < k + 1"
    by (metis linorder_not_less one_le_numeral power_int_increasing)+
  then show ?thesis by simp
qed

lemma f32_round_at:
  assumes "2 ^ 23 * 2 powi e \<le> x" "x < 2 ^ 24 * 2 powi e" "- 149 \<le> e"
    and "\<bar>x / 2 powi e - of_int n\<bar> < 1 / 2" "\<bar>of_int n * 2 powi e\<bar> \<le> F32_MAX"
  shows "f32_round x = Fin (of_int n * 2 powi e)"
proof -
  have pos: "0 < (2 :: rat) ^ 23 * 2 powi e"
    by simp
  with assms(1) have x: "0 < x"
    by (rule less_le_trans[rotated])
  have "2 powi (23 + e) \<le> x" "x < 2 powi (23 + e + 1)"
    using assms(1,2) by (simp_all add: power_int_add)
  then have "ilog2_rat \<bar>x\<bar> = 23 + e"
    using x by (simp add: ilog2_unique)
  then have "f32_ulp x = 2 powi e"
    using assms(3) by (simp add: f32_ulp_def max_def)
  moreover from this have "round_half_even (x / f32_ulp x) = n"
    using assms(4) by (intro round_half_even_unique) simp
  ultimately show ?thesis
    using assms(5) x by (simp add: f32_round_def Let_def)
qed

lemma f32_round_lit:
  assumes "2 ^ 23 \<le> x * 2 ^ m" "x * 2 ^ m < 2 ^ 24" "m \<le> 149" "\<bar>x * 2 ^ m - of_int n\<bar> < 1 / 2"
  shows "f32_round x = Fin (of_int n / 2 ^ m)"
proof -
  define u where "u = (2 :: rat) ^ m"
  have u: "1 \<le> u" "2 powi (- int m) = 1 / u" "0 < u"
    by (simp_all add: u_def power_int_minus field_simps)
  have "\<bar>of_int n\<bar> \<le> (2 :: rat) ^ 25"
    using assms(1,2,4) unfolding abs_le_iff abs_less_iff u_def[symmetric] by simp
  then have "\<bar>of_int n\<bar> / u \<le> 2 ^ 25 / 1"
    using u by (intro frac_le) simp_all
  also have "\<dots> \<le> F32_MAX"
    by (simp add: F32_MAX_def)
  finally have "\<bar>of_int n * 2 powi (- int m)\<bar> \<le> F32_MAX"
    using u by simp
  moreover have "2 ^ 23 * 2 powi (- int m) \<le> x" "x < 2 ^ 24 * 2 powi (- int m)"
    using assms(1,2) u(3) unfolding u(2) u_def[symmetric] by (simp_all add: field_simps)
  moreover have "x / 2 powi (- int m) = x * u"
    using u by simp
  ultimately have "f32_round x = Fin (of_int n * 2 powi (- int m))"
    using assms(3,4) by (intro f32_round_at) (simp_all add: u_def)
  then show ?thesis
    by (simp add: u(2)) (simp add: u_def)
qed

section \<open>Ranges\<close>

text \<open>A value between two finite bounds; it is neither a NaN nor an infinity.\<close>

definition in_range :: "rat \<Rightarrow> rat \<Rightarrow> f32 \<Rightarrow> bool" where
  "in_range lo hi x = (fle (Fin lo) x \<and> fle x (Fin hi))"

lemma in_range_iff: "in_range lo hi x \<longleftrightarrow> (\<exists>a. x = Fin a \<and> lo \<le> a \<and> a \<le> hi)"
  by (cases x) (auto simp: in_range_def)

lemma in_rangeE:
  assumes "in_range lo hi x"
  obtains a where "x = Fin a" "lo \<le> a" "a \<le> hi"
  using assms by (auto simp: in_range_iff)

lemma clamp_in_range:
  "x \<noteq> NaN \<Longrightarrow> lo \<le> hi \<Longrightarrow> in_range lo hi (f32_clamp x (Fin lo) (Fin hi))"
  by (cases x) (auto simp: f32_clamp_def Let_def in_range_iff)

lemma clamp_NaN [simp]: "f32_clamp NaN lo hi = NaN"
  by (cases lo; cases hi) (auto simp: f32_clamp_def Let_def)

text \<open>A value that is at least zero, an infinity perhaps.\<close>

fun nonneg :: "f32 \<Rightarrow> bool" where
  "nonneg (Fin a) = (0 \<le> a)"
| "nonneg (Infinite s) = (\<not> s)"
| "nonneg NaN = False"

lemma nonneg_round: "0 \<le> x \<Longrightarrow> nonneg (f32_round x)"
  using round_half_even_ge[of 0 "x / f32_ulp x"] f32_ulp_pos[of x]
  by (auto simp: f32_round_def Let_def less_imp_le)

lemma nonneg_fadd: "nonneg x \<Longrightarrow> nonneg y \<Longrightarrow> nonneg (fadd x y)"
  by (cases x; cases y) (auto intro: nonneg_round)

lemma nonneg_fmul_Fin: "nonneg x \<Longrightarrow> 0 < c \<Longrightarrow> nonneg (fmul x (Fin c))"
  by (cases x) (auto intro: nonneg_round)

lemma not_NaN_nonneg: "nonneg x \<Longrightarrow> x \<noteq> NaN"
  by auto

lemma NaN_absorbs [simp]:
  "fadd NaN x = NaN" "fadd x NaN = NaN" "fmul NaN x = NaN" "fmul x NaN = NaN"
  "fdiv NaN x = NaN" "fdiv x NaN = NaN" "fsub NaN x = NaN" "fsub x NaN = NaN"
  "fle NaN x = False" "fle x NaN = False" "flt NaN x = False" "flt x NaN = False"
  by (cases x; simp add: fsub_def)+

text \<open>Sums and products of finite values are not a NaN, though they may overflow.\<close>

lemma fmul_Fin_not_NaN: "a \<noteq> NaN \<Longrightarrow> c \<noteq> 0 \<Longrightarrow> fmul a (Fin c) \<noteq> NaN"
  by (cases a) auto

lemma fadd_Fin_not_NaN: "b \<noteq> NaN \<Longrightarrow> fadd (Fin a) b \<noteq> NaN"
  by (cases b) auto

lemma fsub_Fin_not_NaN: "x \<noteq> NaN \<Longrightarrow> fsub x (Fin b) \<noteq> NaN" "x \<noteq> NaN \<Longrightarrow> fsub (Fin b) x \<noteq> NaN"
  by (cases x; simp add: fsub_def)+

lemma is_finite_iff: "is_finite x \<longleftrightarrow> (\<exists>a. x = Fin a)"
  by (cases x) auto

section \<open>The square root\<close>

lemma isqrt_correct:
  assumes "0 \<le> n"
  shows "0 \<le> isqrt n \<and> isqrt n * isqrt n \<le> n \<and> n < (isqrt n + 1) * (isqrt n + 1)"
  using assms
proof (induction n rule: isqrt.induct)
  case (1 n)
  show ?case
  proof (cases "n = 0")
    case False
    let ?r = "isqrt (n div 4)"
    from False 1 have ih: "0 \<le> ?r" "?r * ?r \<le> n div 4" "n div 4 < (?r + 1) * (?r + 1)"
      by auto
    have "n div 4 + 1 \<le> (?r + 1) * (?r + 1)"
      using ih(3) by simp
    then have up: "n < 4 * ((?r + 1) * (?r + 1))"
      by linarith
    have lo: "4 * (?r * ?r) \<le> n"
      using ih(2) by linarith
    show ?thesis
      using False 1(2) ih(1) up lo
      by (simp add: isqrt.simps[of n] Let_def algebra_simps)
  qed (simp add: isqrt.simps)
qed

lemma isqrt_round_correct:
  assumes "0 \<le> q"
  shows "0 \<le> isqrt_round q"
    and "isqrt_round q = 0 \<or> (of_int (isqrt_round q) - 1 / 2) * (of_int (isqrt_round q) - 1 / 2) \<le> q"
    and "q \<le> (of_int (isqrt_round q) + 1 / 2) * (of_int (isqrt_round q) + 1 / 2)"
proof -
  define f n where "f = isqrt \<lfloor>q\<rfloor>" and "n = isqrt_round q"
  define mid where "mid = (of_int f + 1 / 2) * (of_int f + 1 / 2 :: rat)"
  have f: "0 \<le> f" "f * f \<le> \<lfloor>q\<rfloor>" "\<lfloor>q\<rfloor> < (f + 1) * (f + 1)"
    using isqrt_correct[of "\<lfloor>q\<rfloor>"] assms by (simp_all add: f_def)
  have "(of_int (f * f) :: rat) \<le> q" "q < (of_int ((f + 1) * (f + 1)) :: rat)"
    using f(2,3) by (simp_all only: le_floor_iff floor_less_iff)
  then have fq: "(of_int f :: rat) * of_int f \<le> q" "q < (of_int f + 1) * (of_int f + 1)"
    by simp_all
  have F: "(0::rat) \<le> of_int f"
    using f(1) by simp
  have cases: "n = f \<and> q \<le> mid \<or> n = f + 1 \<and> mid \<le> q"
    unfolding n_def isqrt_round_def Let_def f_def[symmetric] mid_def[symmetric] by auto
  then show "0 \<le> isqrt_round q"
    unfolding n_def[symmetric] using f(1) by auto
  have "(of_int f - 1 / 2) * (of_int f - 1 / 2) \<le> of_int f * (of_int f :: rat)" if "f \<noteq> 0"
  proof -
    have "(1::rat) \<le> of_int f" using f(1) that by simp
    then show ?thesis by (intro mult_mono) simp_all
  qed
  then show "isqrt_round q = 0 \<or> (of_int (isqrt_round q) - 1 / 2) * (of_int (isqrt_round q) - 1 / 2) \<le> q"
    unfolding n_def[symmetric] using cases fq(1) by (cases "f = 0") (auto simp: mid_def add.commute)
  have "(of_int f + 1) * (of_int f + 1) \<le> (of_int f + 1 + 1 / 2) * (of_int f + 1 + 1 / 2 :: rat)"
    using F by (intro mult_mono) simp_all
  then show "q \<le> (of_int (isqrt_round q) + 1 / 2) * (of_int (isqrt_round q) + 1 / 2)"
    unfolding n_def[symmetric] using cases fq(2) by (elim disjE) (auto simp: mid_def)
qed

lemma f32_sqrt_ulp_pos [simp]: "0 < f32_sqrt_ulp a"
  by (simp add: f32_sqrt_ulp_def)

lemma f32_sqrt_fin_nonneg: "0 \<le> a \<Longrightarrow> 0 \<le> f32_sqrt_fin a"
  using isqrt_round_correct(1)[of "a / (f32_sqrt_ulp a * f32_sqrt_ulp a)"]
  by (simp add: f32_sqrt_fin_def less_imp_le)

text \<open>The computed square root is within half a unit in the last place of the exact one.\<close>

lemma f32_sqrt_fin_correct:
  assumes "0 < a"
  shows "f32_sqrt_fin a = 0
       \<or> (f32_sqrt_fin a - f32_sqrt_ulp a / 2) * (f32_sqrt_fin a - f32_sqrt_ulp a / 2) \<le> a"
    and "a \<le> (f32_sqrt_fin a + f32_sqrt_ulp a / 2) * (f32_sqrt_fin a + f32_sqrt_ulp a / 2)"
proof -
  define u where "u = f32_sqrt_ulp a"
  define n where "n = isqrt_round (a / (u * u))"
  have u: "0 < u" "0 < u * u"
    by (simp_all add: u_def)
  have val: "f32_sqrt_fin a = of_int n * u"
    using assms by (simp add: f32_sqrt_fin_def n_def u_def)
  have sq: "(of_int n * u + c * u) * (of_int n * u + c * u) = (of_int n + c) * (of_int n + c) * (u * u)" for c
    by (simp only: distrib_right[symmetric] mult.assoc mult.left_commute)
  have "n = 0 \<or> (of_int n - 1 / 2) * (of_int n - 1 / 2) \<le> a / (u * u)"
    "a / (u * u) \<le> (of_int n + 1 / 2) * (of_int n + 1 / 2)"
    using isqrt_round_correct(2,3)[of "a / (u * u)"] assms u unfolding n_def by simp_all
  then have "n = 0 \<or> (of_int n - 1 / 2) * (of_int n - 1 / 2) * (u * u) \<le> a"
    "a \<le> (of_int n + 1 / 2) * (of_int n + 1 / 2) * (u * u)"
    using u(2) by (simp_all only: pos_le_divide_eq pos_divide_le_eq)
  then show "f32_sqrt_fin a = 0
       \<or> (f32_sqrt_fin a - f32_sqrt_ulp a / 2) * (f32_sqrt_fin a - f32_sqrt_ulp a / 2) \<le> a"
    "a \<le> (f32_sqrt_fin a + f32_sqrt_ulp a / 2) * (f32_sqrt_fin a + f32_sqrt_ulp a / 2)"
    unfolding val u_def[symmetric] using sq[of "- 1 / 2"] sq[of "1 / 2"] by auto
qed

end
