(* ===== verification/Debug_Overlay.thy ===== *)
theory Debug_Overlay
  imports Conditioner F32
begin

text \<open>
  The debug overlay for the client conditioner (\<open>src/crates/bevy-net-debug/src/lib.rs\<close>): its controls,
  its calibration and the texts it shows.  The overlay shares the conditioner handle with the transport
  and the application; every operation takes and returns the handle's \<open>control\<close>.  \<open>None\<close> is a panic.
  The layout of the panel and its colours are not modelled.
\<close>

section \<open>State\<close>

record overlay =
  ov_calibration :: rtt_calibration
  ov_observed_rtt :: "duration option"
  ov_target_rtt :: "duration option"
  ov_status :: string
  ov_elapsed :: duration
  ov_visible :: bool

definition ConditionerDebug_new :: overlay where
  "ConditionerDebug_new =
     \<lparr>ov_calibration = RttCalibration_default, ov_observed_rtt = None, ov_target_rtt = None, ov_status = [],
      ov_elapsed = 0, ov_visible = True\<rparr>"

fun config_error_text :: "conditioner_config_error \<Rightarrow> string" where
  "config_error_text ConditionerConfigError =
     ''packet loss must be finite and between 0 and 1; queue limits must be nonzero''"

section \<open>Operations\<close>

definition overlay_report_rtt :: "duration option \<Rightarrow> control \<Rightarrow> overlay \<Rightarrow> overlay option" where
  "overlay_report_rtt rtt c v =
     (case rtt of
        None \<Rightarrow> Some (v\<lparr>ov_calibration := RttCalibration_reset (ov_calibration v), ov_observed_rtt := None\<rparr>)
      | Some d \<Rightarrow>
          (let v1 = v\<lparr>ov_observed_rtt := Some d\<rparr>
           in if d = 0 then Some v1
              else case RttCalibration_observe_at (ov_calibration v1) (ov_elapsed v1) d (ConditionerHandle_is_active c) of
                None \<Rightarrow> None
              | Some k \<Rightarrow> Some (v1\<lparr>ov_calibration := k\<rparr>)))"

definition overlay_target_rtt :: "duration \<Rightarrow> control \<Rightarrow> overlay \<Rightarrow> bool \<times> control \<times> overlay" where
  "overlay_target_rtt target c v =
     (case RttCalibration_added_delay_for_target (ov_calibration v) target of
        None \<Rightarrow> (False, c, v\<lparr>ov_status := ''Measure baseline with Off first.''\<rparr>)
      | Some delay \<Rightarrow>
          (case ConditionerHandle_configure c ((ct_config c)\<lparr>cc_enabled := True, cc_latency := delay\<rparr>) of
             (Err e, c') \<Rightarrow> (False, c', v\<lparr>ov_status := config_error_text e\<rparr>)
           | (Ok _, c') \<Rightarrow> (True, c', v\<lparr>ov_target_rtt := Some target, ov_status := []\<rparr>)))"

definition overlay_disable :: "control \<Rightarrow> overlay \<Rightarrow> (control \<times> overlay) option" where
  "overlay_disable c v =
     (case (if ConditionerHandle_is_active c
            then RttCalibration_observe_at (ov_calibration v) (ov_elapsed v) 0 True
            else Some (ov_calibration v)) of
        None \<Rightarrow> None
      | Some k \<Rightarrow>
          (case ConditionerHandle_configure c ((ct_config c)\<lparr>cc_enabled := False\<rparr>) of
             (Err e, c') \<Rightarrow>
               Some (c', v\<lparr>ov_calibration := k, ov_status := config_error_text e, ov_target_rtt := None\<rparr>)
           | (Ok _, c') \<Rightarrow> Some (c', v\<lparr>ov_calibration := k, ov_target_rtt := None\<rparr>)))"

definition overlay_recalibrate :: "control \<Rightarrow> overlay \<Rightarrow> (control \<times> overlay) option" where
  "overlay_recalibrate c v =
     (case overlay_disable c v of
        None \<Rightarrow> None
      | Some (c', v1) \<Rightarrow>
          Some (c', v1\<lparr>ov_calibration := RttCalibration_reset (ov_calibration v1),
                       ov_status := ''Recalibrating with impairment off...''\<rparr>))"

definition overlay_advance_clock :: "duration \<Rightarrow> overlay \<Rightarrow> overlay" where
  "overlay_advance_clock elapsed v = v\<lparr>ov_elapsed := elapsed\<rparr>"

section \<open>Buttons\<close>

datatype overlay_action =
  ActOff | Target150 | Target300 | DelayDown | DelayUp | JitterDown | JitterUp | LossDown | LossUp | Outage | Calibrate

datatype interaction = Pressed | Hovered | NoInteraction

text \<open>Durations are added with a panic on overflow; the last case is \<open>unreachable!()\<close>.\<close>

fun adjust_config :: "overlay_action \<Rightarrow> conditioner_config \<Rightarrow> conditioner_config option" where
  "adjust_config DelayDown config = Some (config\<lparr>cc_latency := cc_latency config - from_millis 10\<rparr>)"
| "adjust_config DelayUp config =
     map_option (\<lambda>d. config\<lparr>cc_latency := min d (from_secs 5)\<rparr>) (dur_checked_add (cc_latency config) (from_millis 10))"
| "adjust_config JitterDown config = Some (config\<lparr>cc_jitter := cc_jitter config - from_millis 5\<rparr>)"
| "adjust_config JitterUp config =
     map_option (\<lambda>d. config\<lparr>cc_jitter := min d (from_secs 5)\<rparr>) (dur_checked_add (cc_jitter config) (from_millis 5))"
| "adjust_config LossDown config =
     Some (config\<lparr>cc_packet_loss := f32_max (fsub (cc_packet_loss config) (f32_round (1 / 100))) (Fin 0)\<rparr>)"
| "adjust_config LossUp config =
     Some (config\<lparr>cc_packet_loss := f32_min (fadd (cc_packet_loss config) (f32_round (1 / 100))) (Fin 1)\<rparr>)"
| "adjust_config _ config = None"

fun overlay_press :: "overlay_action \<Rightarrow> control \<Rightarrow> overlay \<Rightarrow> (control \<times> overlay) option" where
  "overlay_press ActOff c v = overlay_disable c v"
| "overlay_press Target150 c v = Some (snd (overlay_target_rtt (from_millis 150) c v))"
| "overlay_press Target300 c v = Some (snd (overlay_target_rtt (from_millis 300) c v))"
| "overlay_press Calibrate c v = overlay_recalibrate c v"
| "overlay_press Outage c v = Some (ConditionerHandle_outage c (from_secs 1), v)"
| "overlay_press action c v =
     (case adjust_config action ((ct_config c)\<lparr>cc_enabled := True\<rparr>) of
        None \<Rightarrow> None
      | Some config \<Rightarrow>
          (case ConditionerHandle_configure c config of
             (Err e, c') \<Rightarrow> Some (c', v\<lparr>ov_target_rtt := None, ov_status := config_error_text e\<rparr>)
           | (Ok _, c') \<Rightarrow> Some (c', v\<lparr>ov_target_rtt := None, ov_status := []\<rparr>)))"

text \<open>The buttons whose interaction changed this frame.\<close>

fun overlay_controls ::
  "(interaction \<times> overlay_action) list \<Rightarrow> control \<Rightarrow> overlay \<Rightarrow> (control \<times> overlay) option" where
  "overlay_controls [] c v = Some (c, v)"
| "overlay_controls ((interaction, action) # buttons) c v =
     (if interaction \<noteq> Pressed then overlay_controls buttons c v
      else case overlay_press action c v of
        None \<Rightarrow> None
      | Some (c', v') \<Rightarrow> overlay_controls buttons c' v')"

section \<open>The panel\<close>

datatype scroll_unit = LineUnit | PixelUnit

definition wheel_delta :: "(f32 \<times> scroll_unit) list \<Rightarrow> f32" where
  "wheel_delta events = foldl (\<lambda>acc (y, u). fadd acc (fmul y (if u = LineUnit then Fin 24 else Fin 1))) (Fin 0) events"

text \<open>A panel: its interaction, the heights of its content and of itself, its scale and its scroll position.\<close>

record overlay_panel =
  op_interaction :: interaction
  op_content_height :: f32
  op_height :: f32
  op_inverse_scale :: f32
  op_scroll :: f32

definition scroll_panel ::
  "overlay \<Rightarrow> (f32 \<times> scroll_unit) list \<Rightarrow> interaction list \<Rightarrow> overlay_panel list \<Rightarrow> overlay_panel list" where
  "scroll_panel v events buttons panels =
     (let delta = wheel_delta events in
      if \<not> ov_visible v \<or> feq delta (Fin 0) then panels
      else
        (let over_button = list_ex (\<lambda>i. i \<noteq> NoInteraction) buttons
         in map (\<lambda>p. if op_interaction p \<noteq> NoInteraction \<or> over_button
                     then (let limit = f32_max (fmul (fsub (op_content_height p) (op_height p)) (op_inverse_scale p)) (Fin 0)
                           in p\<lparr>op_scroll := f32_clamp (fsub (op_scroll p) delta) (Fin 0) limit\<rparr>)
                     else p) panels))"

definition millis :: "duration option \<Rightarrow> string" where
  "millis d =
     (case d of
        None \<Rightarrow> ''Measuring...''
      | Some d \<Rightarrow> format_fixed 1 (f64_round (as_secs_f64 d * 1000)) @ '' ms'')"

datatype overlay_metric =
    MBaseline | MObserved | MTarget | MDelay | MJitter | MLoss | MStatus | MNote
  | QueuePackets bool | QueueBytes bool | LossDrops bool | OutageDrops bool | OverflowDrops bool | TransitionDrops bool

definition shown_direction :: "control \<Rightarrow> bool \<Rightarrow> direction_stats" where
  "shown_direction c incoming = (if incoming then cs_incoming (ct_stats c) else cs_outgoing (ct_stats c))"

fun metric_text :: "control \<Rightarrow> overlay \<Rightarrow> overlay_metric \<Rightarrow> string" where
  "metric_text c v MBaseline = millis (rc_baseline (ov_calibration v))"
| "metric_text c v MObserved = millis (ov_observed_rtt v)"
| "metric_text c v MTarget = (case ov_target_rtt v of None \<Rightarrow> ''Custom / off'' | Some t \<Rightarrow> millis (Some t))"
| "metric_text c v MDelay = millis (Some (cc_latency (ct_config c)))"
| "metric_text c v MJitter = ''+/- '' @ millis (Some (cc_jitter (ct_config c)))"
| "metric_text c v MLoss = format_float 0 (fmul (cc_packet_loss (ct_config c)) (Fin 100)) @ ''%''"
| "metric_text c v MStatus =
     (if cs_outage_active (ct_stats c) then ''OUTAGE''
      else if cc_enabled (ct_config c) then ''ON'' else ''OFF'')"
| "metric_text c v MNote =
     (case (ov_target_rtt v, rc_baseline (ov_calibration v)) of
        (Some target, Some baseline) \<Rightarrow>
          if target < baseline then ''Target below baseline: no added delay.'' else ov_status v
      | _ \<Rightarrow> ov_status v)"
| "metric_text c v (QueuePackets i) = show_nat (ds_queued_packets (shown_direction c i))"
| "metric_text c v (QueueBytes i) = show_nat (ds_queued_bytes (shown_direction c i))"
| "metric_text c v (LossDrops i) = show_nat (ds_simulated_loss_drops (shown_direction c i))"
| "metric_text c v (OutageDrops i) = show_nat (ds_outage_drops (shown_direction c i))"
| "metric_text c v (OverflowDrops i) = show_nat (ds_overflow_drops (shown_direction c i))"
| "metric_text c v (TransitionDrops i) = show_nat (ds_transition_drops (shown_direction c i))"

text \<open>
  The texts of the panel as they are spawned, each with the metric that refreshes it, and its
  buttons, in order.
\<close>

definition PANEL_HELP :: string where
  "PANEL_HELP = ''Delay is added EACH way. Targets are approximate; polling and jitter affect RTT. Browser ICE/DTLS/SCTP establishment is not conditioned.''"

definition panel_header :: "(overlay_metric option \<times> string) list" where
  "panel_header = [(None, ''Network conditioner''), (Some MStatus, ''OFF'')]"

definition panel_cards :: "(overlay_metric option \<times> string) list" where
  "panel_cards =
     concat (map (\<lambda>(label, metric). [(None, label), (Some metric, ''--'')])
       [(''Baseline RTT'', MBaseline), (''Observed Renet RTT'', MObserved), (''Target RTT'', MTarget),
        (''Added delay / way'', MDelay), (''Jitter / way'', MJitter), (''Packet loss'', MLoss)])"

definition panel_table :: "(overlay_metric option \<times> string) list" where
  "panel_table =
     map (Pair None) [''Direction'', ''Packets'', ''Bytes'', ''Loss'', ''Outage'', ''Overflow'', ''Transition'']
     @ concat (map (\<lambda>(label, incoming). (None, label) # map (\<lambda>metric. (Some metric, ''0''))
         [QueuePackets incoming, QueueBytes incoming, LossDrops incoming,
          OutageDrops incoming, OverflowDrops incoming, TransitionDrops incoming])
       [(''Incoming'', True), (''Outgoing'', False)])"

definition panel_buttons :: "(string \<times> overlay_action) list list" where
  "panel_buttons =
     [[(''Off'', ActOff), (''~150 ms RTT'', Target150), (''~300 ms RTT'', Target300)],
      [(''Delay -10 ms'', DelayDown), (''Delay +10 ms'', DelayUp), (''Jitter -5 ms'', JitterDown), (''Jitter +5 ms'', JitterUp)],
      [(''Loss -1%'', LossDown), (''Loss +1%'', LossUp), (''Outage 1 s'', Outage), (''Recalibrate baseline'', Calibrate)]]"

definition spawn_panel :: "(overlay_metric option \<times> string) list" where
  "spawn_panel =
     panel_header @ panel_cards @ [(None, ''Queues and drops'')] @ panel_table @ [(Some MNote, [])]
     @ map (\<lambda>(label, _). (None, label)) (concat panel_buttons) @ [(None, PANEL_HELP)]"

text \<open>The display flag of the panel and its texts.\<close>

definition refresh_panel ::
  "control \<Rightarrow> overlay \<Rightarrow> (overlay_metric \<times> string) list \<Rightarrow> bool \<times> (overlay_metric \<times> string) list" where
  "refresh_panel c v texts =
     (ov_visible v, if \<not> ov_visible v then texts else map (\<lambda>(m, _). (m, metric_text c v m)) texts)"

text \<open>Every metric has one text of the panel, and every action one button.\<close>

lemma panel_metrics:
  "distinct (List.map_filter fst spawn_panel)" "length (List.map_filter fst spawn_panel) = 20"
  "metric \<in> set (List.map_filter fst spawn_panel)"
  by (cases metric;
      simp add: spawn_panel_def panel_header_def panel_cards_def panel_table_def panel_buttons_def List.map_filter_def; blast)+

lemma panel_actions:
  "distinct (map snd (concat panel_buttons))" "action \<in> set (map snd (concat panel_buttons))"
  by (cases action; simp add: panel_buttons_def)+

text \<open>The scroll position stays between zero and the hidden height of the panel.\<close>

lemma scroll_bounded:
  assumes "p \<in> set (scroll_panel v events buttons panels)" "p \<notin> set panels"
  shows "\<not> flt (op_scroll p) (Fin 0)
    \<and> \<not> flt (f32_max (fmul (fsub (op_content_height p) (op_height p)) (op_inverse_scale p)) (Fin 0)) (op_scroll p)"
proof -
  have limit: "\<not> flt (f32_max x (Fin 0)) (Fin 0)" for x by (cases x) (auto simp: f32_max_def)
  have clamp: "\<not> flt (f32_clamp w (Fin 0) hi) (Fin 0) \<and> \<not> flt hi (f32_clamp w (Fin 0) hi)" if "\<not> flt hi (Fin 0)" for w hi
    using that by (cases w; cases hi) (auto simp: f32_clamp_def Let_def)
  show ?thesis
    using assms clamp[OF limit] by (auto simp: scroll_panel_def Let_def split: if_splits)
qed

section \<open>Runs\<close>

text \<open>
  What the overlay is asked to do, and what the other owners of the handle do meanwhile: the
  application configures it, starts an outage or a session; an engine brings the statistics and the
  pending outage up to date.
\<close>

datatype overlay_op =
    OvFrame "(interaction \<times> overlay_action) list"
  | OvReport "duration option"
  | OvClock duration
  | OvTarget duration
  | OvDisable
  | OvRecalibrate
  | OvConfigure conditioner_config
  | OvOutage duration
  | OvResetSession
  | OvEngine conditioner_stats "duration option"

fun overlay_step :: "overlay_op \<Rightarrow> control \<Rightarrow> overlay \<Rightarrow> (control \<times> overlay) option" where
  "overlay_step (OvFrame buttons) c v = overlay_controls buttons c v"
| "overlay_step (OvReport rtt) c v = map_option (Pair c) (overlay_report_rtt rtt c v)"
| "overlay_step (OvClock t) c v = Some (c, overlay_advance_clock t v)"
| "overlay_step (OvTarget t) c v = Some (snd (overlay_target_rtt t c v))"
| "overlay_step OvDisable c v = overlay_disable c v"
| "overlay_step OvRecalibrate c v = overlay_recalibrate c v"
| "overlay_step (OvConfigure config) c v = Some (snd (ConditionerHandle_configure c config), v)"
| "overlay_step (OvOutage d) c v = Some (ConditionerHandle_outage c d, v)"
| "overlay_step OvResetSession c v = Some (ConditionerHandle_reset_session c, v)"
| "overlay_step (OvEngine stats pending) c v = Some (c\<lparr>ct_stats := stats, ct_pending_outage := pending\<rparr>, v)"

fun overlay_run :: "overlay_op list \<Rightarrow> control \<Rightarrow> overlay \<Rightarrow> (control \<times> overlay) option" where
  "overlay_run [] c v = Some (c, v)"
| "overlay_run (op # ops) c v =
     (case overlay_step op c v of None \<Rightarrow> None | Some (c', v') \<Rightarrow> overlay_run ops c' v')"

text \<open>A step that ends well: it keeps the property, or it panics where that is allowed.\<close>

definition ends_ok :: "(control \<Rightarrow> overlay \<Rightarrow> bool) \<Rightarrow> bool \<Rightarrow> (control \<times> overlay) option \<Rightarrow> bool" where
  "ends_ok I may_panic r = (case r of None \<Rightarrow> may_panic | Some (c, v) \<Rightarrow> I c v)"

lemma ends_ok_simps [simp]: "ends_ok I p (Some (c, v)) = I c v" "ends_ok I p None = p"
  by (simp_all add: ends_ok_def)

lemma ends_ok_bind:
  "ends_ok I p r \<Longrightarrow> (\<And>c v. I c v \<Longrightarrow> ends_ok I p (f c v))
    \<Longrightarrow> ends_ok I p (case r of None \<Rightarrow> None | Some (c, v) \<Rightarrow> f c v)"
  by (cases r) auto

text \<open>
  The contract of the overlay's operations: a property of handle and overlay that pressing a button
  and every other step keep is kept by a run.
\<close>

locale overlay_contract =
  fixes I :: "control \<Rightarrow> overlay \<Rightarrow> bool"
    and may_panic :: bool
    and allowed :: "overlay_op \<Rightarrow> bool"
  assumes press: "I c v \<Longrightarrow> ends_ok I may_panic (overlay_press a c v)"
    and other: "I c v \<Longrightarrow> allowed op \<Longrightarrow> (\<And>buttons. op \<noteq> OvFrame buttons) \<Longrightarrow> ends_ok I may_panic (overlay_step op c v)"
begin

lemma frame: "I c v \<Longrightarrow> ends_ok I may_panic (overlay_controls buttons c v)"
proof (induction buttons arbitrary: c v)
  case (Cons b buttons)
  then show ?case by (cases b) (auto intro!: ends_ok_bind press)
qed simp

lemma run: "I c v \<Longrightarrow> list_all allowed ops \<Longrightarrow> ends_ok I may_panic (overlay_run ops c v)"
proof (induction ops arbitrary: c v)
  case (Cons op ops)
  have "ends_ok I may_panic (overlay_step op c v)"
  proof (cases "\<exists>buttons. op = OvFrame buttons")
    case True
    then show ?thesis using frame[OF Cons.prems(1)] by auto
  next
    case False
    then show ?thesis using Cons.prems by (intro other) auto
  qed
  then show ?case using Cons by (auto intro!: ends_ok_bind)
qed simp

end

section \<open>The overlay configures only what the handle accepts\<close>

definition overlay_texts :: "string set" where
  "overlay_texts = {[], ''Measure baseline with Off first.'', ''Recalibrating with impairment off...''}"

definition config_ok :: "conditioner_config \<Rightarrow> bool" where
  "config_ok config \<longleftrightarrow> ConditionerConfig_validate config = Ok ()
     \<and> cc_latency config + from_millis 10 \<le> DURATION_MAX \<and> cc_jitter config + from_millis 10 \<le> DURATION_MAX"

definition overlay_ok :: "control \<Rightarrow> overlay \<Rightarrow> bool" where
  "overlay_ok c v \<longleftrightarrow> config_ok (ct_config c) \<and> ov_status v \<in> overlay_texts
     \<and> is_none_or (\<lambda>b. b \<le> DURATION_MAX) (rc_baseline (ov_calibration v))"

lemma loss_step_range:
  "\<exists>x. f32_round (1 / 100) = Fin x \<and> 0 \<le> x \<and> x \<le> 1"
  using f32_round_bound_int[of "1 / 100" 1] by auto

lemma loss_up_valid: "in_unit_range q \<Longrightarrow> in_unit_range (f32_min (fadd q (f32_round (1 / 100))) (Fin 1))"
proof (cases q)
  case (Fin a)
  assume "in_unit_range q"
  obtain x where x: "f32_round (1 / 100) = Fin x" "0 \<le> x" "x \<le> 1" using loss_step_range by blast
  with Fin \<open>in_unit_range q\<close> f32_round_bound_int[of "a + x" 2] show ?thesis
    by (auto simp: f32_min_def)
qed simp_all

lemma loss_down_valid: "in_unit_range q \<Longrightarrow> in_unit_range (f32_max (fsub q (f32_round (1 / 100))) (Fin 0))"
proof (cases q)
  case (Fin a)
  assume "in_unit_range q"
  obtain x where x: "f32_round (1 / 100) = Fin x" "0 \<le> x" "x \<le> 1" using loss_step_range by blast
  moreover have "\<bar>a - x\<bar> \<le> 1" using x Fin \<open>in_unit_range q\<close> by (simp add: abs_le_iff)
  ultimately show ?thesis
    using Fin f32_round_bound_int[of "a - x" 1] by (auto simp: f32_max_def fsub_def)
qed simp_all

lemma in_unit_finite: "in_unit_range q \<Longrightarrow> is_finite q"
  by (cases q) auto

lemma validate_iff:
  "ConditionerConfig_validate config = Ok () \<longleftrightarrow>
     in_unit_range (cc_packet_loss config) \<and> cc_max_queue_packets config \<noteq> 0 \<and> cc_max_queue_bytes config \<noteq> 0"
  using in_unit_finite by (auto simp: ConditionerConfig_validate_def)

text \<open>The configurations the overlay builds from one the handle accepts.\<close>

lemma config_ok_changes:
  assumes "config_ok config"
  shows "config_ok (config\<lparr>cc_enabled := b\<rparr>)" "d + from_millis 10 \<le> DURATION_MAX \<Longrightarrow> config_ok (config\<lparr>cc_enabled := b, cc_latency := d\<rparr>)"
  using assms by (simp_all add: config_ok_def validate_iff)

lemma adjust_ok:
  assumes "config_ok config" "a \<in> {DelayDown, DelayUp, JitterDown, JitterUp, LossDown, LossUp}"
  shows "\<exists>config'. adjust_config a config = Some config' \<and> config_ok config'"
  using assms loss_up_valid[of "cc_packet_loss config"] loss_down_valid[of "cc_packet_loss config"]
  by (auto simp: config_ok_def validate_iff dur_checked_add_def from_millis_def from_secs_def NANOS_def DURATION_MAX_def)

lemma configure_accepts:
  "config_ok config \<Longrightarrow> fst (ConditionerHandle_configure c config) = Ok ()
     \<and> ct_config (snd (ConditionerHandle_configure c config)) = config"
  by (simp add: ConditionerHandle_configure_def config_ok_def)

lemma overlay_ok_configure:
  assumes "overlay_ok c v" "config_ok config" "ov_status v' \<in> overlay_texts"
    "rc_baseline (ov_calibration v') = rc_baseline (ov_calibration v)"
  shows "overlay_ok (snd (ConditionerHandle_configure c config)) v'"
  using assms configure_accepts[OF assms(2), of c] by (simp add: overlay_ok_def)

lemma observe_total:
  assumes "is_none_or (\<lambda>b. b \<le> DURATION_MAX) (rc_baseline k)" "rtt \<le> DURATION_MAX"
  shows "\<exists>k'. RttCalibration_observe_at k now rtt active = Some k'
    \<and> is_none_or (\<lambda>b. b \<le> DURATION_MAX) (rc_baseline k') \<and> (active \<longrightarrow> rc_baseline k' = rc_baseline k)"
proof -
  have "\<exists>k'. RttCalibration_observe l rtt active = Some k'
      \<and> is_none_or (\<lambda>b. b \<le> DURATION_MAX) (rc_baseline k') \<and> (active \<longrightarrow> rc_baseline k' = rc_baseline k)"
    if "rc_baseline l = rc_baseline k" for l
    using that mul_f64_some[of "7 / 8" "the (rc_baseline k)"] mul_f64_some[of "1 / 8" rtt] assms
    by (cases "rc_baseline k") (auto simp: RttCalibration_observe_def dur_sat_add_def)
  note observe = this
  let ?l = "k\<lparr>rc_last_now := max now (rc_last_now k)\<rparr>"
  let ?k = "(if rc_was_active ?l \<and> \<not> active then ?l\<lparr>rc_resume_after := dur_sat_add (max now (rc_last_now k)) (from_secs 5)\<rparr>
             else ?l)\<lparr>rc_was_active := active\<rparr>"
  have "rc_baseline ?k = rc_baseline k" by simp
  from observe[OF this] this assms(1) show ?thesis
    unfolding RttCalibration_observe_at_def Let_def
    by (cases "rc_resume_after ?k \<le> max now (rc_last_now k)") (simp_all only: if_True if_False option.inject ex_simps simp_thms)
qed

lemma disable_ok:
  assumes "overlay_ok c v"
  shows "ends_ok overlay_ok False (overlay_disable c v)"
proof -
  obtain k where k: "(if ConditionerHandle_is_active c then RttCalibration_observe_at (ov_calibration v) (ov_elapsed v) 0 True
      else Some (ov_calibration v)) = Some k" "rc_baseline k = rc_baseline (ov_calibration v)"
    using assms observe_total[of "ov_calibration v" 0 "ov_elapsed v" True]
    by (cases "ConditionerHandle_is_active c") (auto simp: overlay_ok_def)
  have "config_ok ((ct_config c)\<lparr>cc_enabled := False\<rparr>)" using assms config_ok_changes by (simp add: overlay_ok_def)
  from configure_accepts[OF this, of c] assms k show ?thesis
    using overlay_ok_configure[OF assms \<open>config_ok _\<close>, of "v\<lparr>ov_calibration := k, ov_target_rtt := None\<rparr>"]
    by (cases "ConditionerHandle_configure c ((ct_config c)\<lparr>cc_enabled := False\<rparr>)") (auto simp: overlay_disable_def overlay_ok_def)
qed

lemma recalibrate_ok: "overlay_ok c v \<Longrightarrow> ends_ok overlay_ok False (overlay_recalibrate c v)"
  using disable_ok[of c v]
  by (auto simp: overlay_recalibrate_def overlay_ok_def overlay_texts_def RttCalibration_reset_def ends_ok_def split: option.splits)

lemma target_ok:
  assumes "overlay_ok c v" "t + from_millis 20 \<le> 2 * DURATION_MAX"
  shows "ends_ok overlay_ok False (Some (snd (overlay_target_rtt t c v)))"
proof (cases "rc_baseline (ov_calibration v)")
  case None
  then show ?thesis using assms
    by (simp add: overlay_target_rtt_def RttCalibration_added_delay_for_target_def overlay_ok_def overlay_texts_def)
next
  case (Some b)
  let ?config = "(ct_config c)\<lparr>cc_enabled := True, cc_latency := (t - b) div 2\<rparr>"
  have "(t - b) div 2 + from_millis 10 \<le> DURATION_MAX" using assms(2) by (simp add: from_millis_def)
  then have ok: "config_ok ?config" using assms(1) config_ok_changes(2) by (simp add: overlay_ok_def)
  show ?thesis
    using configure_accepts[OF ok, of c] Some overlay_ok_configure[OF assms(1) ok, of "v\<lparr>ov_target_rtt := Some t, ov_status := []\<rparr>"]
    by (cases "ConditionerHandle_configure c ?config")
      (auto simp: overlay_target_rtt_def RttCalibration_added_delay_for_target_def overlay_texts_def)
qed

lemma press_ok:
  assumes "overlay_ok c v"
  shows "ends_ok overlay_ok False (overlay_press a c v)"
proof -
  have adjust: "ends_ok overlay_ok False (overlay_press a c v)"
    if a: "a \<in> {DelayDown, DelayUp, JitterDown, JitterUp, LossDown, LossUp}"
  proof -
    have "config_ok ((ct_config c)\<lparr>cc_enabled := True\<rparr>)" using assms config_ok_changes by (simp add: overlay_ok_def)
    from adjust_ok[OF this a] obtain config where config: "adjust_config a ((ct_config c)\<lparr>cc_enabled := True\<rparr>) = Some config" "config_ok config"
      by blast
    have "overlay_press a c v = (case adjust_config a ((ct_config c)\<lparr>cc_enabled := True\<rparr>) of
        None \<Rightarrow> None
      | Some config \<Rightarrow>
          (case ConditionerHandle_configure c config of
             (Err e, c') \<Rightarrow> Some (c', v\<lparr>ov_target_rtt := None, ov_status := config_error_text e\<rparr>)
           | (Ok _, c') \<Rightarrow> Some (c', v\<lparr>ov_target_rtt := None, ov_status := []\<rparr>)))"
      using a by auto
    with config configure_accepts[OF config(2), of c] show ?thesis
      using overlay_ok_configure[OF assms config(2), of "v\<lparr>ov_target_rtt := None, ov_status := []\<rparr>"]
      by (cases "ConditionerHandle_configure c config") (auto simp: overlay_texts_def)
  qed
  have "from_millis 150 + from_millis 20 \<le> 2 * DURATION_MAX" "from_millis 300 + from_millis 20 \<le> 2 * DURATION_MAX"
    by (simp_all add: from_millis_def DURATION_MAX_def NANOS_def)
  note target = this[THEN target_ok[OF assms]]
  show ?thesis
    using adjust disable_ok[OF assms] recalibrate_ok[OF assms] target assms
    by (cases a) (simp_all add: overlay_ok_def ConditionerHandle_outage_def)
qed

text \<open>Durations the program can represent, and configurations that leave the buttons room to add to.\<close>

fun representable :: "overlay_op \<Rightarrow> bool" where
  "representable (OvReport rtt) = is_none_or (\<lambda>d. d \<le> DURATION_MAX) rtt"
| "representable (OvTarget t) = (t \<le> DURATION_MAX)"
| "representable (OvConfigure config) =
     (cc_latency config + from_millis 10 \<le> DURATION_MAX \<and> cc_jitter config + from_millis 10 \<le> DURATION_MAX)"
| "representable _ = True"

lemma report_ok:
  assumes "overlay_ok c v" "is_none_or (\<lambda>d. d \<le> DURATION_MAX) rtt"
  shows "ends_ok overlay_ok False (map_option (Pair c) (overlay_report_rtt rtt c v))"
proof (cases rtt)
  case None
  then show ?thesis using assms by (simp add: overlay_report_rtt_def overlay_ok_def RttCalibration_reset_def)
next
  case (Some d)
  with assms have "is_none_or (\<lambda>b. b \<le> DURATION_MAX) (rc_baseline (ov_calibration v))" "d \<le> DURATION_MAX"
    by (simp_all add: overlay_ok_def)
  from observe_total[OF this] obtain k
    where "RttCalibration_observe_at (ov_calibration v) (ov_elapsed v) d (ConditionerHandle_is_active c) = Some k"
      "is_none_or (\<lambda>b. b \<le> DURATION_MAX) (rc_baseline k)"
    by blast
  with assms Some show ?thesis by (simp add: overlay_report_rtt_def overlay_ok_def Let_def)
qed

interpretation overlay_sound: overlay_contract overlay_ok False representable
proof
  fix c v a
  assume "overlay_ok c v"
  then show "ends_ok overlay_ok False (overlay_press a c v)" by (rule press_ok)
next
  fix c v op
  assume I: "overlay_ok c v" and op: "representable op" and not_frame: "\<And>buttons. op \<noteq> OvFrame buttons"
  then show "ends_ok overlay_ok False (overlay_step op c v)"
  proof (cases op)
    case (OvTarget t)
    then have "t + from_millis 20 \<le> 2 * DURATION_MAX" using op by (simp add: from_millis_def DURATION_MAX_def NANOS_def)
    from target_ok[OF I this] OvTarget show ?thesis by simp
  next
    case (OvConfigure config)
    have "overlay_ok (snd (ConditionerHandle_configure c config)) v"
    proof (cases "ConditionerConfig_validate config")
      case (Inl e)
      then show ?thesis using I by (simp add: ConditionerHandle_configure_def)
    next
      case (Inr u)
      then have "config_ok config" using op OvConfigure by (simp add: config_ok_def)
      then show ?thesis using I by (intro overlay_ok_configure[of c v]) (auto simp: overlay_ok_def)
    qed
    with OvConfigure show ?thesis by simp
  qed (use I op not_frame report_ok disable_ok recalibrate_ok in
      \<open>auto simp: overlay_ok_def overlay_advance_clock_def ConditionerHandle_outage_def ConditionerHandle_reset_session_def\<close>)
qed

section \<open>Recalibration waits for the line to settle\<close>

text \<open>
  From time \<open>t\<close> on: no baseline, and either conditioning was still on at the last sample or the next
  baseline is due five seconds after \<open>t\<close> at the earliest.
\<close>

definition waits_from :: "duration \<Rightarrow> overlay \<Rightarrow> bool" where
  "waits_from t v \<longleftrightarrow>
     rc_baseline (ov_calibration v) = None \<and> ov_elapsed v < dur_sat_add t (from_secs 5)
     \<and> t \<le> rc_last_now (ov_calibration v) \<and> rc_last_now (ov_calibration v) < dur_sat_add t (from_secs 5)
     \<and> (rc_was_active (ov_calibration v) \<or> dur_sat_add t (from_secs 5) \<le> rc_resume_after (ov_calibration v))"

lemma waits_observe:
  assumes "waits_from t v" "RttCalibration_observe_at (ov_calibration v) (ov_elapsed v) rtt active = Some k"
  shows "waits_from t (v\<lparr>ov_calibration := k\<rparr>)"
proof -
  let ?now = "max (ov_elapsed v) (rc_last_now (ov_calibration v))"
  have "t \<le> ?now" "?now < dur_sat_add t (from_secs 5)"
    using assms by (auto simp: waits_from_def)
  moreover from this have "dur_sat_add t (from_secs 5) \<le> dur_sat_add ?now (from_secs 5)"
    by (simp add: dur_sat_add_def)
  ultimately show ?thesis
    using assms by (auto simp: RttCalibration_observe_at_def RttCalibration_observe_def waits_from_def Let_def split: if_splits)
qed

lemma waits_frame:
  "waits_from t (v\<lparr>ov_observed_rtt := a\<rparr>) = waits_from t v" "waits_from t (v\<lparr>ov_target_rtt := b\<rparr>) = waits_from t v"
  "waits_from t (v\<lparr>ov_status := s\<rparr>) = waits_from t v"
  "waits_from t (v\<lparr>ov_calibration := RttCalibration_reset (ov_calibration v)\<rparr>) = waits_from t v" if "waits_from t v"
  using that by (simp_all add: waits_from_def RttCalibration_reset_def)

fun clock_before :: "duration \<Rightarrow> overlay_op \<Rightarrow> bool" where
  "clock_before t (OvClock x) = (x < t)"
| "clock_before t _ = True"

lemma waits_disable: "waits_from t v \<Longrightarrow> ends_ok (\<lambda>_. waits_from t) True (overlay_disable c v)"
  using waits_observe[of t v 0 True]
  by (auto simp: overlay_disable_def ends_ok_def waits_frame waits_from_def split: option.splits sum.splits prod.splits if_splits)

lemma waits_recalibrate: "waits_from t v \<Longrightarrow> ends_ok (\<lambda>_. waits_from t) True (overlay_recalibrate c v)"
  using waits_disable[of t v c]
  by (auto simp: overlay_recalibrate_def ends_ok_def waits_frame RttCalibration_reset_def waits_from_def split: option.splits)

lemma waits_target: "waits_from t v \<Longrightarrow> ends_ok (\<lambda>_. waits_from t) True (Some (snd (overlay_target_rtt x c v)))"
  by (simp add: overlay_target_rtt_def RttCalibration_added_delay_for_target_def waits_from_def)

lemma waits_report: "waits_from t v \<Longrightarrow> ends_ok (\<lambda>_. waits_from t) True (map_option (Pair c) (overlay_report_rtt rtt c v))"
  using waits_observe[of t "v\<lparr>ov_observed_rtt := rtt\<rparr>" "the rtt" "ConditionerHandle_is_active c"]
  by (auto simp: overlay_report_rtt_def ends_ok_def waits_frame Let_def split: option.splits)

lemma waits_press: "waits_from t v \<Longrightarrow> ends_ok (\<lambda>_. waits_from t) True (overlay_press a c v)"
  using waits_disable[of t v c] waits_recalibrate[of t v c] waits_target[of t v _ c]
  by (cases a) (auto simp: waits_frame split: option.splits sum.splits prod.splits)

lemma waits_clock:
  "waits_from t v \<Longrightarrow> x < dur_sat_add t (from_secs 5) \<Longrightarrow> waits_from t (overlay_advance_clock x v)"
  by (simp add: waits_from_def overlay_advance_clock_def)

interpretation overlay_waits: overlay_contract "\<lambda>_. waits_from t" True "clock_before (dur_sat_add t (from_secs 5))" for t
proof
  fix c :: control and v a
  assume "waits_from t v"
  then show "ends_ok (\<lambda>_. waits_from t) True (overlay_press a c v)" by (rule waits_press)
next
  fix c :: control and v op
  assume I: "waits_from t v" and op: "clock_before (dur_sat_add t (from_secs 5)) op" and nf: "\<And>buttons. op \<noteq> OvFrame buttons"
  then show "ends_ok (\<lambda>_. waits_from t) True (overlay_step op c v)"
    using waits_target[OF I, of _ c] waits_report[OF I, of c] waits_disable[OF I, of c] waits_recalibrate[OF I, of c]
    by (cases op) (auto simp: waits_clock)
qed

lemma recalibrate_starts_wait:
  assumes "ConditionerHandle_is_active c"
    "t = max (ov_elapsed v) (rc_last_now (ov_calibration v))" "t < DURATION_MAX"
  shows "ends_ok (\<lambda>_. waits_from t) True (overlay_recalibrate c v)"
proof -
  have "t < dur_sat_add t (from_secs 5)" using assms(3) by (simp add: dur_sat_add_def from_secs_def NANOS_def)
  with assms(2) have t: "t < dur_sat_add t (from_secs 5)" "ov_elapsed v < dur_sat_add t (from_secs 5)" by simp_all
  then show ?thesis
    using assms by (auto simp: overlay_recalibrate_def overlay_disable_def ends_ok_def waits_from_def RttCalibration_reset_def
        RttCalibration_observe_at_def RttCalibration_observe_def Let_def max_def split: option.splits sum.splits prod.splits if_splits)
qed

text \<open>
  C15: Recalibration never takes a conditioned sample for the baseline.  From the moment the overlay
  is told to recalibrate while conditioning or an outage is active, no sequence of button presses,
  reported round trips, target requests, configurations of the shared handle, outages or session
  resets gives a baseline before the overlay's clock is five seconds further.
\<close>

theorem recalibration_waits:
  assumes "overlay_ok c v" "ConditionerHandle_is_active c"
    "t = max (ov_elapsed v) (rc_last_now (ov_calibration v))" "t < DURATION_MAX"
    "list_all representable ops" "list_all (clock_before (dur_sat_add t (from_secs 5))) ops"
  shows "\<exists>c' v'. overlay_run (OvRecalibrate # ops) c v = Some (c', v')
    \<and> rc_baseline (ov_calibration v') = None \<and> metric_text c' v' MBaseline = ''Measuring...''"
proof -
  have "ends_ok (\<lambda>_. waits_from t) True (overlay_run (OvRecalibrate # ops) c v)"
    using recalibrate_starts_wait[OF assms(2-4)] overlay_waits.run[OF _ assms(6)]
    by (auto intro!: ends_ok_bind[of "\<lambda>_. waits_from t"])
  moreover have "ends_ok overlay_ok False (overlay_run (OvRecalibrate # ops) c v)"
    using assms(1,5) by (intro overlay_sound.run) simp_all
  ultimately show ?thesis by (auto simp: ends_ok_def waits_from_def millis_def split: option.splits)
qed

text \<open>Two seconds after a recalibration from a target, a sample and a press of a button.\<close>

theorem recalibration_waits_witness:
  "\<exists>c' v'. overlay_run [OvRecalibrate, OvClock (from_secs 3), OvReport (Some (from_millis 300)), OvFrame [(Pressed, Target150)]]
      \<lparr>ct_config = ConditionerConfig_default\<lparr>cc_enabled := True, cc_latency := from_millis 130\<rparr>, ct_stats = ConditionerStats_default,
       ct_revision = 1, ct_pending_outage = None\<rparr>
      (ConditionerDebug_new\<lparr>ov_elapsed := from_secs 1\<rparr>) = Some (c', v')
    \<and> rc_baseline (ov_calibration v') = None \<and> metric_text c' v' MBaseline = ''Measuring...''"
  by (rule recalibration_waits[where t = "from_secs 1"])
    (simp_all add: overlay_ok_def config_ok_def validate_iff overlay_texts_def ConditionerConfig_default_def
      ConditionerDebug_new_def RttCalibration_default_def ConditionerHandle_is_active_def dur_sat_add_def
      from_secs_def from_millis_def DURATION_MAX_def NANOS_def)



end
