(* ===== verification/Sim_Shared.thy ===== *)
theory Sim_Shared
  imports F32
begin

text \<open>
  The simulation crate shared by the example client and server (\<open>examples/shared/src/lib.rs\<close>): the
  messages of the game protocol and the reference simulation with its tick.  Hash maps are association
  lists, words wrap (the unchecked additions of the source wrap in a release build), and every
  floating-point expression is evaluated in single precision as written.
\<close>

unbundle bit_operations_syntax

section \<open>Constants\<close>

definition TICK_RATE_HZ :: u32 where
  "TICK_RATE_HZ = 30"

text \<open>A literal of the source, rounded to the nearest \<open>f32\<close>, and the conversion \<open>as f32\<close>.\<close>

definition lit :: "rat \<Rightarrow> f32" where
  "lit q = f32_round q"

definition u32_as_f32 :: "u32 \<Rightarrow> f32" where
  "u32_as_f32 w = f32_round (of_nat (unat w))"

definition FIXED_DT_SECONDS :: f32 where
  "FIXED_DT_SECONDS = fdiv (lit 1) (u32_as_f32 TICK_RATE_HZ)"

definition WORLD_WIDTH :: f32 where
  "WORLD_WIDTH = Fin 3000"

definition WORLD_HEIGHT :: f32 where
  "WORLD_HEIGHT = Fin 3000"

definition TARGET_PELLET_COUNT :: nat where
  "TARGET_PELLET_COUNT = 256"

definition BASE_PLAYER_MASS :: f32 where
  "BASE_PLAYER_MASS = Fin 12"

definition PELLET_MASS :: f32 where
  "PELLET_MASS = Fin 1"

definition PLAYER_CONSUME_RATIO :: f32 where
  "PLAYER_CONSUME_RATIO = lit (115 / 100)"

definition RESPAWN_TICKS :: u32 where
  "RESPAWN_TICKS = TICK_RATE_HZ * 2"

definition BASE_PLAYER_SPEED :: f32 where
  "BASE_PLAYER_SPEED = Fin 420"

section \<open>Messages and state\<close>

type_synonym vec2 = "f32 \<times> f32"
type_synonym vec3 = "f32 \<times> f32 \<times> f32"

datatype entity_kind = Player | Pellet

record entity_state =
  es_id :: u64
  es_kind :: entity_kind
  es_pos :: vec2
  es_vel :: vec2
  es_mass :: f32
  es_radius :: f32
  es_color :: vec3

record world_state =
  ws_tick :: u32
  ws_entities :: "entity_state list"

record client_input =
  ci_seq :: u32
  ci_move_dir :: vec2

datatype world_event =
    PelletConsumed u64 u64
  | PlayerConsumed u64 u64
  | PlayerRespawned u64

record join_snapshot_msg =
  js_you :: u64
  js_tick :: u32
  js_your_last_input_seq :: "u32 option"
  js_world :: world_state

record world_delta =
  wd_tick :: u32
  wd_your_last_input_seq :: "u32 option"
  wd_upserts :: "entity_state list"
  wd_removed :: "u64 list"
  wd_events :: "world_event list"

record respawn_entry =
  re_client_id :: u64
  re_at_tick :: u32

record sim_state =
  sim_tick :: u32
  sim_next_entity_id :: u64
  sim_rng_state :: u64
  sim_players :: "(u64 \<times> entity_state) list"
  sim_player_colors :: "(u64 \<times> vec3) list"
  sim_pellets :: "(u64 \<times> entity_state) list"
  sim_inputs :: "(u64 \<times> client_input) list"
  sim_respawn_queue :: "respawn_entry list"
  sim_snapshot_cache :: "(u64 \<times> entity_state) list"

text \<open>The derived \<open>PartialEq\<close> of an entity, field by field; it is not reflexive on a NaN.\<close>

fun vec2_eq :: "vec2 \<Rightarrow> vec2 \<Rightarrow> bool" where
  "vec2_eq (x, y) (x', y') = (feq x x' \<and> feq y y')"

fun vec3_eq :: "vec3 \<Rightarrow> vec3 \<Rightarrow> bool" where
  "vec3_eq (x, y, z) (x', y', z') = (feq x x' \<and> feq y y' \<and> feq z z')"

definition entity_eq :: "entity_state \<Rightarrow> entity_state \<Rightarrow> bool" where
  "entity_eq a b \<longleftrightarrow>
     es_id a = es_id b \<and> es_kind a = es_kind b \<and> vec2_eq (es_pos a) (es_pos b)
     \<and> vec2_eq (es_vel a) (es_vel b) \<and> feq (es_mass a) (es_mass b)
     \<and> feq (es_radius a) (es_radius b) \<and> vec3_eq (es_color a) (es_color b)"

section \<open>Arithmetic helpers\<close>

definition is_newer_input_seq :: "u32 \<Rightarrow> u32 \<Rightarrow> bool" where
  "is_newer_input_seq candidate latest =
     (let delta = candidate - latest in delta \<noteq> 0 \<and> delta < 0xFFFFFFFF div 2)"

definition radius_from_mass :: "f32 \<Rightarrow> f32" where
  "radius_from_mass mass = fmul (f32_sqrt mass) (lit (22 / 10))"

definition normalize_f32 :: "vec2 \<Rightarrow> vec2" where
  "normalize_f32 v =
     (let len = f32_sqrt (fadd (fmul (fst v) (fst v)) (fmul (snd v) (snd v)))
      in if fle len F32_EPSILON then (Fin 0, Fin 0) else (fdiv (fst v) len, fdiv (snd v) len))"

definition distance_sq :: "vec2 \<Rightarrow> vec2 \<Rightarrow> f32" where
  "distance_sq a b =
     (let dx = fsub (fst a) (fst b); dy = fsub (snd a) (snd b) in fadd (fmul dx dx) (fmul dy dy))"

definition clamp_axis :: "f32 \<Rightarrow> f32 \<Rightarrow> f32" where
  "clamp_axis value mx = f32_clamp value (Fin 0) mx"

definition TAU_F32 :: f32 where
  "TAU_F32 = lit (628318530717958647692528676655900577 / 10 ^ 35)"

definition spawn_point_from_id :: "f32_math \<Rightarrow> u64 \<Rightarrow> vec2" where
  "spawn_point_from_id fm eid =
     (let center_x = fmul WORLD_WIDTH (lit (1 / 2)); center_y = fmul WORLD_HEIGHT (lit (1 / 2));
          angle_seed = fdiv (f32_round (of_nat (unat (eid * 1103515245 + 12345) mod 10000))) (Fin 10000);
          radius_seed = fdiv (f32_round (of_nat (unat (eid * 214013 + 2531011) mod 10000))) (Fin 10000);
          angle = fmul angle_seed TAU_F32;
          radius = fadd (Fin 120) (fmul radius_seed (Fin 260))
      in (fadd center_x (fmul (m_cos fm angle) radius), fadd center_y (fmul (m_sin fm angle) radius)))"

definition hsv_to_rgb :: "f32 \<Rightarrow> f32 \<Rightarrow> f32 \<Rightarrow> vec3" where
  "hsv_to_rgb hue s v =
     (let h = fdiv (f32_rem_euclid hue (Fin 360)) (Fin 60);
          c = fmul v s;
          x = fmul c (fsub (Fin 1) (f32_abs (fsub (frem h (Fin 2)) (Fin 1))));
          (r1, g1, b1) =
            (if flt h (Fin 1) then (c, x, Fin 0)
             else if flt h (Fin 2) then (x, c, Fin 0)
             else if flt h (Fin 3) then (Fin 0, c, x)
             else if flt h (Fin 4) then (Fin 0, x, c)
             else if flt h (Fin 5) then (x, Fin 0, c)
             else (c, Fin 0, x));
          m = fsub v c
      in (fadd r1 m, fadd g1 m, fadd b1 m))"

text \<open>The generator: a step of the congruence and its upper half.\<close>

definition rand_u32 :: "u64 \<Rightarrow> u32 \<times> u64" where
  "rand_u32 rng = (let rng' = rng * 6364136223846793005 + 1 in (ucast (drop_bit 32 rng'), rng'))"

definition rand_range :: "f32 \<Rightarrow> f32 \<Rightarrow> u64 \<Rightarrow> f32 \<times> u64" where
  "rand_range mn mx rng =
     (let (w, rng') = rand_u32 rng; t = fdiv (u32_as_f32 w) (u32_as_f32 0xFFFFFFFF)
      in (fadd mn (fmul (fsub mx mn) t), rng'))"

section \<open>Operations of the simulation\<close>

definition Simulation_new :: "u64 \<Rightarrow> sim_state" where
  "Simulation_new seed =
     \<lparr>sim_tick = 0, sim_next_entity_id = 1000000, sim_rng_state = max seed 1, sim_players = [],
      sim_player_colors = [], sim_pellets = [], sim_inputs = [], sim_respawn_queue = [],
      sim_snapshot_cache = []\<rparr>"

definition generate_player_color :: "sim_state \<Rightarrow> vec3 \<times> sim_state" where
  "generate_player_color s =
     (let (hue, rng) = rand_range (Fin 0) (Fin 360) (sim_rng_state s)
      in (hsv_to_rgb hue (lit (72 / 100)) (lit (88 / 100)), s\<lparr>sim_rng_state := rng\<rparr>))"

definition ensure_player :: "f32_math \<Rightarrow> u64 \<Rightarrow> sim_state \<Rightarrow> sim_state" where
  "ensure_player fm client_id s =
     (if hm_contains (sim_players s) client_id then s
      else let spawn = spawn_point_from_id fm client_id;
               pos = (clamp_axis (fst spawn) WORLD_WIDTH, clamp_axis (snd spawn) WORLD_HEIGHT);
               (color, s1) =
                 (case hm_get (sim_player_colors s) client_id of
                    Some color \<Rightarrow> (color, s)
                  | None \<Rightarrow> let (color, s0) = generate_player_color s
                            in (color, s0\<lparr>sim_player_colors := hm_insert client_id color (sim_player_colors s0)\<rparr>))
           in s1\<lparr>sim_players := hm_insert client_id
                  \<lparr>es_id = client_id, es_kind = Player, es_pos = pos, es_vel = (Fin 0, Fin 0),
                   es_mass = BASE_PLAYER_MASS, es_radius = radius_from_mass BASE_PLAYER_MASS,
                   es_color = color\<rparr> (sim_players s1)\<rparr>)"

definition remove_player :: "u64 \<Rightarrow> sim_state \<Rightarrow> sim_state" where
  "remove_player client_id s =
     s\<lparr>sim_players := hm_remove client_id (sim_players s),
       sim_player_colors := hm_remove client_id (sim_player_colors s),
       sim_inputs := hm_remove client_id (sim_inputs s),
       sim_respawn_queue := filter (\<lambda>e. re_client_id e \<noteq> client_id) (sim_respawn_queue s)\<rparr>"

definition apply_input :: "u64 \<Rightarrow> client_input \<Rightarrow> sim_state \<Rightarrow> sim_state" where
  "apply_input client_id input s = s\<lparr>sim_inputs := hm_insert client_id input (sim_inputs s)\<rparr>"

definition world_state_of :: "sim_state \<Rightarrow> world_state" where
  "world_state_of s =
     \<lparr>ws_tick = sim_tick s,
      ws_entities = sort_key es_id (map snd (sim_players s) @ map snd (sim_pellets s))\<rparr>"

definition join_snapshot :: "f32_math \<Rightarrow> u64 \<Rightarrow> sim_state \<Rightarrow> join_snapshot_msg \<times> sim_state" where
  "join_snapshot fm client_id s =
     (let s1 = ensure_player fm client_id s
      in (\<lparr>js_you = client_id, js_tick = sim_tick s1,
           js_your_last_input_seq = map_option ci_seq (hm_get (sim_inputs s1) client_id),
           js_world = world_state_of s1\<rparr>, s1))"

definition handle_respawns :: "f32_math \<Rightarrow> sim_state \<times> world_event list \<Rightarrow> sim_state \<times> world_event list" where
  "handle_respawns fm = (\<lambda>(s, events).
     (let queue = sim_respawn_queue s;
          due = map re_client_id (filter (\<lambda>e. re_at_tick e \<le> sim_tick s) queue);
          pending = filter (\<lambda>e. \<not> re_at_tick e \<le> sim_tick s) queue;
          (s1, events1) =
            foldl (\<lambda>(s, ev) cid. (ensure_player fm cid s, ev @ [PlayerRespawned cid]))
              (s\<lparr>sim_respawn_queue := []\<rparr>, events) due
      in (s1\<lparr>sim_respawn_queue := pending\<rparr>, events1)))"

definition player_speed :: "f32 \<Rightarrow> f32" where
  "player_speed mass = fdiv BASE_PLAYER_SPEED (fadd (Fin 1) (fmul mass (lit (15 / 1000))))"

definition move_player :: "vec2 \<Rightarrow> entity_state \<Rightarrow> entity_state" where
  "move_player dir player =
     (let speed = player_speed (es_mass player);
          vel = (fmul (fst dir) speed, fmul (snd dir) speed)
      in player\<lparr>es_vel := vel,
                es_pos := (clamp_axis (fadd (fst (es_pos player)) (fmul (fst vel) FIXED_DT_SECONDS)) WORLD_WIDTH,
                           clamp_axis (fadd (snd (es_pos player)) (fmul (snd vel) FIXED_DT_SECONDS)) WORLD_HEIGHT)\<rparr>)"

definition update_player_movement :: "sim_state \<Rightarrow> sim_state" where
  "update_player_movement s =
     s\<lparr>sim_players := hm_map_values (\<lambda>client_id player.
         let dir = (case hm_get (sim_inputs s) client_id of
                      Some input \<Rightarrow> normalize_f32 (ci_move_dir input)
                    | None \<Rightarrow> (Fin 0, Fin 0))
         in move_player dir player) (sim_players s)\<rparr>"

definition pellet_in_reach :: "entity_state \<Rightarrow> entity_state \<Rightarrow> bool" where
  "pellet_in_reach player pellet =
     (let dist_sq = distance_sq (es_pos player) (es_pos pellet);
          max_dist = fadd (es_radius player) (es_radius pellet)
      in fle dist_sq (fmul max_dist max_dist))"

definition gain_mass :: "f32 \<Rightarrow> entity_state \<Rightarrow> entity_state" where
  "gain_mass gain e =
     (let mass = fadd (es_mass e) gain in e\<lparr>es_mass := mass, es_radius := radius_from_mass mass\<rparr>)"

definition consume_pellet :: "u64 \<Rightarrow> sim_state \<times> world_event list \<Rightarrow> u64 \<Rightarrow> sim_state \<times> world_event list" where
  "consume_pellet player_id = (\<lambda>(s, events) pellet_id.
     (case (hm_get (sim_pellets s) pellet_id, hm_get (sim_players s) player_id) of
        (Some _, Some player) \<Rightarrow>
          (s\<lparr>sim_pellets := hm_remove pellet_id (sim_pellets s),
             sim_players := hm_insert player_id (gain_mass PELLET_MASS player) (sim_players s)\<rparr>,
           events @ [PelletConsumed player_id pellet_id])
      | _ \<Rightarrow> (s, events)))"

definition consume_pellets_of :: "sim_state \<times> world_event list \<Rightarrow> u64 \<Rightarrow> sim_state \<times> world_event list" where
  "consume_pellets_of = (\<lambda>(s, events) player_id.
     (case hm_get (sim_players s) player_id of
        None \<Rightarrow> (s, events)
      | Some player \<Rightarrow>
          let consumed = map fst (filter (\<lambda>(_, pellet). pellet_in_reach player pellet) (sim_pellets s))
          in foldl (consume_pellet player_id) (s, events) consumed))"

definition consume_pellets :: "sim_state \<times> world_event list \<Rightarrow> sim_state \<times> world_event list" where
  "consume_pellets = (\<lambda>(s, events). foldl consume_pellets_of (s, events) (map fst (sim_players s)))"

text \<open>Whether two players overlap, and which of them eats the other: consumer, consumed, mass gained.\<close>

definition players_apart :: "vec2 \<Rightarrow> f32 \<Rightarrow> vec2 \<Rightarrow> f32 \<Rightarrow> bool" where
  "players_apart pos_a radius_a pos_b radius_b =
     (let dist_sq = distance_sq pos_a pos_b; max_dist = fmul (fadd radius_a radius_b) (lit (8 / 10))
      in flt (fmul max_dist max_dist) dist_sq)"

definition choose_consumer :: "f32 \<Rightarrow> f32 \<Rightarrow> (bool \<times> f32) option" where
  "choose_consumer mass_a mass_b =
     (if fle (fmul mass_b PLAYER_CONSUME_RATIO) mass_a then Some (True, fmul mass_b (lit (8 / 10)))
      else if fle (fmul mass_a PLAYER_CONSUME_RATIO) mass_b then Some (False, fmul mass_a (lit (8 / 10)))
      else None)"

definition consume_player_pair ::
  "sim_state \<times> u64 list \<times> world_event list \<Rightarrow> u64 \<times> u64 \<Rightarrow> sim_state \<times> u64 list \<times> world_event list" where
  "consume_player_pair = (\<lambda>(s, dead, events) (a_id, b_id).
     (if a_id \<in> set dead \<or> b_id \<in> set dead then (s, dead, events)
      else case (hm_get (sim_players s) a_id, hm_get (sim_players s) b_id) of
        (Some a, Some b) \<Rightarrow>
          if players_apart (es_pos a) (es_radius a) (es_pos b) (es_radius b) then (s, dead, events)
          else (case choose_consumer (es_mass a) (es_mass b) of
              None \<Rightarrow> (s, dead, events)
            | Some (a_wins, gain) \<Rightarrow>
                let consumer_id = (if a_wins then a_id else b_id);
                    consumed_id = (if a_wins then b_id else a_id);
                    players = (case hm_get (sim_players s) consumer_id of
                                 Some consumer \<Rightarrow> hm_insert consumer_id (gain_mass gain consumer) (sim_players s)
                               | None \<Rightarrow> sim_players s)
                in (s\<lparr>sim_players := hm_remove consumed_id players,
                      sim_inputs := hm_remove consumed_id (sim_inputs s),
                      sim_respawn_queue := sim_respawn_queue s @
                        [\<lparr>re_client_id = consumed_id, re_at_tick = sim_tick s + RESPAWN_TICKS\<rparr>]\<rparr>,
                    consumed_id # dead, events @ [PlayerConsumed consumer_id consumed_id]))
      | _ \<Rightarrow> (s, dead, events)))"

text \<open>The double loop over the indices \<open>i < j\<close>.\<close>

fun index_pairs :: "'a list \<Rightarrow> ('a \<times> 'a) list" where
  "index_pairs [] = []"
| "index_pairs (x # xs) = map (Pair x) xs @ index_pairs xs"

definition consume_players :: "sim_state \<times> world_event list \<Rightarrow> sim_state \<times> world_event list" where
  "consume_players = (\<lambda>(s, events).
     (let (s1, _, events1) =
            foldl consume_player_pair (s, [], events) (index_pairs (map fst (sim_players s)))
      in (s1, events1)))"

definition new_pellet :: "u64 \<Rightarrow> vec2 \<Rightarrow> entity_state" where
  "new_pellet eid pos =
     \<lparr>es_id = eid, es_kind = Pellet, es_pos = pos, es_vel = (Fin 0, Fin 0), es_mass = PELLET_MASS,
      es_radius = radius_from_mass PELLET_MASS,
      es_color = (lit (96 / 100), lit (76 / 100), lit (31 / 100))\<rparr>"

definition spawn_pellet :: "sim_state \<Rightarrow> sim_state" where
  "spawn_pellet s =
     (let eid = sim_next_entity_id s;
          (x, rng1) = rand_range (Fin 0) WORLD_WIDTH (sim_rng_state s);
          (y, rng2) = rand_range (Fin 0) WORLD_HEIGHT rng1
      in s\<lparr>sim_next_entity_id := eid + 1, sim_rng_state := rng2,
           sim_pellets := hm_insert eid (new_pellet eid (x, y)) (sim_pellets s)\<rparr>)"

text \<open>The loop that refills the pellets ends: a new identifier makes the map longer, and one that is in
  use comes one closer to the first identifier that is not.\<close>

definition ids_to_free :: "sim_state \<Rightarrow> nat" where
  "ids_to_free s = (LEAST k. sim_next_entity_id s + of_nat k \<notin> hm_keys (sim_pellets s))"

lemma card_hm_keys: "card (hm_keys m) \<le> length m"
  by (simp add: hm_keys_def card_length flip: set_map) (metis card_length length_map)

lemma free_id_exists:
  assumes "length m < 2 ^ 64"
  shows "\<exists>k. (n :: u64) + of_nat k \<notin> hm_keys m"
proof (rule ccontr)
  assume "\<not> ?thesis"
  then have "(\<lambda>k. n + of_nat k) ` {..<2 ^ 64} \<subseteq> hm_keys m"
    by auto
  then have "card ((\<lambda>k. n + of_nat k) ` {..<2 ^ 64 :: nat}) \<le> card (hm_keys m)"
    by (intro card_mono) (simp_all add: hm_keys_def)
  moreover have "inj_on (\<lambda>k. n + of_nat k) {..<2 ^ 64 :: nat}"
    by (rule inj_onI) (auto simp: word_of_nat_eq_iff take_bit_nat_eq_self)
  ultimately show False
    using assms card_hm_keys[of m] by (simp add: card_image)
qed

lemma length_update_in: "k \<in> hm_keys m \<Longrightarrow> length (hm_insert k v m) = length m"
  by (induction m) (auto simp: hm_keys_def)

lemma length_update_new: "k \<notin> hm_keys m \<Longrightarrow> length (hm_insert k v m) = Suc (length m)"
  by (induction m) (auto simp: hm_keys_def)

lemma spawn_pellet_simps [simp]:
  "sim_next_entity_id (spawn_pellet s) = sim_next_entity_id s + 1"
  "hm_keys (sim_pellets (spawn_pellet s)) = insert (sim_next_entity_id s) (hm_keys (sim_pellets s))"
  "sim_players (spawn_pellet s) = sim_players s"
  "sim_inputs (spawn_pellet s) = sim_inputs s"
  "sim_tick (spawn_pellet s) = sim_tick s"
  "sim_respawn_queue (spawn_pellet s) = sim_respawn_queue s"
  "sim_snapshot_cache (spawn_pellet s) = sim_snapshot_cache s"
  "sim_player_colors (spawn_pellet s) = sim_player_colors s"
  by (simp_all add: spawn_pellet_def Let_def case_prod_unfold)

lemma spawn_pellet_length:
  "length (sim_pellets (spawn_pellet s)) =
     (if sim_next_entity_id s \<in> hm_keys (sim_pellets s) then length (sim_pellets s)
      else Suc (length (sim_pellets s)))"
  by (simp add: spawn_pellet_def Let_def case_prod_unfold length_update_in length_update_new)

lemma ids_to_free_step:
  assumes "length (sim_pellets s) < 256" "sim_next_entity_id s \<in> hm_keys (sim_pellets s)"
  shows "ids_to_free (spawn_pellet s) < ids_to_free s"
proof -
  define P where "P = (\<lambda>k. sim_next_entity_id s + of_nat k \<notin> hm_keys (sim_pellets s))"
  obtain k where "P k"
    using free_id_exists[of "sim_pellets s" "sim_next_entity_id s"] assms(1) by (auto simp: P_def)
  moreover have "\<not> P 0"
    using assms(2) by (simp add: P_def)
  ultimately have "(LEAST k. P k) = Suc (LEAST k. P (Suc k))"
    by (rule Least_Suc)
  moreover have "ids_to_free (spawn_pellet s) = (LEAST k. P (Suc k))"
    using assms(2) by (simp add: ids_to_free_def P_def insert_absorb algebra_simps)
  ultimately show ?thesis
    by (simp add: ids_to_free_def P_def)
qed

function maintain_pellet_budget :: "sim_state \<Rightarrow> sim_state" where
  "maintain_pellet_budget s =
     (if length (sim_pellets s) < TARGET_PELLET_COUNT then maintain_pellet_budget (spawn_pellet s) else s)"
  by auto
termination
proof (relation "measures [\<lambda>s. 256 - length (sim_pellets s), ids_to_free]")
  fix s :: sim_state
  assume "length (sim_pellets s) < TARGET_PELLET_COUNT"
  then have "length (sim_pellets s) < 256"
    by (simp add: TARGET_PELLET_COUNT_def)
  then show "(spawn_pellet s, s) \<in> measures [\<lambda>s. 256 - length (sim_pellets s), ids_to_free]"
    by (auto simp: spawn_pellet_length ids_to_free_step)
qed simp

declare maintain_pellet_budget.simps [simp del]

text \<open>The changes since the last delta: entities that are new or differ, and identifiers that are gone.\<close>

definition changed_from :: "(u64 \<times> entity_state) list \<Rightarrow> u64 \<times> entity_state \<Rightarrow> bool" where
  "changed_from cache = (\<lambda>(k, e). case hm_get cache k of None \<Rightarrow> True | Some old \<Rightarrow> \<not> entity_eq old e)"

definition delta_upserts :: "(u64 \<times> entity_state) list \<Rightarrow> (u64 \<times> entity_state) list \<Rightarrow> entity_state list" where
  "delta_upserts cache current = sort_key es_id (map snd (filter (changed_from cache) current))"

definition delta_removed :: "(u64 \<times> entity_state) list \<Rightarrow> (u64 \<times> entity_state) list \<Rightarrow> u64 list" where
  "delta_removed cache current =
     sort (filter (\<lambda>old_id. \<not> hm_contains current old_id) (map fst cache))"

definition entity_map :: "entity_state list \<Rightarrow> (u64 \<times> entity_state) list" where
  "entity_map es = foldl (\<lambda>m e. hm_insert (es_id e) e m) [] es"

definition build_delta :: "world_event list \<Rightarrow> sim_state \<Rightarrow> world_delta \<times> sim_state" where
  "build_delta events s =
     (let current = entity_map (map snd (sim_players s) @ map snd (sim_pellets s))
      in (\<lparr>wd_tick = sim_tick s, wd_your_last_input_seq = None,
           wd_upserts = delta_upserts (sim_snapshot_cache s) current,
           wd_removed = delta_removed (sim_snapshot_cache s) current, wd_events = events\<rparr>,
          s\<lparr>sim_snapshot_cache := current\<rparr>))"

definition Simulation_step :: "f32_math \<Rightarrow> sim_state \<Rightarrow> world_delta \<times> sim_state" where
  "Simulation_step fm s =
     (let s0 = s\<lparr>sim_tick := sim_tick s + 1\<rparr>;
          (s1, ev1) = handle_respawns fm (s0, []);
          s2 = update_player_movement s1;
          (s3, ev3) = consume_pellets (s2, ev1);
          (s4, ev4) = consume_players (s3, ev3);
          s5 = maintain_pellet_budget s4
      in build_delta ev4 s5)"

section \<open>The arithmetic of the tick\<close>

lemma f32_round_small_int:
  "f32_round 1 = Fin 1" "f32_round 30 = Fin 30" "f32_round 3000 = Fin 3000" "f32_round 1500 = Fin 1500"
  using f32_round_lit[of 1 23 "2 ^ 23"] f32_round_lit[of 30 19 "30 * 2 ^ 19"]
    f32_round_lit[of 3000 12 "3000 * 2 ^ 12"] f32_round_lit[of 1500 13 "1500 * 2 ^ 13"]
  by simp_all

lemma f32_round_zero [simp]: "f32_round 0 = Fin 0"
  by (simp add: f32_round_def)

lemma f32_round_values:
  "f32_round (1 / 30) = Fin (8947849 / 268435456)" "f32_round 4294967295 = Fin 4294967296"
  using f32_round_lit[of "1 / 30" 28 8947849] f32_round_at[of 8 4294967295 16777216]
  by (simp_all add: F32_MAX_def)

lemma lit_values:
  "lit (3 / 200) = Fin (16106127 / 1073741824)" "lit (4 / 5) = Fin (13421773 / 16777216)"
  "lit (11 / 5) = Fin (9227469 / 4194304)" "lit (1 / 2) = Fin (1 / 2)" "lit 1 = Fin 1"
  using f32_round_lit[of "3 / 200" 30 16106127] f32_round_lit[of "4 / 5" 24 13421773]
    f32_round_lit[of "11 / 5" 22 9227469] f32_round_lit[of "1 / 2" 24 "2 ^ 23"]
  by (simp_all add: lit_def f32_round_small_int)

lemma TAU_value: "TAU_F32 = Fin (13176795 / 2097152)"
  unfolding TAU_F32_def lit_def
  by (rule f32_round_lit[where m = 21 and n = 13176795, simplified]) simp_all

lemma consume_ratio_value: "PLAYER_CONSUME_RATIO = Fin (9646899 / 8388608)"
  using f32_round_lit[of "115 / 100" 23 9646899] by (simp add: PLAYER_CONSUME_RATIO_def lit_def)

lemma FIXED_DT_value: "FIXED_DT_SECONDS = Fin (8947849 / 268435456)"
  by (simp add: FIXED_DT_SECONDS_def u32_as_f32_def TICK_RATE_HZ_def lit_values f32_round_values f32_round_small_int)

lemma u32_max_value: "u32_as_f32 0xFFFFFFFF = Fin 4294967296"
  by (simp add: u32_as_f32_def f32_round_values)

lemma player_speed_Fin:
  assumes "nonneg mass"
  shows "\<exists>v. player_speed mass = Fin v \<and> 0 \<le> v"
proof -
  let ?x = "fmul mass (lit (15 / 1000))"
  have x: "nonneg ?x"
    using assms by (simp add: lit_values nonneg_fmul_Fin)
  show ?thesis
  proof (cases "fadd (Fin 1) ?x")
    case (Fin y)
    then obtain t where t: "?x = Fin t" "0 \<le> t" "f32_round (1 + t) = Fin y"
      using x by (cases ?x) auto
    have "\<bar>y - (1 + t)\<bar> \<le> \<bar>1 + t\<bar> / 2 ^ 24"
      using t by (intro f32_round_Fin_error) (auto simp: power_int_minus intro: order_trans[of _ 1])
    then have "1 / 2 \<le> y"
      using t(2) by (simp only: abs_of_nonneg add_nonneg_nonneg zero_le_one abs_le_iff) simp
    moreover from this have "\<bar>420 / y\<bar> \<le> of_int 840"
      by (simp add: pos_divide_le_eq)
    moreover have "0 \<le> 420 / y"
      using \<open>1 / 2 \<le> y\<close> by simp
    ultimately show ?thesis
      using f32_round_bound_int[of "420 / y" 840] Fin
      by (auto simp: player_speed_def BASE_PLAYER_SPEED_def)
  next
    case NaN
    then show ?thesis using x by (cases ?x) auto
  qed (simp add: player_speed_def BASE_PLAYER_SPEED_def)
qed

lemma square_overflow:
  assumes "f32_round (a * a) = Fin r"
  shows "\<bar>a\<bar> \<le> 2 ^ 65"
proof (rule ccontr)
  assume "\<not> ?thesis"
  then have "2 ^ 65 * 2 ^ 65 \<le> \<bar>a\<bar> * \<bar>a\<bar>"
    by (intro mult_mono) simp_all
  then have big: "2 ^ 130 \<le> a * a"
    by (simp add: abs_mult_self_eq)
  have "\<bar>r - a * a\<bar> \<le> \<bar>a * a\<bar> / 2 ^ 24"
  proof (rule f32_round_Fin_error[OF assms])
    have "(2 :: rat) powi (- 126) \<le> 2 powi 130"
      by (rule power_int_increasing) simp_all
    with big show "2 powi (- 126) \<le> \<bar>a * a\<bar>" by simp
  qed
  moreover have "\<bar>r\<bar> \<le> F32_MAX"
    using assms by (auto simp: f32_round_def Let_def F32_MAX_def split: if_splits)
  ultimately have "a * a - a * a / 2 ^ 24 \<le> F32_MAX"
    using big unfolding abs_le_iff by (simp only: abs_of_nonneg zero_le_square) linarith
  with big show False
    by (simp add: F32_MAX_def)
qed

lemma normalize_finite:
  assumes "is_finite (fst v)" "is_finite (snd v)"
  shows "is_finite (fst (normalize_f32 v)) \<and> is_finite (snd (normalize_f32 v))"
proof -
  obtain a b where v: "v = (Fin a, Fin b)"
    using assms by (cases v) (auto simp: is_finite_iff)
  define len where "len = f32_sqrt (fadd (f32_round (a * a)) (f32_round (b * b)))"
  have nn: "nonneg (f32_round (a * a))" "nonneg (f32_round (b * b))"
    by (simp_all add: nonneg_round)
  have quot: "\<exists>q. fdiv (Fin c) len = Fin q"
    if c: "c = a \<or> c = b" and len: "\<not> fle len F32_EPSILON" for c
  proof (cases len)
    case (Fin l)
    then obtain r1 r2 where "f32_round (a * a) = Fin r1" "f32_round (b * b) = Fin r2"
      using nn unfolding len_def by (cases "f32_round (a * a)"; cases "f32_round (b * b)") auto
    then have c65: "\<bar>c\<bar> \<le> 2 ^ 65"
      using c square_overflow by blast
    have l: "1 / 2 ^ 23 < l"
      using len Fin by (simp add: F32_EPSILON_def)
    then have "\<bar>c / l\<bar> \<le> 2 ^ 65 / (1 / 2 ^ 23)"
      using c65 unfolding abs_divide by (intro frac_le) (auto intro: order_trans[rotated])
    also have "\<dots> \<le> 2 ^ 127"
      by simp
    finally show ?thesis
      using f32_round_no_overflow[of "c / l"] Fin l by auto
  next
    case NaN
    have "nonneg (fadd (f32_round (a * a)) (f32_round (b * b)))"
      using nn by (rule nonneg_fadd)
    with NaN show ?thesis
      unfolding len_def by (cases "fadd (f32_round (a * a)) (f32_round (b * b))") auto
  qed simp
  show ?thesis
    using quot[of a] quot[of b] unfolding len_def
    by (auto simp: v normalize_f32_def Let_def is_finite_iff)
qed

text \<open>A position inside the world.\<close>

definition in_world :: "vec2 \<Rightarrow> bool" where
  "in_world pos \<longleftrightarrow> in_range 0 3000 (fst pos) \<and> in_range 0 3000 (snd pos)"

definition finite_dir :: "vec2 \<Rightarrow> bool" where
  "finite_dir v \<longleftrightarrow> is_finite (fst v) \<and> is_finite (snd v)"

lemma clamp_axis_in_range: "x \<noteq> NaN \<Longrightarrow> in_range 0 3000 (clamp_axis x (Fin 3000))"
  by (simp add: clamp_axis_def clamp_in_range)

lemma move_axis_in_range:
  assumes "is_finite d" "in_range 0 3000 p"
  shows "in_range 0 3000 (clamp_axis (fadd p (fmul (fmul d (Fin v)) FIXED_DT_SECONDS)) (Fin 3000))"
proof (rule clamp_axis_in_range)
  obtain a q where "d = Fin a" "p = Fin q"
    using assms by (auto simp: is_finite_iff in_range_iff)
  moreover have "fmul (f32_round (a * v)) FIXED_DT_SECONDS \<noteq> NaN" for a
    unfolding FIXED_DT_value by (rule fmul_Fin_not_NaN) simp_all
  ultimately show "fadd p (fmul (fmul d (Fin v)) FIXED_DT_SECONDS) \<noteq> NaN"
    by (simp add: fadd_Fin_not_NaN)
qed

lemma move_player_in_world:
  assumes "finite_dir dir" "in_world (es_pos e)" "nonneg (es_mass e)"
  shows "in_world (es_pos (move_player dir e))"
proof -
  obtain v where "player_speed (es_mass e) = Fin v"
    using player_speed_Fin[OF assms(3)] by auto
  then show ?thesis
    using assms by (simp add: move_player_def Let_def in_world_def finite_dir_def WORLD_WIDTH_def
        WORLD_HEIGHT_def move_axis_in_range)
qed

lemma rand_range_in_range:
  assumes "0 < k" "k < 2 ^ 24"
  shows "in_range 0 (of_int k) (fst (rand_range (Fin 0) (Fin (of_int k)) rng))"
proof -
  define w where "w = fst (rand_u32 rng)"
  have "\<bar>of_nat (unat w) :: rat\<bar> \<le> of_int 1 * 2 powi 32"
  proof -
    have "unat w < 2 ^ LENGTH(32)"
      by (rule unsigned_less)
    then have "unat w \<le> 2 ^ 32"
      by simp
    then have "(of_nat (unat w) :: rat) \<le> of_nat (2 ^ 32)"
      by (simp only: of_nat_le_iff)
    then show ?thesis unfolding abs_of_nat by simp
  qed
  from f32_round_bound[OF this] obtain r where r: "u32_as_f32 w = Fin r" "0 \<le> r" "r \<le> 4294967296"
    by (auto simp: u32_as_f32_def F32_MAX_def simp del: of_nat_unat)
  then have "\<bar>r / 4294967296\<bar> \<le> of_int 1"
    by simp
  from f32_round_bound_int[OF this] obtain t where
    t: "fdiv (u32_as_f32 w) (u32_as_f32 0xFFFFFFFF) = Fin t" "0 \<le> t" "t \<le> 1"
    using r by (auto simp: u32_max_value)
  obtain d where d: "f32_round (of_int k) = Fin d" "0 \<le> d" "d \<le> of_int k"
    using f32_round_bound_int[of "of_int k" k] assms by auto
  have "d * t \<le> of_int k * 1"
    using d t assms by (intro mult_mono) simp_all
  then have "\<bar>d * t\<bar> \<le> of_int k"
    using d t by simp
  from f32_round_bound_int[OF this assms(2)] obtain p where
    p: "f32_round (d * t) = Fin p" "0 \<le> p" "p \<le> of_int k"
    using d t by auto
  then obtain q where "f32_round p = Fin q" "0 \<le> q" "q \<le> of_int k"
    using f32_round_bound_int[of p k] assms by auto
  then show ?thesis
    using t d p
    by (simp add: rand_range_def Let_def case_prod_unfold w_def[symmetric] fsub_def in_range_iff)
qed

lemma seed_Fin: "\<exists>r. fdiv (f32_round (of_nat (n mod 10000))) (Fin 10000) = Fin r \<and> 0 \<le> r \<and> r \<le> 1"
proof -
  have "(of_nat (n mod 10000) :: rat) \<le> of_nat 10000"
    by (simp only: of_nat_le_iff mod_less_divisor less_imp_le zero_less_numeral)
  then obtain m where m: "f32_round (of_nat (n mod 10000)) = Fin m" "0 \<le> m" "m \<le> 10000"
    using f32_round_bound_int[of "of_nat (n mod 10000)" 10000] by auto
  then show ?thesis
    using f32_round_bound_int[of "m / 10000" 1] by auto
qed

lemma spawn_point_not_NaN:
  assumes "math_ok fm"
  shows "fst (spawn_point_from_id fm eid) \<noteq> NaN" "snd (spawn_point_from_id fm eid) \<noteq> NaN"
proof -
  obtain a r where
    a: "fdiv (f32_round (of_nat (unat (eid * 1103515245 + 12345) mod 10000))) (Fin 10000) = Fin a"
    "0 \<le> a" "a \<le> 1"
    and r: "fdiv (f32_round (of_nat (unat (eid * 214013 + 2531011) mod 10000))) (Fin 10000) = Fin r"
    "0 \<le> r" "r \<le> 1"
    using seed_Fin by metis
  obtain an where an: "f32_round (a * 13176795 / 2097152) = Fin an"
    using f32_round_bound_int[of "a * 13176795 / 2097152" 7] a by auto
  obtain p where p: "f32_round (r * 260) = Fin p" "0 \<le> p" "p \<le> 260"
    using f32_round_bound_int[of "r * 260" 260] r by auto
  obtain q where q: "f32_round (120 + p) = Fin q"
    using f32_round_bound_int[of "120 + p" 380] p by auto
  obtain c s where "m_cos fm (Fin an) = Fin c" "m_sin fm (Fin an) = Fin s"
    using assms unfolding math_ok_def is_finite_iff by blast
  then show "fst (spawn_point_from_id fm eid) \<noteq> NaN" "snd (spawn_point_from_id fm eid) \<noteq> NaN"
    by (simp_all add: spawn_point_from_id_def Let_def a r lit_values an p q WORLD_WIDTH_def
        WORLD_HEIGHT_def TAU_value f32_round_small_int fadd_Fin_not_NaN)
qed

section \<open>Entities\<close>

text \<open>What every entity of a world satisfies: it is inside the world, its mass is a number and not
  negative, and its radius follows from its mass.\<close>

definition entity_ok :: "entity_state \<Rightarrow> bool" where
  "entity_ok e \<longleftrightarrow> in_world (es_pos e) \<and> nonneg (es_mass e) \<and> es_radius e = radius_from_mass (es_mass e)"

definition entry_ok :: "entity_kind \<Rightarrow> u64 \<Rightarrow> entity_state \<Rightarrow> bool" where
  "entry_ok kd k e \<longleftrightarrow> es_id e = k \<and> es_kind e = kd \<and> entity_ok e"

lemma entity_ok_gain_mass: "entity_ok e \<Longrightarrow> nonneg g \<Longrightarrow> entity_ok (gain_mass g e)"
  by (simp add: entity_ok_def gain_mass_def Let_def nonneg_fadd)

lemma gain_mass_simps [simp]:
  "es_id (gain_mass g e) = es_id e" "es_kind (gain_mass g e) = es_kind e"
  "es_pos (gain_mass g e) = es_pos e"
  by (simp_all add: gain_mass_def Let_def)

lemma move_player_simps [simp]:
  "es_id (move_player d e) = es_id e" "es_kind (move_player d e) = es_kind e"
  "es_mass (move_player d e) = es_mass e" "es_radius (move_player d e) = es_radius e"
  by (simp_all add: move_player_def Let_def)

lemma entity_ok_move: "finite_dir dir \<Longrightarrow> entity_ok e \<Longrightarrow> entity_ok (move_player dir e)"
  by (simp add: entity_ok_def move_player_in_world)

lemma finite_dir_normalize: "finite_dir v \<Longrightarrow> finite_dir (normalize_f32 v)"
  by (simp add: finite_dir_def normalize_finite)

lemma finite_dir_zero [simp]: "finite_dir (Fin 0, Fin 0)"
  by (simp add: finite_dir_def)

lemma entity_ok_new_pellet:
  "entity_ok (new_pellet eid (fst (rand_range (Fin 0) WORLD_WIDTH r), fst (rand_range (Fin 0) WORLD_HEIGHT r')))"
  using rand_range_in_range[of 3000]
  by (simp add: new_pellet_def entity_ok_def in_world_def WORLD_WIDTH_def WORLD_HEIGHT_def PELLET_MASS_def)

lemma in_world_spawn:
  "math_ok fm \<Longrightarrow> in_world (clamp_axis (fst (spawn_point_from_id fm eid)) WORLD_WIDTH,
                            clamp_axis (snd (spawn_point_from_id fm eid)) WORLD_HEIGHT)"
  by (simp add: in_world_def WORLD_WIDTH_def WORLD_HEIGHT_def clamp_axis_in_range spawn_point_not_NaN)

text \<open>The mass a consumer gains is not negative.\<close>

lemma choose_consumer_nonneg:
  assumes "choose_consumer a b = Some (w, g)" "nonneg a" "nonneg b"
  shows "nonneg g"
  using assms by (auto simp: choose_consumer_def lit_values nonneg_fmul_Fin split: if_splits)

section \<open>The invariant of the simulation\<close>

definition sim_inv :: "sim_state \<Rightarrow> bool" where
  "sim_inv s \<longleftrightarrow>
     hm_all (entry_ok Player) (sim_players s)
     \<and> hm_all (entry_ok Pellet) (sim_pellets s)
     \<and> hm_all (\<lambda>_ i. finite_dir (ci_move_dir i)) (sim_inputs s)
     \<and> hm_all (\<lambda>k e. es_id e = k) (sim_snapshot_cache s)
     \<and> length (sim_pellets s) \<le> TARGET_PELLET_COUNT"

lemma sim_inv_player: "sim_inv s \<Longrightarrow> hm_get (sim_players s) k = Some e \<Longrightarrow> entry_ok Player k e"
  by (auto simp: sim_inv_def intro: hm_all_get)

lemma sim_inv_input: "sim_inv s \<Longrightarrow> hm_get (sim_inputs s) k = Some i \<Longrightarrow> finite_dir (ci_move_dir i)"
  unfolding sim_inv_def by (auto dest: hm_all_get)

lemma foldl_inv: "I s \<Longrightarrow> (\<And>s x. I s \<Longrightarrow> I (f s x)) \<Longrightarrow> I (foldl f s xs)"
  by (induction xs arbitrary: s) auto

lemmas sim_inv_foldl = foldl_inv[of "\<lambda>x. sim_inv (fst x)"]

lemma generate_player_color_simps [simp]:
  "sim_players (snd (generate_player_color s)) = sim_players s"
  "sim_pellets (snd (generate_player_color s)) = sim_pellets s"
  "sim_inputs (snd (generate_player_color s)) = sim_inputs s"
  "sim_tick (snd (generate_player_color s)) = sim_tick s"
  "sim_respawn_queue (snd (generate_player_color s)) = sim_respawn_queue s"
  "sim_snapshot_cache (snd (generate_player_color s)) = sim_snapshot_cache s"
  by (simp_all add: generate_player_color_def Let_def case_prod_unfold)

lemma ensure_player_simps [simp]:
  "sim_pellets (ensure_player fm c s) = sim_pellets s"
  "sim_inputs (ensure_player fm c s) = sim_inputs s"
  "sim_tick (ensure_player fm c s) = sim_tick s"
  "sim_respawn_queue (ensure_player fm c s) = sim_respawn_queue s"
  "sim_snapshot_cache (ensure_player fm c s) = sim_snapshot_cache s"
  by (simp_all add: ensure_player_def Let_def case_prod_unfold split: option.splits)

lemma sim_inv_ensure_player:
  assumes "math_ok fm" "sim_inv s"
  shows "sim_inv (ensure_player fm c s)"
proof (cases "hm_contains (sim_players s) c")
  case False
  then obtain color where "sim_players (ensure_player fm c s) = hm_insert c
      \<lparr>es_id = c, es_kind = Player,
       es_pos = (clamp_axis (fst (spawn_point_from_id fm c)) WORLD_WIDTH,
                 clamp_axis (snd (spawn_point_from_id fm c)) WORLD_HEIGHT),
       es_vel = (Fin 0, Fin 0), es_mass = BASE_PLAYER_MASS,
       es_radius = radius_from_mass BASE_PLAYER_MASS, es_color = color\<rparr> (sim_players s)"
    by (cases "hm_get (sim_player_colors s) c") (auto simp: ensure_player_def Let_def case_prod_unfold)
  then show ?thesis
    using assms by (simp add: sim_inv_def hm_all_insert entry_ok_def entity_ok_def in_world_spawn
        BASE_PLAYER_MASS_def)
qed (use assms in \<open>simp add: ensure_player_def\<close>)

lemma sim_inv_remove_player: "sim_inv s \<Longrightarrow> sim_inv (remove_player c s)"
  by (simp add: sim_inv_def remove_player_def hm_all_remove)

lemma sim_inv_apply_input:
  "sim_inv s \<Longrightarrow> finite_dir (ci_move_dir i) \<Longrightarrow> sim_inv (apply_input c i s)"
  by (simp add: sim_inv_def apply_input_def hm_all_insert)

lemma sim_inv_simps [simp]:
  "sim_inv (s\<lparr>sim_respawn_queue := q\<rparr>) = sim_inv s" "sim_inv (s\<lparr>sim_tick := t\<rparr>) = sim_inv s"
  by (simp_all add: sim_inv_def)

lemma sim_inv_handle_respawns:
  assumes "math_ok fm" "sim_inv s"
  shows "sim_inv (fst (handle_respawns fm (s, ev)))"
proof -
  define f where "f = (\<lambda>(s, ev) cid. (ensure_player fm cid s, ev @ [PlayerRespawned cid]))"
  have "sim_inv (fst (foldl f x xs))" if "sim_inv (fst x)" for x xs
    using that by (rule sim_inv_foldl) (auto simp: f_def sim_inv_ensure_player assms(1))
  then show ?thesis
    using assms by (simp add: handle_respawns_def Let_def case_prod_unfold f_def)
qed

lemma sim_inv_movement: "sim_inv s \<Longrightarrow> sim_inv (update_player_movement s)"
proof -
  assume inv: "sim_inv s"
  have "finite_dir (case hm_get (sim_inputs s) k of Some i \<Rightarrow> normalize_f32 (ci_move_dir i)
                    | None \<Rightarrow> (Fin 0, Fin 0))" for k
    using sim_inv_input[OF inv] by (auto simp: finite_dir_normalize split: option.splits)
  then have "hm_all (entry_ok Player) (sim_players (update_player_movement s))"
    using inv unfolding sim_inv_def update_player_movement_def
    by (auto simp: entry_ok_def entity_ok_move Let_def intro!: hm_all_map_values)
  with inv show ?thesis
    by (simp add: sim_inv_def update_player_movement_def)
qed

lemma sim_inv_consume_pellets: "sim_inv (fst x) \<Longrightarrow> sim_inv (fst (consume_pellets x))"
proof -
  have one: "sim_inv (fst (consume_pellet p x k))" if inv: "sim_inv (fst x)" for p x k
  proof -
    have "entry_ok Player p (gain_mass PELLET_MASS e)" if "hm_get (sim_players (fst x)) p = Some e" for e
      using sim_inv_player[OF inv that] by (simp add: entry_ok_def entity_ok_gain_mass PELLET_MASS_def)
    with inv show ?thesis
      by (auto simp: consume_pellet_def sim_inv_def case_prod_unfold hm_all_insert hm_all_remove
          length_hm_remove split: option.splits)
  qed
  have "sim_inv (fst (consume_pellets_of x p))" if "sim_inv (fst x)" for x p
    using that
    by (auto simp: consume_pellets_of_def Let_def case_prod_unfold one split: option.splits intro!: sim_inv_foldl)
  then show "sim_inv (fst x) \<Longrightarrow> ?thesis"
    by (auto simp: consume_pellets_def case_prod_unfold intro!: sim_inv_foldl)
qed

lemma sim_inv_consume_players: "sim_inv (fst x) \<Longrightarrow> sim_inv (fst (consume_players x))"
proof -
  have one: "sim_inv (fst (consume_player_pair x p))" if inv: "sim_inv (fst x)" for x p
  proof -
    obtain s dead ev a b where x: "x = (s, dead, ev)" "p = (a, b)"
      by (cases x, cases p) auto
    have ok: "hm_get (sim_players s) k = Some e \<Longrightarrow> entry_ok Player k e" for k e
      using inv by (simp add: x sim_inv_player)
    have g: "nonneg g" if "hm_get (sim_players s) a = Some ea" "hm_get (sim_players s) b = Some eb"
      "choose_consumer (es_mass ea) (es_mass eb) = Some (w, g)" for ea eb w g
      using choose_consumer_nonneg[OF that(3)] ok[OF that(1)] ok[OF that(2)]
      by (simp add: entry_ok_def entity_ok_def)
    show ?thesis
      using inv unfolding x
      by (auto simp: consume_player_pair_def sim_inv_def Let_def hm_all_remove
          split: option.splits if_splits intro!: hm_all_remove hm_all_insert)
        (use g ok in \<open>auto simp: entry_ok_def entity_ok_gain_mass\<close>)
  qed
  have "sim_inv (fst (foldl consume_player_pair x ps))" if "sim_inv (fst x)" for x ps
    using that by (rule sim_inv_foldl) (rule one)
  then show "sim_inv (fst x) \<Longrightarrow> ?thesis"
    by (simp add: consume_players_def Let_def case_prod_unfold)
qed

lemma sim_inv_spawn_pellet:
  assumes "sim_inv s" "length (sim_pellets s) < TARGET_PELLET_COUNT"
  shows "sim_inv (spawn_pellet s)"
proof -
  have "hm_all (entry_ok Pellet) (sim_pellets (spawn_pellet s))"
    using assms(1) by (auto simp: sim_inv_def spawn_pellet_def Let_def case_prod_unfold entry_ok_def
        entity_ok_new_pellet intro!: hm_all_insert) (simp_all add: new_pellet_def)
  then show ?thesis
    using assms by (simp add: sim_inv_def spawn_pellet_length)
qed

lemma sim_inv_maintain: "sim_inv s \<Longrightarrow> sim_inv (maintain_pellet_budget s)"
proof (induction s rule: maintain_pellet_budget.induct)
  case (1 s)
  then show ?case
    by (subst maintain_pellet_budget.simps) (auto simp: sim_inv_spawn_pellet)
qed

lemma entity_map_keyed: "hm_all (\<lambda>k e. es_id e = k) (entity_map es)"
  unfolding entity_map_def by (rule foldl_inv) (simp_all add: hm_all_insert hm_all_Nil)

lemma sim_inv_build_delta: "sim_inv s \<Longrightarrow> sim_inv (snd (build_delta ev s))"
  by (simp add: build_delta_def Let_def sim_inv_def entity_map_keyed)

lemma sim_inv_step:
  assumes "math_ok fm" "sim_inv s"
  shows "sim_inv (snd (Simulation_step fm s))"
  using assms
  by (auto simp: Simulation_step_def Let_def case_prod_unfold
      intro!: sim_inv_build_delta sim_inv_maintain sim_inv_consume_players sim_inv_consume_pellets
        sim_inv_movement sim_inv_handle_respawns)

section \<open>Deltas\<close>

text \<open>What a receiver makes of the two lists of a delta: the upserts are inserted, then the removed
  identifiers are deleted.\<close>

definition apply_upserts :: "entity_state list \<Rightarrow> (u64 \<times> entity_state) list \<Rightarrow> (u64 \<times> entity_state) list" where
  "apply_upserts es m = foldl (\<lambda>m e. hm_insert (es_id e) e m) m es"

definition apply_removed :: "u64 list \<Rightarrow> (u64 \<times> 'v) list \<Rightarrow> (u64 \<times> 'v) list" where
  "apply_removed ids m = foldl (\<lambda>m k. hm_remove k m) m ids"

lemma apply_upserts_other: "k \<notin> es_id ` set es \<Longrightarrow> hm_get (apply_upserts es m) k = hm_get m k"
  unfolding apply_upserts_def by (induction es arbitrary: m) (auto simp: update_conv')

lemma apply_upserts_mem:
  "distinct (map es_id es) \<Longrightarrow> e \<in> set es \<Longrightarrow> hm_get (apply_upserts es m) (es_id e) = Some e"
proof (induction es arbitrary: m)
  case (Cons x es)
  show ?case
  proof (cases "e = x")
    case True
    with Cons.prems have "es_id e \<notin> es_id ` set es"
      by auto
    from apply_upserts_other[OF this, of "hm_insert (es_id x) x m"] True show ?thesis
      by (simp add: apply_upserts_def update_conv')
  next
    case False
    with Cons show ?thesis
      by (simp add: apply_upserts_def)
  qed
qed simp

lemma apply_removed_get:
  "hm_get (apply_removed ids m) k = (if k \<in> set ids then None else hm_get m k)"
  unfolding apply_removed_def by (induction ids arbitrary: m) (auto simp: delete_conv')

lemma feq_imp_eq: "feq x y \<Longrightarrow> x = y"
  by (simp add: feq_def)

lemma entity_eq_imp_eq: "entity_eq a b \<Longrightarrow> a = b"
  by (cases a; cases b) (auto simp: entity_eq_def dest!: feq_imp_eq elim!: vec2_eq.elims vec3_eq.elims)

lemma delta_upserts_ids:
  assumes "hm_all (\<lambda>k e. es_id e = k) current"
  shows "distinct (map es_id (delta_upserts cache current))"
    and "e \<in> set (delta_upserts cache current) \<longleftrightarrow> hm_get current (es_id e) = Some e \<and> changed_from cache (es_id e, e)"
proof -
  have keys: "map es_id (map snd m) = map fst m" if "list_all (\<lambda>(k, e). es_id e = k) m" for m
    using that by (induction m) auto
  have wf: "hm_wf current" and all: "list_all (\<lambda>(k, e). es_id e = k) current"
    using assms by (auto simp: hm_all_def)
  from all have "list_all (\<lambda>(k, e). es_id e = k) (filter (changed_from cache) current)"
    by (auto simp: list_all_iff)
  from keys[OF this] have "distinct (map es_id (map snd (filter (changed_from cache) current)))"
    using wf by (simp add: distinct_map_filter del: map_map)
  then show "distinct (map es_id (delta_upserts cache current))"
    by (auto simp: delta_upserts_def distinct_map inj_on_def)
  show "e \<in> set (delta_upserts cache current) \<longleftrightarrow> hm_get current (es_id e) = Some e \<and> changed_from cache (es_id e, e)"
    using all wf by (force simp: delta_upserts_def list_all_iff image_iff dest: map_of_SomeD)
qed

text \<open>A receiver that holds the previous snapshot holds the current one after the delta.\<close>

lemma delta_sync:
  assumes cur: "hm_all (\<lambda>k e. es_id e = k) current" and view: "hm_get view = hm_get cache"
  shows "hm_get (apply_removed (delta_removed cache current) (apply_upserts (delta_upserts cache current) view))
       = hm_get current"
proof
  fix k
  have rem: "k \<in> set (delta_removed cache current) \<longleftrightarrow> hm_get current k = None \<and> hm_get cache k \<noteq> None"
    by (auto simp: delta_removed_def hm_contains_def image_iff map_of_eq_None_iff dest: map_of_SomeD)
  note ups = delta_upserts_ids[OF cur]
  show "hm_get (apply_removed (delta_removed cache current) (apply_upserts (delta_upserts cache current) view)) k
      = hm_get current k"
  proof (cases "hm_get current k")
    case None
    then have "k \<notin> es_id ` set (delta_upserts cache current)"
      using ups(2) by auto
    with None rem show ?thesis
      by (simp add: apply_removed_get apply_upserts_other view)
  next
    case (Some e)
    with cur have id: "es_id e = k"
      by (rule hm_all_get)
    show ?thesis
    proof (cases "changed_from cache (k, e)")
      case True
      with Some id have "e \<in> set (delta_upserts cache current)"
        by (simp add: ups(2))
      from apply_upserts_mem[OF ups(1) this] Some id rem show ?thesis
        by (simp add: apply_removed_get)
    next
      case False
      then have "hm_get cache k = Some e"
        by (auto simp: changed_from_def dest: entity_eq_imp_eq split: option.splits)
      moreover have "k \<notin> es_id ` set (delta_upserts cache current)"
        using False Some id by (auto simp: ups(2))
      ultimately show ?thesis
        using Some rem by (simp add: apply_removed_get apply_upserts_other view)
    qed
  qed
qed

section \<open>Input sequence numbers\<close>

text \<open>A number is newer than another when it is less than half the number space ahead of it.\<close>

lemma is_newer_ahead:
  assumes "n < 2 ^ 32"
  shows "is_newer_input_seq (latest + of_nat n) latest \<longleftrightarrow> 0 < n \<and> n < 2 ^ 31 - 1"
proof -
  have "unat (of_nat n :: u32) = n"
    using assms by (simp add: unsigned_of_nat take_bit_nat_eq_self)
  then show ?thesis
    by (auto simp: is_newer_input_seq_def Let_def word_less_nat_alt unsigned_word_eqI
        simp flip: unat_eq_zero)
qed

lemma is_newer_asym: "\<not> (is_newer_input_seq a b \<and> is_newer_input_seq b a)"
proof
  assume A: "is_newer_input_seq a b \<and> is_newer_input_seq b a"
  have "unat (a - b) + unat (b - a) < 2 ^ 32" "a - b \<noteq> 0"
    using A by (auto simp: is_newer_input_seq_def Let_def word_less_nat_alt)
  moreover from this have "unat ((a - b) + (b - a)) = unat (a - b) + unat (b - a)"
    using unat_add_lem[of "a - b" "b - a"] by simp
  ultimately have "unat (a - b) = 0"
    by simp
  with \<open>a - b \<noteq> 0\<close> show False
    by (simp add: unat_eq_zero)
qed

section \<open>Runs of the simulation\<close>

lemma maintain_fills: "TARGET_PELLET_COUNT \<le> length (sim_pellets (maintain_pellet_budget s))"
proof (induction s rule: maintain_pellet_budget.induct)
  case (1 s)
  then show ?case
    by (subst maintain_pellet_budget.simps) auto
qed

lemma step_pellets:
  assumes "math_ok fm" "sim_inv s"
  shows "length (sim_pellets (snd (Simulation_step fm s))) = TARGET_PELLET_COUNT"
proof (rule antisym)
  show "length (sim_pellets (snd (Simulation_step fm s))) \<le> TARGET_PELLET_COUNT"
    using sim_inv_step[OF assms] by (simp add: sim_inv_def)
  show "TARGET_PELLET_COUNT \<le> length (sim_pellets (snd (Simulation_step fm s)))"
    by (simp add: Simulation_step_def build_delta_def Let_def case_prod_unfold maintain_fills)
qed

datatype sim_op =
    OpEnsurePlayer u64
  | OpRemovePlayer u64
  | OpApplyInput u64 client_input
  | OpJoinSnapshot u64
  | OpStep

fun sim_run_step :: "f32_math \<Rightarrow> sim_state \<Rightarrow> sim_op \<Rightarrow> sim_state" where
  "sim_run_step fm s (OpEnsurePlayer c) = ensure_player fm c s"
| "sim_run_step fm s (OpRemovePlayer c) = remove_player c s"
| "sim_run_step fm s (OpApplyInput c i) = apply_input c i s"
| "sim_run_step fm s (OpJoinSnapshot c) = snd (join_snapshot fm c s)"
| "sim_run_step fm s OpStep = snd (Simulation_step fm s)"

fun finite_input :: "sim_op \<Rightarrow> bool" where
  "finite_input (OpApplyInput _ i) = finite_dir (ci_move_dir i)"
| "finite_input _ = True"

lemma sim_inv_op: "math_ok fm \<Longrightarrow> sim_inv s \<Longrightarrow> finite_input op \<Longrightarrow> sim_inv (sim_run_step fm s op)"
  by (cases op)
    (simp_all add: sim_inv_ensure_player sim_inv_remove_player sim_inv_apply_input sim_inv_step
      join_snapshot_def Let_def)

lemma sim_inv_run:
  "math_ok fm \<Longrightarrow> sim_inv s \<Longrightarrow> list_all finite_input ops \<Longrightarrow> sim_inv (run_state (sim_run_step fm) s ops)"
  by (induction ops arbitrary: s) (simp_all add: sim_inv_op)

lemma sim_inv_new: "sim_inv (Simulation_new seed)"
  by (simp add: sim_inv_def Simulation_new_def)

text \<open>
  C20: over every sequence of operations whose inputs have finite directions, every player and pellet
  stays inside the world, with a non-negative mass, the radius its mass gives and the identifier it is
  stored under; and a tick leaves exactly the target number of pellets.
\<close>

theorem simulation_stays_in_world:
  assumes "math_ok fm" "list_all finite_input ops"
  shows "sim_inv (run_state (sim_run_step fm) (Simulation_new seed) ops)
       \<and> length (sim_pellets (snd (Simulation_step fm (run_state (sim_run_step fm) (Simulation_new seed) ops))))
           = TARGET_PELLET_COUNT"
  using sim_inv_run[OF assms(1) sim_inv_new assms(2)] assms(1) by (simp add: step_pellets)

definition flat_math :: f32_math where
  "flat_math = \<lparr>m_sin = (\<lambda>_. Fin 0), m_cos = (\<lambda>_. Fin 1), m_exp = (\<lambda>_. Fin 1)\<rparr>"

theorem simulation_stays_in_world_witness:
  "sim_inv (run_state (sim_run_step flat_math) (Simulation_new 7)
      [OpEnsurePlayer 1, OpApplyInput 1 \<lparr>ci_seq = 1, ci_move_dir = (Fin 1, Fin 0)\<rparr>, OpStep])"
  using simulation_stays_in_world[of flat_math
      "[OpEnsurePlayer 1, OpApplyInput 1 \<lparr>ci_seq = 1, ci_move_dir = (Fin 1, Fin 0)\<rparr>, OpStep]" 7]
  by (simp add: math_ok_def flat_math_def finite_dir_def)

text \<open>
  An infinite direction is not finite, and it is not refused either: normalising it divides infinity by
  infinity, the position becomes a NaN, and every distance test against a NaN is false, so the player
  is within reach of every other player wherever that player is.
\<close>

lemma infinite_input_reaches_everyone:
  "fst (es_pos (move_player (normalize_f32 (Infinite False, d)) e)) = NaN
   \<and> \<not> players_apart (es_pos (move_player (normalize_f32 (Infinite False, d)) e)) r pos' r'"
proof -
  have "fst (normalize_f32 (Infinite False, d)) = NaN"
    by (cases "fmul d d") (auto simp: normalize_f32_def Let_def F32_EPSILON_def)
  then have "fst (es_pos (move_player (normalize_f32 (Infinite False, d)) e)) = NaN"
    by (simp add: move_player_def Let_def clamp_axis_def)
  then show ?thesis
    by (simp add: players_apart_def distance_sq_def Let_def)
qed

end
