(* ===== verification/Game_Server.thy ===== *)
theory Game_Server
  imports Sim_Shared Bootstrap "HOL-Library.Multiset"
begin

text \<open>
  The example game server (\<open>examples/server/src/main.rs\<close>): start-up configuration, the network update
  that turns connection events into pending joins and leaves, and the fixed tick.  Bevy's \<open>World\<close>, the
  Renet server, the mixed transport and bincode are fields of the record \<open>game_env\<close>: a world is queried
  for its players and pellets, entities are spawned, despawned and updated; the order of a query is
  left open.  The resources the game keeps in the world are the record \<open>game_world\<close>.
\<close>

section \<open>State\<close>

definition INITIAL_ENTITY_ID :: u64 where
  "INITIAL_ENTITY_ID = 1000000"

definition INPUT_STALE_TIMEOUT_TICKS :: u32 where
  "INPUT_STALE_TIMEOUT_TICKS = 3"

record auth_entity =
  ae_id :: u64
  ae_kind :: entity_kind
  ae_pos :: vec2
  ae_vel :: vec2
  ae_mass :: f32
  ae_radius :: f32
  ae_color :: vec3

definition to_entity_state :: "auth_entity \<Rightarrow> entity_state" where
  "to_entity_state e =
     \<lparr>es_id = ae_id e, es_kind = ae_kind e, es_pos = ae_pos e, es_vel = ae_vel e,
      es_mass = ae_mass e, es_radius = ae_radius e, es_color = ae_color e\<rparr>"

record auth_state =
  au_next_entity_id :: u64
  au_rng_state :: u64
  au_inputs :: "(u64 \<times> client_input) list"
  au_last_input_tick :: "(u64 \<times> u32) list"
  au_last_input_seq :: "(u64 \<times> u32) list"
  au_player_colors :: "(u64 \<times> vec3) list"
  au_respawn_queue :: "respawn_entry list"
  au_snapshot_cache :: "(u64 \<times> entity_state) list"
  au_pending_connects :: "u64 list"
  au_pending_disconnects :: "u64 list"
  au_pending_join_snapshots :: "u64 list"

definition AuthoritativeState_new :: "u64 \<Rightarrow> auth_state" where
  "AuthoritativeState_new seed =
     \<lparr>au_next_entity_id = INITIAL_ENTITY_ID, au_rng_state = max seed 1, au_inputs = [],
      au_last_input_tick = [], au_last_input_seq = [], au_player_colors = [], au_respawn_queue = [],
      au_snapshot_cache = [], au_pending_connects = [], au_pending_disconnects = [],
      au_pending_join_snapshots = []\<rparr>"

text \<open>The world: the entities and the resources \<open>AuthoritativeState\<close>, \<open>SimTick\<close>, \<open>ServerTickCounter\<close>.\<close>

record 'w game_world =
  gw_ecs :: 'w
  gw_auth :: auth_state
  gw_sim_tick :: u32
  gw_tick_counter :: u64

datatype channel = ReliableOrdered | Unreliable

datatype server_event = ClientConnected client_id | ClientDisconnected client_id

record ('w, 'e, 's, 't) game_env =
  ge_math :: f32_math
  ge_players :: "'w \<Rightarrow> ('e \<times> auth_entity \<times> client_id) list"
  ge_pellets :: "'w \<Rightarrow> ('e \<times> auth_entity) list"
  ge_entities :: "'w \<Rightarrow> auth_entity list"
  ge_spawn_player :: "auth_entity \<Rightarrow> client_id \<Rightarrow> 'w \<Rightarrow> 'w"
  ge_spawn_pellet :: "auth_entity \<Rightarrow> 'w \<Rightarrow> 'w"
  ge_despawn :: "'e \<Rightarrow> 'w \<Rightarrow> 'w"
  ge_update_players :: "(auth_entity \<Rightarrow> client_id \<Rightarrow> auth_entity) \<Rightarrow> 'w \<Rightarrow> 'w"
  ge_clients_id :: "'s \<Rightarrow> client_id list"
  ge_receive_message :: "client_id \<Rightarrow> channel \<Rightarrow> 's \<Rightarrow> bytes option \<times> 's"
  ge_send_message :: "client_id \<Rightarrow> channel \<Rightarrow> bytes \<Rightarrow> 's \<Rightarrow> 's"
  ge_get_event :: "'s \<Rightarrow> server_event option \<times> 's"
  ge_disconnect :: "client_id \<Rightarrow> 's \<Rightarrow> 's"
  ge_server_update :: "duration \<Rightarrow> 's \<Rightarrow> 's"
  ge_transport_update :: "duration \<Rightarrow> 't \<Rightarrow> 's \<Rightarrow> 't \<times> 's"
  ge_send_packets :: "'t \<Rightarrow> 's \<Rightarrow> 't \<times> 's"
  ge_decode_input :: "bytes \<Rightarrow> client_input option"
  ge_encode_delta :: "world_delta \<Rightarrow> bytes"
  ge_encode_snapshot :: "join_snapshot_msg \<Rightarrow> bytes"

section \<open>Start-up configuration\<close>

definition default_http_bind :: "bool \<Rightarrow> socket_addr" where
  "default_http_bind tls_enabled = (if tls_enabled then SocketV4 0 443 else SocketV4 0 8080)"

fun http_port :: "socket_addr \<Rightarrow> u16" where
  "http_port (SocketV4 _ port) = port"
| "http_port (SocketV6 _ port _ _) = port"

definition default_public_http_base :: "socket_addr \<Rightarrow> bool \<Rightarrow> string" where
  "default_public_http_base http_bind tls_enabled =
     (let scheme = (if tls_enabled then ''https'' else ''http'');
          default_port = (if tls_enabled then 443 else 80)
      in if http_port http_bind = default_port then scheme @ ''://127.0.0.1''
         else scheme @ ''://127.0.0.1:'' @ show_nat (unat (http_port http_bind)))"

definition starts_with :: "string \<Rightarrow> string \<Rightarrow> bool" where
  "starts_with p s \<longleftrightarrow> take (length p) s = p"

text \<open>\<open>trim_start_matches\<close> removes the pattern as often as it occurs.\<close>

function trim_start_matches :: "string \<Rightarrow> string \<Rightarrow> string" where
  "trim_start_matches p s =
     (if p \<noteq> [] \<and> starts_with p s then trim_start_matches p (drop (length p) s) else s)"
  by auto
termination
proof (relation "measure (\<lambda>(p, s). length s)")
  fix p s :: string
  assume "p \<noteq> [] \<and> starts_with p s"
  then have "0 < length p" "s \<noteq> []"
    by (auto simp: starts_with_def)
  then show "((p, drop (length p) s), (p, s)) \<in> measure (\<lambda>(p, s). length s)"
    by simp
qed simp

declare trim_start_matches.simps [simp del]

record http_startup =
  hs_tls :: "(string \<times> string) option"
  hs_bind :: socket_addr
  hs_public_base :: string

definition resolve_http_startup ::
  "string option \<Rightarrow> string option \<Rightarrow> socket_addr option \<Rightarrow> string option \<Rightarrow> (string, http_startup) result" where
  "resolve_http_startup tls_cert tls_key http_bind public_base =
     (let start = (\<lambda>tls.
        let tls_enabled = tls \<noteq> None;
            bind = (case http_bind of Some b \<Rightarrow> b | None \<Rightarrow> default_http_bind tls_enabled);
            base = (case public_base of Some b \<Rightarrow> b | None \<Rightarrow> default_public_http_base bind tls_enabled);
            base' = (if tls_enabled \<and> starts_with ''http://'' base
                     then ''https://'' @ trim_start_matches ''http://'' base else base)
        in Ok \<lparr>hs_tls = tls, hs_bind = bind, hs_public_base = base'\<rparr>)
      in case (tls_cert, tls_key) of
           (Some cert, Some key) \<Rightarrow> start (Some (cert, key))
         | (None, None) \<Rightarrow> start None
         | (Some _, None) \<Rightarrow> Err ''NET_HTTP_TLS_CERT was set but NET_HTTP_TLS_KEY is missing''
         | (None, Some _) \<Rightarrow> Err ''NET_HTTP_TLS_KEY was set but NET_HTTP_TLS_CERT is missing'')"

text \<open>With TLS the advertised base is never a plain HTTP address.\<close>

lemma tls_base_not_plain:
  assumes "resolve_http_startup (Some cert) (Some key) http_bind public_base = Ok h"
  shows "\<not> starts_with ''http://'' (hs_public_base h)"
  using assms by (auto simp: resolve_http_startup_def Let_def starts_with_def default_public_http_base_def
      split: option.splits if_splits)

section \<open>Helpers the server defines for itself\<close>

definition server_radius_from_mass :: "f32 \<Rightarrow> f32" where
  "server_radius_from_mass mass = fmul (f32_sqrt mass) (lit (22 / 10))"

definition server_normalize :: "vec2 \<Rightarrow> vec2" where
  "server_normalize v =
     (let len = f32_sqrt (fadd (fmul (fst v) (fst v)) (fmul (snd v) (snd v)))
      in if fle len F32_EPSILON then (Fin 0, Fin 0) else (fdiv (fst v) len, fdiv (snd v) len))"

definition server_distance_sq :: "vec2 \<Rightarrow> vec2 \<Rightarrow> f32" where
  "server_distance_sq a b =
     (let dx = fsub (fst a) (fst b); dy = fsub (snd a) (snd b) in fadd (fmul dx dx) (fmul dy dy))"

definition server_clamp_axis :: "f32 \<Rightarrow> f32 \<Rightarrow> f32" where
  "server_clamp_axis value mx = f32_clamp value (Fin 0) mx"

definition server_spawn_point_from_id :: "f32_math \<Rightarrow> u64 \<Rightarrow> vec2" where
  "server_spawn_point_from_id fm eid =
     (let center_x = fmul WORLD_WIDTH (lit (1 / 2)); center_y = fmul WORLD_HEIGHT (lit (1 / 2));
          angle_seed = fdiv (f32_round (of_nat (unat (eid * 1103515245 + 12345) mod 10000))) (Fin 10000);
          radius_seed = fdiv (f32_round (of_nat (unat (eid * 214013 + 2531011) mod 10000))) (Fin 10000);
          angle = fmul angle_seed TAU_F32;
          radius = fadd (Fin 120) (fmul radius_seed (Fin 260))
      in (fadd center_x (fmul (m_cos fm angle) radius), fadd center_y (fmul (m_sin fm angle) radius)))"

definition server_hsv_to_rgb :: "f32 \<Rightarrow> f32 \<Rightarrow> f32 \<Rightarrow> vec3" where
  "server_hsv_to_rgb hue s v =
     (let h = fdiv (f32_rem_euclid hue (Fin 360)) (Fin 60);
          c = fmul v s;
          x = fmul c (fsub (Fin 1) (f32_abs (fsub (frem h (Fin 2)) (Fin 1))));
          (r1, g1, b1) =
            (if flt h (Fin 1) then (c, x, Fin 0)
             else if flt h (Fin 2) then (x, c, Fin 0)
             else if flt h (Fin 3) then (Fin 0, c, x)
             else if flt h (Fin 4) then (Fin 0, x, c)
             else if flt h (Fin 5) then (x, Fin 0, c)
             else (c, Fin 0, x));
          m = fsub v c
      in (fadd r1 m, fadd g1 m, fadd b1 m))"

definition server_rand_u32 :: "u64 \<Rightarrow> u32 \<times> u64" where
  "server_rand_u32 rng = (let rng' = rng * 6364136223846793005 + 1 in (ucast (drop_bit 32 rng'), rng'))"

definition server_rand_range :: "f32 \<Rightarrow> f32 \<Rightarrow> u64 \<Rightarrow> f32 \<times> u64" where
  "server_rand_range mn mx rng =
     (let (w, rng') = server_rand_u32 rng; t = fdiv (u32_as_f32 w) (u32_as_f32 0xFFFFFFFF)
      in (fadd mn (fmul (fsub mx mn) t), rng'))"

text \<open>They agree with the helpers of the shared crate.\<close>

lemma server_helpers [simp]:
  "server_radius_from_mass = radius_from_mass" "server_normalize = normalize_f32"
  "server_distance_sq = distance_sq" "server_clamp_axis = clamp_axis"
  "server_spawn_point_from_id = spawn_point_from_id" "server_hsv_to_rgb = hsv_to_rgb"
  "server_rand_u32 = rand_u32" "server_rand_range = rand_range"
proof -
  show rnd: "server_rand_u32 = rand_u32"
    by (rule ext) (simp only: server_rand_u32_def rand_u32_def)
  show "server_rand_range = rand_range"
    by (intro ext) (simp only: server_rand_range_def rand_range_def rnd)
qed (intro ext; simp only: server_radius_from_mass_def radius_from_mass_def server_normalize_def
      normalize_f32_def server_distance_sq_def distance_sq_def server_clamp_axis_def clamp_axis_def
      server_spawn_point_from_id_def spawn_point_from_id_def server_hsv_to_rgb_def hsv_to_rgb_def)+

section \<open>Pending joins and leaves\<close>

text \<open>\<open>sort_unstable\<close> followed by \<open>dedup\<close>.\<close>

definition sort_dedup :: "'a::linorder list \<Rightarrow> 'a list" where
  "sort_dedup xs = remdups_adj (sort xs)"

definition update_auth :: "(auth_state \<Rightarrow> auth_state) \<Rightarrow> 'w game_world \<Rightarrow> 'w game_world" where
  "update_auth f g = g\<lparr>gw_auth := f (gw_auth g)\<rparr>"

definition take_pending_disconnects :: "'w game_world \<Rightarrow> u64 list \<times> 'w game_world" where
  "take_pending_disconnects g =
     (sort_dedup (au_pending_disconnects (gw_auth g)), update_auth (au_pending_disconnects_update (\<lambda>_. [])) g)"

definition take_pending_connects :: "'w game_world \<Rightarrow> u64 list \<times> 'w game_world" where
  "take_pending_connects g =
     (sort_dedup (au_pending_connects (gw_auth g)), update_auth (au_pending_connects_update (\<lambda>_. [])) g)"

definition queue_join_snapshot :: "client_id \<Rightarrow> 'w game_world \<Rightarrow> 'w game_world" where
  "queue_join_snapshot cid =
     update_auth (au_pending_join_snapshots_update (\<lambda>q. if cid \<in> set q then q else q @ [cid]))"

definition take_pending_join_snapshots :: "'w game_world \<Rightarrow> u64 list \<times> 'w game_world" where
  "take_pending_join_snapshots g =
     (sort_dedup (au_pending_join_snapshots (gw_auth g)),
      update_auth (au_pending_join_snapshots_update (\<lambda>_. [])) g)"

definition update_ecs :: "('w \<Rightarrow> 'w) \<Rightarrow> 'w game_world \<Rightarrow> 'w game_world" where
  "update_ecs f g = g\<lparr>gw_ecs := f (gw_ecs g)\<rparr>"

definition despawn_player_entities ::
  "('w, 'e, 's, 't) game_env \<Rightarrow> client_id \<Rightarrow> 'w game_world \<Rightarrow> 'w game_world" where
  "despawn_player_entities E cid g =
     update_ecs (\<lambda>w. foldl (\<lambda>w e. ge_despawn E e w) w
       (map fst (filter (\<lambda>(_, _, owner). owner = cid) (ge_players E w)))) g"

definition handle_disconnect ::
  "('w, 'e, 's, 't) game_env \<Rightarrow> client_id \<Rightarrow> 'w game_world \<Rightarrow> 'w game_world" where
  "handle_disconnect E cid g =
     update_auth (\<lambda>st. st\<lparr>au_inputs := hm_remove cid (au_inputs st),
       au_last_input_tick := hm_remove cid (au_last_input_tick st),
       au_last_input_seq := hm_remove cid (au_last_input_seq st),
       au_player_colors := hm_remove cid (au_player_colors st),
       au_respawn_queue := filter (\<lambda>e. re_client_id e \<noteq> cid) (au_respawn_queue st),
       au_pending_join_snapshots := filter (\<lambda>i. i \<noteq> cid) (au_pending_join_snapshots st)\<rparr>)
       (despawn_player_entities E cid g)"

definition player_exists :: "('w, 'e, 's, 't) game_env \<Rightarrow> client_id \<Rightarrow> 'w game_world \<Rightarrow> bool" where
  "player_exists E cid g = list_ex (\<lambda>(_, _, owner). owner = cid) (ge_players E (gw_ecs g))"

text \<open>The color of a player: kept over respawns, drawn from the generator the first time.\<close>

definition player_color :: "client_id \<Rightarrow> auth_state \<Rightarrow> vec3 \<times> auth_state" where
  "player_color cid st =
     (case hm_get (au_player_colors st) cid of
        Some color \<Rightarrow> (color, st)
      | None \<Rightarrow>
          let (hue, rng) = server_rand_range (Fin 0) (Fin 360) (au_rng_state st);
              color = server_hsv_to_rgb hue (lit (72 / 100)) (lit (88 / 100))
          in (color, st\<lparr>au_rng_state := rng, au_player_colors := hm_insert cid color (au_player_colors st)\<rparr>))"

definition spawn_player ::
  "('w, 'e, 's, 't) game_env \<Rightarrow> client_id \<Rightarrow> 'w game_world \<Rightarrow> 'w game_world" where
  "spawn_player E cid g =
     (let (color, st) = player_color cid (gw_auth g);
          spawn = server_spawn_point_from_id (ge_math E) cid
      in update_ecs (ge_spawn_player E
           \<lparr>ae_id = cid, ae_kind = Player,
            ae_pos = (server_clamp_axis (fst spawn) WORLD_WIDTH, server_clamp_axis (snd spawn) WORLD_HEIGHT),
            ae_vel = (Fin 0, Fin 0), ae_mass = BASE_PLAYER_MASS,
            ae_radius = server_radius_from_mass BASE_PLAYER_MASS, ae_color = color\<rparr> cid)
           (g\<lparr>gw_auth := st\<rparr>))"

definition process_pending_connect ::
  "('w, 'e, 's, 't) game_env \<Rightarrow> client_id list \<Rightarrow> 'w game_world \<Rightarrow> client_id \<Rightarrow> 'w game_world" where
  "process_pending_connect E clients g cid =
     (if cid \<notin> set clients then g
      else if player_exists E cid g then g
      else queue_join_snapshot cid (spawn_player E cid g))"

section \<open>Inputs\<close>

definition process_client_input_message ::
  "('w, 'e, 's, 't) game_env \<Rightarrow> client_id \<Rightarrow> bytes \<Rightarrow> u32 \<Rightarrow> 'w game_world \<Rightarrow> 'w game_world" where
  "process_client_input_message E cid payload input_tick g =
     (case ge_decode_input E payload of
        None \<Rightarrow> g
      | Some input \<Rightarrow>
          let seq = ci_seq input;
              is_newer = is_none_or (is_newer_input_seq seq) (hm_get (au_last_input_seq (gw_auth g)) cid)
          in if is_newer then
               update_auth (\<lambda>st. st\<lparr>au_last_input_seq := hm_insert cid seq (au_last_input_seq st),
                 au_last_input_tick := hm_insert cid input_tick (au_last_input_tick st),
                 au_inputs := hm_insert cid input (au_inputs st)\<rparr>) g
             else g)"

partial_function (option) receive_inputs ::
  "('w, 'e, 's, 't) game_env \<Rightarrow> channel \<Rightarrow> client_id \<Rightarrow> u32 \<Rightarrow> 's \<Rightarrow> 'w game_world
    \<Rightarrow> ('s \<times> 'w game_world) option" where
  "receive_inputs E ch cid input_tick srv g =
     (case ge_receive_message E cid ch srv of
        (None, srv') \<Rightarrow> Some (srv', g)
      | (Some payload, srv') \<Rightarrow>
          receive_inputs E ch cid input_tick srv' (process_client_input_message E cid payload input_tick g))"

fun receive_all_inputs ::
  "('w, 'e, 's, 't) game_env \<Rightarrow> u32 \<Rightarrow> client_id list \<Rightarrow> 's \<Rightarrow> 'w game_world
    \<Rightarrow> ('s \<times> 'w game_world) option" where
  "receive_all_inputs E input_tick [] srv g = Some (srv, g)"
| "receive_all_inputs E input_tick (cid # cids) srv g =
     (case receive_inputs E ReliableOrdered cid input_tick srv g of
        None \<Rightarrow> None
      | Some (srv1, g1) \<Rightarrow>
          (case receive_inputs E Unreliable cid input_tick srv1 g1 of
             None \<Rightarrow> None
           | Some (srv2, g2) \<Rightarrow> receive_all_inputs E input_tick cids srv2 g2))"

section \<open>The tick\<close>

definition process_respawn ::
  "('w, 'e, 's, 't) game_env \<Rightarrow> client_id list \<Rightarrow> 'w game_world \<times> world_event list \<Rightarrow> client_id
    \<Rightarrow> 'w game_world \<times> world_event list" where
  "process_respawn E clients = (\<lambda>(g, events) cid.
     (if cid \<notin> set clients then (g, events)
      else if player_exists E cid g then (g, events)
      else (spawn_player E cid g, events @ [PlayerRespawned cid])))"

definition process_respawns ::
  "('w, 'e, 's, 't) game_env \<Rightarrow> u32 \<Rightarrow> client_id list \<Rightarrow> 'w game_world \<times> world_event list
    \<Rightarrow> 'w game_world \<times> world_event list" where
  "process_respawns E current_tick clients = (\<lambda>(g, events).
     (let queue = au_respawn_queue (gw_auth g);
          due = map re_client_id (filter (\<lambda>e. re_at_tick e \<le> current_tick) queue);
          pending = filter (\<lambda>e. \<not> re_at_tick e \<le> current_tick) queue
      in foldl (process_respawn E clients) (update_auth (au_respawn_queue_update (\<lambda>_. pending)) g, events) due))"

definition server_move_player :: "vec2 \<Rightarrow> auth_entity \<Rightarrow> auth_entity" where
  "server_move_player dir player =
     (let speed = fdiv BASE_PLAYER_SPEED (fadd (Fin 1) (fmul (ae_mass player) (lit (15 / 1000))));
          vel = (fmul (fst dir) speed, fmul (snd dir) speed)
      in player\<lparr>ae_vel := vel,
                ae_pos := (server_clamp_axis (fadd (fst (ae_pos player)) (fmul (fst vel) FIXED_DT_SECONDS)) WORLD_WIDTH,
                           server_clamp_axis (fadd (snd (ae_pos player)) (fmul (snd vel) FIXED_DT_SECONDS)) WORLD_HEIGHT)\<rparr>)"

text \<open>The direction a player moves in: the normalised last input while it is fresh.\<close>

definition input_direction :: "auth_state \<Rightarrow> u32 \<Rightarrow> client_id \<Rightarrow> vec2" where
  "input_direction st current_tick cid =
     (case hm_get (au_inputs st) cid of
        None \<Rightarrow> (Fin 0, Fin 0)
      | Some input \<Rightarrow>
          if is_some_and (\<lambda>tick. current_tick - tick \<le> INPUT_STALE_TIMEOUT_TICKS)
               (hm_get (au_last_input_tick st) cid)
          then server_normalize (ci_move_dir input) else (Fin 0, Fin 0))"

definition apply_player_movement ::
  "('w, 'e, 's, 't) game_env \<Rightarrow> u32 \<Rightarrow> 'w game_world \<Rightarrow> 'w game_world" where
  "apply_player_movement E current_tick g =
     update_ecs (ge_update_players E
       (\<lambda>player owner. server_move_player (input_direction (gw_auth g) current_tick owner) player)) g"

record 'e player_snapshot =
  ps_entity :: 'e
  ps_client_id :: client_id
  ps_pos :: vec2
  ps_mass :: f32
  ps_radius :: f32

record 'e pellet_snapshot =
  pl_entity :: 'e
  pl_id :: u64
  pl_pos :: vec2
  pl_radius :: f32

definition collect_player_snapshots ::
  "('w, 'e, 's, 't) game_env \<Rightarrow> 'w game_world \<Rightarrow> 'e player_snapshot list" where
  "collect_player_snapshots E g =
     sort_key ps_client_id (map (\<lambda>(entity, state, owner).
       \<lparr>ps_entity = entity, ps_client_id = owner, ps_pos = ae_pos state, ps_mass = ae_mass state,
        ps_radius = ae_radius state\<rparr>) (ge_players E (gw_ecs g)))"

definition collect_pellet_snapshots ::
  "('w, 'e, 's, 't) game_env \<Rightarrow> 'w game_world \<Rightarrow> 'e pellet_snapshot list" where
  "collect_pellet_snapshots E g =
     sort_key pl_id (map (\<lambda>(entity, state).
       \<lparr>pl_entity = entity, pl_id = ae_id state, pl_pos = ae_pos state, pl_radius = ae_radius state\<rparr>)
       (ge_pellets E (gw_ecs g)))"

text \<open>\<open>entry(key).or_insert(0.0) += gain\<close>.\<close>

definition add_gain :: "u64 \<Rightarrow> f32 \<Rightarrow> (u64 \<times> f32) list \<Rightarrow> (u64 \<times> f32) list" where
  "add_gain key gain m = hm_insert key (fadd (case hm_get m key of None \<Rightarrow> Fin 0 | Some x \<Rightarrow> x) gain) m"

definition take_pellet ::
  "client_id \<Rightarrow> (u64 \<times> 'e pellet_snapshot) list \<times> (u64 \<times> f32) list \<times> (client_id \<times> 'e pellet_snapshot) list
    \<Rightarrow> u64 \<Rightarrow> (u64 \<times> 'e pellet_snapshot) list \<times> (u64 \<times> f32) list \<times> (client_id \<times> 'e pellet_snapshot) list" where
  "take_pellet cid = (\<lambda>(available, gains, records) pellet_id.
     (case hm_get available pellet_id of
        None \<Rightarrow> (available, gains, records)
      | Some pellet \<Rightarrow>
          (hm_remove pellet_id available, add_gain cid PELLET_MASS gains, records @ [(cid, pellet)])))"

definition take_pellets ::
  "(u64 \<times> 'e pellet_snapshot) list \<times> (u64 \<times> f32) list \<times> (client_id \<times> 'e pellet_snapshot) list
    \<Rightarrow> 'e player_snapshot
    \<Rightarrow> (u64 \<times> 'e pellet_snapshot) list \<times> (u64 \<times> f32) list \<times> (client_id \<times> 'e pellet_snapshot) list" where
  "take_pellets = (\<lambda>(available, gains, records) player.
     (let in_reach = (\<lambda>pellet. let dist_sq = server_distance_sq (ps_pos player) (pl_pos pellet);
                                 max_dist = fadd (ps_radius player) (pl_radius pellet)
                             in fle dist_sq (fmul max_dist max_dist));
          consumed_now = sort (map pl_id (filter in_reach (map snd available)))
      in foldl (take_pellet (ps_client_id player)) (available, gains, records) consumed_now))"

definition gain_players ::
  "('w, 'e, 's, 't) game_env \<Rightarrow> (u64 \<times> f32) list \<Rightarrow> 'w game_world \<Rightarrow> 'w game_world" where
  "gain_players E gains =
     update_ecs (ge_update_players E (\<lambda>player owner.
       case hm_get gains owner of
         None \<Rightarrow> player
       | Some gain \<Rightarrow> let mass = fadd (ae_mass player) gain
                      in player\<lparr>ae_mass := mass, ae_radius := server_radius_from_mass mass\<rparr>))"

definition server_consume_pellets ::
  "('w, 'e, 's, 't) game_env \<Rightarrow> 'w game_world \<times> world_event list \<Rightarrow> 'w game_world \<times> world_event list" where
  "server_consume_pellets E = (\<lambda>(g, events).
     (let players = collect_player_snapshots E g; pellets = collect_pellet_snapshots E g in
      if players = [] \<or> pellets = [] then (g, events)
      else
        (let available = foldl (\<lambda>m p. hm_insert (pl_id p) p m) [] pellets;
             (_, gains, records) = foldl take_pellets (available, [], []) players
         in if records = [] then (g, events)
            else (foldl (\<lambda>g (_, pellet). update_ecs (ge_despawn E (pl_entity pellet)) g) (gain_players E gains g) records,
                  events @ map (\<lambda>(player_id, pellet). PelletConsumed player_id (pl_id pellet)) records))))"

definition take_player ::
  "client_id list \<times> (u64 \<times> f32) list \<times> 'e player_snapshot list \<times> world_event list
    \<Rightarrow> 'e player_snapshot \<times> 'e player_snapshot
    \<Rightarrow> client_id list \<times> (u64 \<times> f32) list \<times> 'e player_snapshot list \<times> world_event list" where
  "take_player = (\<lambda>(dead, gains, consumed, events) (a, b).
     (if ps_client_id a \<in> set dead \<or> ps_client_id b \<in> set dead then (dead, gains, consumed, events)
      else
        (let dist_sq = server_distance_sq (ps_pos a) (ps_pos b);
             max_dist = fmul (fadd (ps_radius a) (ps_radius b)) (lit (8 / 10))
         in if flt (fmul max_dist max_dist) dist_sq then (dead, gains, consumed, events)
            else
              (let eat = (\<lambda>consumer victim gain.
                      (ps_client_id victim # dead, add_gain (ps_client_id consumer) gain gains,
                       consumed @ [victim],
                       events @ [PlayerConsumed (ps_client_id consumer) (ps_client_id victim)]))
               in if fle (fmul (ps_mass b) PLAYER_CONSUME_RATIO) (ps_mass a) then eat a b (fmul (ps_mass b) (lit (8 / 10)))
                  else if fle (fmul (ps_mass a) PLAYER_CONSUME_RATIO) (ps_mass b) then eat b a (fmul (ps_mass a) (lit (8 / 10)))
                  else (dead, gains, consumed, events)))))"

definition queue_respawn :: "u32 \<Rightarrow> auth_state \<Rightarrow> 'e player_snapshot \<Rightarrow> auth_state" where
  "queue_respawn current_tick st consumed =
     st\<lparr>au_inputs := hm_remove (ps_client_id consumed) (au_inputs st),
        au_last_input_tick := hm_remove (ps_client_id consumed) (au_last_input_tick st),
        au_respawn_queue := au_respawn_queue st @
          [\<lparr>re_client_id = ps_client_id consumed, re_at_tick = current_tick + RESPAWN_TICKS\<rparr>]\<rparr>"

definition server_consume_players ::
  "('w, 'e, 's, 't) game_env \<Rightarrow> u32 \<Rightarrow> 'w game_world \<times> world_event list \<Rightarrow> 'w game_world \<times> world_event list" where
  "server_consume_players E current_tick = (\<lambda>(g, events).
     (let players = collect_player_snapshots E g in
      if length players < 2 then (g, events)
      else
        (let (_, gains, consumed, events1) = foldl take_player ([], [], [], events) (index_pairs players)
         in if consumed = [] then (g, events1)
            else
              (let g1 = gain_players E gains g;
                   g2 = update_auth (\<lambda>st. foldl (queue_respawn current_tick) st consumed) g1
               in (foldl (\<lambda>g c. update_ecs (ge_despawn E (ps_entity c)) g) g2 consumed, events1)))))"

definition server_new_pellet :: "auth_state \<Rightarrow> auth_entity \<times> auth_state" where
  "server_new_pellet st =
     (let eid = au_next_entity_id st;
          (x, rng1) = server_rand_range (Fin 0) WORLD_WIDTH (au_rng_state st);
          (y, rng2) = server_rand_range (Fin 0) WORLD_HEIGHT rng1
      in (\<lparr>ae_id = eid, ae_kind = Pellet, ae_pos = (x, y), ae_vel = (Fin 0, Fin 0), ae_mass = PELLET_MASS,
           ae_radius = server_radius_from_mass PELLET_MASS,
           ae_color = (lit (96 / 100), lit (76 / 100), lit (31 / 100))\<rparr>,
          st\<lparr>au_next_entity_id := eid + 1, au_rng_state := rng2\<rparr>))"

fun server_new_pellets :: "nat \<Rightarrow> auth_state \<Rightarrow> auth_entity list \<times> auth_state" where
  "server_new_pellets 0 st = ([], st)"
| "server_new_pellets (Suc n) st =
     (let (p, st1) = server_new_pellet st; (ps, st2) = server_new_pellets n st1 in (p # ps, st2))"

definition server_maintain_pellet_budget ::
  "('w, 'e, 's, 't) game_env \<Rightarrow> 'w game_world \<Rightarrow> 'w game_world" where
  "server_maintain_pellet_budget E g =
     (let pellet_count = length (ge_pellets E (gw_ecs g)) in
      if pellet_count \<ge> TARGET_PELLET_COUNT then g
      else
        (let (pellets, st) = server_new_pellets (TARGET_PELLET_COUNT - pellet_count) (gw_auth g)
         in foldl (\<lambda>g p. update_ecs (ge_spawn_pellet E p) g) (g\<lparr>gw_auth := st\<rparr>) pellets))"

definition collect_current_entity_map ::
  "('w, 'e, 's, 't) game_env \<Rightarrow> 'w game_world \<Rightarrow> (u64 \<times> entity_state) list" where
  "collect_current_entity_map E g =
     foldl (\<lambda>m e. hm_insert (ae_id e) (to_entity_state e) m) [] (ge_entities E (gw_ecs g))"

definition collect_world_entities_sorted ::
  "('w, 'e, 's, 't) game_env \<Rightarrow> 'w game_world \<Rightarrow> entity_state list" where
  "collect_world_entities_sorted E g = sort_key es_id (map to_entity_state (ge_entities E (gw_ecs g)))"

definition build_world_delta ::
  "('w, 'e, 's, 't) game_env \<Rightarrow> u32 \<Rightarrow> world_event list \<Rightarrow> 'w game_world \<Rightarrow> world_delta \<times> 'w game_world" where
  "build_world_delta E tick events g =
     (let current = collect_current_entity_map E g; cache = au_snapshot_cache (gw_auth g)
      in (\<lparr>wd_tick = tick, wd_your_last_input_seq = None, wd_upserts = delta_upserts cache current,
           wd_removed = delta_removed cache current, wd_events = events\<rparr>,
          update_auth (au_snapshot_cache_update (\<lambda>_. current)) g))"

definition send_world_delta_to_clients ::
  "('w, 'e, 's, 't) game_env \<Rightarrow> 'w game_world \<Rightarrow> 's \<Rightarrow> world_delta \<Rightarrow> 's" where
  "send_world_delta_to_clients E g srv delta =
     (let acks = au_last_input_seq (gw_auth g)
      in foldl (\<lambda>srv cid. ge_send_message E cid Unreliable
           (ge_encode_delta E (delta\<lparr>wd_your_last_input_seq := hm_get acks cid\<rparr>)) srv)
           srv (ge_clients_id E srv))"

definition join_snapshot_for ::
  "('w, 'e, 's, 't) game_env \<Rightarrow> 'w game_world \<Rightarrow> u32 \<Rightarrow> client_id \<Rightarrow> join_snapshot_msg" where
  "join_snapshot_for E g tick cid =
     \<lparr>js_you = cid, js_tick = tick, js_your_last_input_seq = hm_get (au_last_input_seq (gw_auth g)) cid,
      js_world = \<lparr>ws_tick = tick, ws_entities = collect_world_entities_sorted E g\<rparr>\<rparr>"

definition send_pending_join_snapshots ::
  "('w, 'e, 's, 't) game_env \<Rightarrow> u32 \<Rightarrow> client_id list \<Rightarrow> 'w game_world \<Rightarrow> 's \<Rightarrow> 's \<times> 'w game_world" where
  "send_pending_join_snapshots E tick clients g srv =
     (let (pending, g1) = take_pending_join_snapshots g
      in (foldl (\<lambda>srv cid.
            if cid \<notin> set clients then srv
            else if \<not> player_exists E cid g1 then srv
            else ge_send_message E cid ReliableOrdered (ge_encode_snapshot E (join_snapshot_for E g1 tick cid)) srv)
            srv pending, g1))"

definition delta_is_empty :: "world_delta \<Rightarrow> bool" where
  "delta_is_empty d \<longleftrightarrow> wd_upserts d = [] \<and> wd_removed d = [] \<and> wd_events d = []"

text \<open>The simulation part of the tick: from the world after the inputs to the delta.\<close>

definition simulate_tick ::
  "('w, 'e, 's, 't) game_env \<Rightarrow> client_id list \<Rightarrow> 'w game_world \<Rightarrow> world_delta \<times> 'w game_world" where
  "simulate_tick E clients g =
     (let current_tick = gw_sim_tick g + 1;
          g0 = g\<lparr>gw_sim_tick := current_tick\<rparr>;
          (g1, ev1) = process_respawns E current_tick clients (g0, []);
          g2 = apply_player_movement E current_tick g1;
          (g3, ev3) = server_consume_pellets E (g2, ev1);
          (g4, ev4) = server_consume_players E current_tick (g3, ev3);
          g5 = server_maintain_pellet_budget E g4
      in build_world_delta E current_tick ev4 g5)"

definition fixed_server_tick ::
  "('w, 'e, 's, 't) game_env \<Rightarrow> 's \<times> 'w game_world \<Rightarrow> ('s \<times> 'w game_world) option" where
  "fixed_server_tick E = (\<lambda>(srv, g).
     (let clients = ge_clients_id E srv;
          (disconnects, g1) = take_pending_disconnects g;
          g2 = foldl (\<lambda>g cid. handle_disconnect E cid g) g1 disconnects;
          (connects, g3) = take_pending_connects g2;
          g4 = foldl (process_pending_connect E clients) g3 connects
      in case receive_all_inputs E (gw_sim_tick g) (ge_clients_id E srv) srv g4 of
           None \<Rightarrow> None
         | Some (srv1, g5) \<Rightarrow>
             (let (delta, g6) = simulate_tick E clients g5;
                  srv2 = (if delta_is_empty delta then srv1 else send_world_delta_to_clients E g6 srv1 delta);
                  (srv3, g7) = send_pending_join_snapshots E (gw_sim_tick g6) clients g6 srv2
              in Some (srv3, g7\<lparr>gw_tick_counter := gw_tick_counter g7 + 1\<rparr>))))"

section \<open>Network events\<close>

text \<open>\<open>clk i\<close> are the clock readings while the \<open>i\<close>-th event of a frame is handled.\<close>

definition handle_server_event ::
  "('w, 'e, 's, 't) game_env \<Rightarrow> duration option \<times> duration \<times> duration \<Rightarrow> server_event
    \<Rightarrow> 's \<times> 'a service \<times> auth_state \<Rightarrow> 's \<times> 'a service \<times> auth_state" where
  "handle_server_event E clk event = (\<lambda>(srv, sv, st).
     (case event of
        ClientConnected cid \<Rightarrow>
          (case on_client_connected (fst clk) (fst (snd clk)) (snd (snd clk)) sv cid
                :: (unit bootstrap_error, unit) result \<times> 'a service of
             (Err _, sv') \<Rightarrow> (ge_disconnect E cid srv, sv', st)
           | (Ok _, sv') \<Rightarrow>
               (srv, sv', st\<lparr>au_pending_connects :=
                  (if cid \<in> set (au_pending_connects st) then au_pending_connects st
                   else au_pending_connects st @ [cid])\<rparr>))
      | ClientDisconnected cid \<Rightarrow>
          (srv, on_client_disconnected sv cid, st\<lparr>au_pending_disconnects :=
             (if cid \<in> set (au_pending_disconnects st) then au_pending_disconnects st
              else au_pending_disconnects st @ [cid])\<rparr>)))"

partial_function (option) handle_server_events ::
  "('w, 'e, 's, 't) game_env \<Rightarrow> (nat \<Rightarrow> duration option \<times> duration \<times> duration) \<Rightarrow> nat
    \<Rightarrow> 's \<Rightarrow> 'a service \<Rightarrow> auth_state \<Rightarrow> ('s \<times> 'a service \<times> auth_state) option" where
  "handle_server_events E clk i srv sv st =
     (case ge_get_event E srv of
        (None, srv') \<Rightarrow> Some (srv', sv, st)
      | (Some event, srv') \<Rightarrow>
          (case handle_server_event E (clk i) event (srv', sv, st) of
             (srv2, sv2, st2) \<Rightarrow> handle_server_events E clk (Suc i) srv2 sv2 st2))"

text \<open>The locks of the server and of the transport; a poisoned lock makes the frame do nothing.\<close>

record ('s, 't, 'a) shared_net =
  sn_bootstrap :: "'a service"
  sn_server :: 's
  sn_server_poisoned :: bool
  sn_transport :: 't
  sn_transport_poisoned :: bool

definition network_transport_update ::
  "('w, 'e, 's, 't) game_env \<Rightarrow> (nat \<Rightarrow> duration option \<times> duration \<times> duration) \<Rightarrow> duration
    \<Rightarrow> ('s, 't, 'a) shared_net \<times> auth_state \<Rightarrow> (('s, 't, 'a) shared_net \<times> auth_state) option" where
  "network_transport_update E clk dt = (\<lambda>(net, st).
     (if sn_server_poisoned net \<or> sn_transport_poisoned net then Some (net, st)
      else
        (let (tr, srv) = ge_transport_update E dt (sn_transport net) (ge_server_update E dt (sn_server net))
         in case handle_server_events E clk 0 srv (sn_bootstrap net) st of
              None \<Rightarrow> None
            | Some (srv', sv', st') \<Rightarrow>
                Some (net\<lparr>sn_transport := tr, sn_server := srv', sn_bootstrap := sv'\<rparr>, st'))))"

definition flush_transport_packets ::
  "('w, 'e, 's, 't) game_env \<Rightarrow> ('s, 't, 'a) shared_net \<Rightarrow> ('s, 't, 'a) shared_net" where
  "flush_transport_packets E net =
     (if sn_server_poisoned net \<or> sn_transport_poisoned net then net
      else let (tr, srv) = ge_send_packets E (sn_transport net) (sn_server net)
           in net\<lparr>sn_transport := tr, sn_server := srv\<rparr>)"

definition run_fixed_server_tick ::
  "('w, 'e, 's, 't) game_env \<Rightarrow> ('s, 't, 'a) shared_net \<times> 'w game_world
    \<Rightarrow> (('s, 't, 'a) shared_net \<times> 'w game_world) option" where
  "run_fixed_server_tick E = (\<lambda>(net, g).
     (if sn_server_poisoned net then Some (net, g)
      else case fixed_server_tick E (sn_server net, g) of
             None \<Rightarrow> None
           | Some (srv, g') \<Rightarrow> Some (net\<lparr>sn_server := srv\<rparr>, g')))"

definition bootstrap_authoritative_world ::
  "('w, 'e, 's, 't) game_env \<Rightarrow> 'w game_world \<Rightarrow> 'w game_world" where
  "bootstrap_authoritative_world E g = server_maintain_pellet_budget E g"

section \<open>The entity store\<close>

text \<open>
  What the game relies on of the world: a spawned entity shows up in the queries for its components, a
  despawned one no longer does, updating the players touches no pellet, and the entities are the
  players and the pellets.  Query order is not specified, so the laws are about multisets.
\<close>

locale ecs_world =
  fixes E :: "('w, 'e, 's, 't) game_env"
  assumes players_spawn_player:
      "\<exists>e. mset (ge_players E (ge_spawn_player E a c w)) = mset ((e, a, c) # ge_players E w)"
    and pellets_spawn_player: "mset (ge_pellets E (ge_spawn_player E a c w)) = mset (ge_pellets E w)"
    and players_spawn_pellet: "mset (ge_players E (ge_spawn_pellet E a w)) = mset (ge_players E w)"
    and pellets_spawn_pellet: "\<exists>e. mset (ge_pellets E (ge_spawn_pellet E a w)) = mset ((e, a) # ge_pellets E w)"
    and players_despawn:
      "mset (ge_players E (ge_despawn E e w)) = mset (filter (\<lambda>x. fst x \<noteq> e) (ge_players E w))"
    and pellets_despawn:
      "mset (ge_pellets E (ge_despawn E e w)) = mset (filter (\<lambda>x. fst x \<noteq> e) (ge_pellets E w))"
    and players_update:
      "mset (ge_players E (ge_update_players E f w)) = mset (map (\<lambda>(e, a, c). (e, f a c, c)) (ge_players E w))"
    and pellets_update: "mset (ge_pellets E (ge_update_players E f w)) = mset (ge_pellets E w)"
    and entities_all:
      "mset (ge_entities E w) = mset (map (\<lambda>(e, a, c). a) (ge_players E w) @ map snd (ge_pellets E w))"

text \<open>
  A sound world: no client owns two players, a player carries its owner's identifier, and there are not
  too many pellets.  With \<open>geo\<close> set, every entity is also inside the world with a mass and radius that
  fit (\<open>entity_ok\<close>).
\<close>

definition owners :: "('w, 'e, 's, 't) game_env \<Rightarrow> 'w \<Rightarrow> client_id list" where
  "owners E w = map (\<lambda>(e, a, c). c) (ge_players E w)"

definition ae_ok :: "bool \<Rightarrow> entity_kind \<Rightarrow> auth_entity \<Rightarrow> bool" where
  "ae_ok geo kd a \<longleftrightarrow> ae_kind a = kd \<and> (geo \<longrightarrow> entity_ok (to_entity_state a))"

definition player_entry_ok :: "bool \<Rightarrow> 'e \<times> auth_entity \<times> client_id \<Rightarrow> bool" where
  "player_entry_ok geo = (\<lambda>(e, a, c). ae_id a = c \<and> ae_ok geo Player a)"

definition pellet_entry_ok :: "bool \<Rightarrow> 'e \<times> auth_entity \<Rightarrow> bool" where
  "pellet_entry_ok geo = (\<lambda>(e, a). ae_ok geo Pellet a)"

definition ecs_ok :: "bool \<Rightarrow> ('w, 'e, 's, 't) game_env \<Rightarrow> 'w \<Rightarrow> bool" where
  "ecs_ok geo E w \<longleftrightarrow>
     distinct (owners E w) \<and> list_all (player_entry_ok geo) (ge_players E w)
     \<and> list_all (pellet_entry_ok geo) (ge_pellets E w) \<and> length (ge_pellets E w) \<le> TARGET_PELLET_COUNT"

lemma mset_transfer:
  assumes "mset xs = mset ys"
  shows "list_all P xs = list_all P ys" "length xs = length ys"
    "distinct (map f xs) = distinct (map f ys)" "set (map f xs) = set (map f ys)"
  using assms mset_eq_setD[OF assms] mset_eq_length[OF assms] mset_eq_imp_distinct_iff[of "map f xs" "map f ys"]
  by (simp_all add: list_all_iff)

context ecs_world
begin

lemma owners_spawn_player: "mset (owners E (ge_spawn_player E a c w)) = mset (c # owners E w)"
  using players_spawn_player[of a c w] by (auto simp: owners_def)

lemma owners_spawn_pellet: "mset (owners E (ge_spawn_pellet E a w)) = mset (owners E w)"
  using players_spawn_pellet[of a w] by (simp add: owners_def)

lemma owners_update: "mset (owners E (ge_update_players E f w)) = mset (owners E w)"
proof -
  have "(\<lambda>(e, a, c). c) \<circ> (\<lambda>(e, a, c). (e, f a c, c)) = (\<lambda>(e :: 'e, a :: auth_entity, c :: client_id). c)"
    by auto
  then show ?thesis
    using players_update[of f w] by (simp add: owners_def image_mset.comp[symmetric] multiset.map_comp)
qed

lemma owners_despawn: "set (owners E (ge_despawn E e w)) \<subseteq> set (owners E w)"
  using mset_eq_setD[OF players_despawn[of e w]] by (force simp: owners_def)

lemma distinct_owners_despawn: "distinct (owners E w) \<Longrightarrow> distinct (owners E (ge_despawn E e w))"
  using mset_transfer(3)[OF players_despawn[of e w], of "\<lambda>(e, a, c). c"]
  by (simp add: owners_def distinct_map_filter)

lemma ecs_ok_spawn_player:
  assumes "ecs_ok geo E w" "c \<notin> set (owners E w)" "ae_id a = c" "ae_ok geo Player a"
  shows "ecs_ok geo E (ge_spawn_player E a c w)"
proof -
  obtain e where e: "mset (ge_players E (ge_spawn_player E a c w)) = mset ((e, a, c) # ge_players E w)"
    using players_spawn_player by blast
  have "distinct (owners E (ge_spawn_player E a c w))"
    using assms mset_eq_imp_distinct_iff[OF owners_spawn_player[of a c w]] by (simp add: ecs_ok_def)
  then show ?thesis
    using assms mset_transfer[OF e] mset_transfer[OF pellets_spawn_player[of a c w]]
    by (simp add: ecs_ok_def player_entry_ok_def)
qed

lemma pellets_length_spawn: "length (ge_pellets E (ge_spawn_pellet E a w)) = Suc (length (ge_pellets E w))"
  using pellets_spawn_pellet[of a w] mset_eq_length by fastforce

lemma ecs_ok_spawn_pellet:
  assumes "ecs_ok geo E w" "ae_ok geo Pellet a" "length (ge_pellets E w) < TARGET_PELLET_COUNT"
  shows "ecs_ok geo E (ge_spawn_pellet E a w)"
proof -
  obtain e where e: "mset (ge_pellets E (ge_spawn_pellet E a w)) = mset ((e, a) # ge_pellets E w)"
    using pellets_spawn_pellet by blast
  show ?thesis
    using assms mset_transfer[OF e] mset_transfer[OF players_spawn_pellet[of a w]]
      mset_eq_imp_distinct_iff[OF owners_spawn_pellet[of a w]]
    by (simp add: ecs_ok_def pellet_entry_ok_def)
qed

lemma ecs_ok_despawn: "ecs_ok geo E w \<Longrightarrow> ecs_ok geo E (ge_despawn E e w)"
  using mset_transfer[OF players_despawn[of e w]] mset_transfer[OF pellets_despawn[of e w]]
    distinct_owners_despawn[of w e]
  by (auto simp: ecs_ok_def list_all_iff intro: order_trans[OF length_filter_le])

lemma ecs_ok_update:
  assumes "ecs_ok geo E w"
    and "\<And>a c. ae_id a = c \<Longrightarrow> ae_ok geo Player a \<Longrightarrow> ae_id (f a c) = c \<and> ae_ok geo Player (f a c)"
  shows "ecs_ok geo E (ge_update_players E f w)"
  using assms mset_transfer[OF players_update[of f w]] mset_transfer[OF pellets_update[of f w]]
    mset_eq_imp_distinct_iff[OF owners_update[of f w]]
  by (auto simp: ecs_ok_def list_all_iff player_entry_ok_def)

lemma ecs_ok_despawns: "ecs_ok geo E w \<Longrightarrow> ecs_ok geo E (foldl (\<lambda>w e. ge_despawn E e w) w es)"
  by (induction es arbitrary: w) (simp_all add: ecs_ok_despawn)

lemma owners_despawns: "set (owners E (foldl (\<lambda>w e. ge_despawn E e w) w es)) \<subseteq> set (owners E w)"
  by (induction es arbitrary: w) (use owners_despawn in \<open>force+\<close>)

end

section \<open>The invariant of the game\<close>

lemma to_entity_state_simps [simp]:
  "es_id (to_entity_state a) = ae_id a" "es_kind (to_entity_state a) = ae_kind a"
  "es_pos (to_entity_state a) = ae_pos a" "es_mass (to_entity_state a) = ae_mass a"
  "es_radius (to_entity_state a) = ae_radius a"
  by (simp_all add: to_entity_state_def)

text \<open>The server moves a player exactly as the shared simulation does.\<close>

lemma server_move_player_refines:
  "to_entity_state (server_move_player dir a) = move_player dir (to_entity_state a)"
  by (simp add: server_move_player_def move_player_def player_speed_def Let_def to_entity_state_def)

lemma server_move_player_simps [simp]:
  "ae_id (server_move_player dir a) = ae_id a" "ae_kind (server_move_player dir a) = ae_kind a"
  by (simp_all add: server_move_player_def Let_def)

text \<open>\<open>geo\<close> holds of a state whose stored inputs are finite.\<close>

definition inputs_ok :: "bool \<Rightarrow> auth_state \<Rightarrow> bool" where
  "inputs_ok geo st \<longleftrightarrow> hm_all (\<lambda>_ i. geo \<longrightarrow> finite_dir (ci_move_dir i)) (au_inputs st)
     \<and> hm_all (\<lambda>k e. es_id e = k) (au_snapshot_cache st)"

definition game_ok :: "bool \<Rightarrow> ('w, 'e, 's, 't) game_env \<Rightarrow> 'w game_world \<Rightarrow> bool" where
  "game_ok geo E g \<longleftrightarrow> ecs_ok geo E (gw_ecs g) \<and> inputs_ok geo (gw_auth g)"

text \<open>The environment decodes only finite directions, and its sine and cosine are finite.\<close>

definition env_finite :: "('w, 'e, 's, 't) game_env \<Rightarrow> bool" where
  "env_finite E \<longleftrightarrow> math_ok (ge_math E)
     \<and> (\<forall>payload i. ge_decode_input E payload = Some i \<longrightarrow> finite_dir (ci_move_dir i))"

lemma update_ecs_simps [simp]:
  "gw_ecs (update_ecs f g) = f (gw_ecs g)" "gw_auth (update_ecs f g) = gw_auth g"
  "gw_sim_tick (update_ecs f g) = gw_sim_tick g" "gw_tick_counter (update_ecs f g) = gw_tick_counter g"
  by (simp_all add: update_ecs_def)

lemma update_auth_simps [simp]:
  "gw_ecs (update_auth f g) = gw_ecs g" "gw_auth (update_auth f g) = f (gw_auth g)"
  "gw_sim_tick (update_auth f g) = gw_sim_tick g" "gw_tick_counter (update_auth f g) = gw_tick_counter g"
  by (simp_all add: update_auth_def)

lemma player_exists_owners: "player_exists E cid g \<longleftrightarrow> cid \<in> set (owners E (gw_ecs g))"
  by (auto simp: player_exists_def owners_def list_ex_iff image_iff split: prod.splits)

lemma player_color_simps [simp]:
  "au_inputs (snd (player_color cid st)) = au_inputs st"
  "au_snapshot_cache (snd (player_color cid st)) = au_snapshot_cache st"
  "au_respawn_queue (snd (player_color cid st)) = au_respawn_queue st"
  "au_last_input_seq (snd (player_color cid st)) = au_last_input_seq st"
  by (simp_all add: player_color_def Let_def case_prod_unfold split: option.splits)

lemma spawn_player_simps [simp]:
  "inputs_ok geo (gw_auth (spawn_player E cid g)) = inputs_ok geo (gw_auth g)"
  "au_respawn_queue (gw_auth (spawn_player E cid g)) = au_respawn_queue (gw_auth g)"
  "gw_sim_tick (spawn_player E cid g) = gw_sim_tick g"
  by (simp_all add: spawn_player_def Let_def case_prod_unfold inputs_ok_def)

lemma move_ok:
  assumes "ae_ok geo Player a" "geo \<longrightarrow> finite_dir dir"
  shows "ae_ok geo Player (server_move_player dir a)"
  using assms by (auto simp: ae_ok_def server_move_player_refines entity_ok_move)

lemma input_direction_finite: "inputs_ok geo st \<Longrightarrow> geo \<longrightarrow> finite_dir (input_direction st t cid)"
  by (auto simp: input_direction_def inputs_ok_def finite_dir_normalize split: option.splits dest: hm_all_get)

definition gains_ok :: "bool \<Rightarrow> (u64 \<times> f32) list \<Rightarrow> bool" where
  "gains_ok geo gains \<longleftrightarrow> hm_all (\<lambda>_ x. geo \<longrightarrow> nonneg x) gains"

lemma gains_ok_Nil [simp]: "gains_ok geo []"
  by (simp add: gains_ok_def)

lemma gains_ok_add: "gains_ok geo m \<Longrightarrow> (geo \<longrightarrow> nonneg x) \<Longrightarrow> gains_ok geo (add_gain k x m)"
  by (auto simp: gains_ok_def add_gain_def nonneg_fadd intro!: hm_all_insert split: option.splits dest: hm_all_get)

lemma gain_ok:
  assumes "ae_ok geo Player a" "geo \<longrightarrow> nonneg x"
  shows "ae_ok geo Player (a\<lparr>ae_mass := fadd (ae_mass a) x, ae_radius := radius_from_mass (fadd (ae_mass a) x)\<rparr>)"
  using assms by (auto simp: ae_ok_def entity_ok_def nonneg_fadd)

lemma receive_inputs_inv:
  assumes "receive_inputs E ch cid t srv g = Some (srv', g')" "I g"
    and keep: "\<And>payload g. I g \<Longrightarrow> I (process_client_input_message E cid payload t g)"
  shows "I g'"
proof -
  have "E' = E \<longrightarrow> cid' = cid \<longrightarrow> t' = t \<longrightarrow> I h \<longrightarrow> I (snd r)"
    if "receive_inputs E' ch' cid' t' s h = Some r" for E' ch' cid' t' s h r
  proof (rule receive_inputs.raw_induct[OF _ that], goal_cases)
    case (1 f E' ch' cid' t' s h r)
    obtain m s' where "ge_receive_message E' cid' ch' s = (m, s')"
      by fastforce
    with 1 keep show ?case
      by (cases m) auto
  qed
  with assms(1,2) show ?thesis by fastforce
qed

lemma receive_all_inv:
  assumes "receive_all_inputs E t cids srv g = Some (srv', g')" "I g"
    and keep: "\<And>cid payload g. I g \<Longrightarrow> I (process_client_input_message E cid payload t g)"
  shows "I g'"
  using assms(1,2)
proof (induction cids arbitrary: srv g)
  case (Cons cid cids)
  then obtain s1 g1 s2 g2 where
    r: "receive_inputs E ReliableOrdered cid t srv g = Some (s1, g1)"
      "receive_inputs E Unreliable cid t s1 g1 = Some (s2, g2)"
      "receive_all_inputs E t cids s2 g2 = Some (srv', g')"
    by (auto split: option.splits)
  have "I g1"
    by (rule receive_inputs_inv[where I = I, OF r(1) Cons.prems(2)]) (rule keep)
  then have "I g2"
    by (rule receive_inputs_inv[where I = I, OF r(2)]) (rule keep)
  then show ?case
    by (rule Cons.IH[OF r(3)])
qed auto

lemma gains_take_pellet: "gains_ok geo (fst (snd y)) \<Longrightarrow> gains_ok geo (fst (snd (take_pellet cid y k)))"
  by (auto simp: take_pellet_def case_prod_unfold PELLET_MASS_def gains_ok_add split: option.splits)

lemma gains_take_pellets: "gains_ok geo (fst (snd y)) \<Longrightarrow> gains_ok geo (fst (snd (take_pellets y p)))"
  by (auto simp: take_pellets_def case_prod_unfold Let_def gains_take_pellet
      intro!: foldl_inv[of "\<lambda>y. gains_ok geo (fst (snd y))"])

lemma gains_take_player:
  assumes "gains_ok geo (fst (snd y))" "geo \<longrightarrow> nonneg (ps_mass (fst p)) \<and> nonneg (ps_mass (snd p))"
  shows "gains_ok geo (fst (snd (take_player y p)))"
  using assms by (auto simp: take_player_def case_prod_unfold Let_def lit_values intro!: gains_ok_add nonneg_fmul_Fin)

lemma index_pairs_set: "set (index_pairs xs) \<subseteq> set xs \<times> set xs"
  by (induction xs) auto

lemma new_pellets_ok:
  "length (fst (server_new_pellets n st)) = n \<and> list_all (ae_ok geo Pellet) (fst (server_new_pellets n st))
   \<and> inputs_ok geo (snd (server_new_pellets n st)) = inputs_ok geo st"
proof (induction n arbitrary: st)
  case (Suc n)
  have "ae_ok geo Pellet (fst (server_new_pellet st))"
    using rand_range_in_range[of 3000]
    by (simp add: server_new_pellet_def Let_def case_prod_unfold ae_ok_def entity_ok_def in_world_def
        WORLD_WIDTH_def WORLD_HEIGHT_def PELLET_MASS_def)
  moreover have "inputs_ok geo (snd (server_new_pellet st)) = inputs_ok geo st"
    by (simp add: server_new_pellet_def Let_def case_prod_unfold inputs_ok_def)
  ultimately show ?case
    using Suc[of "snd (server_new_pellet st)"] by (simp add: Let_def case_prod_unfold)
qed simp

lemma current_map_keyed: "hm_all (\<lambda>k e. es_id e = k) (collect_current_entity_map E g)"
  unfolding collect_current_entity_map_def by (rule foldl_inv) (simp_all add: hm_all_insert)

text \<open>The operations of the game keep the invariant.\<close>

locale sound_game = ecs_world E for E :: "('w, 'e, 's, 't) game_env" +
  fixes geo :: bool
  assumes finite_env: "geo \<Longrightarrow> env_finite E"
begin

lemma ok_despawn_player_entities: "game_ok geo E g \<Longrightarrow> game_ok geo E (despawn_player_entities E cid g)"
  by (simp add: game_ok_def despawn_player_entities_def ecs_ok_despawns)

lemma ok_handle_disconnect: "game_ok geo E g \<Longrightarrow> game_ok geo E (handle_disconnect E cid g)"
  using ok_despawn_player_entities[of g cid]
  by (simp add: game_ok_def handle_disconnect_def inputs_ok_def hm_all_remove)

lemma ok_spawn_player:
  assumes "game_ok geo E g" "\<not> player_exists E cid g"
  shows "game_ok geo E (spawn_player E cid g)"
proof -
  have "geo \<longrightarrow> in_world (clamp_axis (fst (spawn_point_from_id (ge_math E) cid)) WORLD_WIDTH,
                          clamp_axis (snd (spawn_point_from_id (ge_math E) cid)) WORLD_HEIGHT)"
    using finite_env in_world_spawn by (auto simp: env_finite_def)
  then have "ecs_ok geo E (gw_ecs (spawn_player E cid g))"
    using assms
    by (auto simp: spawn_player_def Let_def case_prod_unfold game_ok_def player_exists_owners ae_ok_def
        entity_ok_def BASE_PLAYER_MASS_def intro!: ecs_ok_spawn_player)
  with assms(1) show ?thesis
    by (simp add: game_ok_def)
qed

lemma ok_pending_connect: "game_ok geo E g \<Longrightarrow> game_ok geo E (process_pending_connect E clients g cid)"
  using ok_spawn_player[of g cid]
  by (auto simp: process_pending_connect_def queue_join_snapshot_def game_ok_def inputs_ok_def)

lemma ok_input:
  assumes "game_ok geo E g"
  shows "game_ok geo E (process_client_input_message E cid payload t g)"
proof (cases "ge_decode_input E payload")
  case (Some i)
  then have "geo \<longrightarrow> finite_dir (ci_move_dir i)"
    using finite_env by (auto simp: env_finite_def)
  with assms Some show ?thesis
    by (auto simp: process_client_input_message_def Let_def game_ok_def inputs_ok_def intro!: hm_all_insert)
qed (use assms in \<open>simp add: process_client_input_message_def\<close>)

lemma ok_receive_all:
  "receive_all_inputs E t cids srv g = Some (srv', g') \<Longrightarrow> game_ok geo E g \<Longrightarrow> game_ok geo E g'"
  by (erule receive_all_inv[where I = "game_ok geo E"]) (simp_all add: ok_input)

lemma ok_respawns:
  assumes "game_ok geo E (fst x)"
  shows "game_ok geo E (fst (process_respawns E t clients x))"
proof -
  have one: "game_ok geo E (fst (process_respawn E clients y cid))" if "game_ok geo E (fst y)" for y cid
    using that ok_spawn_player[of "fst y" cid] by (auto simp: process_respawn_def case_prod_unfold)
  have "game_ok geo E (fst (foldl (process_respawn E clients) y cids))" if "game_ok geo E (fst y)" for y cids
    using that by (rule foldl_inv[of "\<lambda>y. game_ok geo E (fst y)"]) (rule one)
  then show ?thesis
    using assms by (simp add: process_respawns_def case_prod_unfold Let_def game_ok_def inputs_ok_def)
qed

lemma ok_movement: "game_ok geo E g \<Longrightarrow> game_ok geo E (apply_player_movement E t g)"
  using input_direction_finite[of geo "gw_auth g"]
  by (auto simp: game_ok_def apply_player_movement_def intro!: ecs_ok_update move_ok)

lemma ok_gain_players: "game_ok geo E g \<Longrightarrow> gains_ok geo gains \<Longrightarrow> game_ok geo E (gain_players E gains g)"
  by (auto simp: game_ok_def gain_players_def gains_ok_def Let_def
      intro!: ecs_ok_update gain_ok split: option.splits dest: hm_all_get)

lemma ok_despawns:
  "game_ok geo E g \<Longrightarrow> game_ok geo E (foldl (\<lambda>g x. update_ecs (ge_despawn E (h x)) g) g xs)"
  by (induction xs arbitrary: g) (simp_all add: game_ok_def ecs_ok_despawn)

lemma ok_consume_pellets: "game_ok geo E (fst x) \<Longrightarrow> game_ok geo E (fst (server_consume_pellets E x))"
proof -
  assume ok: "game_ok geo E (fst x)"
  have "gains_ok geo (fst (snd (foldl take_pellets (av, [], []) players)))" for av and players :: "'e player_snapshot list"
    by (rule foldl_inv[of "\<lambda>y. gains_ok geo (fst (snd y))"]) (simp_all add: gains_take_pellets)
  with ok show ?thesis
    by (auto simp: server_consume_pellets_def case_prod_unfold Let_def intro!: ok_despawns ok_gain_players)
qed

lemma ok_consume_players:
  assumes ok: "game_ok geo E (fst x)"
  shows "game_ok geo E (fst (server_consume_players E t x))"
proof -
  let ?players = "collect_player_snapshots E (fst x)"
  have masses: "geo \<longrightarrow> list_all (\<lambda>p. nonneg (ps_mass p)) ?players"
    using ok by (auto simp: game_ok_def ecs_ok_def player_entry_ok_def ae_ok_def entity_ok_def
        collect_player_snapshots_def list_all_iff)
  have "gains_ok geo (fst (snd (foldl take_player y ps)))"
    if "gains_ok geo (fst (snd y))" "set ps \<subseteq> set ?players \<times> set ?players" for y ps
    using that
  proof (induction ps arbitrary: y)
    case (Cons p ps)
    then have "geo \<longrightarrow> nonneg (ps_mass (fst p)) \<and> nonneg (ps_mass (snd p))"
      using masses by (cases p) (auto simp: list_all_iff)
    with Cons show ?case
      by (simp add: gains_take_player)
  qed simp
  from this[OF _ index_pairs_set] have
    "gains_ok geo (fst (snd (foldl take_player ([], [], [], snd x) (index_pairs ?players))))"
    by simp
  moreover have "game_ok geo E (update_auth (\<lambda>st. foldl (queue_respawn t) st cs) g)"
    if "game_ok geo E g" for g and cs :: "'e player_snapshot list"
    using that foldl_inv[of "inputs_ok geo" "gw_auth g" "queue_respawn t" cs]
    by (auto simp: game_ok_def queue_respawn_def inputs_ok_def hm_all_remove)
  ultimately show ?thesis
    using ok by (auto simp: server_consume_players_def case_prod_unfold Let_def
        intro!: ok_despawns ok_gain_players)
qed

lemma ok_spawn_pellets:
  assumes "game_ok geo E g" "list_all (ae_ok geo Pellet) ps"
    "length (ge_pellets E (gw_ecs g)) + length ps \<le> TARGET_PELLET_COUNT"
  shows "game_ok geo E (foldl (\<lambda>g p. update_ecs (ge_spawn_pellet E p) g) g ps)
    \<and> length (ge_pellets E (gw_ecs (foldl (\<lambda>g p. update_ecs (ge_spawn_pellet E p) g) g ps)))
        = length (ge_pellets E (gw_ecs g)) + length ps"
  using assms
proof (induction ps arbitrary: g)
  case (Cons p ps)
  have "game_ok geo E (update_ecs (ge_spawn_pellet E p) g)"
    using Cons.prems by (simp add: game_ok_def ecs_ok_spawn_pellet)
  with Cons show ?case
    by (simp add: pellets_length_spawn)
qed simp

lemma ok_maintain:
  assumes "game_ok geo E g"
  shows "game_ok geo E (server_maintain_pellet_budget E g)
    \<and> length (ge_pellets E (gw_ecs (server_maintain_pellet_budget E g))) = TARGET_PELLET_COUNT"
proof -
  let ?n = "TARGET_PELLET_COUNT - length (ge_pellets E (gw_ecs g))"
  have le: "length (ge_pellets E (gw_ecs g)) \<le> TARGET_PELLET_COUNT"
    using assms by (simp add: game_ok_def ecs_ok_def)
  obtain ps st where n: "server_new_pellets ?n (gw_auth g) = (ps, st)"
    by fastforce
  have ps: "list_all (ae_ok geo Pellet) ps" "length ps = ?n" "inputs_ok geo st"
    using new_pellets_ok[of ?n "gw_auth g" geo] n assms by (simp_all add: game_ok_def)
  have "game_ok geo E (g\<lparr>gw_auth := st\<rparr>)"
    using assms ps(3) by (simp add: game_ok_def)
  from ok_spawn_pellets[OF this ps(1)] show ?thesis
    using assms le n ps(2) by (auto simp: server_maintain_pellet_budget_def Let_def)
qed

lemma ok_build_delta:
  "game_ok geo E g \<Longrightarrow> game_ok geo E (snd (build_world_delta E t ev g))"
  by (simp add: game_ok_def build_world_delta_def Let_def inputs_ok_def current_map_keyed)

lemma ok_simulate:
  assumes "game_ok geo E g"
  shows "game_ok geo E (snd (simulate_tick E clients g))
    \<and> length (ge_pellets E (gw_ecs (snd (simulate_tick E clients g)))) = TARGET_PELLET_COUNT"
proof -
  let ?t = "gw_sim_tick g + 1"
  define x1 where "x1 = process_respawns E ?t clients (g\<lparr>gw_sim_tick := ?t\<rparr>, [])"
  define x3 where "x3 = server_consume_pellets E (apply_player_movement E ?t (fst x1), snd x1)"
  define x4 where "x4 = server_consume_players E ?t x3"
  have "game_ok geo E (fst x1)"
    using assms unfolding x1_def by (intro ok_respawns) (simp add: game_ok_def)
  then have "game_ok geo E (fst x4)"
    unfolding x3_def x4_def by (intro ok_consume_players ok_consume_pellets) (simp add: ok_movement)
  from ok_maintain[OF this] ok_build_delta[of "server_maintain_pellet_budget E (fst x4)"] show ?thesis
    by (simp add: simulate_tick_def Let_def case_prod_unfold x1_def x3_def x4_def build_world_delta_def)
qed

lemma ok_send_snapshots: "game_ok geo E g \<Longrightarrow> game_ok geo E (snd (send_pending_join_snapshots E t clients g srv))"
  by (simp add: game_ok_def send_pending_join_snapshots_def take_pending_join_snapshots_def Let_def inputs_ok_def)

lemma ok_tick:
  assumes "fixed_server_tick E (srv, g) = Some (srv', g')" "game_ok geo E g"
  shows "game_ok geo E g' \<and> length (ge_pellets E (gw_ecs g')) = TARGET_PELLET_COUNT"
proof -
  let ?clients = "ge_clients_id E srv"
  define g1 where "g1 = foldl (\<lambda>g cid. handle_disconnect E cid g) (snd (take_pending_disconnects g))
    (fst (take_pending_disconnects g))"
  define g2 where "g2 = foldl (process_pending_connect E ?clients) (snd (take_pending_connects g1))
    (fst (take_pending_connects g1))"
  have "game_ok geo E (snd (take_pending_disconnects g))"
    using assms(2) by (simp add: game_ok_def take_pending_disconnects_def inputs_ok_def)
  then have "game_ok geo E g1"
    unfolding g1_def by (rule foldl_inv) (rule ok_handle_disconnect)
  then have "game_ok geo E (snd (take_pending_connects g1))"
    by (simp add: game_ok_def take_pending_connects_def inputs_ok_def)
  then have ok2: "game_ok geo E g2"
    unfolding g2_def by (rule foldl_inv) (rule ok_pending_connect)
  obtain srv1 g3 where r: "receive_all_inputs E (gw_sim_tick g) ?clients srv g2 = Some (srv1, g3)"
    using assms(1) by (auto simp: fixed_server_tick_def Let_def case_prod_unfold g1_def g2_def split: option.splits)
  define g4 where "g4 = snd (simulate_tick E ?clients g3)"
  have ok4: "game_ok geo E g4 \<and> length (ge_pellets E (gw_ecs g4)) = TARGET_PELLET_COUNT"
    unfolding g4_def by (rule ok_simulate) (rule ok_receive_all[OF r ok2])
  obtain srv2 where "g' = (let g5 = snd (send_pending_join_snapshots E (gw_sim_tick g4) ?clients g4 srv2)
      in g5\<lparr>gw_tick_counter := gw_tick_counter g5 + 1\<rparr>)"
    using assms(1) r by (auto simp: fixed_server_tick_def Let_def case_prod_unfold g1_def g2_def g4_def)
  with ok4 show ?thesis
    using ok_send_snapshots[of g4 "gw_sim_tick g4" ?clients srv2]
    by (simp add: Let_def game_ok_def send_pending_join_snapshots_def take_pending_join_snapshots_def)
qed

end

section \<open>Runs of the server\<close>

datatype game_op =
    FrameNetwork "nat \<Rightarrow> duration option \<times> duration \<times> duration" duration
  | FrameTick
  | FrameFlush

fun game_step ::
  "('w, 'e, 's, 't) game_env \<Rightarrow> game_op \<Rightarrow> ('s, 't, 'a) shared_net \<times> 'w game_world
    \<Rightarrow> (('s, 't, 'a) shared_net \<times> 'w game_world) option" where
  "game_step E (FrameNetwork clk dt) (net, g) =
     map_option (\<lambda>(net', st). (net', g\<lparr>gw_auth := st\<rparr>)) (network_transport_update E clk dt (net, gw_auth g))"
| "game_step E FrameTick (net, g) = run_fixed_server_tick E (net, g)"
| "game_step E FrameFlush (net, g) = Some (flush_transport_packets E net, g)"

fun game_run ::
  "('w, 'e, 's, 't) game_env \<Rightarrow> game_op list \<Rightarrow> ('s, 't, 'a) shared_net \<times> 'w game_world
    \<Rightarrow> (('s, 't, 'a) shared_net \<times> 'w game_world) option" where
  "game_run E [] x = Some x"
| "game_run E (op # ops) x = (case game_step E op x of None \<Rightarrow> None | Some y \<Rightarrow> game_run E ops y)"

text \<open>The world at start-up: an empty store, refilled with pellets.\<close>

definition game_start :: "('w, 'e, 's, 't) game_env \<Rightarrow> 'w \<Rightarrow> u64 \<Rightarrow> 'w game_world" where
  "game_start E w seed =
     bootstrap_authoritative_world E
       \<lparr>gw_ecs = w, gw_auth = AuthoritativeState_new seed, gw_sim_tick = 0, gw_tick_counter = 0\<rparr>"

lemma handle_event_inputs:
  "inputs_ok geo (snd (snd (handle_server_event E clk ev x))) = inputs_ok geo (snd (snd x))"
  by (auto simp: handle_server_event_def case_prod_unfold inputs_ok_def split: server_event.splits sum.splits)

lemma handle_events_inputs:
  assumes "handle_server_events E clk i srv sv st = Some y"
  shows "inputs_ok geo (snd (snd y)) = inputs_ok geo st"
proof (rule handle_server_events.raw_induct[OF _ assms, where P = "\<lambda>E clk i srv sv st y.
    inputs_ok geo (snd (snd y)) = inputs_ok geo st"], goal_cases)
  case (1 f E clk i srv sv st y)
  obtain ev srv' where g: "ge_get_event E srv = (ev, srv')"
    by fastforce
  show ?case
  proof (cases ev)
    case (Some e)
    obtain srv2 sv2 st2 where h: "handle_server_event E (clk i) e (srv', sv, st) = (srv2, sv2, st2)"
      using prod_cases3 by blast
    with 1(2) g Some have "f E clk (Suc i) srv2 sv2 st2 = Some y"
      by simp
    from 1(1)[OF this] show ?thesis
      using handle_event_inputs[of geo E "clk i" e "(srv', sv, st)"] h by simp
  qed (use 1(2) g in auto)
qed

context sound_game
begin

lemma ok_step:
  assumes "game_step E op (net, g) = Some (net', g')" "game_ok geo E g"
  shows "game_ok geo E g'"
proof (cases op)
  case (FrameNetwork clk dt)
  with assms show ?thesis
    using handle_events_inputs[of E clk 0 _ _ "gw_auth g" _ geo]
    by (fastforce simp: network_transport_update_def game_ok_def Let_def case_prod_unfold
        split: if_splits option.splits)
next
  case FrameTick
  with assms show ?thesis
    using ok_tick[of "sn_server net" g] by (auto simp: run_fixed_server_tick_def split: if_splits option.splits)
qed (use assms in simp)

lemma ok_run: "game_run E ops (net, g) = Some (net', g') \<Longrightarrow> game_ok geo E g \<Longrightarrow> game_ok geo E g'"
proof (induction ops arbitrary: net g)
  case (Cons op ops)
  then obtain net1 g1 where "game_step E op (net, g) = Some (net1, g1)" "game_run E ops (net1, g1) = Some (net', g')"
    by (auto split: option.splits)
  with Cons show ?case
    using ok_step by blast
qed simp

lemma ok_start: "ge_players E w = [] \<Longrightarrow> ge_pellets E w = [] \<Longrightarrow> game_ok geo E (game_start E w seed)"
  unfolding game_start_def bootstrap_authoritative_world_def
  by (intro conjunct1[OF ok_maintain])
    (simp add: game_ok_def ecs_ok_def owners_def inputs_ok_def AuthoritativeState_new_def)

end

section \<open>A concrete environment\<close>

text \<open>
  A world as a list of handles with their components, a Renet server as a mailbox, and a decoder for
  one-byte commands: the laws above hold of it.
\<close>

type_synonym list_world = "nat \<times> (nat \<times> auth_entity \<times> client_id option) list"

record mail_server =
  ms_clients :: "client_id list"
  ms_inbox :: "(client_id \<times> channel \<times> bytes) list"
  ms_events :: "server_event list"
  ms_sent :: "(client_id \<times> channel \<times> bytes) list"

definition lw_players :: "list_world \<Rightarrow> (nat \<times> auth_entity \<times> client_id) list" where
  "lw_players w = List.map_filter (\<lambda>(e, a, o'). case o' of None \<Rightarrow> None | Some c \<Rightarrow> Some (e, a, c)) (snd w)"

definition lw_pellets :: "list_world \<Rightarrow> (nat \<times> auth_entity) list" where
  "lw_pellets w = List.map_filter (\<lambda>(e, a, o'). case o' of None \<Rightarrow> Some (e, a) | Some c \<Rightarrow> None) (snd w)"

definition mail_receive :: "client_id \<Rightarrow> channel \<Rightarrow> mail_server \<Rightarrow> bytes option \<times> mail_server" where
  "mail_receive cid ch srv =
     (case List.extract (\<lambda>(c, k, _). c = cid \<and> k = ch) (ms_inbox srv) of
        None \<Rightarrow> (None, srv)
      | Some (before, (_, _, payload), after) \<Rightarrow> (Some payload, srv\<lparr>ms_inbox := before @ after\<rparr>))"

definition demo_env :: "(list_world, nat, mail_server, unit) game_env" where
  "demo_env =
     \<lparr>ge_math = flat_math, ge_players = lw_players, ge_pellets = lw_pellets,
      ge_entities = (\<lambda>w. map (\<lambda>(e, a, c). a) (snd w)),
      ge_spawn_player = (\<lambda>a c (n, es). (Suc n, (n, a, Some c) # es)),
      ge_spawn_pellet = (\<lambda>a (n, es). (Suc n, (n, a, None) # es)),
      ge_despawn = (\<lambda>e (n, es). (n, filter (\<lambda>x. fst x \<noteq> e) es)),
      ge_update_players = (\<lambda>f (n, es).
        (n, map (\<lambda>(e, a, o'). (e, case o' of None \<Rightarrow> a | Some c \<Rightarrow> f a c, o')) es)),
      ge_clients_id = ms_clients, ge_receive_message = mail_receive,
      ge_send_message = (\<lambda>cid ch payload srv. srv\<lparr>ms_sent := ms_sent srv @ [(cid, ch, payload)]\<rparr>),
      ge_get_event = (\<lambda>srv. case ms_events srv of [] \<Rightarrow> (None, srv) | e # es \<Rightarrow> (Some e, srv\<lparr>ms_events := es\<rparr>)),
      ge_disconnect = (\<lambda>cid srv. srv\<lparr>ms_clients := removeAll cid (ms_clients srv)\<rparr>),
      ge_server_update = (\<lambda>_ srv. srv), ge_transport_update = (\<lambda>_ tr srv. (tr, srv)),
      ge_send_packets = (\<lambda>tr srv. (tr, srv)),
      ge_decode_input = (\<lambda>payload. case payload of [] \<Rightarrow> None
        | b # _ \<Rightarrow> Some \<lparr>ci_seq = ucast b, ci_move_dir = (Fin 1, Fin 0)\<rparr>),
      ge_encode_delta = (\<lambda>d. [ucast (wd_tick d)]), ge_encode_snapshot = (\<lambda>j. [ucast (js_you j)])\<rparr>"

lemma lw_despawn:
  "lw_players (n, filter (\<lambda>x. fst x \<noteq> e) es) = filter (\<lambda>x. fst x \<noteq> e) (lw_players (n, es))"
  "lw_pellets (n, filter (\<lambda>x. fst x \<noteq> e) es) = filter (\<lambda>x. fst x \<noteq> e) (lw_pellets (n, es))"
  by (induction es) (auto simp: lw_players_def lw_pellets_def List.map_filter_def split: option.splits)

lemma lw_update:
  "lw_players (n, map (\<lambda>(e, a, o'). (e, case o' of None \<Rightarrow> a | Some c \<Rightarrow> f a c, o')) es)
     = map (\<lambda>(e, a, c). (e, f a c, c)) (lw_players (n, es))"
  "lw_pellets (n, map (\<lambda>(e, a, o'). (e, case o' of None \<Rightarrow> a | Some c \<Rightarrow> f a c, o')) es) = lw_pellets (n, es)"
  by (induction es) (auto simp: lw_players_def lw_pellets_def List.map_filter_def split: option.splits)

lemma lw_all:
  "mset (map (\<lambda>(e, a, c). a) es) = mset (map (\<lambda>(e, a, c). a) (lw_players (n, es)) @ map snd (lw_pellets (n, es)))"
  by (induction es) (auto simp: lw_players_def lw_pellets_def List.map_filter_def split: option.splits)

lemma demo_finite: "env_finite demo_env"
  by (auto simp: env_finite_def demo_env_def math_ok_def flat_math_def finite_dir_def split: list.splits)

interpretation demo_game: sound_game demo_env True
proof
  show "\<exists>e. mset (ge_players demo_env (ge_spawn_player demo_env a c w)) = mset ((e, a, c) # ge_players demo_env w)" for a c w
    by (cases w) (auto simp: demo_env_def lw_players_def List.map_filter_def)
  show "\<exists>e. mset (ge_pellets demo_env (ge_spawn_pellet demo_env a w)) = mset ((e, a) # ge_pellets demo_env w)" for a w
    by (cases w) (auto simp: demo_env_def lw_pellets_def List.map_filter_def)
  show "mset (ge_pellets demo_env (ge_spawn_player demo_env a c w)) = mset (ge_pellets demo_env w)" for a c w
    by (cases w) (simp add: demo_env_def lw_pellets_def List.map_filter_def)
  show "mset (ge_players demo_env (ge_spawn_pellet demo_env a w)) = mset (ge_players demo_env w)" for a w
    by (cases w) (simp add: demo_env_def lw_players_def List.map_filter_def)
  show "mset (ge_entities demo_env w) = mset (map (\<lambda>(e, a, c). a) (ge_players demo_env w) @ map snd (ge_pellets demo_env w))" for w
    using lw_all[of "snd w" "fst w"] by (simp add: demo_env_def)
qed (auto simp: demo_env_def lw_despawn lw_update demo_finite[unfolded demo_env_def] split: prod.splits)

section \<open>The tick returns\<close>

text \<open>Receiving a message leaves fewer messages to receive.\<close>

definition drains :: "('w, 'e, 's, 't) game_env \<Rightarrow> ('s \<Rightarrow> nat) \<Rightarrow> bool" where
  "drains E pend \<longleftrightarrow>
     (\<forall>cid ch srv. case ge_receive_message E cid ch srv of (m, srv') \<Rightarrow> m \<noteq> None \<longrightarrow> pend srv' < pend srv)"

lemma receive_inputs_returns:
  assumes "drains E pend"
  shows "\<exists>srv' g'. receive_inputs E ch cid t srv g = Some (srv', g')"
proof (induction srv arbitrary: g rule: measure_induct_rule[where f = pend])
  case (less srv)
  obtain m srv' where r: "ge_receive_message E cid ch srv = (m, srv')"
    by fastforce
  show ?case
  proof (cases m)
    case None
    with r show ?thesis by (subst receive_inputs.simps) simp
  next
    case (Some payload)
    have "case ge_receive_message E cid ch srv of (m, srv') \<Rightarrow> m \<noteq> None \<longrightarrow> pend srv' < pend srv"
      using assms by (simp add: drains_def)
    with r Some have "pend srv' < pend srv"
      by simp
    from less[OF this] r Some show ?thesis
      by (subst receive_inputs.simps) simp
  qed
qed

lemma receive_all_returns:
  "drains E pend \<Longrightarrow> \<exists>srv' g'. receive_all_inputs E t cids srv g = Some (srv', g')"
proof (induction cids arbitrary: srv g)
  case (Cons cid cids)
  obtain s1 g1 where "receive_inputs E ReliableOrdered cid t srv g = Some (s1, g1)"
    using receive_inputs_returns[OF Cons.prems] by blast
  moreover obtain s2 g2 where "receive_inputs E Unreliable cid t s1 g1 = Some (s2, g2)"
    using receive_inputs_returns[OF Cons.prems] by blast
  ultimately show ?case
    using Cons by simp
qed simp

section \<open>Respawns\<close>

text \<open>Ticks with the inputs received before each of them, while nobody joins or leaves.\<close>

fun play ::
  "('w, 'e, 's, 't) game_env \<Rightarrow> (client_id list \<times> (client_id \<times> bytes) list) list \<Rightarrow> 'w game_world
    \<Rightarrow> world_delta list \<times> 'w game_world" where
  "play E [] g = ([], g)"
| "play E ((clients, inputs) # rest) g =
     (let g1 = foldl (\<lambda>g (cid, payload). process_client_input_message E cid payload (gw_sim_tick g) g) g inputs;
          (delta, g2) = simulate_tick E clients g1;
          (deltas, g3) = play E rest g2
      in (delta # deltas, g3))"

text \<open>Waiting to respawn: the client has an entry in the queue and no player.\<close>

definition waiting :: "('w, 'e, 's, 't) game_env \<Rightarrow> respawn_entry \<Rightarrow> 'w game_world \<Rightarrow> bool" where
  "waiting E e g \<longleftrightarrow> e \<in> set (au_respawn_queue (gw_auth g)) \<and> re_client_id e \<notin> set (owners E (gw_ecs g))"

lemma input_message_keeps [simp]:
  "au_respawn_queue (gw_auth (process_client_input_message E cid p t g)) = au_respawn_queue (gw_auth g)"
  "gw_ecs (process_client_input_message E cid p t g) = gw_ecs g"
  "gw_sim_tick (process_client_input_message E cid p t g) = gw_sim_tick g"
  by (auto simp: process_client_input_message_def Let_def split: option.splits)

lemma inputs_keep:
  "au_respawn_queue (gw_auth (foldl (\<lambda>g (cid, p). process_client_input_message E cid p (gw_sim_tick g) g) g xs))
     = au_respawn_queue (gw_auth g)"
  "gw_ecs (foldl (\<lambda>g (cid, p). process_client_input_message E cid p (gw_sim_tick g) g) g xs) = gw_ecs g"
  "gw_sim_tick (foldl (\<lambda>g (cid, p). process_client_input_message E cid p (gw_sim_tick g) g) g xs) = gw_sim_tick g"
  by (induction xs arbitrary: g) (auto simp: case_prod_unfold)

lemma respawn_fold_keeps:
  "set ev \<subseteq> set (snd (foldl (process_respawn E clients) (g, ev) cids))"
  "au_respawn_queue (gw_auth (fst (foldl (process_respawn E clients) (g, ev) cids))) = au_respawn_queue (gw_auth g)"
  "gw_sim_tick (fst (foldl (process_respawn E clients) (g, ev) cids)) = gw_sim_tick g"
proof (induction cids arbitrary: g ev)
  case (Cons cid cids)
  { case 1 then show ?case using Cons(1) by (fastforce simp: process_respawn_def) }
  { case 2 then show ?case using Cons(2) by (simp add: process_respawn_def) }
  { case 3 then show ?case using Cons(3) by (simp add: process_respawn_def) }
qed simp_all

text \<open>While respawns are handled, a client without a player either stays without one or respawns.\<close>

context ecs_world
begin

lemma respawn_fold_cases:
  assumes "cid \<notin> set (owners E (gw_ecs g))"
  shows "PlayerRespawned cid \<in> set (snd (foldl (process_respawn E clients) (g, ev) cids))
       \<or> cid \<notin> set (owners E (gw_ecs (fst (foldl (process_respawn E clients) (g, ev) cids))))
         \<and> (cid \<in> set clients \<longrightarrow> cid \<notin> set cids)"
  using assms
proof (induction cids arbitrary: g ev)
  case (Cons c cids)
  let ?y = "process_respawn E clients (g, ev) c"
  show ?case
  proof (cases "c \<in> set clients \<and> \<not> player_exists E c g")
    case True
    then have y: "?y = (spawn_player E c g, ev @ [PlayerRespawned c])"
      by (simp add: process_respawn_def)
    show ?thesis
    proof (cases "c = cid")
      case True
      then show ?thesis
        using respawn_fold_keeps(1)[of "ev @ [PlayerRespawned c]" E clients "spawn_player E c g" cids] y by simp
    next
      case False
      have "cid \<notin> set (owners E (gw_ecs (spawn_player E c g)))"
        using Cons.prems False mset_eq_setD[OF owners_spawn_player]
        by (auto simp: spawn_player_def Let_def case_prod_unfold)
      from Cons.IH[OF this, of "ev @ [PlayerRespawned c]"] False y show ?thesis
        by simp
    qed
  next
    case False
    then have "?y = (g, ev)" and "cid \<in> set clients \<Longrightarrow> c \<noteq> cid"
      using Cons.prems by (auto simp: process_respawn_def player_exists_owners)
    then show ?thesis
      using Cons by auto
  qed
qed simp

lemma owners_movement: "set (owners E (gw_ecs (apply_player_movement E t g))) = set (owners E (gw_ecs g))"
  using mset_eq_setD[OF owners_update] by (simp add: apply_player_movement_def)

lemma owners_gain: "set (owners E (gw_ecs (gain_players E gains g))) = set (owners E (gw_ecs g))"
  using mset_eq_setD[OF owners_update] by (simp add: gain_players_def)

lemma owners_despawn_game:
  "set (owners E (gw_ecs (foldl (\<lambda>g x. update_ecs (ge_despawn E (h x)) g) g xs))) \<subseteq> set (owners E (gw_ecs g))"
  by (induction xs arbitrary: g) (use owners_despawn in \<open>force+\<close>)

lemma owners_consume_pellets: "set (owners E (gw_ecs (fst (server_consume_pellets E x)))) \<subseteq> set (owners E (gw_ecs (fst x)))"
  using owners_despawn_game owners_gain
  by (auto simp: server_consume_pellets_def case_prod_unfold Let_def dest!: subsetD[OF owners_despawn_game])

lemma owners_consume_players: "set (owners E (gw_ecs (fst (server_consume_players E t x)))) \<subseteq> set (owners E (gw_ecs (fst x)))"
  using owners_gain
  by (auto simp: server_consume_players_def case_prod_unfold Let_def dest!: subsetD[OF owners_despawn_game])

lemma owners_spawn_pellets:
  "set (owners E (gw_ecs (foldl (\<lambda>g p. update_ecs (ge_spawn_pellet E p) g) g ps))) = set (owners E (gw_ecs g))"
  by (induction ps arbitrary: g) (simp_all add: mset_eq_setD[OF owners_spawn_pellet])

lemma owners_maintain: "set (owners E (gw_ecs (server_maintain_pellet_budget E g))) = set (owners E (gw_ecs g))"
  by (simp add: server_maintain_pellet_budget_def Let_def case_prod_unfold owners_spawn_pellets)

end

lemma despawn_fold_keeps [simp]:
  "gw_auth (foldl (\<lambda>g x. update_ecs (ge_despawn E (h x)) g) g xs) = gw_auth g"
  "gw_sim_tick (foldl (\<lambda>g x. update_ecs (ge_despawn E (h x)) g) g xs) = gw_sim_tick g"
  by (induction xs arbitrary: g) simp_all

lemma spawn_fold_keeps [simp]:
  "gw_auth (foldl (\<lambda>g p. update_ecs (ge_spawn_pellet E p) g) g ps) = gw_auth g"
  "gw_sim_tick (foldl (\<lambda>g p. update_ecs (ge_spawn_pellet E p) g) g ps) = gw_sim_tick g"
  by (induction ps arbitrary: g) simp_all

lemma gain_players_keeps [simp]:
  "gw_auth (gain_players E gains g) = gw_auth g" "gw_sim_tick (gain_players E gains g) = gw_sim_tick g"
  by (simp_all add: gain_players_def)

lemma consume_pellets_keeps:
  "gw_auth (fst (server_consume_pellets E x)) = gw_auth (fst x)"
  "gw_sim_tick (fst (server_consume_pellets E x)) = gw_sim_tick (fst x)"
  "set (snd x) \<subseteq> set (snd (server_consume_pellets E x))"
  by (auto simp: server_consume_pellets_def case_prod_unfold Let_def)

lemma queue_respawn_fold:
  "set (au_respawn_queue st) \<subseteq> set (au_respawn_queue (foldl (queue_respawn t) st cs))"
  by (induction cs arbitrary: st) (fastforce simp: queue_respawn_def)+

lemma take_player_events: "set (snd (snd (snd y))) \<subseteq> set (snd (snd (snd (foldl take_player y ps))))"
proof (induction ps arbitrary: y)
  case (Cons p ps)
  have "set (snd (snd (snd y))) \<subseteq> set (snd (snd (snd (take_player y p))))"
    by (auto simp: take_player_def case_prod_unfold Let_def)
  with Cons[of "take_player y p"] show ?case
    by simp
qed simp

lemma consume_players_keeps:
  "set (au_respawn_queue (gw_auth (fst x))) \<subseteq> set (au_respawn_queue (gw_auth (fst (server_consume_players E t x))))"
  "gw_sim_tick (fst (server_consume_players E t x)) = gw_sim_tick (fst x)"
  "set (snd x) \<subseteq> set (snd (server_consume_players E t x))"
  using queue_respawn_fold[of "gw_auth (fst x)"]
    take_player_events[of "([], [], [], snd x)" "index_pairs (collect_player_snapshots E (fst x))"]
  by (auto simp: server_consume_players_def case_prod_unfold Let_def)

lemma new_pellets_queue:
  "au_respawn_queue (snd (server_new_pellets n st)) = au_respawn_queue st"
  by (induction n arbitrary: st) (simp_all add: server_new_pellet_def Let_def case_prod_unfold)

lemma maintain_keeps:
  "au_respawn_queue (gw_auth (server_maintain_pellet_budget E g)) = au_respawn_queue (gw_auth g)"
  "gw_sim_tick (server_maintain_pellet_budget E g) = gw_sim_tick g"
  by (simp_all add: server_maintain_pellet_budget_def Let_def case_prod_unfold new_pellets_queue)

lemma movement_keeps [simp]:
  "gw_auth (apply_player_movement E t g) = gw_auth g" "gw_sim_tick (apply_player_movement E t g) = gw_sim_tick g"
  by (simp_all add: apply_player_movement_def)

lemma respawns_keep:
  "gw_sim_tick (fst (process_respawns E t clients x)) = gw_sim_tick (fst x)"
  "au_respawn_queue (gw_auth (fst (process_respawns E t clients x)))
     = filter (\<lambda>e. \<not> re_at_tick e \<le> t) (au_respawn_queue (gw_auth (fst x)))"
  by (simp_all add: process_respawns_def case_prod_unfold Let_def respawn_fold_keeps)

context ecs_world
begin

lemma respawns_cases:
  assumes "waiting E e (fst x)" "re_client_id e \<in> set clients"
  shows "PlayerRespawned (re_client_id e) \<in> set (snd (process_respawns E t clients x))
    \<or> waiting E e (fst (process_respawns E t clients x)) \<and> \<not> re_at_tick e \<le> t"
proof -
  define due where "due = map re_client_id (filter (\<lambda>e. re_at_tick e \<le> t) (au_respawn_queue (gw_auth (fst x))))"
  define y where "y = update_auth (au_respawn_queue_update (\<lambda>_.
    filter (\<lambda>e. \<not> re_at_tick e \<le> t) (au_respawn_queue (gw_auth (fst x))))) (fst x)"
  have pr: "process_respawns E t clients x = foldl (process_respawn E clients) (y, snd x) due"
    by (simp add: process_respawns_def case_prod_unfold Let_def due_def y_def)
  have "re_client_id e \<notin> set (owners E (gw_ecs y))"
    using assms(1) by (simp add: waiting_def y_def)
  from respawn_fold_cases[OF this, of clients "snd x" due] assms show ?thesis
    unfolding pr waiting_def by (auto simp: respawn_fold_keeps(2) y_def due_def)
qed

lemma simulate_waiting:
  assumes "waiting E e g" "re_client_id e \<in> set clients"
  shows "PlayerRespawned (re_client_id e) \<in> set (wd_events (fst (simulate_tick E clients g)))
    \<or> waiting E e (snd (simulate_tick E clients g)) \<and> \<not> re_at_tick e \<le> gw_sim_tick g + 1"
proof -
  let ?t = "gw_sim_tick g + 1" and ?c = "re_client_id e"
  define x1 where "x1 = process_respawns E ?t clients (g\<lparr>gw_sim_tick := ?t\<rparr>, [])"
  define x2 where "x2 = (apply_player_movement E ?t (fst x1), snd x1)"
  define x3 where "x3 = server_consume_pellets E x2"
  define x4 where "x4 = server_consume_players E ?t x3"
  define g5 where "g5 = server_maintain_pellet_budget E (fst x4)"
  have st: "simulate_tick E clients g = build_world_delta E ?t (snd x4) g5"
    by (simp add: simulate_tick_def Let_def case_prod_unfold x1_def x2_def x3_def x4_def g5_def)
  have ev: "set (snd x1) \<subseteq> set (snd x4)"
    using consume_pellets_keeps(3)[of x2 E] consume_players_keeps(3)[of x3 E ?t]
    by (auto simp: x2_def x3_def x4_def)
  have own: "set (owners E (gw_ecs g5)) \<subseteq> set (owners E (gw_ecs (fst x1)))"
    using owners_consume_pellets[of x2] owners_consume_players[of ?t x3] owners_maintain[of "fst x4"]
      owners_movement[of ?t "fst x1"]
    by (auto simp: x2_def x3_def x4_def g5_def)
  have q: "set (au_respawn_queue (gw_auth (fst x1))) \<subseteq> set (au_respawn_queue (gw_auth g5))"
    using consume_players_keeps(1)[of x3 E ?t] consume_pellets_keeps(1)[of E x2]
    by (auto simp: x2_def x3_def x4_def g5_def maintain_keeps)
  have "waiting E e (fst (g\<lparr>gw_sim_tick := ?t\<rparr>, []))"
    using assms(1) by (simp add: waiting_def)
  from respawns_cases[OF this assms(2), of ?t] show ?thesis
    unfolding st x1_def[symmetric] using ev own q
    by (auto simp: build_world_delta_def Let_def waiting_def)
qed

end

lemma simulate_tick_number: "gw_sim_tick (snd (simulate_tick E clients g)) = gw_sim_tick g + 1"
  by (simp add: simulate_tick_def build_world_delta_def Let_def case_prod_unfold maintain_keeps
      consume_players_keeps consume_pellets_keeps respawns_keep)

context ecs_world
begin

lemma play_respawns:
  assumes "waiting E e g" "list_all (\<lambda>(clients, _). re_client_id e \<in> set clients) ticks"
    "unat (re_at_tick e) \<le> unat (gw_sim_tick g) + length ticks" "unat (gw_sim_tick g) + length ticks < 2 ^ 32"
    "gw_sim_tick g < re_at_tick e"
  shows "\<exists>d \<in> set (fst (play E ticks g)). PlayerRespawned (re_client_id e) \<in> set (wd_events d)"
  using assms
proof (induction ticks arbitrary: g)
  case Nil
  then show ?case by (simp add: word_less_nat_alt)
next
  case (Cons x ticks)
  obtain clients inputs where x: "x = (clients, inputs)"
    by (cases x)
  define g1 where "g1 = foldl (\<lambda>g (cid, p). process_client_input_message E cid p (gw_sim_tick g) g) g inputs"
  have t1: "gw_sim_tick g1 = gw_sim_tick g" and w1: "waiting E e g1"
    using Cons.prems(1) by (simp_all add: g1_def waiting_def inputs_keep)
  have "re_client_id e \<in> set clients"
    using Cons.prems(2) by (simp add: x)
  from simulate_waiting[OF w1 this] show ?case
  proof
    assume "PlayerRespawned (re_client_id e) \<in> set (wd_events (fst (simulate_tick E clients g1)))"
    then show ?thesis
      by (simp add: x Let_def case_prod_unfold g1_def)
  next
    assume w: "waiting E e (snd (simulate_tick E clients g1)) \<and> \<not> re_at_tick e \<le> gw_sim_tick g1 + 1"
    define g2 where "g2 = snd (simulate_tick E clients g1)"
    have t2: "gw_sim_tick g2 = gw_sim_tick g + 1"
      by (simp add: g2_def simulate_tick_number t1)
    have "unat (gw_sim_tick g + 1) = unat (gw_sim_tick g) + 1"
      using Cons.prems(4) unat_add_lem[of "gw_sim_tick g" 1] by simp
    then have "\<exists>d \<in> set (fst (play E ticks g2)). PlayerRespawned (re_client_id e) \<in> set (wd_events d)"
      using Cons.prems w t2 by (intro Cons.IH) (simp_all add: g2_def t1 not_le)
    then show ?thesis
      by (auto simp: x Let_def case_prod_unfold g1_def g2_def)
  qed
qed

end


definition demo_dead :: "list_world game_world" where
  "demo_dead =
     \<lparr>gw_ecs = (0, []),
      gw_auth = (AuthoritativeState_new 1)\<lparr>au_respawn_queue := [\<lparr>re_client_id = 3, re_at_tick = 2\<rparr>]\<rparr>,
      gw_sim_tick = 0, gw_tick_counter = 0\<rparr>"


lemma tick_returns:
  assumes "drains E pend"
  shows "\<exists>srv' g'. fixed_server_tick E (srv, g) = Some (srv', g')"
proof -
  obtain srv1 g1 where "receive_all_inputs E (gw_sim_tick g) (ge_clients_id E srv) srv
      (foldl (process_pending_connect E (ge_clients_id E srv))
         (snd (take_pending_connects (foldl (\<lambda>g cid. handle_disconnect E cid g) (snd (take_pending_disconnects g))
            (fst (take_pending_disconnects g)))))
         (fst (take_pending_connects (foldl (\<lambda>g cid. handle_disconnect E cid g) (snd (take_pending_disconnects g))
            (fst (take_pending_disconnects g)))))) = Some (srv1, g1)"
    using receive_all_returns[OF assms] by blast
  then show ?thesis
    by (simp add: fixed_server_tick_def Let_def case_prod_unfold)
qed

lemma demo_drains: "drains demo_env (\<lambda>srv. length (ms_inbox srv))"
proof -
  have "length (before @ after) < length xs" if "List.extract P xs = Some (before, x, after)"
    for P and xs before after :: "(client_id \<times> channel \<times> bytes) list" and x
    using that by (simp add: extract_Some_iff)
  then show ?thesis
    by (auto simp: drains_def demo_env_def mail_receive_def split: option.splits)
qed

definition demo_net :: "(mail_server, unit, unit) shared_net" where
  "demo_net =
     \<lparr>sn_bootstrap = BootstrapService_new BootstrapConfig_default (),
      sn_server = \<lparr>ms_clients = [3], ms_inbox = [(3, Unreliable, [7])], ms_events = [], ms_sent = []\<rparr>,
      sn_server_poisoned = False, sn_transport = (), sn_transport_poisoned = False\<rparr>"

text \<open>
  C19: over every run of network updates, ticks and flushes from start-up, no client owns two players,
  every player carries its owner's identifier, and there are at most the target number of pellets;
  and when decoded inputs have finite directions, every entity stays inside the world with a
  non-negative mass and the radius that mass gives.
\<close>

theorem game_world_invariant:
  assumes "ecs_world E" "ge_players E w = []" "ge_pellets E w = []"
    and "game_run E ops (net, game_start E w seed) = Some (net', g')"
  shows "game_ok (env_finite E) E g'"
proof -
  have "sound_game E (env_finite E)"
    using assms(1) by (simp add: sound_game_def sound_game_axioms_def)
  then show ?thesis
    using sound_game.ok_run[OF _ assms(4)] sound_game.ok_start[OF _ assms(2,3)] by blast
qed

theorem game_world_invariant_witness:
  "\<exists>net' g'. game_run demo_env [FrameTick] (demo_net, game_start demo_env (0, []) 1) = Some (net', g')
     \<and> game_ok (env_finite demo_env) demo_env g'"
proof -
  obtain srv g where "fixed_server_tick demo_env (sn_server demo_net, game_start demo_env (0, []) 1) = Some (srv, g)"
    using tick_returns[OF demo_drains] by blast
  then have r: "game_run demo_env [FrameTick] (demo_net, game_start demo_env (0, []) 1)
      = Some (demo_net\<lparr>sn_server := srv\<rparr>, g)"
    by (simp add: run_fixed_server_tick_def demo_net_def)
  have "ge_players demo_env (0, []) = []" "ge_pellets demo_env (0, []) = []"
    by (simp_all add: demo_env_def lw_players_def lw_pellets_def List.map_filter_def)
  from game_world_invariant[OF demo_game.ecs_world_axioms this r] r show ?thesis
    by blast
qed

end
