(* ===== verification/Game_Client.thy ===== *)
theory Game_Client
  imports Game_Server
begin

text \<open>
  The example game client (\<open>examples/client/src/common.rs\<close>): the replica of the world with prediction,
  smoothing and reconciliation, the cadence of input commands and their acknowledgement, and the
  network tick.  The Renet client, the platform's transport and bincode are fields of the record
  \<open>play_env\<close>.  What the client draws and reads is in \<open>Client_Scene\<close> and \<open>Client_Panel\<close>.
\<close>

section \<open>Constants\<close>

definition MAX_LOCAL_PREDICTION_STEP :: f32 where
  "MAX_LOCAL_PREDICTION_STEP = fdiv (Fin 1) (Fin 30)"

definition MAX_REMOTE_EXTRAPOLATION_STEP :: f32 where
  "MAX_REMOTE_EXTRAPOLATION_STEP = fdiv (Fin 1) (Fin 20)"

definition STOP_SNAP_DISTANCE :: f32 where
  "STOP_SNAP_DISTANCE = Fin 4"

definition STOP_SNAP_CORRECTION_MAX :: f32 where
  "STOP_SNAP_CORRECTION_MAX = lit (22 / 100)"

definition NET_GRAPH_SAMPLES :: nat where
  "NET_GRAPH_SAMPLES = 72"

definition NET_GRAPH_HEIGHT_PX :: f32 where
  "NET_GRAPH_HEIGHT_PX = Fin 26"

definition INPUT_SEND_INTERVAL_SECONDS :: f32 where
  "INPUT_SEND_INTERVAL_SECONDS = fdiv (Fin 1) (Fin 60)"

definition INPUT_DIRECTION_CHANGE_DOT_THRESHOLD :: f32 where
  "INPUT_DIRECTION_CHANGE_DOT_THRESHOLD = lit (995 / 1000)"

definition MAX_PENDING_INPUT_COMMANDS :: nat where
  "MAX_PENDING_INPUT_COMMANDS = 256"

definition MAX_INPUT_SEND_CATCH_UP_STEPS :: nat where
  "MAX_INPUT_SEND_CATCH_UP_STEPS = 4"

definition APP_TRAFFIC_SAMPLE_SECONDS :: f32 where
  "APP_TRAFFIC_SAMPLE_SECONDS = lit (10 / 100)"

definition MAX_NETWORK_DT_SECONDS :: f32 where
  "MAX_NETWORK_DT_SECONDS = lit (10 / 100)"

definition MAX_SMOOTHING_DT_SECONDS :: f32 where
  "MAX_SMOOTHING_DT_SECONDS = fdiv (Fin 1) (Fin 30)"

section \<open>State\<close>

record world_view =
  wv_tick :: u32
  wv_you :: "u64 option"
  wv_authoritative :: "(u64 \<times> entity_state) list"
  wv_rendered :: "(u64 \<times> entity_state) list"

record pending_input =
  pi_seq :: u32
  pi_move_dir :: vec2
  pi_sent_at_seconds :: f32

record traffic_meter =
  tm_tx_bytes_accum :: nat
  tm_rx_bytes_accum :: nat
  tm_elapsed :: f32
  tm_tx_rate_kib_s :: f32
  tm_rx_rate_kib_s :: f32

record graph_history =
  gh_rtt_ms :: "f32 list"
  gh_loss_pct :: "f32 list"
  gh_up_kib_s :: "f32 list"
  gh_down_kib_s :: "f32 list"

record smoothing_params =
  sp_remote_correction :: f32
  sp_local_correction :: f32
  sp_pellet_correction :: f32
  sp_stop_correction :: f32
  sp_local_dir :: vec2
  sp_local_moving :: bool
  sp_remote_extrapolation_dt :: f32

record ('r, 't) client_runtime =
  cr_client_id :: u64
  cr_renet :: 'r
  cr_transport :: 't
  cr_input_seq :: u32
  cr_last_sent_input :: vec2
  cr_input_send_elapsed :: f32
  cr_clock_seconds :: f32
  cr_pending_inputs :: "pending_input list"

record ('r, 't) tick_ctx =
  tc_runtime :: "('r, 't) client_runtime"
  tc_world :: world_view
  tc_traffic :: traffic_meter
  tc_graphs :: graph_history
  tc_dt :: duration
  tc_movement_input :: vec2
  tc_diag_enabled :: bool
  tc_received_authoritative :: bool

record input_send_cadence =
  isc_periodic_sends :: nat
  isc_residual_elapsed :: f32

record ('r, 't) play_env =
  pe_math :: f32_math
  pe_renet_update :: "duration \<Rightarrow> 'r \<Rightarrow> 'r"
  pe_is_connected :: "'r \<Rightarrow> bool"
  pe_send_message :: "channel \<Rightarrow> bytes \<Rightarrow> 'r \<Rightarrow> 'r"
  pe_receive_message :: "channel \<Rightarrow> 'r \<Rightarrow> bytes option \<times> 'r"
  pe_rtt_ms :: "'r \<Rightarrow> f32"
  pe_loss_pct :: "'r \<Rightarrow> f32"
  pe_transport_update :: "duration \<Rightarrow> 't \<Rightarrow> 'r \<Rightarrow> 't \<times> 'r"
  pe_send_packets :: "'t \<Rightarrow> 'r \<Rightarrow> 't \<times> 'r"
  pe_encode_input :: "client_input \<Rightarrow> bytes"
  pe_decode_snapshot :: "bytes \<Rightarrow> join_snapshot_msg option"
  pe_decode_delta :: "bytes \<Rightarrow> world_delta option"

definition client_runtime_new :: "u64 \<Rightarrow> 'r \<Rightarrow> 't \<Rightarrow> ('r, 't) client_runtime" where
  "client_runtime_new client_id renet transport =
     \<lparr>cr_client_id = client_id, cr_renet = renet, cr_transport = transport, cr_input_seq = 0,
      cr_last_sent_input = (Fin 0, Fin 0), cr_input_send_elapsed = INPUT_SEND_INTERVAL_SECONDS,
      cr_clock_seconds = Fin 0, cr_pending_inputs = []\<rparr>"

section \<open>Helpers the client defines for itself\<close>

definition client_normalize :: "vec2 \<Rightarrow> vec2" where
  "client_normalize v =
     (let len = f32_sqrt (fadd (fmul (fst v) (fst v)) (fmul (snd v) (snd v)))
      in if fle len F32_EPSILON then (Fin 0, Fin 0) else (fdiv (fst v) len, fdiv (snd v) len))"

definition client_clamp_axis :: "f32 \<Rightarrow> f32 \<Rightarrow> f32" where
  "client_clamp_axis value mx = f32_clamp value (Fin 0) mx"

definition has_movement_input :: "vec2 \<Rightarrow> bool" where
  "has_movement_input d \<longleftrightarrow> flt F32_EPSILON (f32_abs (fst d)) \<or> flt F32_EPSILON (f32_abs (snd d))"

definition smooth_step_factor :: "f32_math \<Rightarrow> f32 \<Rightarrow> f32 \<Rightarrow> f32" where
  "smooth_step_factor fm dt_secs hz =
     f32_clamp (fsub (Fin 1) (m_exp fm (fmul (fneg hz) dt_secs))) (Fin 0) (Fin 1)"

definition bounded_smoothing_factor :: "f32_math \<Rightarrow> f32 \<Rightarrow> f32 \<Rightarrow> f32 \<Rightarrow> f32" where
  "bounded_smoothing_factor fm dt_secs hz max_alpha =
     f32_min (smooth_step_factor fm (f32_min (f32_max dt_secs (Fin 0)) MAX_SMOOTHING_DT_SECONDS) hz) max_alpha"

definition SmoothingParams_new :: "f32_math \<Rightarrow> f32 \<Rightarrow> vec2 \<Rightarrow> smoothing_params" where
  "SmoothingParams_new fm dt_secs local_input =
     (let local_dir = client_normalize local_input
      in \<lparr>sp_remote_correction = bounded_smoothing_factor fm dt_secs (Fin 10) (lit (45 / 100)),
          sp_local_correction = bounded_smoothing_factor fm dt_secs (Fin 6) (lit (45 / 100)),
          sp_pellet_correction = bounded_smoothing_factor fm dt_secs (Fin 18) (lit (65 / 100)),
          sp_stop_correction = bounded_smoothing_factor fm dt_secs (Fin 8) STOP_SNAP_CORRECTION_MAX,
          sp_local_dir = local_dir,
          sp_local_moving = has_movement_input local_dir,
          sp_remote_extrapolation_dt = f32_min dt_secs MAX_REMOTE_EXTRAPOLATION_STEP\<rparr>)"

definition client_speed :: "f32 \<Rightarrow> f32" where
  "client_speed mass = fdiv BASE_PLAYER_SPEED (fadd (Fin 1) (fmul mass (lit (15 / 1000))))"

lemma client_helpers [simp]:
  "client_normalize = normalize_f32" "client_clamp_axis = clamp_axis" "client_speed = player_speed"
  by (intro ext; simp only: client_normalize_def normalize_f32_def client_clamp_axis_def clamp_axis_def
      client_speed_def player_speed_def)+

section \<open>The replica\<close>

definition apply_snapshot :: "join_snapshot_msg \<Rightarrow> world_view \<Rightarrow> world_view" where
  "apply_snapshot snapshot v =
     (let entities = ws_entities (js_world snapshot);
          (rendered, authoritative) =
            foldl (\<lambda>(r, a) e. (hm_insert (es_id e) e r, hm_insert (es_id e) e a)) ([], []) entities
      in v\<lparr>wv_tick := js_tick snapshot, wv_you := Some (js_you snapshot),
           wv_authoritative := authoritative, wv_rendered := rendered\<rparr>)"

definition upsert_entity ::
  "(u64 \<times> entity_state) list \<times> (u64 \<times> entity_state) list \<Rightarrow> entity_state
    \<Rightarrow> (u64 \<times> entity_state) list \<times> (u64 \<times> entity_state) list" where
  "upsert_entity = (\<lambda>(authoritative, rendered) e.
     (hm_insert (es_id e) e authoritative,
      if hm_contains rendered (es_id e) then rendered else hm_insert (es_id e) e rendered))"

definition apply_delta :: "world_delta \<Rightarrow> world_view \<Rightarrow> world_view" where
  "apply_delta delta v =
     (let (authoritative, rendered) =
            foldl upsert_entity (wv_authoritative v, wv_rendered v) (wd_upserts delta);
          (authoritative', rendered') =
            foldl (\<lambda>(a, r) i. (hm_remove i a, hm_remove i r)) (authoritative, rendered) (wd_removed delta)
      in v\<lparr>wv_tick := wd_tick delta, wv_authoritative := authoritative', wv_rendered := rendered'\<rparr>)"

definition rendered_or :: "u64 \<Rightarrow> entity_state \<Rightarrow> world_view \<Rightarrow> entity_state" where
  "rendered_or k authoritative v = (case hm_get (wv_rendered v) k of Some e \<Rightarrow> e | None \<Rightarrow> authoritative)"

definition update_rendered_from_authoritative_base :: "entity_state \<Rightarrow> entity_state \<Rightarrow> entity_state" where
  "update_rendered_from_authoritative_base authoritative rendered =
     rendered\<lparr>es_kind := es_kind authoritative, es_mass := es_mass authoritative,
              es_radius := es_radius authoritative\<rparr>"

definition local_authoritative_player :: "world_view \<Rightarrow> (u64 \<times> entity_state) option" where
  "local_authoritative_player v =
     (case wv_you v of
        None \<Rightarrow> None
      | Some you \<Rightarrow>
          (case hm_get (wv_authoritative v) you of
             None \<Rightarrow> None
           | Some authoritative \<Rightarrow>
               if es_kind authoritative \<noteq> Player then None else Some (you, authoritative)))"

text \<open>Move an entity at a velocity for a time, kept inside the world.\<close>

definition advance :: "vec2 \<Rightarrow> f32 \<Rightarrow> vec2 \<Rightarrow> vec2" where
  "advance vel dt pos =
     (client_clamp_axis (fadd (fst pos) (fmul (fst vel) dt)) WORLD_WIDTH,
      client_clamp_axis (fadd (snd pos) (fmul (snd vel) dt)) WORLD_HEIGHT)"

definition fixed_predict_local :: "f32 \<Rightarrow> vec2 \<Rightarrow> world_view \<Rightarrow> world_view" where
  "fixed_predict_local dt_secs local_input v =
     (if fle dt_secs (Fin 0) then v
      else case local_authoritative_player v of
        None \<Rightarrow> v
      | Some (you, authoritative) \<Rightarrow>
          (let rendered = update_rendered_from_authoritative_base authoritative (rendered_or you authoritative v);
               local_dir = client_normalize local_input;
               rendered' =
                 (if \<not> has_movement_input local_dir then rendered\<lparr>es_vel := (Fin 0, Fin 0)\<rparr>
                  else
                    (let speed = client_speed (es_mass authoritative);
                         vel = (fmul (fst local_dir) speed, fmul (snd local_dir) speed);
                         step_dt = f32_min dt_secs MAX_LOCAL_PREDICTION_STEP
                     in rendered\<lparr>es_vel := vel, es_pos := advance vel step_dt (es_pos rendered)\<rparr>))
           in v\<lparr>wv_rendered := hm_insert you rendered' (wv_rendered v)\<rparr>))"

text \<open>The position pulled by a fraction of an offset.\<close>

definition nudge :: "vec2 \<Rightarrow> f32 \<Rightarrow> vec2 \<Rightarrow> vec2" where
  "nudge off alpha pos = (fadd (fst pos) (fmul (fst off) alpha), fadd (snd pos) (fmul (snd off) alpha))"

definition offset :: "vec2 \<Rightarrow> vec2 \<Rightarrow> vec2" where
  "offset to_pos from_pos = (fsub (fst to_pos) (fst from_pos), fsub (snd to_pos) (snd from_pos))"

definition smooth_local_player :: "smoothing_params \<Rightarrow> entity_state \<Rightarrow> entity_state \<Rightarrow> entity_state" where
  "smooth_local_player params authoritative rendered =
     (if sp_local_moving params then
        (let speed = client_speed (es_mass authoritative);
             dir = sp_local_dir params;
             err = offset (es_pos authoritative) (es_pos rendered);
             forward_error = fadd (fmul (fst err) (fst dir)) (fmul (snd err) (snd dir));
             forward = (fmul (fst dir) forward_error, fmul (snd dir) forward_error);
             lateral = (fsub (fst err) (fst forward), fsub (snd err) (snd forward));
             lateral_correction = f32_min (fmul (sp_local_correction params) (Fin 2)) (lit (45 / 100));
             pos1 = nudge lateral lateral_correction (es_pos rendered);
             pos2 = (if flt (Fin 0) forward_error then nudge forward (sp_local_correction params) pos1
                     else nudge forward (f32_min (fmul (sp_local_correction params) (lit (12 / 100))) (lit (4 / 100))) pos1)
         in rendered\<lparr>es_vel := (fmul (fst dir) speed, fmul (snd dir) speed), es_pos := pos2\<rparr>)
      else
        (let r = rendered\<lparr>es_vel := (Fin 0, Fin 0)\<rparr>;
             d = offset (es_pos authoritative) (es_pos rendered)
         in if fle (fadd (fmul (fst d) (fst d)) (fmul (snd d) (snd d))) (fmul STOP_SNAP_DISTANCE STOP_SNAP_DISTANCE)
            then r\<lparr>es_pos := es_pos authoritative\<rparr>
            else r\<lparr>es_pos := nudge d (sp_stop_correction params) (es_pos rendered)\<rparr>))"

definition smooth_remote_player :: "smoothing_params \<Rightarrow> entity_state \<Rightarrow> entity_state \<Rightarrow> entity_state" where
  "smooth_remote_player params authoritative rendered =
     (let pos1 = nudge (es_vel authoritative) (sp_remote_extrapolation_dt params) (es_pos rendered);
          pos2 = nudge (offset (es_pos authoritative) pos1) (sp_remote_correction params) pos1
      in rendered\<lparr>es_pos := pos2, es_vel := es_vel authoritative\<rparr>)"

definition smooth_pellet :: "smoothing_params \<Rightarrow> entity_state \<Rightarrow> entity_state \<Rightarrow> entity_state" where
  "smooth_pellet params authoritative rendered =
     rendered\<lparr>es_pos := nudge (offset (es_pos authoritative) (es_pos rendered)) (sp_pellet_correction params) (es_pos rendered),
              es_vel := es_vel authoritative\<rparr>"

definition clamp_rendered_entity :: "entity_state \<Rightarrow> entity_state" where
  "clamp_rendered_entity rendered =
     rendered\<lparr>es_pos := (client_clamp_axis (fst (es_pos rendered)) WORLD_WIDTH,
                        client_clamp_axis (snd (es_pos rendered)) WORLD_HEIGHT)\<rparr>"

definition smooth_entity ::
  "smoothing_params \<Rightarrow> world_view \<Rightarrow> u64 \<times> entity_state \<Rightarrow> entity_state" where
  "smooth_entity params v = (\<lambda>(k, authoritative).
     (let rendered = update_rendered_from_authoritative_base authoritative (rendered_or k authoritative v);
          smoothed =
            (case es_kind authoritative of
               Player \<Rightarrow> if wv_you v = Some k then smooth_local_player params authoritative rendered
                         else smooth_remote_player params authoritative rendered
             | Pellet \<Rightarrow> smooth_pellet params authoritative rendered)
      in clamp_rendered_entity smoothed))"

definition step_smoothing :: "f32_math \<Rightarrow> f32 \<Rightarrow> vec2 \<Rightarrow> world_view \<Rightarrow> world_view" where
  "step_smoothing fm dt_secs local_input v =
     (if fle dt_secs (Fin 0) then v
      else
        (let params = SmoothingParams_new fm (f32_min dt_secs MAX_SMOOTHING_DT_SECONDS) local_input;
             v1 = foldl (\<lambda>v (k, a). v\<lparr>wv_rendered := hm_insert k (smooth_entity params v (k, a)) (wv_rendered v)\<rparr>)
                    v (wv_authoritative v)
         in v1\<lparr>wv_rendered := hm_retain (\<lambda>k _. hm_contains (wv_authoritative v) k) (wv_rendered v1)\<rparr>))"

section \<open>Reconciliation\<close>

text \<open>The inner loop of the replay: the remaining time is consumed in bounded steps.\<close>

partial_function (option) replay_steps :: "vec2 \<Rightarrow> f32 \<Rightarrow> vec2 \<Rightarrow> vec2 option" where
  "replay_steps vel remaining pos =
     (if flt (Fin 0) remaining then
        (let step_dt = f32_min remaining MAX_LOCAL_PREDICTION_STEP
         in replay_steps vel (fsub remaining step_dt) (advance vel step_dt pos))
      else Some pos)"

text \<open>The time a pending command was in force: until the next one was sent, or until now.\<close>

definition command_span :: "f32 \<Rightarrow> pending_input \<Rightarrow> pending_input list \<Rightarrow> f32" where
  "command_span now_seconds command later =
     (let start = f32_min (pi_sent_at_seconds command) now_seconds;
          stop = f32_min (case later of [] \<Rightarrow> now_seconds | next # _ \<Rightarrow> pi_sent_at_seconds next) now_seconds
      in f32_max (fsub stop start) (Fin 0))"

fun replay_commands :: "f32 \<Rightarrow> f32 \<Rightarrow> pending_input list \<Rightarrow> entity_state \<Rightarrow> entity_state option" where
  "replay_commands speed now_seconds [] rendered = Some rendered"
| "replay_commands speed now_seconds (command # later) rendered =
     (let remaining = command_span now_seconds command later in
      if fle remaining (Fin 0) then replay_commands speed now_seconds later rendered
      else
        (let dir = client_normalize (pi_move_dir command);
             vel = (if has_movement_input dir then (fmul (fst dir) speed, fmul (snd dir) speed) else (Fin 0, Fin 0))
         in case replay_steps vel remaining (es_pos rendered) of
              None \<Rightarrow> None
            | Some pos \<Rightarrow> replay_commands speed now_seconds later (rendered\<lparr>es_vel := vel, es_pos := pos\<rparr>)))"

definition reset_local_rendered_to_authoritative :: "u64 \<Rightarrow> entity_state \<Rightarrow> world_view \<Rightarrow> world_view" where
  "reset_local_rendered_to_authoritative you authoritative v =
     v\<lparr>wv_rendered := hm_insert you authoritative (wv_rendered v)\<rparr>"

definition replay_pending_inputs ::
  "u64 \<Rightarrow> entity_state \<Rightarrow> pending_input list \<Rightarrow> f32 \<Rightarrow> world_view \<Rightarrow> world_view option" where
  "replay_pending_inputs you authoritative pending now_seconds v =
     (if pending = [] then Some v
      else case hm_get (wv_rendered v) you of
        None \<Rightarrow> Some v
      | Some rendered \<Rightarrow>
          map_option (\<lambda>r. v\<lparr>wv_rendered := hm_insert you r (wv_rendered v)\<rparr>)
            (replay_commands (client_speed (es_mass authoritative)) now_seconds pending rendered))"

definition reconcile_local_prediction :: "pending_input list \<Rightarrow> f32 \<Rightarrow> world_view \<Rightarrow> world_view option" where
  "reconcile_local_prediction pending now_seconds v =
     (case local_authoritative_player v of
        None \<Rightarrow> Some v
      | Some (you, authoritative) \<Rightarrow>
          replay_pending_inputs you authoritative pending now_seconds
            (reset_local_rendered_to_authoritative you authoritative v))"

section \<open>Sending inputs\<close>

definition should_edge_send_input :: "vec2 \<Rightarrow> vec2 \<Rightarrow> bool" where
  "should_edge_send_input previous current =
     (let previous_moving = has_movement_input previous; current_moving = has_movement_input current in
      if previous_moving \<noteq> current_moving then True
      else if \<not> current_moving then False
      else
        (let p = client_normalize previous; c = client_normalize current;
             dot = fadd (fmul (fst p) (fst c)) (fmul (snd p) (snd c))
         in flt dot INPUT_DIRECTION_CHANGE_DOT_THRESHOLD))"

fun count_sends :: "f32 \<Rightarrow> nat \<Rightarrow> f32 \<Rightarrow> nat \<times> f32" where
  "count_sends interval 0 residual = (0, residual)"
| "count_sends interval (Suc n) residual =
     (if fle interval residual
      then let (sends, r) = count_sends interval n (fsub residual interval) in (Suc sends, r)
      else (0, residual))"

definition plan_periodic_input_sends :: "f32 \<Rightarrow> f32 \<Rightarrow> nat \<Rightarrow> bool \<Rightarrow> input_send_cadence" where
  "plan_periodic_input_sends elapsed interval max_steps edge_sent =
     (if fle interval F32_EPSILON then \<lparr>isc_periodic_sends = 0, isc_residual_elapsed = Fin 0\<rparr>
      else
        (let residual = f32_max elapsed (Fin 0);
             residual1 = (if edge_sent \<and> fle interval residual then fsub residual interval else residual);
             (sends, residual2) = count_sends interval max_steps residual1
         in \<lparr>isc_periodic_sends = sends, isc_residual_elapsed = f32_min residual2 interval\<rparr>))"

definition send_input_command ::
  "('r, 't) play_env \<Rightarrow> vec2 \<Rightarrow> ('r, 't) tick_ctx \<Rightarrow> ('r, 't) tick_ctx" where
  "send_input_command E move_dir ctx =
     (let rt = tc_runtime ctx;
          seq = cr_input_seq rt + 1;
          payload = pe_encode_input E \<lparr>ci_seq = seq, ci_move_dir = move_dir\<rparr>;
          traffic = (if tc_diag_enabled ctx
                     then (tc_traffic ctx)\<lparr>tm_tx_bytes_accum := sat_add64 (tm_tx_bytes_accum (tc_traffic ctx)) (length payload)\<rparr>
                     else tc_traffic ctx);
          pending = cr_pending_inputs rt @
            [\<lparr>pi_seq = seq, pi_move_dir = move_dir, pi_sent_at_seconds = cr_clock_seconds rt\<rparr>]
      in ctx\<lparr>tc_traffic := traffic,
             tc_runtime := rt\<lparr>cr_input_seq := seq,
               cr_renet := pe_send_message E Unreliable payload (cr_renet rt),
               cr_pending_inputs := drop (length pending - MAX_PENDING_INPUT_COMMANDS) pending,
               cr_last_sent_input := move_dir\<rparr>\<rparr>)"

definition send_local_input :: "('r, 't) play_env \<Rightarrow> ('r, 't) tick_ctx \<Rightarrow> ('r, 't) tick_ctx" where
  "send_local_input E ctx =
     (if \<not> pe_is_connected E (cr_renet (tc_runtime ctx)) then ctx
      else
        (let rt = tc_runtime ctx;
             ctx1 = ctx\<lparr>tc_runtime := rt\<lparr>cr_input_send_elapsed :=
                      fadd (cr_input_send_elapsed rt) (as_secs_f32 (tc_dt ctx))\<rparr>\<rparr>;
             edge_sent = should_edge_send_input (cr_last_sent_input rt) (tc_movement_input ctx);
             ctx2 = (if edge_sent then send_input_command E (tc_movement_input ctx) ctx1 else ctx1);
             cadence = plan_periodic_input_sends (cr_input_send_elapsed (tc_runtime ctx2))
                         INPUT_SEND_INTERVAL_SECONDS MAX_INPUT_SEND_CATCH_UP_STEPS edge_sent;
             ctx3 = (send_input_command E (tc_movement_input ctx) ^^ isc_periodic_sends cadence) ctx2
         in ctx3\<lparr>tc_runtime := (tc_runtime ctx3)\<lparr>cr_input_send_elapsed := isc_residual_elapsed cadence\<rparr>\<rparr>))"

section \<open>Receiving\<close>

fun acknowledge_input_seq :: "u32 option \<Rightarrow> pending_input list \<Rightarrow> pending_input list" where
  "acknowledge_input_seq None pending = pending"
| "acknowledge_input_seq (Some ack) [] = []"
| "acknowledge_input_seq (Some ack) (front # rest) =
     (if is_newer_input_seq (pi_seq front) ack then front # rest else acknowledge_input_seq (Some ack) rest)"

definition accumulate_rx_bytes :: "nat \<Rightarrow> ('r, 't) tick_ctx \<Rightarrow> ('r, 't) tick_ctx" where
  "accumulate_rx_bytes len ctx =
     (if tc_diag_enabled ctx
      then ctx\<lparr>tc_traffic := (tc_traffic ctx)\<lparr>tm_rx_bytes_accum := sat_add64 (tm_rx_bytes_accum (tc_traffic ctx)) len\<rparr>\<rparr>
      else ctx)"

definition acknowledge_ctx :: "u32 option \<Rightarrow> ('r, 't) tick_ctx \<Rightarrow> ('r, 't) tick_ctx" where
  "acknowledge_ctx ack ctx =
     ctx\<lparr>tc_runtime := (tc_runtime ctx)\<lparr>cr_pending_inputs :=
       acknowledge_input_seq ack (cr_pending_inputs (tc_runtime ctx))\<rparr>\<rparr>"

definition receive_join_snapshot :: "('r, 't) play_env \<Rightarrow> bytes \<Rightarrow> ('r, 't) tick_ctx \<Rightarrow> ('r, 't) tick_ctx" where
  "receive_join_snapshot E payload ctx =
     (let ctx1 = accumulate_rx_bytes (length payload) ctx in
      case pe_decode_snapshot E payload of
        None \<Rightarrow> ctx1
      | Some snapshot \<Rightarrow>
          (let ctx2 = acknowledge_ctx (js_your_last_input_seq snapshot) ctx1
           in ctx2\<lparr>tc_runtime := (tc_runtime ctx2)\<lparr>cr_client_id := js_you snapshot\<rparr>,
                   tc_world := apply_snapshot snapshot (tc_world ctx2), tc_received_authoritative := True\<rparr>))"

definition receive_world_delta :: "('r, 't) play_env \<Rightarrow> bytes \<Rightarrow> ('r, 't) tick_ctx \<Rightarrow> ('r, 't) tick_ctx" where
  "receive_world_delta E payload ctx =
     (let ctx1 = accumulate_rx_bytes (length payload) ctx in
      case pe_decode_delta E payload of
        None \<Rightarrow> ctx1
      | Some delta \<Rightarrow>
          (let ctx2 = acknowledge_ctx (wd_your_last_input_seq delta) ctx1
           in ctx2\<lparr>tc_world := apply_delta delta (tc_world ctx2), tc_received_authoritative := True\<rparr>))"

text \<open>Both channels are drained by the same loop.\<close>

partial_function (option) receive_loop ::
  "('r, 't) play_env \<Rightarrow> channel \<Rightarrow> (bytes \<Rightarrow> ('r, 't) tick_ctx \<Rightarrow> ('r, 't) tick_ctx) \<Rightarrow> ('r, 't) tick_ctx
    \<Rightarrow> ('r, 't) tick_ctx option" where
  "receive_loop E ch handle ctx =
     (case pe_receive_message E ch (cr_renet (tc_runtime ctx)) of
        (None, renet) \<Rightarrow> Some (ctx\<lparr>tc_runtime := (tc_runtime ctx)\<lparr>cr_renet := renet\<rparr>\<rparr>)
      | (Some payload, renet) \<Rightarrow>
          receive_loop E ch handle (handle payload (ctx\<lparr>tc_runtime := (tc_runtime ctx)\<lparr>cr_renet := renet\<rparr>\<rparr>)))"

definition receive_authoritative_messages ::
  "('r, 't) play_env \<Rightarrow> ('r, 't) tick_ctx \<Rightarrow> ('r, 't) tick_ctx option" where
  "receive_authoritative_messages E ctx =
     (case receive_loop E ReliableOrdered (receive_join_snapshot E) (ctx\<lparr>tc_received_authoritative := False\<rparr>) of
        None \<Rightarrow> None
      | Some ctx1 \<Rightarrow> receive_loop E Unreliable (receive_world_delta E) ctx1)"

section \<open>The network tick\<close>

definition prepare_frame :: "('r, 't) play_env \<Rightarrow> ('r, 't) tick_ctx \<Rightarrow> ('r, 't) tick_ctx" where
  "prepare_frame E ctx =
     (let rt = tc_runtime ctx
      in ctx\<lparr>tc_runtime := rt\<lparr>cr_clock_seconds := fadd (cr_clock_seconds rt) (as_secs_f32 (tc_dt ctx)),
                              cr_renet := pe_renet_update E (tc_dt ctx) (cr_renet rt)\<rparr>\<rparr>)"

definition pump_transport_update :: "('r, 't) play_env \<Rightarrow> ('r, 't) tick_ctx \<Rightarrow> ('r, 't) tick_ctx" where
  "pump_transport_update E ctx =
     (let rt = tc_runtime ctx; (tr, renet) = pe_transport_update E (tc_dt ctx) (cr_transport rt) (cr_renet rt)
      in ctx\<lparr>tc_runtime := rt\<lparr>cr_transport := tr, cr_renet := renet\<rparr>\<rparr>)"

definition reconcile_and_smooth_world ::
  "('r, 't) play_env \<Rightarrow> ('r, 't) tick_ctx \<Rightarrow> ('r, 't) tick_ctx option" where
  "reconcile_and_smooth_world E ctx =
     (let rt = tc_runtime ctx in
      case (if tc_received_authoritative ctx
            then reconcile_local_prediction (cr_pending_inputs rt) (cr_clock_seconds rt) (tc_world ctx)
            else Some (tc_world ctx)) of
        None \<Rightarrow> None
      | Some world \<Rightarrow>
          Some (ctx\<lparr>tc_world := step_smoothing (pe_math E)
            (f32_min (as_secs_f32 (tc_dt ctx)) MAX_SMOOTHING_DT_SECONDS) (tc_movement_input ctx) world\<rparr>))"

definition push_capped :: "f32 \<Rightarrow> f32 list \<Rightarrow> f32 list" where
  "push_capped value buffer =
     (if length buffer = NET_GRAPH_SAMPLES then tl buffer else buffer) @ [f32_max value (Fin 0)]"

definition NetGraphHistory_push :: "f32 \<Rightarrow> f32 \<Rightarrow> f32 \<Rightarrow> f32 \<Rightarrow> graph_history \<Rightarrow> graph_history" where
  "NetGraphHistory_push rtt_ms loss_pct up_kib_s down_kib_s h =
     \<lparr>gh_rtt_ms = push_capped rtt_ms (gh_rtt_ms h), gh_loss_pct = push_capped loss_pct (gh_loss_pct h),
      gh_up_kib_s = push_capped up_kib_s (gh_up_kib_s h), gh_down_kib_s = push_capped down_kib_s (gh_down_kib_s h)\<rparr>"

definition reset_traffic_meter :: "traffic_meter \<Rightarrow> traffic_meter" where
  "reset_traffic_meter t =
     t\<lparr>tm_tx_bytes_accum := 0, tm_rx_bytes_accum := 0, tm_elapsed := Fin 0, tm_tx_rate_kib_s := Fin 0,
       tm_rx_rate_kib_s := Fin 0\<rparr>"

definition update_network_diagnostics :: "('r, 't) play_env \<Rightarrow> ('r, 't) tick_ctx \<Rightarrow> ('r, 't) tick_ctx" where
  "update_network_diagnostics E ctx =
     (if \<not> tc_diag_enabled ctx then ctx\<lparr>tc_traffic := reset_traffic_meter (tc_traffic ctx)\<rparr>
      else
        (let t = tc_traffic ctx; elapsed = fadd (tm_elapsed t) (as_secs_f32 (tc_dt ctx)) in
         if flt elapsed APP_TRAFFIC_SAMPLE_SECONDS then ctx\<lparr>tc_traffic := t\<lparr>tm_elapsed := elapsed\<rparr>\<rparr>
         else
           (let sample_secs = f32_max elapsed (lit (1 / 1000));
                rate = (\<lambda>n. fdiv (fdiv (f32_round (of_nat n)) (Fin 1024)) sample_secs);
                tx = rate (tm_tx_bytes_accum t); rx = rate (tm_rx_bytes_accum t);
                renet = cr_renet (tc_runtime ctx)
            in ctx\<lparr>tc_traffic := t\<lparr>tm_tx_rate_kib_s := tx, tm_rx_rate_kib_s := rx, tm_tx_bytes_accum := 0,
                     tm_rx_bytes_accum := 0, tm_elapsed := Fin 0\<rparr>,
                   tc_graphs := NetGraphHistory_push (pe_rtt_ms E renet) (pe_loss_pct E renet) tx rx (tc_graphs ctx)\<rparr>)))"

definition flush_transport_send :: "('r, 't) play_env \<Rightarrow> ('r, 't) tick_ctx \<Rightarrow> ('r, 't) tick_ctx" where
  "flush_transport_send E ctx =
     (let rt = tc_runtime ctx in
      if pe_is_connected E (cr_renet rt)
      then let (tr, renet) = pe_send_packets E (cr_transport rt) (cr_renet rt)
           in ctx\<lparr>tc_runtime := rt\<lparr>cr_transport := tr, cr_renet := renet\<rparr>\<rparr>
      else ctx)"

text \<open>One frame; the frame time is capped, and \<open>None\<close> is a frame that does not end (or a panic of
  \<open>from_secs_f32\<close>).\<close>

definition network_tick ::
  "('r, 't) play_env \<Rightarrow> duration \<Rightarrow> vec2 \<Rightarrow> bool
    \<Rightarrow> ('r, 't) client_runtime \<times> world_view \<times> traffic_meter \<times> graph_history \<Rightarrow> ('r, 't) tick_ctx option" where
  "network_tick E delta input_dir diag_enabled = (\<lambda>(rt, world, traffic, graphs).
     (case from_secs_f32 (f32_min (as_secs_f32 delta) MAX_NETWORK_DT_SECONDS) of
        None \<Rightarrow> None
      | Some dt \<Rightarrow>
          (let ctx0 = \<lparr>tc_runtime = rt, tc_world = world, tc_traffic = traffic, tc_graphs = graphs, tc_dt = dt,
                       tc_movement_input = input_dir, tc_diag_enabled = diag_enabled,
                       tc_received_authoritative = False\<rparr>;
               ctx1 = send_local_input E (pump_transport_update E (prepare_frame E ctx0))
           in case receive_authoritative_messages E ctx1 of
                None \<Rightarrow> None
              | Some ctx2 \<Rightarrow>
                  (case reconcile_and_smooth_world E ctx2 of
                     None \<Rightarrow> None
                   | Some ctx3 \<Rightarrow> Some (flush_transport_send E (update_network_diagnostics E ctx3))))))"

section \<open>Graphs\<close>

definition graph_top :: "f32 list \<Rightarrow> f32 \<Rightarrow> f32" where
  "graph_top buffer flr =
     (let top = foldl (\<lambda>top value. if flt top value then value else top) flr buffer
      in fmul (f32_max top flr) (lit (115 / 100)))"

text \<open>\<open>None\<close> is the panic of an index out of range.\<close>

definition sample_at_column :: "f32 list \<Rightarrow> nat \<Rightarrow> f32 option" where
  "sample_at_column samples sample_idx =
     (let len = length samples in
      if len = 0 then Some (Fin 0)
      else if NET_GRAPH_SAMPLES \<le> len then Some (samples ! min sample_idx (len - 1))
      else
        (let left_pad = NET_GRAPH_SAMPLES - len in
         if sample_idx < left_pad then Some (Fin 0)
         else if sample_idx - left_pad < len then Some (samples ! (sample_idx - left_pad)) else None))"

definition bar_height :: "f32 list \<Rightarrow> f32 \<Rightarrow> nat \<Rightarrow> f32 option" where
  "bar_height series scale_top sample_idx =
     map_option (\<lambda>value.
       let normalized = (if fle scale_top F32_EPSILON then Fin 0
                         else f32_clamp (fdiv value scale_top) (Fin 0) (Fin 1))
       in f32_max (fmul normalized NET_GRAPH_HEIGHT_PX) (Fin 1)) (sample_at_column series sample_idx)"

section \<open>The replica follows the server\<close>

lemma upsert_fold: "fst (foldl upsert_entity x es) = apply_upserts es (fst x)"
  by (induction es arbitrary: x) (auto simp: upsert_entity_def apply_upserts_def case_prod_unfold)

lemma remove_fold:
  "foldl (\<lambda>(a, r) i. (hm_remove i a, hm_remove i r)) x ids = (apply_removed ids (fst x), apply_removed ids (snd x))"
  by (induction ids arbitrary: x) (auto simp: apply_removed_def)

lemma apply_delta_authoritative:
  "wv_authoritative (apply_delta d v) = apply_removed (wd_removed d) (apply_upserts (wd_upserts d) (wv_authoritative v))"
  unfolding apply_delta_def Let_def case_prod_beta remove_fold[unfolded case_prod_beta] by (simp add: upsert_fold)

text \<open>The rendered entities are those of the replica.\<close>

definition view_ok :: "world_view \<Rightarrow> bool" where
  "view_ok v \<longleftrightarrow> hm_keys (wv_rendered v) = hm_keys (wv_authoritative v)"

lemma upsert_keys:
  "hm_keys r = hm_keys a \<Longrightarrow>
   hm_keys (snd (foldl upsert_entity (a, r) es)) = hm_keys (apply_upserts es a)"
proof (induction es arbitrary: a r)
  case (Cons e es)
  have "hm_keys (snd (upsert_entity (a, r) e)) = hm_keys (hm_insert (es_id e) e a)"
    using Cons.prems by (auto simp: upsert_entity_def hm_contains_keys)
  from Cons.IH[OF this] show ?case
    by (simp add: upsert_entity_def apply_upserts_def)
qed (simp add: apply_upserts_def)

lemma removed_keys: "hm_keys (apply_removed ids m) = hm_keys m - set ids"
  unfolding apply_removed_def by (induction ids arbitrary: m) auto

lemma view_ok_delta: "view_ok v \<Longrightarrow> view_ok (apply_delta d v)"
  unfolding apply_delta_def Let_def case_prod_beta remove_fold[unfolded case_prod_beta]
  by (simp add: view_ok_def upsert_fold removed_keys upsert_keys)

lemma snapshot_fold:
  "foldl (\<lambda>(r, a) e. (hm_insert (es_id e) e r, hm_insert (es_id e) e a)) (r, a) es = (apply_upserts es r, apply_upserts es a)"
  by (induction es arbitrary: r a) (auto simp: apply_upserts_def)

lemma apply_snapshot_view:
  "wv_authoritative (apply_snapshot js v) = apply_upserts (ws_entities (js_world js)) []"
  "wv_rendered (apply_snapshot js v) = apply_upserts (ws_entities (js_world js)) []"
  by (simp_all add: apply_snapshot_def Let_def snapshot_fold)

lemma view_ok_snapshot: "view_ok (apply_snapshot js v)"
  by (simp add: view_ok_def apply_snapshot_view)

text \<open>The cached snapshot of the server is the map of all entities, whatever the order of the query.\<close>

lemma upserts_perm:
  assumes "distinct (map es_id xs)" "set xs = set ys" "distinct (map es_id ys)"
  shows "hm_get (apply_upserts xs m) = hm_get (apply_upserts ys m)"
proof
  fix k
  show "hm_get (apply_upserts xs m) k = hm_get (apply_upserts ys m) k"
  proof (cases "k \<in> es_id ` set xs")
    case True
    then obtain e where "e \<in> set xs" "es_id e = k"
      by auto
    with assms show ?thesis
      using apply_upserts_mem[of xs e m] apply_upserts_mem[of ys e m] by simp
  next
    case False
    with assms(2) show ?thesis
      by (simp add: apply_upserts_other)
  qed
qed

lemma current_map_upserts:
  "collect_current_entity_map E g = apply_upserts (map to_entity_state (ge_entities E (gw_ecs g))) []"
proof -
  have "foldl (\<lambda>m e. hm_insert (ae_id e) (to_entity_state e) m) m es = apply_upserts (map to_entity_state es) m" for m es
    by (induction es arbitrary: m) (simp_all add: apply_upserts_def)
  then show ?thesis
    by (simp add: collect_current_entity_map_def)
qed

lemma build_delta_sync:
  assumes "hm_get (wv_authoritative v) = hm_get (au_snapshot_cache (gw_auth g))"
  shows "hm_get (wv_authoritative (apply_delta (fst (build_world_delta E t ev g)) v))
       = hm_get (au_snapshot_cache (gw_auth (snd (build_world_delta E t ev g))))"
  using delta_sync[OF current_map_keyed assms] by (simp add: apply_delta_authoritative build_world_delta_def Let_def)

lemma simulate_is_delta:
  "\<exists>t ev g'. simulate_tick E clients g = build_world_delta E t ev g' \<and> au_snapshot_cache (gw_auth g') = au_snapshot_cache (gw_auth g)"
proof -
  have cache [simp]: "au_snapshot_cache (gw_auth (fst (foldl (process_respawn E clients) y cids))) = au_snapshot_cache (gw_auth (fst y))" for y cids
    by (induction cids arbitrary: y) (auto simp: process_respawn_def case_prod_unfold spawn_player_def Let_def)
  have pellets [simp]: "au_snapshot_cache (snd (server_new_pellets n st)) = au_snapshot_cache st" for n st
    by (induction n arbitrary: st) (simp_all add: server_new_pellet_def Let_def case_prod_unfold)
  have queue [simp]: "au_snapshot_cache (foldl (queue_respawn t) st cs) = au_snapshot_cache st" for t st and cs :: "'b player_snapshot list"
    by (induction cs arbitrary: st) (simp_all add: queue_respawn_def)
  have "au_snapshot_cache (gw_auth (fst (server_consume_players E t x))) = au_snapshot_cache (gw_auth (fst x))" for t x
    by (simp add: server_consume_players_def case_prod_unfold Let_def)
  moreover have "au_snapshot_cache (gw_auth (server_maintain_pellet_budget E g)) = au_snapshot_cache (gw_auth g)" for g
    by (simp add: server_maintain_pellet_budget_def Let_def case_prod_unfold)
  moreover have "au_snapshot_cache (gw_auth (fst (process_respawns E t clients x))) = au_snapshot_cache (gw_auth (fst x))" for t x
    by (simp add: process_respawns_def case_prod_unfold Let_def)
  ultimately show ?thesis
    unfolding simulate_tick_def Let_def case_prod_unfold
    by (intro exI conjI) (rule refl, simp add: consume_pellets_keeps)
qed

lemma inputs_keep_cache:
  "au_snapshot_cache (gw_auth (foldl (\<lambda>g (cid, p). process_client_input_message E cid p (gw_sim_tick g) g) g xs))
     = au_snapshot_cache (gw_auth g)"
proof (induction xs arbitrary: g)
  case (Cons x xs)
  have "au_snapshot_cache (gw_auth (process_client_input_message E c p t g)) = au_snapshot_cache (gw_auth g)" for c p t
    by (auto simp: process_client_input_message_def Let_def split: option.splits)
  with Cons show ?case
    by (simp add: case_prod_unfold)
qed simp

lemma play_sync:
  assumes "hm_get (wv_authoritative v) = hm_get (au_snapshot_cache (gw_auth g))" "view_ok v"
  shows "hm_get (wv_authoritative (foldl (\<lambda>v d. apply_delta d v) v (fst (play E ticks g))))
       = hm_get (au_snapshot_cache (gw_auth (snd (play E ticks g))))
       \<and> view_ok (foldl (\<lambda>v d. apply_delta d v) v (fst (play E ticks g)))"
  using assms
proof (induction ticks arbitrary: v g)
  case (Cons x ticks)
  obtain clients inputs where x: "x = (clients, inputs)"
    by (cases x)
  define g1 where "g1 = foldl (\<lambda>g (cid, p). process_client_input_message E cid p (gw_sim_tick g) g) g inputs"
  obtain t ev h where h: "simulate_tick E clients g1 = build_world_delta E t ev h"
    "au_snapshot_cache (gw_auth h) = au_snapshot_cache (gw_auth g1)"
    using simulate_is_delta by blast
  have "hm_get (wv_authoritative v) = hm_get (au_snapshot_cache (gw_auth h))"
    using Cons.prems h(2) by (simp add: g1_def inputs_keep_cache)
  from Cons.IH[OF build_delta_sync[OF this, of E t ev] view_ok_delta[OF Cons.prems(2)], unfolded h(1)[symmetric]]
  show ?case
    by (simp add: x Let_def case_prod_unfold g1_def)
qed simp

text \<open>The joining client holds what the server cached in the tick of the snapshot.\<close>

lemma snapshot_sync:
  assumes "distinct (map ae_id (ge_entities E (gw_ecs (snd (simulate_tick E clients g)))))"
  shows "hm_get (wv_authoritative (apply_snapshot (join_snapshot_for E (snd (simulate_tick E clients g)) t cid) v))
       = hm_get (au_snapshot_cache (gw_auth (snd (simulate_tick E clients g))))"
proof -
  obtain t' ev h where h: "simulate_tick E clients g = build_world_delta E t' ev h"
    using simulate_is_delta by blast
  let ?es = "map to_entity_state (ge_entities E (gw_ecs h))"
  have "distinct (map es_id ?es)"
    using assms by (simp add: h build_world_delta_def Let_def comp_def)
  moreover have "mset (map es_id (sort_key es_id ?es)) = mset (map es_id ?es)"
    by (simp only: mset_map mset_sort)
  then have "distinct (map es_id (sort_key es_id ?es)) = distinct (map es_id ?es)"
    by (rule mset_eq_imp_distinct_iff)
  ultimately have "hm_get (apply_upserts (sort_key es_id ?es) []) = hm_get (apply_upserts ?es [])"
    by (intro upserts_perm) simp_all
  then show ?thesis
    by (simp add: h build_world_delta_def Let_def apply_snapshot_view join_snapshot_for_def
        collect_world_entities_sorted_def current_map_upserts)
qed


lemma new_pellets_ids:
  "map ae_id (fst (server_new_pellets n st)) = map (\<lambda>i. au_next_entity_id st + of_nat i) [0..<n]"
proof (induction n arbitrary: st)
  case (Suc n)
  have "au_next_entity_id (snd (server_new_pellet st)) = au_next_entity_id st + 1"
    "ae_id (fst (server_new_pellet st)) = au_next_entity_id st"
    by (simp_all add: server_new_pellet_def Let_def case_prod_unfold)
  with Suc[of "snd (server_new_pellet st)"] show ?case
    by (simp add: Let_def case_prod_unfold upt_conv_Cons map_Suc_upt[symmetric] comp_def algebra_simps del: upt_Suc)
qed simp

lemma new_pellets_distinct: "n \<le> 2 ^ 64 \<Longrightarrow> distinct (map ae_id (fst (server_new_pellets n st)))"
  unfolding new_pellets_ids by (auto simp: distinct_map inj_on_def word_of_nat_eq_iff take_bit_nat_eq_self)

definition demo_empty :: "list_world game_world" where
  "demo_empty = \<lparr>gw_ecs = (0, []), gw_auth = AuthoritativeState_new 1, gw_sim_tick = 0, gw_tick_counter = 0\<rparr>"

lemma demo_spawn_ids:
  "map ae_id (ge_entities demo_env (gw_ecs (foldl (\<lambda>g p. update_ecs (ge_spawn_pellet demo_env p) g) g ps)))
     = rev (map ae_id ps) @ map ae_id (ge_entities demo_env (gw_ecs g))"
proof (induction ps arbitrary: g)
  case (Cons p ps)
  have "ge_entities demo_env (ge_spawn_pellet demo_env p w) = p # ge_entities demo_env w" for w
    by (cases w) (simp add: demo_env_def)
  with Cons show ?case by simp
qed simp

lemma demo_distinct:
  "distinct (map ae_id (ge_entities demo_env (gw_ecs (snd (simulate_tick demo_env [] demo_empty)))))"
proof -
  have none: "ge_players demo_env (0, []) = []" "ge_pellets demo_env (0, []) = []"
    "ge_update_players demo_env f (0, []) = (0, [])" for f
    by (simp_all add: demo_env_def lw_players_def lw_pellets_def List.map_filter_def)
  have "gw_ecs (snd (simulate_tick demo_env [] demo_empty))
      = gw_ecs (server_maintain_pellet_budget demo_env (demo_empty\<lparr>gw_sim_tick := 1\<rparr>))"
    by (simp add: simulate_tick_def process_respawns_def demo_empty_def AuthoritativeState_new_def Let_def
        apply_player_movement_def server_consume_pellets_def server_consume_players_def
        collect_player_snapshots_def update_ecs_def update_auth_def none build_world_delta_def)
  moreover have "gw_ecs demo_empty = (0, [])"
    by (simp add: demo_empty_def)
  moreover have "ge_entities demo_env (0, []) = []"
    by (simp add: demo_env_def)
  ultimately show ?thesis
    by (simp add: server_maintain_pellet_budget_def Let_def case_prod_unfold none demo_spawn_ids
        new_pellets_distinct TARGET_PELLET_COUNT_def)
qed


text \<open>
  Deltas travel on the unreliable channel and are relative to the previous tick.  When the delta that
  removes an entity is lost, no later delta mentions the entity again, and the replica keeps it.
\<close>

lemma lost_removal_stays:
  assumes "hm_get (au_snapshot_cache (gw_auth g)) k = None" "hm_get (collect_current_entity_map E g) k = None"
  shows "hm_get (wv_authoritative (apply_delta (fst (build_world_delta E t ev g)) v)) k = hm_get (wv_authoritative v) k"
proof -
  have "k \<notin> set (delta_removed (au_snapshot_cache (gw_auth g)) (collect_current_entity_map E g))"
    using assms(1) by (auto simp: delta_removed_def map_of_eq_None_iff image_iff)
  moreover have "k \<notin> es_id ` set (delta_upserts (au_snapshot_cache (gw_auth g)) (collect_current_entity_map E g))"
    using assms(2) by (auto simp: delta_upserts_ids(2)[OF current_map_keyed])
  ultimately show ?thesis
    by (simp add: apply_delta_authoritative build_world_delta_def Let_def apply_removed_get apply_upserts_other)
qed

section \<open>Pending inputs\<close>

text \<open>The pending commands are consecutive, up to the last one sent, and at most 256.\<close>

definition consecutive :: "u32 \<Rightarrow> pending_input list \<Rightarrow> bool" where
  "consecutive latest pending \<longleftrightarrow>
     map pi_seq (rev pending) = map (\<lambda>i. latest - of_nat i) [0..<length pending]"

definition pending_ok :: "('r, 't) client_runtime \<Rightarrow> bool" where
  "pending_ok rt \<longleftrightarrow> consecutive (cr_input_seq rt) (cr_pending_inputs rt)
     \<and> length (cr_pending_inputs rt) \<le> MAX_PENDING_INPUT_COMMANDS"

lemma consecutive_nth:
  "consecutive latest pending \<longleftrightarrow>
     (\<forall>i < length pending. pi_seq (rev pending ! i) = latest - of_nat i)"
  unfolding consecutive_def list_eq_iff_nth_eq[of "map pi_seq (rev pending)"] by simp

lemma consecutive_drop: "consecutive latest pending \<Longrightarrow> consecutive latest (drop n pending)"
  by (auto simp: consecutive_nth rev_drop)

lemma consecutive_snoc:
  "consecutive latest pending \<Longrightarrow> pi_seq p = latest + 1 \<Longrightarrow> consecutive (latest + 1) (pending @ [p])"
proof (unfold consecutive_nth, intro allI impI)
  fix i
  assume A: "\<forall>i < length pending. pi_seq (rev pending ! i) = latest - of_nat i" "pi_seq p = latest + 1"
    and i: "i < length (pending @ [p])"
  show "pi_seq (rev (pending @ [p]) ! i) = latest + 1 - of_nat i"
  proof (cases i)
    case (Suc j)
    with i have "j < length pending"
      by simp
    with A(1) show ?thesis
      by (simp add: Suc)
  qed (use A(2) in simp)
qed

lemma send_input_keeps:
  assumes "pending_ok (tc_runtime ctx)"
  shows "pending_ok (tc_runtime (send_input_command E d ctx))"
proof -
  let ?rt = "tc_runtime ctx"
  define p where "p = \<lparr>pi_seq = cr_input_seq ?rt + 1, pi_move_dir = d, pi_sent_at_seconds = cr_clock_seconds ?rt\<rparr>"
  have "consecutive (cr_input_seq ?rt + 1) (cr_pending_inputs ?rt @ [p])"
    using assms by (intro consecutive_snoc) (simp_all add: pending_ok_def p_def)
  from consecutive_drop[OF this, of "length (cr_pending_inputs ?rt @ [p]) - MAX_PENDING_INPUT_COMMANDS"] show ?thesis
    by (simp add: send_input_command_def Let_def pending_ok_def p_def)
qed

lemma acknowledge_drops: "\<exists>n. acknowledge_input_seq ack pending = drop n pending"
proof (induction ack pending rule: acknowledge_input_seq.induct)
  case (1 pending)
  show ?case by (rule exI[of _ 0]) simp
next
  case (3 ack front rest)
  show ?case
  proof (cases "is_newer_input_seq (pi_seq front) ack")
    case True
    then show ?thesis by (intro exI[of _ 0]) simp
  next
    case False
    with 3 obtain n where "acknowledge_input_seq (Some ack) rest = drop n rest"
      by auto
    with False show ?thesis by (intro exI[of _ "Suc n"]) simp
  qed
qed simp

lemma acknowledge_keeps: "pending_ok (tc_runtime ctx) \<Longrightarrow> pending_ok (tc_runtime (acknowledge_ctx ack ctx))"
  using acknowledge_drops[of ack "cr_pending_inputs (tc_runtime ctx)"]
  by (auto simp: pending_ok_def acknowledge_ctx_def consecutive_drop)

lemma is_newer_offsets:
  assumes "i \<le> 256" "j \<le> 256"
  shows "is_newer_input_seq (latest - of_nat i) (latest - of_nat j) \<longleftrightarrow> i < j"
proof -
  have ahead: "is_newer_input_seq (latest - of_nat a) (latest - of_nat b)" if "a < b" "b \<le> 256" for a b
  proof -
    have "latest - of_nat a = (latest - of_nat b) + of_nat (b - a)"
      using that by (simp add: of_nat_diff)
    then show ?thesis
      using that is_newer_ahead[of "b - a" "latest - of_nat b"] by simp
  qed
  show ?thesis
  proof (cases "i = j")
    case True
    then show ?thesis by (simp add: is_newer_input_seq_def)
  next
    case False
    then show ?thesis
      using ahead[of i j] ahead[of j i] is_newer_asym[of "latest - of_nat i" "latest - of_nat j"] assms
      by (cases "i < j") auto
  qed
qed

lemma acknowledge_window:
  assumes "consecutive latest pending" "length pending \<le> 256" "j \<le> 256"
  shows "acknowledge_input_seq (Some (latest - of_nat j)) pending = drop (length pending - j) pending"
  using assms(1,2)
proof (induction pending)
  case (Cons front rest)
  have "pi_seq front = latest - of_nat (length rest)"
    using Cons.prems(1) unfolding consecutive_nth by (auto dest!: spec[of _ "length rest"] simp: nth_append)
  then have newer: "is_newer_input_seq (pi_seq front) (latest - of_nat j) \<longleftrightarrow> length rest < j"
    using Cons.prems(2) assms(3) by (simp add: is_newer_offsets)
  have "consecutive latest rest"
    using consecutive_drop[OF Cons.prems(1), of 1] by simp
  with Cons newer show ?case
    by (auto simp: Suc_diff_le)
qed simp

datatype input_op = SendInput vec2 | Acked "u32 option"

fun input_step :: "('r, 't) play_env \<Rightarrow> ('r, 't) tick_ctx \<Rightarrow> input_op \<Rightarrow> ('r, 't) tick_ctx" where
  "input_step E ctx (SendInput d) = send_input_command E d ctx"
| "input_step E ctx (Acked ack) = acknowledge_ctx ack ctx"

interpretation pending_window: step_invariant "input_step E" "\<lambda>ctx. pending_ok (tc_runtime ctx)"
proof
  show "pending_ok (tc_runtime s) \<Longrightarrow> pending_ok (tc_runtime (input_step E s e))" for s e
    by (cases e) (simp_all add: send_input_keeps acknowledge_keeps)
qed

text \<open>
  C38: after every sequence of sent commands and acknowledgements (whatever numbers the server
  acknowledges, sequence numbers wrapping around included), the client keeps at most 256 commands,
  numbered consecutively up to the last one sent; and the acknowledgement of a command drops exactly
  that command and those sent before it.
\<close>

theorem acknowledgement_exact:
  assumes "cr_pending_inputs (tc_runtime ctx) = []"
  shows "(let rt = tc_runtime (run_state (input_step E) ctx ops); k = min later MAX_PENDING_INPUT_COMMANDS
          in consecutive (cr_input_seq rt) (cr_pending_inputs rt)
             \<and> length (cr_pending_inputs rt) \<le> MAX_PENDING_INPUT_COMMANDS
             \<and> acknowledge_input_seq (Some (cr_input_seq rt - of_nat k)) (cr_pending_inputs rt)
                 = drop (length (cr_pending_inputs rt) - k) (cr_pending_inputs rt))"
proof -
  have "pending_ok (tc_runtime ctx)"
    using assms by (simp add: pending_ok_def consecutive_def)
  then have "pending_ok (tc_runtime (run_state (input_step E) ctx ops))"
    by (rule pending_window.run_inv)
  then show ?thesis
    using acknowledge_window[of _ _ "min later 256"]
    by (simp add: Let_def pending_ok_def MAX_PENDING_INPUT_COMMANDS_def)
qed

definition demo_play_env :: "(unit, unit) play_env" where
  "demo_play_env =
     \<lparr>pe_math = flat_math, pe_renet_update = (\<lambda>_ r. r), pe_is_connected = (\<lambda>_. True),
      pe_send_message = (\<lambda>_ _ r. r), pe_receive_message = (\<lambda>_ r. (None, r)), pe_rtt_ms = (\<lambda>_. Fin 0),
      pe_loss_pct = (\<lambda>_. Fin 0), pe_transport_update = (\<lambda>_ t r. (t, r)), pe_send_packets = (\<lambda>t r. (t, r)),
      pe_encode_input = (\<lambda>i. [ucast (ci_seq i)]), pe_decode_snapshot = (\<lambda>_. None), pe_decode_delta = (\<lambda>_. None)\<rparr>"

definition demo_ctx :: "(unit, unit) tick_ctx" where
  "demo_ctx =
     \<lparr>tc_runtime = client_runtime_new 3 () (),
      tc_world = \<lparr>wv_tick = 0, wv_you = None, wv_authoritative = [], wv_rendered = []\<rparr>,
      tc_traffic = \<lparr>tm_tx_bytes_accum = 0, tm_rx_bytes_accum = 0, tm_elapsed = Fin 0, tm_tx_rate_kib_s = Fin 0,
                    tm_rx_rate_kib_s = Fin 0\<rparr>,
      tc_graphs = \<lparr>gh_rtt_ms = [], gh_loss_pct = [], gh_up_kib_s = [], gh_down_kib_s = []\<rparr>, tc_dt = 0,
      tc_movement_input = (Fin 0, Fin 0), tc_diag_enabled = False, tc_received_authoritative = False\<rparr>"

theorem acknowledgement_exact_witness:
  "let rt = tc_runtime (run_state (input_step demo_play_env) demo_ctx
              [SendInput (Fin 1, Fin 0), SendInput (Fin 0, Fin 1), SendInput (Fin 0, Fin 0), Acked (Some 1)])
   in length (cr_pending_inputs rt) = 2 \<and> map pi_seq (acknowledge_input_seq (Some (cr_input_seq rt - 1)) (cr_pending_inputs rt)) = [3]"
proof -
  have "cr_pending_inputs (tc_runtime demo_ctx) = []"
    by (simp add: demo_ctx_def client_runtime_new_def)
  note exact = acknowledgement_exact[OF this, of demo_play_env
      "[SendInput (Fin 1, Fin 0), SendInput (Fin 0, Fin 1), SendInput (Fin 0, Fin 0), Acked (Some 1)]" 1]
  have "map pi_seq (cr_pending_inputs (tc_runtime (run_state (input_step demo_play_env) demo_ctx
      [SendInput (Fin 1, Fin 0), SendInput (Fin 0, Fin 1), SendInput (Fin 0, Fin 0), Acked (Some 1)]))) = [2, 3]"
    by (simp add: demo_ctx_def client_runtime_new_def send_input_command_def Let_def acknowledge_ctx_def
        is_newer_input_seq_def MAX_PENDING_INPUT_COMMANDS_def)
  then have "length (cr_pending_inputs (tc_runtime (run_state (input_step demo_play_env) demo_ctx
      [SendInput (Fin 1, Fin 0), SendInput (Fin 0, Fin 1), SendInput (Fin 0, Fin 0), Acked (Some 1)]))) = 2"
    by (metis length_map length_Cons list.size(3) numeral_2_eq_2)
  with exact \<open>map pi_seq _ = [2, 3]\<close> show ?thesis
    by (simp add: Let_def MAX_PENDING_INPUT_COMMANDS_def drop_map[symmetric])
qed

section \<open>The replay ends\<close>

lemma prediction_step_value: "MAX_LOCAL_PREDICTION_STEP = Fin (8947849 / 268435456)"
  by (simp add: MAX_LOCAL_PREDICTION_STEP_def f32_round_values)

text \<open>A step of the replay takes at least a 64th of a second off, or the rest.\<close>

lemma replay_step_decreases:
  assumes "0 < x" "x \<le> 262144"
  shows "\<exists>r. fsub (Fin x) (f32_min (Fin x) MAX_LOCAL_PREDICTION_STEP) = Fin r \<and> 0 \<le> r
       \<and> (r = 0 \<or> r \<le> x - 1 / 64)"
proof (cases "x \<le> 8947849 / 268435456")
  case True
  then show ?thesis
    by (simp add: prediction_step_value f32_min_def fsub_def)
next
  case False
  define y where "y = x - 8947849 / 268435456"
  have y: "0 < y" "\<bar>y\<bar> \<le> of_int 262144"
    using False assms by (simp_all add: y_def)
  obtain r where r: "f32_round y = Fin r" "0 \<le> r" "\<bar>r\<bar> \<le> 262144"
    using f32_round_bound_int[OF y(2)] y(1) by auto
  have "r \<le> x - 1 / 64"
  proof (cases "2 powi (- 126) \<le> y")
    case True
    then have "\<bar>r - y\<bar> \<le> \<bar>y\<bar> / 2 ^ 24"
      using r y(1) by (intro f32_round_Fin_error) simp_all
    then have "r \<le> y + y / 16777216"
      using y(1) by (simp only: abs_le_iff abs_of_pos) simp
    moreover have "y / 16777216 \<le> 1 / 64"
      using y assms by (simp add: y_def)
    ultimately have "r \<le> y + 1 / 64"
      by linarith
    then show ?thesis
      by (simp add: y_def)
  next
    case False
    then have "\<bar>y\<bar> \<le> of_int 1 * 2 powi (- 126)"
      using y(1) by simp
    moreover have "(2 :: rat) powi (- 126) \<le> 2 powi (- 10)"
      by (rule power_int_increasing) simp_all
    then have small: "(2 :: rat) powi (- 126) \<le> 1 / 1024"
      by (simp add: power_int_minus)
    moreover from this have "of_int 1 * 2 powi (- 126) \<le> F32_MAX"
      by (simp add: F32_MAX_def)
    ultimately have "r \<le> 2 powi (- 126)"
      using f32_round_bound[of y 1 "- 126"] r by auto
    then show ?thesis
      using small y(1) by (simp add: y_def)
  qed
  then show ?thesis
    using False r by (auto simp: prediction_step_value f32_min_def fsub_def y_def)
qed

lemma replay_steps_returns_upto:
  "0 \<le> x \<Longrightarrow> x \<le> of_nat n / 64 \<Longrightarrow> x \<le> 262144 \<Longrightarrow> \<exists>p. replay_steps vel (Fin x) pos = Some p"
proof (induction n arbitrary: x pos)
  case 0
  then show ?case by (subst replay_steps.simps) simp
next
  case (Suc n)
  show ?case
  proof (cases "x = 0")
    case True
    then show ?thesis by (subst replay_steps.simps) simp
  next
    case False
    with Suc.prems have "0 < x" by simp
    from replay_step_decreases[OF this Suc.prems(3)] obtain r where
      r: "fsub (Fin x) (f32_min (Fin x) MAX_LOCAL_PREDICTION_STEP) = Fin r" "0 \<le> r" "r = 0 \<or> r \<le> x - 1 / 64"
      by blast
    have "r \<le> of_nat n / 64" "r \<le> 262144"
      using r(3) Suc.prems by (auto simp: add_divide_distrib)
    from Suc.IH[OF r(2) this] show ?thesis
      using \<open>0 < x\<close> r(1) by (subst replay_steps.simps) (simp add: Let_def)
  qed
qed

lemma replay_steps_returns:
  assumes "in_range 0 262144 rem"
  shows "\<exists>p. replay_steps vel rem pos = Some p"
proof -
  obtain x where x: "rem = Fin x" "0 \<le> x" "x \<le> 262144"
    using assms by (rule in_rangeE)
  then show ?thesis
    using replay_steps_returns_upto[of x "16777216"] by simp
qed

lemma command_span_range:
  assumes "in_range 0 262144 now" "in_range 0 262144 (pi_sent_at_seconds c)"
    "list_all (\<lambda>p. in_range 0 262144 (pi_sent_at_seconds p)) later"
  shows "in_range 0 262144 (command_span now c later)"
proof -
  have fmin: "in_range 0 262144 (f32_min a b)" if "in_range 0 262144 a" "in_range 0 262144 b" for a b
    using that by (auto simp: in_range_iff f32_min_def)
  define start stop where "start = f32_min (pi_sent_at_seconds c) now"
    and "stop = f32_min (case later of [] \<Rightarrow> now | next # _ \<Rightarrow> pi_sent_at_seconds next) now"
  have "in_range 0 262144 start" "in_range 0 262144 stop"
    using assms by (auto simp: start_def stop_def intro!: fmin split: list.splits)
  then obtain a b where ab: "start = Fin a" "stop = Fin b" "0 \<le> a" "a \<le> 262144" "0 \<le> b" "b \<le> 262144"
    by (auto simp: in_range_iff)
  then have "\<bar>b - a\<bar> \<le> of_int 262144"
    by (simp add: abs_le_iff)
  from f32_round_bound_int[OF this] obtain r where "f32_round (b - a) = Fin r" "\<bar>r\<bar> \<le> 262144"
    by auto
  then have "in_range 0 262144 (f32_max (fsub stop start) (Fin 0))"
    using ab by (auto simp: fsub_def f32_max_def in_range_iff)
  then show ?thesis
    by (simp add: command_span_def Let_def start_def stop_def)
qed

lemma replay_commands_returns:
  assumes "in_range 0 262144 now" "list_all (\<lambda>p. in_range 0 262144 (pi_sent_at_seconds p)) pending"
  shows "\<exists>r. replay_commands speed now pending rendered = Some r"
  using assms(2)
proof (induction pending arbitrary: rendered)
  case (Cons c later)
  then have "in_range 0 262144 (command_span now c later)"
    using assms(1) by (intro command_span_range) simp_all
  from replay_steps_returns[OF this] obtain f where
    "\<And>vel pos. replay_steps vel (command_span now c later) pos = Some (f vel pos)"
    by metis
  with Cons show ?case
    by (simp add: Let_def)
qed simp

text \<open>
  C39: reconciliation always ends: with the clock and the send times of the pending commands below
  three days (2 to the 18 seconds, where single precision still resolves a prediction step), replaying
  the pending commands on top of the server's state returns.
\<close>

theorem reconcile_returns:
  assumes "in_range 0 262144 now" "list_all (\<lambda>p. in_range 0 262144 (pi_sent_at_seconds p)) pending"
  shows "\<exists>v'. reconcile_local_prediction pending now v = Some v'"
  using replay_commands_returns[OF assms]
  by (auto simp: reconcile_local_prediction_def replay_pending_inputs_def split: option.splits)

theorem reconcile_returns_witness:
  "\<exists>v'. reconcile_local_prediction [\<lparr>pi_seq = 1, pi_move_dir = (Fin 1, Fin 0), pi_sent_at_seconds = Fin 1\<rparr>] (Fin 2)
     \<lparr>wv_tick = 0, wv_you = Some 3, wv_authoritative = [(3, new_pellet 3 (Fin 1, Fin 1)\<lparr>es_kind := Player\<rparr>)],
      wv_rendered = []\<rparr> = Some v'"
  by (rule reconcile_returns) (simp_all add: in_range_def)

end
