(* ===== verification/Scene.thy ===== *)
theory Scene
  imports Prelude
begin

text \<open>
  The entity store of Bevy as the drawing systems of the example client and server use it: an operation
  record with the laws the systems rely on, and the upkeep of an index from identifiers of the game to
  entities of the store.  Commands are deferred: a system reads the store as it was when the system
  began, and what it spawned or despawned takes effect when the commands are applied.
\<close>

section \<open>The store\<close>

text \<open>\<open>'v\<close> are the components of one drawn entity; changes through a query are immediate.\<close>

record ('e, 'v, 's) scene_env =
  se_get :: "'s \<Rightarrow> 'e \<Rightarrow> 'v option"
  se_all :: "'s \<Rightarrow> 'e list"
  se_set :: "'e \<Rightarrow> 'v \<Rightarrow> 's \<Rightarrow> 's"
  se_spawn :: "'v \<Rightarrow> 's \<Rightarrow> 'e \<times> 's"
  se_despawn :: "'e \<Rightarrow> 's \<Rightarrow> 's"
  se_apply :: "'s \<Rightarrow> 's"

text \<open>The store once the commands given so far are applied.\<close>

definition after :: "('e, 'v, 's) scene_env \<Rightarrow> 's \<Rightarrow> 'e \<Rightarrow> 'v option" where
  "after E s = se_get E (se_apply E s)"

text \<open>
  An index whose entities, together with those of \<open>G\<close>, are exactly the drawn entities of the store:
  none is drawn twice, none is left over and none is missing.
\<close>

definition index_ok :: "('e, 'v, 's) scene_env \<Rightarrow> 'e set \<Rightarrow> ('k \<times> 'e) list \<Rightarrow> 's \<Rightarrow> bool" where
  "index_ok E G index s \<longleftrightarrow>
     hm_wf index \<and> inj_on (map_of index) (dom (map_of index)) \<and> ran (map_of index) \<inter> G = {}
     \<and> dom (after E s) = ran (map_of index) \<union> G"

text \<open>Nothing is pending; what is pending only adds or removes entities.\<close>

definition settled :: "('e, 'v, 's) scene_env \<Rightarrow> 's \<Rightarrow> bool" where
  "settled E s \<longleftrightarrow> after E s = se_get E s"

definition coherent :: "('e, 'v, 's) scene_env \<Rightarrow> 's \<Rightarrow> bool" where
  "coherent E s \<longleftrightarrow> (\<forall>e v w. se_get E s e = Some v \<longrightarrow> after E s e = Some w \<longrightarrow> v = w)"

lemma settled_coherent: "settled E s \<Longrightarrow> coherent E s"
  by (simp add: settled_def coherent_def)

lemma inj_on_map_upd: "inj_on m (dom m) \<Longrightarrow> e \<notin> ran m \<Longrightarrow> inj_on (m(k \<mapsto> e)) (dom (m(k \<mapsto> e)))"
  by (auto simp: inj_on_def ran_def split: if_splits)

lemma inj_on_map_del: "inj_on m (dom m) \<Longrightarrow> inj_on (m(k := None)) (dom (m(k := None)))"
  by (auto simp: inj_on_def split: if_splits)

lemma ran_map_del: "inj_on m (dom m) \<Longrightarrow> m k = Some e \<Longrightarrow> ran (m(k := None)) = ran m - {e}"
proof (intro equalityI subsetI)
  assume m: "inj_on m (dom m)" "m k = Some e"
  fix x
  assume "x \<in> ran (m(k := None))"
  then obtain a where a: "a \<noteq> k" "m a = Some x" by (auto simp: ran_def split: if_splits)
  moreover have "x \<noteq> e" using m a inj_onD[OF m(1), of a k] by auto
  ultimately show "x \<in> ran m - {e}" by (simp add: ranI)
next
  assume m: "inj_on m (dom m)" "m k = Some e"
  fix x
  assume "x \<in> ran m - {e}"
  then obtain a where "m a = Some x" "x \<noteq> e" by (auto simp: ran_def)
  with m(2) have "(m(k := None)) a = Some x" by auto
  then show "x \<in> ran (m(k := None))" by (rule ranI)
qed

lemma index_member:
  assumes "index_ok E G index s" "hm_get index k = Some e"
  shows "e \<notin> G" "after E s e \<noteq> None"
proof -
  have "e \<in> ran (map_of index)" using assms(2) by (rule ranI)
  then show "e \<notin> G" "after E s e \<noteq> None" using assms(1) by (auto simp: index_ok_def)
qed

lemma index_fresh: "index_ok E G index s \<Longrightarrow> after E s e = None \<Longrightarrow> e \<notin> ran (map_of index) \<and> e \<notin> G"
  by (auto simp: index_ok_def domIff)

text \<open>An entry of the index dropped with its entity, and several of them.\<close>

definition drop_entry ::
  "('e, 'v, 's) scene_env \<Rightarrow> ('k \<times> 'e) list \<times> 's \<Rightarrow> 'k \<Rightarrow> ('k \<times> 'e) list \<times> 's" where
  "drop_entry E = (\<lambda>(index, s) k.
     case hm_get index k of None \<Rightarrow> (index, s) | Some e \<Rightarrow> (hm_remove k index, se_despawn E e s))"

locale scene_world =
  fixes E :: "('e, 'v, 's) scene_env"
  assumes get_spawn: "se_spawn E v s = (e, s') \<Longrightarrow> se_get E s' = se_get E s"
    and after_spawn: "se_spawn E v s = (e, s') \<Longrightarrow> after E s' = (after E s)(e \<mapsto> v)"
    and spawn_fresh: "se_spawn E v s = (e, s') \<Longrightarrow> se_get E s e = None \<and> after E s e = None"
    and get_despawn: "se_get E (se_despawn E e s) = se_get E s"
    and after_despawn: "after E (se_despawn E e s) = (after E s)(e := None)"
    and get_set: "se_get E s e \<noteq> None \<Longrightarrow> se_get E (se_set E e v s) = (se_get E s)(e \<mapsto> v)"
    and after_set: "se_get E s e \<noteq> None \<Longrightarrow>
      after E (se_set E e v s) = (if after E s e = None then after E s else (after E s)(e \<mapsto> v))"
    and after_apply: "after E (se_apply E s) = after E s"
    and all_get: "distinct (se_all E s) \<and> set (se_all E s) = dom (se_get E s)"
begin

lemma get_apply: "se_get E (se_apply E s) = after E s"
  by (simp add: after_def)

lemma settled_apply: "settled E (se_apply E s)"
  by (simp add: settled_def get_apply after_apply)

lemma settled_set: "settled E s \<Longrightarrow> se_get E s e \<noteq> None \<Longrightarrow> settled E (se_set E e v s)"
  using get_set[of s e v] after_set[of s e v] by (auto simp: settled_def)

lemma coherent_steps:
  assumes "coherent E s"
  shows "se_spawn E v s = (e, s') \<Longrightarrow> coherent E s'" "coherent E (se_despawn E e s)"
    "se_get E s e \<noteq> None \<Longrightarrow> coherent E (se_set E e v s)"
  using assms get_spawn[of v s e s'] after_spawn[of v s e s'] spawn_fresh[of v s e s'] get_set[of s e v] after_set[of s e v]
  by (auto simp: coherent_def get_despawn after_despawn)

lemma index_spawn:
  assumes "index_ok E G index s" "hm_get index k = None" "se_spawn E v s = (e, s')"
  shows "index_ok E G (hm_insert k e index) s'" "e \<notin> ran (map_of index)" "e \<notin> G"
proof -
  have e: "e \<notin> ran (map_of index)" "e \<notin> G"
    using spawn_fresh[OF assms(3)] index_fresh[OF assms(1)] by auto
  then show "index_ok E G (hm_insert k e index) s'" "e \<notin> ran (map_of index)" "e \<notin> G"
    using assms after_spawn[OF assms(3)] inj_on_map_upd[of "map_of index" e k]
    by (simp_all add: index_ok_def update_conv' distinct_update)
qed

lemma index_spawn_extra:
  assumes "index_ok E G index s" "se_spawn E v s = (e, s')"
  shows "index_ok E (insert e G) index s'"
  using assms after_spawn[OF assms(2)] spawn_fresh[OF assms(2)] index_fresh[OF assms(1), of e] by (auto simp: index_ok_def)

lemma index_despawn:
  assumes "index_ok E G index s" "hm_get index k = Some e"
  shows "index_ok E G (hm_remove k index) (se_despawn E e s)"
proof -
  have "inj_on (map_of index) (dom (map_of index))" "e \<notin> G"
    using assms(1) index_member[OF assms] by (simp_all add: index_ok_def)
  then show ?thesis
    using assms ran_map_del[of "map_of index" k e] inj_on_map_del[of "map_of index" k]
    by (auto simp: index_ok_def delete_conv' after_despawn distinct_delete)
qed

lemma drop_entries:
  assumes "index_ok E G index s" "foldl (drop_entry E) (index, s) ks = (index', s')"
  shows "index_ok E G index' s' \<and> hm_keys index' = hm_keys index - set ks
    \<and> (\<forall>k. k \<notin> set ks \<longrightarrow> hm_get index' k = hm_get index k) \<and> se_get E s' = se_get E s
    \<and> (\<forall>e. (\<forall>k \<in> set ks. hm_get index k \<noteq> Some e) \<longrightarrow> after E s' e = after E s e)"
  using assms
proof (induction ks arbitrary: index s)
  case (Cons k ks)
  show ?case
  proof (cases "hm_get index k")
    case None
    then have "drop_entry E (index, s) k = (index, s)" by (simp add: drop_entry_def)
    moreover have "k \<notin> hm_keys index" by (rule hm_get_keys(2)[THEN iffD1, OF None])
    ultimately show ?thesis using Cons.IH[OF Cons.prems(1)] Cons.prems(2) by simp
  next
    case (Some e)
    then have one: "drop_entry E (index, s) k = (hm_remove k index, se_despawn E e s)" by (simp add: drop_entry_def)
    have "index_ok E G (hm_remove k index) (se_despawn E e s)" by (rule index_despawn[OF Cons.prems(1) Some])
    from Cons.IH[OF this] Cons.prems(2) one have rest:
      "index_ok E G index' s'" "hm_keys index' = hm_keys index - {k} - set ks"
      "\<forall>j. j \<notin> set ks \<longrightarrow> hm_get index' j = ((map_of index)(k := None)) j" "se_get E s' = se_get E s"
      "\<forall>x. (\<forall>j \<in> set ks. ((map_of index)(k := None)) j \<noteq> Some x) \<longrightarrow> after E s' x = ((after E s)(e := None)) x"
      by (simp_all add: delete_conv' get_despawn after_despawn)
    have "after E s' x = after E s x" if "\<forall>j \<in> set (k # ks). hm_get index j \<noteq> Some x" for x
    proof -
      have "hm_get index k \<noteq> Some x" using that by simp
      then have "x \<noteq> e" unfolding Some by simp
      moreover have "\<forall>j \<in> set ks. ((map_of index)(k := None)) j \<noteq> Some x" using that by simp
      ultimately show ?thesis using rest(5) by simp
    qed
    moreover have "hm_keys index' = hm_keys index - set (k # ks)" using rest(2) by auto
    moreover have "hm_get index' j = hm_get index j" if "j \<notin> set (k # ks)" for j
      using rest(3)[rule_format, of j] that by simp
    ultimately show ?thesis using rest(1,4) by blast
  qed
qed simp

lemma index_despawn_extra:
  assumes "index_ok E (insert e G) index s" "e \<notin> G"
  shows "index_ok E G index (se_despawn E e s)"
  using assms by (auto simp: index_ok_def after_despawn)

lemma index_set:
  assumes "index_ok E G index s" "se_get E s e \<noteq> None" "after E s e \<noteq> None"
  shows "index_ok E G index (se_set E e v s)"
  using assms after_set[OF assms(2)] by (auto simp: index_ok_def)

lemma index_apply: "index_ok E G index (se_apply E s) = index_ok E G index s"
  by (simp add: index_ok_def after_apply)

end

section \<open>Keeping an index up to date\<close>

text \<open>
  A thing is shown when the entity of its identifier has components that are \<open>good\<close> for it.  Drawing
  some things shows each of them and touches nothing else.
\<close>

definition shown ::
  "('e, 'v, 's) scene_env \<Rightarrow> ('x \<Rightarrow> 'k) \<Rightarrow> ('x \<Rightarrow> 'v \<Rightarrow> bool) \<Rightarrow> ('k \<times> 'e) list \<Rightarrow> 's \<Rightarrow> 'x \<Rightarrow> bool" where
  "shown E ident good index s x \<longleftrightarrow> (\<exists>e v. hm_get index (ident x) = Some e \<and> after E s e = Some v \<and> good x v)"

definition drew ::
  "('e, 'v, 's) scene_env \<Rightarrow> ('x \<Rightarrow> 'k) \<Rightarrow> ('x \<Rightarrow> 'v \<Rightarrow> bool) \<Rightarrow> 'x list
    \<Rightarrow> ('k \<times> 'e) list \<Rightarrow> 's \<Rightarrow> ('k \<times> 'e) list \<Rightarrow> 's \<Rightarrow> bool" where
  "drew E ident good xs index s index' s' \<longleftrightarrow>
     (\<forall>x \<in> set xs. shown E ident good index' s' x) \<and> hm_keys index' = hm_keys index \<union> ident ` set xs
     \<and> (\<forall>k. k \<notin> ident ` set xs \<longrightarrow> hm_get index' k = hm_get index k)
     \<and> (\<forall>e. (\<forall>x \<in> set xs. hm_get index (ident x) \<noteq> Some e) \<longrightarrow>
          se_get E s' e = se_get E s e \<and> (after E s e \<noteq> None \<longrightarrow> after E s' e = after E s e))"

text \<open>
  A drawing step: a thing that has an entity is drawn again on it, one that has none gets a new entity.
\<close>

locale scene_upsert = scene_world E
  for E :: "('e, 'v, 's) scene_env" +
  fixes ident :: "'x \<Rightarrow> 'k"
    and good :: "'x \<Rightarrow> 'v \<Rightarrow> bool"
    and step :: "('k \<times> 'e) list \<times> 's \<Rightarrow> 'x \<Rightarrow> ('k \<times> 'e) list \<times> 's"
  assumes step_known: "hm_get index (ident x) = Some e \<Longrightarrow> se_get E s e = Some v \<Longrightarrow>
      \<exists>v'. good x v' \<and> step (index, s) x = (index, se_set E e v' s)"
    and step_new: "hm_get index (ident x) = None \<Longrightarrow>
      \<exists>v e s'. good x v \<and> se_spawn E v s = (e, s') \<and> step (index, s) x = (hm_insert (ident x) e index, s')"
begin

lemma one_step:
  assumes "index_ok E G index s" "\<And>e. hm_get index (ident x) = Some e \<Longrightarrow> se_get E s e \<noteq> None"
    "step (index, s) x = (index', s')"
  shows "index_ok E G index' s'" "drew E ident good [x] index s index' s'"
proof (atomize (full), cases "hm_get index (ident x)")
  case None
  from step_new[OF None, of s] assms(3) obtain v e
    where *: "good x v" "se_spawn E v s = (e, s')" "index' = hm_insert (ident x) e index" by auto
  show "index_ok E G index' s' \<and> drew E ident good [x] index s index' s'"
    using index_spawn[OF assms(1) None *(2)] spawn_fresh[OF *(2)] after_spawn[OF *(2)] get_spawn[OF *(2)] *(1,3)
    by (auto simp: drew_def shown_def update_conv')
next
  case (Some e)
  then obtain v where v: "se_get E s e = Some v" using assms(2) by blast
  from step_known[OF Some v] assms(3) obtain v' where *: "good x v'" "index' = index" "s' = se_set E e v' s" by auto
  have e: "after E s e \<noteq> None" by (rule index_member[OF assms(1) Some])
  show "index_ok E G index' s' \<and> drew E ident good [x] index s index' s'"
    using index_set[OF assms(1) _ e, of v'] after_set[of s e v'] e get_set[of s e v'] v * Some
    by (auto simp: drew_def shown_def hm_get_keys)
qed

lemma steps:
  assumes "index_ok E G index s" "distinct (map ident xs)"
    "\<And>x e. x \<in> set xs \<Longrightarrow> hm_get index (ident x) = Some e \<Longrightarrow> se_get E s e \<noteq> None"
    "foldl step (index, s) xs = (index', s')"
  shows "index_ok E G index' s' \<and> drew E ident good xs index s index' s'"
  using assms
proof (induction xs arbitrary: index s)
  case (Cons x xs)
  obtain index1 s1 where one: "step (index, s) x = (index1, s1)" by fastforce
  have known: "se_get E s e \<noteq> None" if "hm_get index (ident x) = Some e" for e
    by (rule Cons.prems(3)[OF _ that]) simp
  note head = one_step[OF Cons.prems(1) known one]
  have apart: "ident y \<noteq> ident x" if "y \<in> set xs" for y
  proof -
    have "ident x \<notin> ident ` set xs" using Cons.prems(2) by simp
    then show ?thesis using imageI[OF that, of ident] by auto
  qed
  have other: "hm_get index1 (ident y) = hm_get index (ident y)" if "y \<in> set xs" for y
    using head(2) apart[OF that] by (simp add: drew_def)
  have unshared: "hm_get m (ident x) \<noteq> hm_get m (ident y)"
    if "y \<in> set xs" "index_ok E G m t" "hm_get m (ident y) \<noteq> None" for y m t
  proof
    assume eq: "hm_get m (ident x) = hm_get m (ident y)"
    have "inj_on (map_of m) (dom (map_of m))" using that(2) by (simp add: index_ok_def)
    from inj_onD[OF this, of "ident x" "ident y"] eq that(3) have "ident x = ident y" by (simp add: domIff)
    with apart[OF that(1)] show False by simp
  qed
  have "se_get E s1 e \<noteq> None" if "y \<in> set xs" "hm_get index1 (ident y) = Some e" for y e
  proof -
    have y: "hm_get index (ident y) = Some e" using that other by simp
    then have "hm_get index (ident x) \<noteq> Some e" using unshared[OF that(1) Cons.prems(1)] by simp
    then have "se_get E s1 e = se_get E s e" using head(2) by (simp add: drew_def)
    with Cons.prems(3)[of y e] that(1) y show ?thesis by simp
  qed
  from Cons.IH[OF head(1) _ this] Cons.prems(2,4) one
  have tail: "index_ok E G index' s'" "drew E ident good xs index1 s1 index' s'" by simp_all
  have "shown E ident good index' s' x"
  proof -
    from head(2) obtain e v where e: "hm_get index1 (ident x) = Some e" "after E s1 e = Some v" "good x v"
      by (auto simp: drew_def shown_def)
    have "\<forall>y \<in> set xs. hm_get index1 (ident y) \<noteq> Some e"
      using e(1) unshared[OF _ head(1)] by (metis option.distinct(1))
    then have "after E s' e = Some v" using tail(2) e(2) by (simp add: drew_def)
    moreover have "ident x \<notin> ident ` set xs" using Cons.prems(2) by simp
    then have "hm_get index' (ident x) = Some e" using tail(2) e(1) by (simp add: drew_def)
    ultimately show ?thesis using e(3) by (auto simp: shown_def)
  qed
  moreover have "(\<forall>y \<in> set xs. hm_get index1 (ident y) \<noteq> Some e) = (\<forall>y \<in> set xs. hm_get index (ident y) \<noteq> Some e)" for e
    using other by simp
  ultimately show ?case using head(2) tail unfolding drew_def by simp
qed (simp add: drew_def)

text \<open>Drawing some things and dropping the rest leaves exactly those in the index.\<close>

lemma redraw:
  assumes "index_ok E G index s" "\<And>k e. hm_get index k = Some e \<Longrightarrow> se_get E s e \<noteq> None" "distinct (map ident xs)"
    "foldl step (index, s) xs = (index1, s1)" "foldl (drop_entry E) (index1, s1) ks = (index2, s2)"
    "set ks = hm_keys index1 - ident ` set xs"
  shows "index_ok E G index2 s2 \<and> hm_keys index2 = ident ` set xs \<and> (\<forall>x \<in> set xs. shown E ident good index2 s2 x)
    \<and> (\<forall>e \<in> G. se_get E s2 e = se_get E s e \<and> after E s2 e = after E s e)"
proof -
  have "index_ok E G index1 s1 \<and> drew E ident good xs index s index1 s1"
    by (rule steps[OF assms(1,3) assms(2) assms(4)])
  then have one: "index_ok E G index1 s1" "drew E ident good xs index s index1 s1" by simp_all
  note two = drop_entries[OF one(1) assms(5)]
  have keys: "hm_keys index2 = ident ` set xs" using two assms(6) one(2) by (auto simp: drew_def)
  have "shown E ident good index2 s2 x" if x: "x \<in> set xs" for x
  proof -
    from one(2) x obtain e v where e: "hm_get index1 (ident x) = Some e" "after E s1 e = Some v" "good x v"
      by (auto simp: drew_def shown_def)
    have kept: "ident x \<notin> set ks" using x assms(6) by simp
    have "hm_get index1 k \<noteq> Some e" if "k \<in> set ks" for k
    proof
      assume k: "hm_get index1 k = Some e"
      have "inj_on (map_of index1) (dom (map_of index1))" using one(1) by (simp add: index_ok_def)
      from inj_onD[OF this, of k "ident x"] k e(1) have "k = ident x" by (simp add: domIff)
      with kept that show False by simp
    qed
    then have "after E s2 e = Some v" using two e(2) by simp
    moreover have "hm_get index2 (ident x) = Some e" using two kept e(1) by simp
    ultimately show ?thesis using e(3) unfolding shown_def by blast
  qed
  moreover have "se_get E s2 e = se_get E s e \<and> after E s2 e = after E s e" if e: "e \<in> G" for e
  proof -
    have "hm_get index (ident x) \<noteq> Some e" for x using index_member(1)[OF assms(1)] e by blast
    moreover have "after E s e \<noteq> None" using assms(1) e by (auto simp: index_ok_def)
    ultimately have "se_get E s1 e = se_get E s e" "after E s1 e = after E s e" using one(2) by (simp_all add: drew_def)
    moreover have "hm_get index1 k \<noteq> Some e" for k using index_member(1)[OF one(1)] e by blast
    ultimately show ?thesis using two by simp
  qed
  ultimately show ?thesis using two keys by blast
qed

end

section \<open>A store with deferred commands\<close>

text \<open>
  The entities there are, and those there will be once the commands are applied; a new entity gets a
  number above all of them.
\<close>

record 'v staged_store =
  ss_now :: "(nat \<times> 'v) list"
  ss_next :: "(nat \<times> 'v) list"

definition replace_value :: "nat \<Rightarrow> 'v \<Rightarrow> (nat \<times> 'v) list \<Rightarrow> (nat \<times> 'v) list" where
  "replace_value e v m = (if hm_contains m e then hm_insert e v m else m)"

definition unused_number :: "'v staged_store \<Rightarrow> nat" where
  "unused_number s = Suc (foldr max (map fst (ss_now s @ ss_next s)) 0)"

definition staged_env :: "(nat, 'v, 'v staged_store) scene_env" where
  "staged_env =
     \<lparr>se_get = (\<lambda>s. map_of (ss_now s)), se_all = (\<lambda>s. remdups (map fst (ss_now s))),
      se_set = (\<lambda>e v s. \<lparr>ss_now = replace_value e v (ss_now s), ss_next = replace_value e v (ss_next s)\<rparr>),
      se_spawn = (\<lambda>v s. (unused_number s, s\<lparr>ss_next := hm_insert (unused_number s) v (ss_next s)\<rparr>)),
      se_despawn = (\<lambda>e s. s\<lparr>ss_next := hm_remove e (ss_next s)\<rparr>),
      se_apply = (\<lambda>s. s\<lparr>ss_now := ss_next s\<rparr>)\<rparr>"

lemma foldr_max_upper: "x \<in> set xs \<Longrightarrow> x \<le> foldr max xs (0 :: nat)"
  by (induction xs) auto

lemma unused_number_fresh: "map_of (ss_now s) (unused_number s) = None \<and> map_of (ss_next s) (unused_number s) = None"
proof -
  have "x < unused_number s" if "x \<in> fst ` set (ss_now s) \<union> fst ` set (ss_next s)" for x
    using that foldr_max_upper[of x "map fst (ss_now s @ ss_next s)"] by (auto simp: unused_number_def)
  from this[of "unused_number s"] show ?thesis
    unfolding map_of_eq_None_iff by blast
qed

lemma replace_value_get: "map_of m e \<noteq> None \<Longrightarrow> map_of (replace_value e v m) = (map_of m)(e \<mapsto> v)"
  by (simp add: replace_value_def hm_contains_def update_conv')

interpretation staged: scene_world staged_env
proof
  fix s :: "'a staged_store" and e v
  show "se_get staged_env s e \<noteq> None \<Longrightarrow> se_get staged_env (se_set staged_env e v s) = (se_get staged_env s)(e \<mapsto> v)"
    by (simp add: staged_env_def replace_value_get)
  show "after staged_env (se_set staged_env e v s)
      = (if after staged_env s e = None then after staged_env s else (after staged_env s)(e \<mapsto> v))"
    by (simp add: staged_env_def after_def replace_value_get) (simp add: replace_value_def hm_contains_def)
  show "distinct (se_all staged_env s) \<and> set (se_all staged_env s) = dom (se_get staged_env s)"
    by (simp add: staged_env_def dom_map_of_conv_image_fst)
qed (auto simp: staged_env_def after_def update_conv' delete_conv' unused_number_fresh)

end
