(* ===== verification/Client_Scene.thy ===== *)
theory Client_Scene
  imports Game_Client Scene
begin

text \<open>
  What the example client draws and reads (\<open>examples/client/src/common.rs\<close>): the entities on the canvas
  and the ghost of the local player, the camera, keyboard and touch input, the start of the connection,
  and the diagnostics panel.  The entity store is the record \<open>scene_env\<close> of \<open>Scene\<close>; vector and colour
  operations of Bevy are fields of the record \<open>draw_env\<close>.  Fonts, node layout and panel colours are not
  modelled.
\<close>

section \<open>Entities on the canvas\<close>

record 'c draw_env =
  dr_math :: f32_math
  dr_length_squared :: "vec2 \<Rightarrow> f32"
  dr_normalize :: "vec2 \<Rightarrow> vec2"
  dr_dot :: "vec2 \<Rightarrow> vec2 \<Rightarrow> f32"
  dr_lerp :: "vec2 \<Rightarrow> vec2 \<Rightarrow> f32 \<Rightarrow> vec2"
  dr_lerp3 :: "vec3 \<Rightarrow> vec3 \<Rightarrow> f32 \<Rightarrow> vec3"
  dr_srgb :: "vec3 \<Rightarrow> 'c"
  dr_srgba :: "vec3 \<Rightarrow> f32 \<Rightarrow> 'c"
  dr_mix :: "'c \<Rightarrow> 'c \<Rightarrow> f32 \<Rightarrow> 'c"

text \<open>The components of a drawn entity: \<open>VisualEntity\<close>, \<open>Sprite\<close>, \<open>Transform\<close> and \<open>GhostVisual\<close>.\<close>

record 'c client_visual =
  cv_target :: vec2
  cv_radius :: f32
  cv_color :: 'c
  cv_size :: vec2
  cv_translation :: vec3
  cv_ghost :: bool

record 'e render_index =
  ri_by_id :: "(u64 \<times> 'e) list"
  ri_ghost_you :: "'e option"

definition RenderIndex_default :: "'e render_index" where
  "RenderIndex_default = \<lparr>ri_by_id = [], ri_ghost_you = None\<rparr>"

definition world_to_canvas :: "vec2 \<Rightarrow> vec2" where
  "world_to_canvas pos =
     (fsub (fst pos) (fmul WORLD_WIDTH (lit (1 / 2))), fsub (snd pos) (fmul WORLD_HEIGHT (lit (1 / 2))))"

definition entity_color :: "'c draw_env \<Rightarrow> entity_state \<Rightarrow> bool \<Rightarrow> 'c" where
  "entity_color D entity is_you =
     (let base = dr_srgb D (es_color entity)
      in if es_kind entity = Player \<and> is_you then dr_mix D base (dr_srgb D (Fin 1, Fin 1, Fin 1)) (lit (10 / 100))
         else base)"

definition ghost_color :: "'c draw_env \<Rightarrow> entity_state \<Rightarrow> 'c" where
  "ghost_color D entity = dr_srgba D (es_color entity) (lit (18 / 100))"

fun z_for_kind :: "entity_kind \<Rightarrow> f32" where
  "z_for_kind Player = Fin 2"
| "z_for_kind Pellet = Fin 1"

definition splat :: "f32 \<Rightarrow> vec2" where
  "splat x = (x, x)"

text \<open>The size and the colour are assigned when they differ, which leaves the new value in either case.\<close>

definition apply_visual_state ::
  "'c draw_env \<Rightarrow> entity_state \<Rightarrow> bool \<Rightarrow> 'c client_visual \<Rightarrow> 'c client_visual" where
  "apply_visual_state D entity_state is_local_player visual =
     (let target = world_to_canvas (es_pos entity_state);
          visual1 = visual\<lparr>cv_target := target, cv_radius := es_radius entity_state,
                           cv_size := splat (fmul (es_radius entity_state) (Fin 2)),
                           cv_color := entity_color D entity_state is_local_player\<rparr>
      in if is_local_player
         then visual1\<lparr>cv_translation := (fst target, snd target, snd (snd (cv_translation visual)))\<rparr>
         else visual1)"

definition new_visual :: "'c draw_env \<Rightarrow> entity_state \<Rightarrow> bool \<Rightarrow> 'c client_visual" where
  "new_visual D entity_state is_local_player =
     (let target = world_to_canvas (es_pos entity_state)
      in \<lparr>cv_target = target, cv_radius = es_radius entity_state,
          cv_color = entity_color D entity_state is_local_player,
          cv_size = splat (fmul (es_radius entity_state) (Fin 2)),
          cv_translation = (fst target, snd target, z_for_kind (es_kind entity_state)), cv_ghost = False\<rparr>)"

text \<open>The body of the loop over the rendered entities.\<close>

definition upsert_visual ::
  "'c draw_env \<Rightarrow> ('e, 'c client_visual, 's) scene_env \<Rightarrow> u64 option
    \<Rightarrow> (u64 \<times> 'e) list \<times> 's \<Rightarrow> entity_state \<Rightarrow> (u64 \<times> 'e) list \<times> 's" where
  "upsert_visual D E you = (\<lambda>(by_id, s) entity_state.
     let is_local_player = (you = Some (es_id entity_state)) in
     case hm_get by_id (es_id entity_state) of
       Some entity \<Rightarrow>
         (case se_get E s entity of
            Some visual \<Rightarrow> (by_id, se_set E entity (apply_visual_state D entity_state is_local_player visual) s)
          | None \<Rightarrow> (by_id, s))
     | None \<Rightarrow>
         (let (spawned, s') = se_spawn E (new_visual D entity_state is_local_player) s
          in (hm_insert (es_id entity_state) spawned by_id, s')))"

definition upsert_world_visuals ::
  "'c draw_env \<Rightarrow> ('e, 'c client_visual, 's) scene_env \<Rightarrow> world_view
    \<Rightarrow> (u64 \<times> 'e) list \<times> 's \<Rightarrow> (u64 \<times> 'e) list \<times> 's" where
  "upsert_world_visuals D E world x = foldl (upsert_visual D E (wv_you world)) x (map snd (wv_rendered world))"

definition despawn_stale_visuals ::
  "('e, 'c client_visual, 's) scene_env \<Rightarrow> world_view \<Rightarrow> (u64 \<times> 'e) list \<times> 's \<Rightarrow> (u64 \<times> 'e) list \<times> 's" where
  "despawn_stale_visuals E world = (\<lambda>(by_id, s).
     let stale_ids = filter (\<lambda>k. \<not> hm_contains (wv_rendered world) k) (map fst by_id)
     in foldl (\<lambda>(by_id, s) k. case hm_get by_id k of
                 Some entity \<Rightarrow> (hm_remove k by_id, se_despawn E entity s)
               | None \<Rightarrow> (by_id, s)) (by_id, s) stale_ids)"

section \<open>The ghost of the local player\<close>

definition smooth_ghost_target :: "'c draw_env \<Rightarrow> vec2 \<Rightarrow> vec2 \<Rightarrow> vec2 \<Rightarrow> f32 \<Rightarrow> vec2" where
  "smooth_ghost_target D current target velocity dt_secs =
     (let smoothing_dt = f32_min (f32_max dt_secs (Fin 0)) MAX_SMOOTHING_DT_SECONDS;
          err = offset target current
      in if flt F32_EPSILON (dr_length_squared D velocity) then
           (let dir = dr_normalize D velocity;
                along = dr_dot D err dir;
                forward_error = (fmul (fst dir) along, fmul (snd dir) along);
                lateral_error = offset err forward_error;
                forward_alpha = bounded_smoothing_factor (dr_math D) smoothing_dt (Fin 10) (lit (45 / 100));
                lateral_alpha = bounded_smoothing_factor (dr_math D) smoothing_dt (Fin 30) (lit (75 / 100))
            in nudge lateral_error lateral_alpha (nudge forward_error forward_alpha current))
         else dr_lerp D current target (bounded_smoothing_factor (dr_math D) smoothing_dt (Fin 12) (lit (55 / 100))))"

definition authoritative_you :: "world_view \<Rightarrow> entity_state option" where
  "authoritative_you world = (case wv_you world of None \<Rightarrow> None | Some you \<Rightarrow> hm_get (wv_authoritative world) you)"

definition sync_authoritative_ghost ::
  "'c draw_env \<Rightarrow> ('e, 'c client_visual, 's) scene_env \<Rightarrow> f32 \<Rightarrow> world_view
    \<Rightarrow> 'e option \<times> 's \<Rightarrow> 'e option \<times> 's" where
  "sync_authoritative_ghost D E dt_secs world = (\<lambda>(ghost_you, s).
     case authoritative_you world of
       None \<Rightarrow> (case ghost_you of Some entity \<Rightarrow> (None, se_despawn E entity s) | None \<Rightarrow> (None, s))
     | Some you \<Rightarrow>
         (let target = world_to_canvas (es_pos you); size = splat (fmul (es_radius you) (Fin 2)) in
          case ghost_you of
            Some ghost_entity \<Rightarrow>
              (case se_get E s ghost_entity of
                 Some visual \<Rightarrow>
                   (let (x, y, z) = cv_translation visual;
                        next = smooth_ghost_target D (x, y) target (es_vel you) dt_secs
                    in (ghost_you,
                        se_set E ghost_entity
                          (visual\<lparr>cv_translation := (fst next, snd next, z), cv_target := next, cv_radius := es_radius you,
                                  cv_size := size, cv_color := ghost_color D you\<rparr>) s))
               | None \<Rightarrow> (ghost_you, s))
          | None \<Rightarrow>
              (let (spawned, s') = se_spawn E
                     \<lparr>cv_target = target, cv_radius = es_radius you, cv_color = ghost_color D you, cv_size = size,
                      cv_translation = (fst target, snd target, fsub (z_for_kind Player) (lit (2 / 100))),
                      cv_ghost = True\<rparr> s
               in (Some spawned, s'))))"

definition sync_world_to_scene ::
  "'c draw_env \<Rightarrow> ('e, 'c client_visual, 's) scene_env \<Rightarrow> bool \<Rightarrow> f32 \<Rightarrow> world_view
    \<Rightarrow> 'e render_index \<times> 's \<Rightarrow> 'e render_index \<times> 's" where
  "sync_world_to_scene D E is_changed delta_secs world = (\<lambda>(render_index, s).
     if \<not> is_changed then (render_index, s)
     else
       (let (by_id, s1) = despawn_stale_visuals E world (upsert_world_visuals D E world (ri_by_id render_index, s));
            (ghost_you, s2) = sync_authoritative_ghost D E delta_secs world (ri_ghost_you render_index, s1)
        in (\<lparr>ri_by_id = by_id, ri_ghost_you = ghost_you\<rparr>, s2)))"

definition animate_visuals :: "'c draw_env \<Rightarrow> ('e, 'c client_visual, 's) scene_env \<Rightarrow> f32 \<Rightarrow> 's \<Rightarrow> 's" where
  "animate_visuals D E delta_secs s =
     (let alpha = f32_clamp (fmul delta_secs (Fin 12)) (Fin 0) (Fin 1)
      in foldl (\<lambda>s entity. case se_get E s entity of
             None \<Rightarrow> s
           | Some visual \<Rightarrow>
               if cv_ghost visual then s
               else
                 (let (x, y, z) = cv_translation visual;
                      target = (fst (cv_target visual), snd (cv_target visual), z)
                  in se_set E entity (visual\<lparr>cv_translation := dr_lerp3 D (x, y, z) target alpha\<rparr>) s))
           s (se_all E s))"

definition follow_local_player_camera :: "world_view \<Rightarrow> vec3 list \<Rightarrow> vec3 list" where
  "follow_local_player_camera world cameras =
     (case wv_you world of
        None \<Rightarrow> cameras
      | Some you \<Rightarrow>
          (case hm_get (wv_rendered world) you of
             None \<Rightarrow> cameras
           | Some player \<Rightarrow>
               (let target = world_to_canvas (es_pos player)
                in map (\<lambda>(_, _, z). (fst target, snd target, z)) cameras)))"

section \<open>Input\<close>

datatype key = KeyW | KeyA | KeyS | KeyD | ArrowUp | ArrowDown | ArrowLeft | ArrowRight | ShiftLeft | ShiftRight | KeyQ

text \<open>The size of the window if there is one, and the positions of the touches.\<close>

definition read_movement_input ::
  "'c draw_env \<Rightarrow> (key \<Rightarrow> bool) \<Rightarrow> vec2 list \<Rightarrow> vec2 option \<Rightarrow> vec2" where
  "read_movement_input D pressed touches primary_window =
     (case (primary_window, touches) of
        (Some window, touch_pos # _) \<Rightarrow>
          (let center = (fmul (fst window) (lit (1 / 2)), fmul (snd window) (lit (1 / 2)));
               raw = (fsub (fst touch_pos) (fst center), fsub (snd center) (snd touch_pos))
           in if flt (Fin 64) (dr_length_squared D raw) then dr_normalize D raw else (Fin 0, Fin 0))
      | _ \<Rightarrow>
          (let y1 = (if pressed KeyW \<or> pressed ArrowUp then fadd (Fin 0) (Fin 1) else Fin 0);
               y2 = (if pressed KeyS \<or> pressed ArrowDown then fsub y1 (Fin 1) else y1);
               x1 = (if pressed KeyA \<or> pressed ArrowLeft then fsub (Fin 0) (Fin 1) else Fin 0);
               x2 = (if pressed KeyD \<or> pressed ArrowRight then fadd x1 (Fin 1) else x1)
           in (x2, y2)))"

text \<open>\<open>sample_local_input\<close> stores the direction, \<open>fixed_prediction_tick\<close> predicts with it.\<close>

definition sample_local_input ::
  "'c draw_env \<Rightarrow> (key \<Rightarrow> bool) \<Rightarrow> vec2 list \<Rightarrow> vec2 option \<Rightarrow> vec2 \<Rightarrow> vec2" where
  "sample_local_input D pressed touches primary_window _ = read_movement_input D pressed touches primary_window"

definition fixed_prediction_tick :: "f32 \<Rightarrow> vec2 \<Rightarrow> world_view \<Rightarrow> world_view" where
  "fixed_prediction_tick delta_secs dir world = fixed_predict_local delta_secs dir world"

section \<open>The replica files every entity under its identifier\<close>

definition keyed :: "(u64 \<times> entity_state) list \<Rightarrow> bool" where
  "keyed m \<longleftrightarrow> hm_wf m \<and> (\<forall>(k, e) \<in> set m. es_id e = k)"

definition view_keyed :: "world_view \<Rightarrow> bool" where
  "view_keyed v \<longleftrightarrow> keyed (wv_authoritative v) \<and> keyed (wv_rendered v)"

lemma keyed_empty [simp]: "keyed []"
  by (simp add: keyed_def)

lemma keyed_insert [simp]: "keyed m \<Longrightarrow> es_id e = k \<Longrightarrow> keyed (hm_insert k e m)"
  using set_hm_insert[of k e m] by (auto simp: keyed_def distinct_update)

lemma keyed_remove [simp]: "keyed m \<Longrightarrow> keyed (hm_remove k m)"
  using set_hm_remove[of k m] by (auto simp: keyed_def distinct_delete)

lemma keyed_retain [simp]: "keyed m \<Longrightarrow> keyed (hm_retain P m)"
  by (auto simp: keyed_def hm_retain_mem)

lemma keyed_get: "keyed m \<Longrightarrow> hm_get m k = Some e \<Longrightarrow> es_id e = k"
  by (auto simp: keyed_def dest: map_of_SomeD)

lemma keyed_idents: "keyed m \<Longrightarrow> map es_id (map snd m) = map fst m"
  by (auto simp: keyed_def)

lemma keyed_pair_fold:
  assumes "keyed (fst x)" "keyed (snd x)" "\<And>a b y. keyed a \<Longrightarrow> keyed b \<Longrightarrow> keyed (fst (f (a, b) y)) \<and> keyed (snd (f (a, b) y))"
  shows "keyed (fst (foldl f x ys)) \<and> keyed (snd (foldl f x ys))"
  using assms(1,2)
proof (induction ys arbitrary: x)
  case (Cons y ys)
  then show ?case using assms(3)[of "fst x" "snd x" y] by simp
qed simp

lemma snapshot_keyed: "view_keyed (apply_snapshot snapshot v)"
  using keyed_pair_fold[of "([], [])" "\<lambda>(r, a) e. (hm_insert (es_id e) e r, hm_insert (es_id e) e a)"]
  by (simp add: apply_snapshot_def view_keyed_def Let_def case_prod_unfold)

lemma delta_keyed:
  assumes "view_keyed v"
  shows "view_keyed (apply_delta delta v)"
proof -
  let ?x = "foldl upsert_entity (wv_authoritative v, wv_rendered v) (wd_upserts delta)"
  have "keyed (fst ?x) \<and> keyed (snd ?x)"
    using assms by (intro keyed_pair_fold) (auto simp: upsert_entity_def view_keyed_def)
  then have "keyed (fst (foldl (\<lambda>(a, r) i. (hm_remove i a, hm_remove i r)) ?x (wd_removed delta)))
    \<and> keyed (snd (foldl (\<lambda>(a, r) i. (hm_remove i a, hm_remove i r)) ?x (wd_removed delta)))"
    by (intro keyed_pair_fold) auto
  then show ?thesis by (simp add: apply_delta_def view_keyed_def Let_def case_prod_unfold)
qed

lemma local_player_keyed:
  "view_keyed v \<Longrightarrow> local_authoritative_player v = Some (you, authoritative) \<Longrightarrow> es_id authoritative = you"
  by (auto simp: local_authoritative_player_def view_keyed_def keyed_get split: option.splits if_splits)

lemma rendered_or_keyed: "view_keyed v \<Longrightarrow> es_id authoritative = k \<Longrightarrow> es_id (rendered_or k authoritative v) = k"
  by (auto simp: rendered_or_def view_keyed_def keyed_get split: option.splits)

lemma predict_keyed: "view_keyed v \<Longrightarrow> view_keyed (fixed_predict_local dt dir v)"
  using local_player_keyed[of v] rendered_or_keyed[of v]
  by (auto simp: fixed_predict_local_def view_keyed_def update_rendered_from_authoritative_base_def Let_def split: option.splits)

lemma smooth_ident: "es_id (smooth_local_player p a r) = es_id r" "es_id (smooth_remote_player p a r) = es_id r"
  "es_id (smooth_pellet p a r) = es_id r" "es_id (clamp_rendered_entity r) = es_id r"
  "es_id (update_rendered_from_authoritative_base a r) = es_id r"
  by (simp_all add: smooth_local_player_def smooth_remote_player_def smooth_pellet_def clamp_rendered_entity_def
      update_rendered_from_authoritative_base_def Let_def)

lemma smooth_entity_ident: "view_keyed v \<Longrightarrow> es_id a = k \<Longrightarrow> es_id (smooth_entity params v (k, a)) = k"
  by (cases "es_kind a") (simp_all add: smooth_entity_def smooth_ident rendered_or_keyed Let_def)

lemma smoothing_keyed:
  assumes "view_keyed v"
  shows "view_keyed (step_smoothing fm dt dir v)"
proof -
  have loop: "view_keyed (foldl (\<lambda>v (k, a). v\<lparr>wv_rendered := hm_insert k (smooth_entity params v (k, a)) (wv_rendered v)\<rparr>) w m)"
    if "view_keyed w" "\<forall>(k, a) \<in> set m. es_id a = k" for params w m
    using that
  proof (induction m arbitrary: w)
    case (Cons x m)
    obtain k a where x: "x = (k, a)" by fastforce
    have "view_keyed (w\<lparr>wv_rendered := hm_insert k (smooth_entity params w (k, a)) (wv_rendered w)\<rparr>)"
      using Cons.prems x smooth_entity_ident[of w a k] by (simp add: view_keyed_def)
    from Cons.IH[OF this] Cons.prems(2) x show ?case by simp
  qed simp
  have "\<forall>(k, a) \<in> set (wv_authoritative v). es_id a = k" using assms by (simp add: view_keyed_def keyed_def)
  from loop[OF assms this] assms show ?thesis by (simp add: step_smoothing_def view_keyed_def Let_def)
qed

lemma replay_ident: "replay_commands speed t pending r = Some r' \<Longrightarrow> es_id r' = es_id r"
proof (induction pending arbitrary: r)
  case (Cons p pending)
  then show ?case by (fastforce simp: Let_def split: if_splits option.splits)
qed simp

lemma reconcile_keyed:
  assumes "view_keyed v" "reconcile_local_prediction pending t v = Some v'"
  shows "view_keyed v'"
proof (cases "local_authoritative_player v")
  case (Some p)
  obtain you authoritative where p: "p = (you, authoritative)" by fastforce
  let ?w = "reset_local_rendered_to_authoritative you authoritative v"
  have a: "es_id authoritative = you" using local_player_keyed[OF assms(1)] Some p by simp
  then have w: "view_keyed ?w" using assms(1) by (simp add: reset_local_rendered_to_authoritative_def view_keyed_def)
  have get: "hm_get (wv_rendered ?w) you = Some authoritative"
    by (simp add: reset_local_rendered_to_authoritative_def update_conv')
  show ?thesis
  proof (cases "pending = []")
    case True
    then show ?thesis using assms(2) Some p w by (simp add: reconcile_local_prediction_def replay_pending_inputs_def)
  next
    case False
    then obtain r where "replay_commands (client_speed (es_mass authoritative)) t pending authoritative = Some r"
      "v' = ?w\<lparr>wv_rendered := hm_insert you r (wv_rendered ?w)\<rparr>"
      using assms(2) Some p get by (auto simp: reconcile_local_prediction_def replay_pending_inputs_def)
    with w a replay_ident[of _ t pending authoritative r] show ?thesis by (simp add: view_keyed_def)
  qed
qed (use assms in \<open>simp add: reconcile_local_prediction_def\<close>)

section \<open>The canvas mirrors the replica\<close>

text \<open>What an entity of the canvas shows of an entity of the replica.\<close>

definition depicts :: "'c draw_env \<Rightarrow> u64 option \<Rightarrow> entity_state \<Rightarrow> 'c client_visual \<Rightarrow> bool" where
  "depicts D you st visual \<longleftrightarrow>
     cv_target visual = world_to_canvas (es_pos st) \<and> cv_radius visual = es_radius st
     \<and> cv_size visual = splat (fmul (es_radius st) (Fin 2)) \<and> cv_color visual = entity_color D st (you = Some (es_id st))"

lemma depicts_redrawn: "depicts D you st (apply_visual_state D st (you = Some (es_id st)) visual)"
  by (simp add: depicts_def apply_visual_state_def Let_def)

lemma depicts_new: "depicts D you st (new_visual D st (you = Some (es_id st)))"
  by (simp add: depicts_def new_visual_def Let_def)

text \<open>
  The canvas mirrors a replica: every entity of the replica has one drawn entity that depicts it, the
  local player has a ghost exactly if the server knows the player, and nothing else is drawn.
\<close>

definition mirrors ::
  "'c draw_env \<Rightarrow> ('e, 'c client_visual, 's) scene_env \<Rightarrow> world_view \<Rightarrow> 'e render_index \<Rightarrow> 's \<Rightarrow> bool" where
  "mirrors D E v ri s \<longleftrightarrow>
     index_ok E (set_option (ri_ghost_you ri)) (ri_by_id ri) s
     \<and> hm_keys (ri_by_id ri) = hm_keys (wv_rendered v)
     \<and> (\<forall>st \<in> snd ` set (wv_rendered v). shown E es_id (depicts D (wv_you v)) (ri_by_id ri) s st)
     \<and> (ri_ghost_you ri \<noteq> None \<longleftrightarrow> authoritative_you v \<noteq> None)"

lemma despawn_stale_drops:
  "despawn_stale_visuals E world (by_id, s)
     = foldl (drop_entry E) (by_id, s) (filter (\<lambda>k. \<not> hm_contains (wv_rendered world) k) (map fst by_id))"
  by (simp add: despawn_stale_visuals_def drop_entry_def)

section \<open>Frames\<close>

text \<open>
  A frame brings the scene up to date and animates it, in either order, and applies the commands.  The
  replica is marked as changed by every system that borrows it mutably.
\<close>

definition client_frame ::
  "'c draw_env \<Rightarrow> ('e, 'c client_visual, 's) scene_env \<Rightarrow> bool \<Rightarrow> bool \<Rightarrow> f32 \<Rightarrow> world_view
    \<Rightarrow> 'e render_index \<times> 's \<Rightarrow> 'e render_index \<times> 's" where
  "client_frame D E animate_first is_changed delta_secs world = (\<lambda>(ri, s).
     if animate_first then
       (let (ri', s') = sync_world_to_scene D E is_changed delta_secs world (ri, animate_visuals D E delta_secs s)
        in (ri', se_apply E s'))
     else
       (let (ri', s') = sync_world_to_scene D E is_changed delta_secs world (ri, s)
        in (ri', se_apply E (animate_visuals D E delta_secs s'))))"

datatype client_op =
    CoSnapshot join_snapshot_msg
  | CoDelta world_delta
  | CoPredict f32 vec2
  | CoSmooth f32 vec2
  | CoReconcile "pending_input list" f32
  | CoFrame bool f32

record ('e, 's) client_canvas_state =
  ca_world :: world_view
  ca_changed :: bool
  ca_index :: "'e render_index"
  ca_scene :: 's

definition change_world :: "world_view \<Rightarrow> ('e, 's) client_canvas_state \<Rightarrow> ('e, 's) client_canvas_state" where
  "change_world v c = c\<lparr>ca_world := v, ca_changed := True\<rparr>"

fun canvas_step ::
  "'c draw_env \<Rightarrow> ('e, 'c client_visual, 's) scene_env \<Rightarrow> ('e, 's) client_canvas_state \<Rightarrow> client_op
    \<Rightarrow> ('e, 's) client_canvas_state" where
  "canvas_step D E c (CoSnapshot snapshot) = change_world (apply_snapshot snapshot (ca_world c)) c"
| "canvas_step D E c (CoDelta delta) = change_world (apply_delta delta (ca_world c)) c"
| "canvas_step D E c (CoPredict dt dir) = change_world (fixed_prediction_tick dt dir (ca_world c)) c"
| "canvas_step D E c (CoSmooth dt dir) = change_world (step_smoothing (dr_math D) dt dir (ca_world c)) c"
| "canvas_step D E c (CoReconcile pending now) =
     (case reconcile_local_prediction pending now (ca_world c) of None \<Rightarrow> c | Some v \<Rightarrow> change_world v c)"
| "canvas_step D E c (CoFrame animate_first dt) =
     (let (ri, s) = client_frame D E animate_first (ca_changed c) dt (ca_world c) (ca_index c, ca_scene c)
      in c\<lparr>ca_changed := False, ca_index := ri, ca_scene := s\<rparr>)"

text \<open>A new client on an empty scene.\<close>

definition canvas_new :: "'s \<Rightarrow> ('e, 's) client_canvas_state" where
  "canvas_new s =
     \<lparr>ca_world = \<lparr>wv_tick = 0, wv_you = None, wv_authoritative = [], wv_rendered = []\<rparr>, ca_changed = True,
      ca_index = RenderIndex_default, ca_scene = s\<rparr>"

definition canvas_ok ::
  "'c draw_env \<Rightarrow> ('e, 'c client_visual, 's) scene_env \<Rightarrow> ('e, 's) client_canvas_state \<Rightarrow> bool" where
  "canvas_ok D E c \<longleftrightarrow> view_keyed (ca_world c) \<and> settled E (ca_scene c)
     \<and> index_ok E (set_option (ri_ghost_you (ca_index c))) (ri_by_id (ca_index c)) (ca_scene c)
     \<and> (ca_changed c \<or> mirrors D E (ca_world c) (ca_index c) (ca_scene c))"

locale client_canvas = scene_world E
  for E :: "('e, 'c client_visual, 's) scene_env" +
  fixes D :: "'c draw_env"

sublocale client_canvas \<subseteq> upsert: scene_upsert E es_id "depicts D you" "upsert_visual D E you" for you
proof
  fix index :: "(u64 \<times> 'e) list" and x :: entity_state and e s v
  assume "hm_get index (es_id x) = Some e" "se_get E s e = Some v"
  then have "upsert_visual D E you (index, s) x = (index, se_set E e (apply_visual_state D x (you = Some (es_id x)) v) s)"
    by (simp add: upsert_visual_def Let_def)
  then show "\<exists>v'. depicts D you x v' \<and> upsert_visual D E you (index, s) x = (index, se_set E e v' s)"
    using depicts_redrawn by blast
next
  fix index :: "(u64 \<times> 'e) list" and x :: entity_state and s :: 's
  assume none: "hm_get index (es_id x) = None"
  obtain e s' where "se_spawn E (new_visual D x (you = Some (es_id x))) s = (e, s')" by fastforce
  moreover from this none have "upsert_visual D E you (index, s) x = (hm_insert (es_id x) e index, s')"
    by (simp add: upsert_visual_def Let_def)
  ultimately show "\<exists>v e s'. depicts D you x v \<and> se_spawn E v s = (e, s') \<and> upsert_visual D E you (index, s) x = (hm_insert (es_id x) e index, s')"
    using depicts_new by blast
qed

context client_canvas
begin

lemma ghost_keeps:
  assumes "index_ok E (set_option g) index s" "\<And>e. g = Some e \<Longrightarrow> se_get E s e \<noteq> None"
    "sync_authoritative_ghost D E dt world (g, s) = (g', s')"
  shows "index_ok E (set_option g') index s'" "g' \<noteq> None \<longleftrightarrow> authoritative_you world \<noteq> None"
    "\<And>e. e \<in> ran (map_of index) \<Longrightarrow> after E s' e = after E s e"
proof -
  have apart: "g \<noteq> Some e" if "e \<in> ran (map_of index)" for e
    using assms(1) that by (auto simp: index_ok_def)
  have live: "after E s e \<noteq> None" if "g = Some e" for e
    using assms(1) that by (auto simp: index_ok_def)
  have "index_ok E (set_option g') index s' \<and> (g' \<noteq> None \<longleftrightarrow> authoritative_you world \<noteq> None)
    \<and> (\<forall>e \<in> ran (map_of index). after E s' e = after E s e)"
  proof (cases "authoritative_you world")
    case None
    show ?thesis
    proof (cases g)
      case g: (Some e)
      have "after E (se_despawn E e s) x = after E s x" if "x \<in> ran (map_of index)" for x
        using apart[OF that] g by (simp add: after_despawn)
      with None g assms(1,3) index_despawn_extra[of e "{}" index s] show ?thesis
        by (simp add: sync_authoritative_ghost_def)
    qed (use None assms(1,3) in \<open>simp add: sync_authoritative_ghost_def\<close>)
  next
    case (Some you)
    show ?thesis
    proof (cases g)
      case None
      with Some assms(3) obtain v where "se_spawn E v s = (the g', s')" "g' \<noteq> None"
        by (auto simp: sync_authoritative_ghost_def Let_def split: prod.splits)
      with Some index_spawn_extra[OF assms(1) this(1)] None index_fresh[OF assms(1), of "the g'"] spawn_fresh[OF this(1)]
      show ?thesis by (auto simp: after_spawn)
    next
      case g: (Some e)
      with assms(2) obtain v where v: "se_get E s e = Some v" by blast
      with Some g assms(3) obtain v' where "g' = Some e" "s' = se_set E e v' s"
        by (auto simp: sync_authoritative_ghost_def Let_def split: prod.splits)
      with Some g v live[OF g] index_set[OF assms(1), of e v'] apart after_set[of s e v'] show ?thesis by auto
    qed
  qed
  then show "index_ok E (set_option g') index s'" "g' \<noteq> None \<longleftrightarrow> authoritative_you world \<noteq> None"
    "\<And>e. e \<in> ran (map_of index) \<Longrightarrow> after E s' e = after E s e" by auto
qed

lemma sync_mirrors:
  assumes "settled E s" "index_ok E (set_option (ri_ghost_you ri)) (ri_by_id ri) s" "keyed (wv_rendered v)"
    "sync_world_to_scene D E True dt v (ri, s) = (ri', s')"
  shows "mirrors D E v ri' s'"
proof -
  obtain index1 s1 where one: "upsert_world_visuals D E v (ri_by_id ri, s) = (index1, s1)" by fastforce
  obtain index2 s2 where two: "despawn_stale_visuals E v (index1, s1) = (index2, s2)" by fastforce
  obtain g' s3 where three: "sync_authoritative_ghost D E dt v (ri_ghost_you ri, s2) = (g', s3)" by fastforce
  have result: "ri' = \<lparr>ri_by_id = index2, ri_ghost_you = g'\<rparr>" "s' = s3"
    using assms(4) one two three by (simp_all add: sync_world_to_scene_def)
  let ?xs = "map snd (wv_rendered v)"
  have ids: "es_id ` set ?xs = hm_keys (wv_rendered v)"
    using arg_cong[OF keyed_idents[OF assms(3)], of set] by (simp add: hm_keys_def image_image)
  have seen: "se_get E s e \<noteq> None" if "hm_get (ri_by_id ri) k = Some e" for k e
    using index_member(2)[OF assms(2) that] assms(1) by (simp add: settled_def)
  have distinct: "distinct (map es_id ?xs)" unfolding keyed_idents[OF assms(3)] using assms(3) by (simp add: keyed_def)
  have stale: "set (filter (\<lambda>k. \<not> hm_contains (wv_rendered v) k) (map fst index1)) = hm_keys index1 - es_id ` set ?xs"
    unfolding ids by (auto simp: hm_contains_keys hm_keys_def)
  have drawn: "index_ok E (set_option (ri_ghost_you ri)) index2 s2 \<and> hm_keys index2 = es_id ` set ?xs
    \<and> (\<forall>x \<in> set ?xs. shown E es_id (depicts D (wv_you v)) index2 s2 x)
    \<and> (\<forall>e \<in> set_option (ri_ghost_you ri). se_get E s2 e = se_get E s e \<and> after E s2 e = after E s e)"
    by (rule upsert.redraw[OF assms(2) seen distinct one[unfolded upsert_world_visuals_def] two[unfolded despawn_stale_drops] stale])
  have "se_get E s2 e \<noteq> None" if "ri_ghost_you ri = Some e" for e
    using drawn that assms(1,2) by (auto simp: index_ok_def settled_def)
  note visible = this
  from drawn have ok: "index_ok E (set_option (ri_ghost_you ri)) index2 s2" by simp
  have "shown E es_id (depicts D (wv_you v)) index2 s3 st" if "st \<in> set ?xs" for st
    using drawn that ghost_keeps(3)[OF ok visible three] unfolding shown_def by (metis ranI)
  with ghost_keeps(1,2)[OF ok visible three] drawn ids result
  show ?thesis by (simp add: mirrors_def)
qed

lemma coherent_fold: "coherent E (snd x) \<Longrightarrow> (\<And>x y. coherent E (snd x) \<Longrightarrow> coherent E (snd (f x y))) \<Longrightarrow> coherent E (snd (foldl f x ys))"
  by (induction ys arbitrary: x) simp_all

lemma upsert_coherent: "coherent E (snd x) \<Longrightarrow> coherent E (snd (upsert_visual D E you x st))"
  by (auto simp: upsert_visual_def Let_def coherent_steps split: prod.splits option.splits)

lemma drop_coherent: "coherent E (snd x) \<Longrightarrow> coherent E (snd (drop_entry E x k))"
  by (auto simp: drop_entry_def coherent_steps split: prod.splits option.splits)

lemma ghost_coherent: "coherent E s \<Longrightarrow> coherent E (snd (sync_authoritative_ghost D E dt v (g, s)))"
  by (auto simp: sync_authoritative_ghost_def Let_def coherent_steps split: prod.splits option.splits)

lemma sync_coherent:
  assumes "coherent E s"
  shows "coherent E (snd (sync_world_to_scene D E changed dt v (ri, s)))"
proof -
  let ?x = "despawn_stale_visuals E v (upsert_world_visuals D E v (ri_by_id ri, s))"
  have "coherent E (snd (upsert_world_visuals D E v (ri_by_id ri, s)))"
    unfolding upsert_world_visuals_def using assms by (intro coherent_fold upsert_coherent) simp_all
  then have "coherent E (snd ?x)"
    by (cases "upsert_world_visuals D E v (ri_by_id ri, s)") (auto simp: despawn_stale_drops intro: coherent_fold drop_coherent)
  from ghost_coherent[OF this] assms show ?thesis
    by (auto simp: sync_world_to_scene_def split: prod.splits) (metis prod.collapse snd_conv)
qed

text \<open>Animation moves what is drawn, and changes nothing else.\<close>

definition moved :: "'s \<Rightarrow> 's \<Rightarrow> bool" where
  "moved s s' \<longleftrightarrow> coherent E s' \<and> (\<forall>e. \<exists>x. after E s' e = map_option (\<lambda>v. v\<lparr>cv_translation := x\<rparr>) (after E s e))"

lemma moved_refl: "coherent E s \<Longrightarrow> moved s s"
proof -
  have "\<exists>x. after E s e = map_option (\<lambda>v. v\<lparr>cv_translation := x\<rparr>) (after E s e)" for e
    by (rule exI[of _ "cv_translation (the (after E s e))"], cases "after E s e") simp_all
  then show "coherent E s \<Longrightarrow> moved s s" by (simp add: moved_def)
qed

lemma moved_set:
  assumes "moved s t" "se_get E t e = Some v"
  shows "moved s (se_set E e (v\<lparr>cv_translation := y\<rparr>) t)"
proof -
  have c: "coherent E t" using assms(1) by (simp add: moved_def)
  have "\<exists>x. after E (se_set E e (v\<lparr>cv_translation := y\<rparr>) t) a = map_option (\<lambda>v. v\<lparr>cv_translation := x\<rparr>) (after E s a)" for a
  proof (cases "a = e \<and> after E t e \<noteq> None")
    case True
    then obtain w where w: "after E t e = Some w" by blast
    with c assms(2) have "w = v" unfolding coherent_def by blast
    from assms(1) w obtain u x where u: "after E s e = Some u" "w = u\<lparr>cv_translation := x\<rparr>"
      by (auto simp: moved_def dest!: spec[of _ e])
    have "after E (se_set E e (v\<lparr>cv_translation := y\<rparr>) t) a = Some (u\<lparr>cv_translation := y\<rparr>)"
      using True w u \<open>w = v\<close> after_set[of t e] assms(2) by simp
    then show ?thesis using True u by (intro exI[of _ y]) simp
  next
    case False
    then have "after E (se_set E e (v\<lparr>cv_translation := y\<rparr>) t) a = after E t a" using after_set[of t e] assms(2) by auto
    then show ?thesis using assms(1) by (simp add: moved_def)
  qed
  moreover have "coherent E (se_set E e (v\<lparr>cv_translation := y\<rparr>) t)"
    using coherent_steps(3)[OF c, of e] assms(2) by simp
  ultimately show ?thesis by (simp add: moved_def)
qed

lemma animate_moves:
  assumes "coherent E s"
  shows "moved s (animate_visuals D E dt s)"
proof -
  let ?f = "\<lambda>s entity. case se_get E s entity of
      None \<Rightarrow> s
    | Some visual \<Rightarrow>
        if cv_ghost visual then s
        else
          (let (x, y, z) = cv_translation visual;
               target = (fst (cv_target visual), snd (cv_target visual), z)
           in se_set E entity (visual\<lparr>cv_translation := dr_lerp3 D (x, y, z) target (f32_clamp (fmul dt (Fin 12)) (Fin 0) (Fin 1))\<rparr>) s)"
  have "moved s (foldl ?f t es)" if "moved s t" for t es
    using that by (induction es arbitrary: t) (auto simp: moved_set Let_def split: option.splits prod.splits)
  from this[OF moved_refl[OF assms]] show ?thesis by (simp add: animate_visuals_def Let_def)
qed

lemma moved_index: "moved s s' \<Longrightarrow> index_ok E G index s' = index_ok E G index s"
proof -
  assume "moved s s'"
  then have "after E s' e = None \<longleftrightarrow> after E s e = None" for e by (auto simp: moved_def dest!: spec[of _ e])
  then have "dom (after E s') = dom (after E s)" by (simp add: dom_def)
  then show "index_ok E G index s' = index_ok E G index s" by (simp add: index_ok_def)
qed

lemma moved_mirrors:
  assumes "moved s s'" "mirrors D E v ri s"
  shows "mirrors D E v ri s'"
proof -
  have "shown E es_id (depicts D you) index s' st" if sh: "shown E es_id (depicts D you) index s st" for you index st
  proof -
    from sh obtain e w where e: "hm_get index (es_id st) = Some e" "after E s e = Some w" "depicts D you st w"
      by (auto simp: shown_def)
    from assms(1) e(2) obtain x where "after E s' e = Some (w\<lparr>cv_translation := x\<rparr>)"
      by (auto simp: moved_def dest!: spec[of _ e])
    with e show ?thesis by (auto simp: shown_def depicts_def)
  qed
  with assms(2) moved_index[OF assms(1)] show ?thesis by (auto simp: mirrors_def)
qed

lemma animate_settled:
  assumes "settled E s"
  shows "settled E (animate_visuals D E dt s)"
proof -
  have "settled E (foldl (\<lambda>s entity. case se_get E s entity of
             None \<Rightarrow> s
           | Some visual \<Rightarrow>
               if cv_ghost visual then s
               else
                 (let (x, y, z) = cv_translation visual;
                      target = (fst (cv_target visual), snd (cv_target visual), z)
                  in se_set E entity (visual\<lparr>cv_translation := dr_lerp3 D (x, y, z) target alpha\<rparr>) s)) t es)"
    if "settled E t" for t es alpha
    using that by (induction es arbitrary: t) (auto simp: settled_set Let_def split: option.splits prod.splits)
  from this[OF assms] show ?thesis by (simp add: animate_visuals_def Let_def)
qed

lemma mirrors_apply: "mirrors D E v ri (se_apply E s) = mirrors D E v ri s"
  by (simp add: mirrors_def index_apply shown_def after_apply)

lemma frame_mirrors:
  assumes "settled E s" "index_ok E (set_option (ri_ghost_you ri)) (ri_by_id ri) s" "changed \<or> mirrors D E v ri s"
    "keyed (wv_rendered v)" "client_frame D E animate_first changed dt v (ri, s) = (ri', s')"
  shows "settled E s' \<and> mirrors D E v ri' s'"
proof -
  have sync: "mirrors D E v (fst r) (snd r)"
    if "settled E t" "index_ok E (set_option (ri_ghost_you ri)) (ri_by_id ri) t" "changed \<or> mirrors D E v ri t"
      "r = sync_world_to_scene D E changed dt v (ri, t)" for t r
  proof (cases changed)
    case True
    with sync_mirrors[OF that(1,2) assms(4), of dt "fst r" "snd r"] that(4) show ?thesis by simp
  qed (use that(3,4) in \<open>simp add: sync_world_to_scene_def\<close>)
  show ?thesis
  proof (cases animate_first)
    case True
    let ?t = "animate_visuals D E dt s"
    have m: "moved s ?t" by (rule animate_moves[OF settled_coherent[OF assms(1)]])
    have "mirrors D E v (fst (sync_world_to_scene D E changed dt v (ri, ?t))) (snd (sync_world_to_scene D E changed dt v (ri, ?t)))"
      using animate_settled[OF assms(1)] assms(2,3) moved_index[OF m] moved_mirrors[OF m] by (intro sync[OF _ _ _ refl]) auto
    with assms(5) True show ?thesis
      by (auto simp: client_frame_def settled_apply mirrors_apply split: prod.splits)
  next
    case False
    let ?r = "sync_world_to_scene D E changed dt v (ri, s)"
    have "moved (snd ?r) (animate_visuals D E dt (snd ?r))"
      by (rule animate_moves[OF sync_coherent[OF settled_coherent[OF assms(1)]]])
    from moved_mirrors[OF this sync[OF assms(1-3) refl]] assms(5) False show ?thesis
      by (auto simp: client_frame_def settled_apply mirrors_apply split: prod.splits)
  qed
qed

lemma canvas_step_ok:
  assumes "canvas_ok D E c"
  shows "canvas_ok D E (canvas_step D E c op)"
proof (cases op)
  case (CoFrame first dt)
  obtain ri s where frame: "client_frame D E first (ca_changed c) dt (ca_world c) (ca_index c, ca_scene c) = (ri, s)" by fastforce
  with assms frame_mirrors[OF _ _ _ _ frame] CoFrame show ?thesis
    by (auto simp: canvas_ok_def view_keyed_def mirrors_def)
qed (use assms snapshot_keyed delta_keyed predict_keyed smoothing_keyed reconcile_keyed in
    \<open>auto simp: canvas_ok_def change_world_def fixed_prediction_tick_def split: option.splits\<close>)

sublocale canvas: step_invariant "canvas_step D E" "canvas_ok D E"
  by unfold_locales (rule canvas_step_ok)

lemma canvas_run:
  assumes "settled E s" "se_get E s = (\<lambda>_. None)"
    "c = run_state (canvas_step D E) (canvas_new s) (ops @ [CoFrame first dt])"
  shows "mirrors D E (ca_world c) (ca_index c) (ca_scene c) \<and> settled E (ca_scene c)"
proof -
  have "canvas_ok D E (canvas_new s)"
    using assms by (simp add: canvas_ok_def canvas_new_def view_keyed_def index_ok_def settled_def RenderIndex_default_def)
  then have "canvas_ok D E c" unfolding assms(3) by (rule canvas.run_inv)
  moreover have "\<not> ca_changed c" unfolding assms(3) by (simp add: canvas.run_append split: prod.splits)
  ultimately show ?thesis by (simp add: canvas_ok_def)
qed

end

interpretation staged_canvas: client_canvas staged_env D for D
  by unfold_locales

text \<open>
  C14: The canvas never leaks or duplicates an entity and shows the replica.  After any sequence of
  snapshots, deltas, predictions, smoothings and reconciliations with frames in between, the frame that
  follows leaves exactly one drawn entity per entity of the rendered replica, with its position on the
  canvas, its radius, size and colour, one more for the ghost exactly if the server knows the local
  player, and nothing else.
\<close>

theorem canvas_mirrors_replica:
  assumes "scene_world E" "settled E s" "se_get E s = (\<lambda>_. None)"
    "c = run_state (canvas_step D E) (canvas_new s) (ops @ [CoFrame animate_first dt])"
  shows "dom (se_get E (ca_scene c)) = ran (map_of (ri_by_id (ca_index c))) \<union> set_option (ri_ghost_you (ca_index c))
    \<and> inj_on (map_of (ri_by_id (ca_index c))) (dom (map_of (ri_by_id (ca_index c))))
    \<and> ran (map_of (ri_by_id (ca_index c))) \<inter> set_option (ri_ghost_you (ca_index c)) = {}
    \<and> hm_keys (ri_by_id (ca_index c)) = hm_keys (wv_rendered (ca_world c))
    \<and> (\<forall>st \<in> snd ` set (wv_rendered (ca_world c)). \<exists>e visual.
         hm_get (ri_by_id (ca_index c)) (es_id st) = Some e \<and> se_get E (ca_scene c) e = Some visual
         \<and> depicts D (wv_you (ca_world c)) st visual)
    \<and> (ri_ghost_you (ca_index c) \<noteq> None \<longleftrightarrow> authoritative_you (ca_world c) \<noteq> None)"
proof -
  have "mirrors D E (ca_world c) (ca_index c) (ca_scene c)" "settled E (ca_scene c)"
    using client_canvas.canvas_run[OF client_canvas.intro[OF assms(1)] assms(2-4)] by simp_all
  then show ?thesis by (simp add: mirrors_def index_ok_def shown_def settled_def del: map_of_eq_Some_iff)
qed

text \<open>A player joins and is drawn, with a ghost.\<close>

definition plain_draw :: "unit draw_env" where
  "plain_draw =
     \<lparr>dr_math = flat_math, dr_length_squared = (\<lambda>v. fadd (fmul (fst v) (fst v)) (fmul (snd v) (snd v))),
      dr_normalize = normalize_f32, dr_dot = (\<lambda>a b. fadd (fmul (fst a) (fst b)) (fmul (snd a) (snd b))),
      dr_lerp = (\<lambda>a b t. nudge (offset b a) t a), dr_lerp3 = (\<lambda>a b t. b), dr_srgb = (\<lambda>_. ()), dr_srgba = (\<lambda>_ _. ()),
      dr_mix = (\<lambda>_ _ _. ())\<rparr>"

definition sample_canvas :: "(nat, unit client_visual staged_store) client_canvas_state" where
  "sample_canvas = run_state (canvas_step plain_draw staged_env) (canvas_new \<lparr>ss_now = [], ss_next = []\<rparr>)
     ([CoSnapshot \<lparr>js_you = 3, js_tick = 1, js_your_last_input_seq = None,
        js_world = \<lparr>ws_tick = 1, ws_entities = [new_pellet 3 (Fin 1, Fin 1)\<lparr>es_kind := Player\<rparr>, new_pellet 4 (Fin 2, Fin 2)]\<rparr>\<rparr>]
      @ [CoFrame True (Fin 0)])"

theorem canvas_mirrors_replica_witness:
  "dom (se_get staged_env (ca_scene sample_canvas))
     = ran (map_of (ri_by_id (ca_index sample_canvas))) \<union> set_option (ri_ghost_you (ca_index sample_canvas))
   \<and> hm_keys (ri_by_id (ca_index sample_canvas)) = hm_keys (wv_rendered (ca_world sample_canvas))"
  using canvas_mirrors_replica[OF staged.scene_world_axioms _ _ sample_canvas_def]
  by (simp add: staged_env_def settled_def after_def)

end
