(* ===== verification/Client_Panel.thy ===== *)
theory Client_Panel
  imports Client_Scene
begin

text \<open>
  The diagnostics panel of the example client and the start of its connection
  (\<open>examples/client/src/common.rs\<close>): the metrics with their texts and bars, the key that shows and hides
  the panel, and the slot through which the browser's bootstrap hands over its result.
\<close>

section \<open>Metrics\<close>

definition WORLD_BORDER_THICKNESS :: f32 where
  "WORLD_BORDER_THICKNESS = Fin 14"

definition NET_GRAPH_BAR_WIDTH_PX :: f32 where
  "NET_GRAPH_BAR_WIDTH_PX = Fin 1"

definition NET_GRAPH_BAR_GAP_PX :: f32 where
  "NET_GRAPH_BAR_GAP_PX = Fin 1"

datatype net_metric_kind = MetricRtt | MetricLoss | MetricUp | MetricDown

record net_metric_spec =
  nm_kind :: net_metric_kind
  nm_label :: string
  nm_value_color :: vec3
  nm_bar_color :: "vec3 \<times> f32"
  nm_floor :: f32

definition rgb :: "rat \<Rightarrow> rat \<Rightarrow> rat \<Rightarrow> vec3" where
  "rgb r g b = (lit (r / 100), lit (g / 100), lit (b / 100))"

definition NET_METRICS :: "net_metric_spec list" where
  "NET_METRICS =
     [\<lparr>nm_kind = MetricRtt, nm_label = ''rtt'', nm_value_color = rgb 72 78 90,
       nm_bar_color = (rgb 49 78 99, lit (96 / 100)), nm_floor = Fin 12\<rparr>,
      \<lparr>nm_kind = MetricLoss, nm_label = ''loss'', nm_value_color = rgb 72 78 90,
       nm_bar_color = (rgb 98 49 50, lit (96 / 100)), nm_floor = Fin 1\<rparr>,
      \<lparr>nm_kind = MetricUp, nm_label = ''up'', nm_value_color = rgb 72 78 90,
       nm_bar_color = (rgb 54 92 62, lit (96 / 100)), nm_floor = Fin 1\<rparr>,
      \<lparr>nm_kind = MetricDown, nm_label = ''down'', nm_value_color = rgb 72 78 90,
       nm_bar_color = (rgb 98 85 46, lit (96 / 100)), nm_floor = Fin 1\<rparr>]"

fun metric_spec :: "net_metric_kind \<Rightarrow> net_metric_spec" where
  "metric_spec MetricRtt = NET_METRICS ! 0"
| "metric_spec MetricLoss = NET_METRICS ! 1"
| "metric_spec MetricUp = NET_METRICS ! 2"
| "metric_spec MetricDown = NET_METRICS ! 3"

fun metric_series :: "graph_history \<Rightarrow> net_metric_kind \<Rightarrow> f32 list" where
  "metric_series graphs MetricRtt = gh_rtt_ms graphs"
| "metric_series graphs MetricLoss = gh_loss_pct graphs"
| "metric_series graphs MetricUp = gh_up_kib_s graphs"
| "metric_series graphs MetricDown = gh_down_kib_s graphs"

definition metric_series_and_scale :: "graph_history \<Rightarrow> net_metric_spec \<Rightarrow> f32 list \<times> f32" where
  "metric_series_and_scale graphs spec =
     (let series = metric_series graphs (nm_kind spec) in (series, graph_top series (nm_floor spec)))"

definition format_metric_value :: "net_metric_spec \<Rightarrow> f32 \<Rightarrow> f32 \<Rightarrow> string" where
  "format_metric_value spec latest scale_top =
     (let num = (\<lambda>k x. align_right 7 (format_float k x)) in
      case nm_kind spec of
        MetricRtt \<Rightarrow> ''rtt: '' @ num 1 latest @ '' ms   scale '' @ num 1 scale_top
      | MetricLoss \<Rightarrow> ''loss:'' @ num 2 latest @ ''%    scale '' @ num 2 scale_top
      | MetricUp \<Rightarrow> ''up:  '' @ num 1 latest @ '' KiB/s scale '' @ num 1 scale_top
      | MetricDown \<Rightarrow> ''down:'' @ num 1 latest @ '' KiB/s scale '' @ num 1 scale_top)"

definition metric_graph_width_px :: f32 where
  "metric_graph_width_px =
     fadd (fmul (f32_round (of_nat NET_GRAPH_SAMPLES)) NET_GRAPH_BAR_WIDTH_PX)
          (fmul (f32_round (of_nat (NET_GRAPH_SAMPLES - 1))) NET_GRAPH_BAR_GAP_PX)"

section \<open>The panel\<close>

text \<open>What a panel holds: its width, the summary, a text per metric and a bar per metric and sample.\<close>

record net_panel =
  np_width :: f32
  np_title :: string
  np_summary :: string
  np_values :: "(net_metric_kind \<times> string) list"
  np_bars :: "(net_metric_kind \<times> nat \<times> f32) list"

definition spawn_metric_section ::
  "net_metric_spec \<Rightarrow> (net_metric_kind \<times> string) \<times> (net_metric_kind \<times> nat \<times> f32) list" where
  "spawn_metric_section spec =
     ((nm_kind spec, nm_label spec @ '': --''),
      map (\<lambda>sample_idx. (nm_kind spec, sample_idx, Fin 1)) [0..<NET_GRAPH_SAMPLES])"

definition net_panel_new :: net_panel where
  "net_panel_new =
     (let sections = map spawn_metric_section NET_METRICS
      in \<lparr>np_width = fadd metric_graph_width_px (Fin 92), np_title = ''Net Diagnostics'', np_summary = ''bootstrapping...'',
          np_values = map fst sections, np_bars = concat (map snd sections)\<rparr>)"

definition spawn_network_panel :: "('e, net_panel, 's) scene_env \<Rightarrow> 's \<Rightarrow> 'e \<times> 's" where
  "spawn_network_panel E s = se_spawn E net_panel_new s"

text \<open>The borders: sizes and positions of four sprites.\<close>

definition spawn_world_borders :: "(vec2 \<times> vec3) list" where
  "spawn_world_borders =
     (let half_w = fmul WORLD_WIDTH (lit (1 / 2)); half_h = fmul WORLD_HEIGHT (lit (1 / 2)); t = WORLD_BORDER_THICKNESS;
          across = (fadd WORLD_WIDTH (fmul t (Fin 2)), t); down = (t, fadd WORLD_HEIGHT (fmul t (Fin 2))); z = lit (4 / 10)
      in [(across, Fin 0, half_h, z), (across, Fin 0, fneg half_h, z), (down, fneg half_w, Fin 0, z), (down, half_w, Fin 0, z)])"

text \<open>
  \<open>NetDiagState\<close> and \<open>NetDiagUiState\<close>.  The store of this theory holds the panels only: the camera and the
  borders that \<open>setup_scene\<close> spawns are never changed.
\<close>

record 'e diag_state =
  dg_enabled :: bool
  dg_root :: "'e option"

definition setup_scene :: "('e, net_panel, 's) scene_env \<Rightarrow> 'e diag_state \<times> 's \<Rightarrow> 'e diag_state \<times> 's" where
  "setup_scene E = (\<lambda>(d, s).
     if dg_enabled d then (let (panel_root, s') = spawn_network_panel E s in (d\<lparr>dg_root := Some panel_root\<rparr>, s')) else (d, s))"

definition net_diag_enabled :: "'e diag_state option \<Rightarrow> bool" where
  "net_diag_enabled d = (case d of Some d \<Rightarrow> dg_enabled d | None \<Rightarrow> True)"

definition toggle_network_diag ::
  "('e, net_panel, 's) scene_env \<Rightarrow> (key \<Rightarrow> bool) \<Rightarrow> 'e diag_state \<times> 's \<Rightarrow> 'e diag_state \<times> 's" where
  "toggle_network_diag E just_pressed = (\<lambda>(d, s).
     if \<not> just_pressed KeyQ then (d, s)
     else
       (let d1 = d\<lparr>dg_enabled := \<not> dg_enabled d\<rparr> in
        if dg_enabled d1 then
          (case dg_root d1 of
             None \<Rightarrow> (let (panel_root, s') = spawn_network_panel E s in (d1\<lparr>dg_root := Some panel_root\<rparr>, s'))
           | Some _ \<Rightarrow> (d1, s))
        else
          (case dg_root d1 of
             Some panel_root \<Rightarrow> (d1\<lparr>dg_root := None\<rparr>, se_despawn E panel_root s)
           | None \<Rightarrow> (d1, s))))"

text \<open>What the summary reads of the Renet client beside the values of \<open>play_env\<close>.\<close>

record 'r summary_env =
  sm_is_connecting :: "'r \<Rightarrow> bool"
  sm_up_kib_s :: "'r \<Rightarrow> f32"
  sm_down_kib_s :: "'r \<Rightarrow> f32"

definition NL :: string where
  "NL = [CHR 0x0A]"

definition show_f32 :: "nat \<Rightarrow> f32 \<Rightarrow> string" where
  "show_f32 k x = format_float k x"

definition build_panel_summary ::
  "bool \<Rightarrow> ('r, 't) play_env \<Rightarrow> 'r summary_env \<Rightarrow> ('r, 't) client_runtime option \<Rightarrow> world_view \<Rightarrow> traffic_meter \<Rightarrow> string" where
  "build_panel_summary wasm P S runtime world traffic =
     (let transport = (if wasm then ''webrtc'' else ''udp'') in
      case runtime of
        None \<Rightarrow>
          ''transport: '' @ transport @ NL @ ''status: bootstrapping'' @ NL @ ''client_id: -'' @ NL
          @ ''world_tick: '' @ show_nat (unat (wv_tick world)) @ NL @ ''rtt: -'' @ NL @ ''loss: -'' @ NL @ ''up: -'' @ NL @ ''down: -''
      | Some rt \<Rightarrow>
          (let renet = cr_renet rt;
               status = (if pe_is_connected P renet then ''connected''
                         else if sm_is_connecting S renet then ''connecting'' else ''disconnected'')
           in ''transport: '' @ transport @ NL @ ''status: '' @ status @ NL
              @ ''client_id: '' @ show_nat (unat (cr_client_id rt)) @ NL
              @ ''world_tick: '' @ show_nat (unat (wv_tick world)) @ NL
              @ ''rtt/loss: '' @ show_f32 1 (pe_rtt_ms P renet) @ ''ms / '' @ show_f32 2 (pe_loss_pct P renet) @ ''%'' @ NL
              @ ''app up/down: '' @ show_f32 1 (tm_tx_rate_kib_s traffic) @ '' / '' @ show_f32 1 (tm_rx_rate_kib_s traffic) @ '' KiB/s'' @ NL
              @ ''renet avg: '' @ show_f32 1 (sm_up_kib_s S renet) @ '' / '' @ show_f32 1 (sm_down_kib_s S renet) @ '' KiB/s''))"

definition update_metric_value_texts :: "graph_history \<Rightarrow> (net_metric_kind \<times> string) list \<Rightarrow> (net_metric_kind \<times> string) list" where
  "update_metric_value_texts graphs texts =
     map (\<lambda>(kd, _). let spec = metric_spec kd; (series, scale_top) = metric_series_and_scale graphs spec;
                       latest = (if series = [] then Fin 0 else last series)
                   in (kd, format_metric_value spec latest scale_top)) texts"

text \<open>\<open>None\<close> is the panic of an index out of range.\<close>

fun update_metric_bar_heights ::
  "graph_history \<Rightarrow> (net_metric_kind \<times> nat \<times> f32) list \<Rightarrow> (net_metric_kind \<times> nat \<times> f32) list option" where
  "update_metric_bar_heights graphs [] = Some []"
| "update_metric_bar_heights graphs ((kd, sample_idx, _) # bars) =
     (let (series, scale_top) = metric_series_and_scale graphs (metric_spec kd) in
      case bar_height series scale_top sample_idx of
        None \<Rightarrow> None
      | Some h \<Rightarrow> map_option (Cons (kd, sample_idx, h)) (update_metric_bar_heights graphs bars))"

definition update_network_panel ::
  "('e, net_panel, 's) scene_env \<Rightarrow> string \<Rightarrow> graph_history \<Rightarrow> bool \<Rightarrow> 's \<Rightarrow> 's option" where
  "update_network_panel E summary graphs graphs_changed s =
     (case se_all E s of
        [entity] \<Rightarrow>
          (case se_get E s entity of
             None \<Rightarrow> Some s
           | Some panel \<Rightarrow>
               (let panel1 = panel\<lparr>np_summary := summary, np_values := update_metric_value_texts graphs (np_values panel)\<rparr> in
                if graphs_changed then
                  map_option (\<lambda>bars. se_set E entity (panel1\<lparr>np_bars := bars\<rparr>) s) (update_metric_bar_heights graphs (np_bars panel))
                else Some (se_set E entity panel1 s)))
      | _ \<Rightarrow> Some s)"

section \<open>The panel is shown exactly while it is switched on\<close>

text \<open>
  A frame of the panel: the key is read and the panel refreshed, in either order, the refresh only while
  the panel is switched on and its timer has fired; then the commands are applied.
\<close>

record panel_frame =
  pf_pressed :: "key \<Rightarrow> bool"
  pf_toggle_first :: bool
  pf_timer :: bool
  pf_summary :: string
  pf_graphs :: graph_history
  pf_graphs_changed :: bool

definition refresh_if_enabled ::
  "('e, net_panel, 's) scene_env \<Rightarrow> panel_frame \<Rightarrow> 'e diag_state \<times> 's \<Rightarrow> ('e diag_state \<times> 's) option" where
  "refresh_if_enabled E p = (\<lambda>(d, s).
     if net_diag_enabled (Some d) \<and> pf_timer p
     then map_option (Pair d) (update_network_panel E (pf_summary p) (pf_graphs p) (pf_graphs_changed p) s)
     else Some (d, s))"

definition panel_step ::
  "('e, net_panel, 's) scene_env \<Rightarrow> panel_frame \<Rightarrow> 'e diag_state \<times> 's \<Rightarrow> ('e diag_state \<times> 's) option" where
  "panel_step E p x =
     map_option (apsnd (se_apply E))
       (if pf_toggle_first p then refresh_if_enabled E p (toggle_network_diag E (pf_pressed p) x)
        else map_option (toggle_network_diag E (pf_pressed p)) (refresh_if_enabled E p x))"

fun panel_run ::
  "('e, net_panel, 's) scene_env \<Rightarrow> panel_frame list \<Rightarrow> 'e diag_state \<times> 's \<Rightarrow> ('e diag_state \<times> 's) option" where
  "panel_run E [] x = Some x"
| "panel_run E (p # ps) x = (case panel_step E p x of None \<Rightarrow> None | Some y \<Rightarrow> panel_run E ps y)"

definition bars_ok :: "net_panel \<Rightarrow> bool" where
  "bars_ok panel \<longleftrightarrow> list_all (\<lambda>(_, i, h). i < NET_GRAPH_SAMPLES \<and> (\<exists>q. h = Fin q \<and> 1 \<le> q \<and> q \<le> 26)) (np_bars panel)"

lemma sample_total: "i < NET_GRAPH_SAMPLES \<Longrightarrow> \<exists>x. sample_at_column samples i = Some x"
  by (auto simp: sample_at_column_def Let_def)

lemma bar_height_range:
  assumes "i < NET_GRAPH_SAMPLES"
  shows "\<exists>q. bar_height series scale i = Some (Fin q) \<and> 1 \<le> q \<and> q \<le> 26"
proof -
  obtain x where x: "sample_at_column series i = Some x" using sample_total[OF assms] by blast
  have "\<exists>q. f32_max (fmul n (Fin 26)) (Fin 1) = Fin q \<and> 1 \<le> q \<and> q \<le> 26"
    if n: "n = NaN \<or> (\<exists>q. n = Fin q \<and> 0 \<le> q \<and> q \<le> 1)" for n
  proof (cases "n = NaN")
    case False
    then obtain q where q: "n = Fin q" "0 \<le> q" "q \<le> 1" using n by blast
    then have "\<bar>q * 26\<bar> \<le> 26" by (simp add: abs_le_iff)
    with f32_round_bound_int[of "q * 26" 26] q show ?thesis by (auto simp: f32_max_def)
  qed (simp add: f32_max_def)
  note scaled = this
  have "f32_clamp (fdiv x scale) (Fin 0) (Fin 1) = NaN \<or> (\<exists>q. f32_clamp (fdiv x scale) (Fin 0) (Fin 1) = Fin q \<and> 0 \<le> q \<and> q \<le> 1)"
    using clamp_in_range[of "fdiv x scale" 0 1] by (cases "fdiv x scale = NaN") (auto simp: in_range_iff)
  with x scaled show ?thesis by (auto simp: bar_height_def NET_GRAPH_HEIGHT_PX_def Let_def)
qed

lemma bars_update:
  assumes "list_all (\<lambda>(_, i, h). i < NET_GRAPH_SAMPLES \<and> P h) bars"
  shows "\<exists>bars'. update_metric_bar_heights graphs bars = Some bars'
    \<and> list_all (\<lambda>(_, i, h). i < NET_GRAPH_SAMPLES \<and> (\<exists>q. h = Fin q \<and> 1 \<le> q \<and> q \<le> 26)) bars'"
  using assms
proof (induction bars)
  case (Cons b bars)
  obtain kd i h where b: "b = (kd, i, h)" by (cases b)
  with Cons.prems have i: "i < NET_GRAPH_SAMPLES" by simp
  obtain series scale where sc: "metric_series_and_scale graphs (metric_spec kd) = (series, scale)" by fastforce
  from bar_height_range[OF i, of series scale] Cons b sc i show ?case by auto
qed simp

lemma panel_new_ok: "bars_ok net_panel_new"
  by (auto simp: bars_ok_def net_panel_new_def NET_METRICS_def spawn_metric_section_def Let_def list_all_iff)

text \<open>One panel while it is switched on, none otherwise, and every bar fits the graph.\<close>

definition panel_ok :: "('e, net_panel, 's) scene_env \<Rightarrow> 'e diag_state \<times> 's \<Rightarrow> bool" where
  "panel_ok E = (\<lambda>(d, s).
     dom (after E s) = set_option (dg_root d) \<and> (dg_root d \<noteq> None \<longleftrightarrow> dg_enabled d)
     \<and> (\<forall>panel \<in> ran (after E s) \<union> ran (se_get E s). bars_ok panel))"

locale client_panel = scene_world E
  for E :: "('e, net_panel, 's) scene_env"
begin

lemma toggle_ok:
  assumes "panel_ok E x" "coherent E (snd x)"
  shows "panel_ok E (toggle_network_diag E pressed x) \<and> coherent E (snd (toggle_network_diag E pressed x))"
proof -
  obtain d s where x: "x = (d, s)" by fastforce
  show ?thesis
  proof (cases "\<not> pressed KeyQ")
    case False
    show ?thesis
    proof (cases "dg_enabled d")
      case True
      with assms x obtain e where "dg_root d = Some e" by (auto simp: panel_ok_def)
      with False True x assms coherent_steps(2)[of s e] show ?thesis
        by (auto simp: panel_ok_def toggle_network_diag_def Let_def after_despawn get_despawn ran_def simp del: dom_eq_empty_conv)
    next
      case off: False
      obtain e s' where spawn: "spawn_network_panel E s = (e, s')" by fastforce
      then have spawn': "se_spawn E net_panel_new s = (e, s')" by (simp add: spawn_network_panel_def)
      have none: "dg_root d = None" using off assms(1) x by (auto simp: panel_ok_def)
      with False off x spawn have r: "toggle_network_diag E pressed x = (d\<lparr>dg_enabled := True, dg_root := Some e\<rparr>, s')"
        by (simp add: toggle_network_diag_def Let_def)
      have "bars_ok panel" if "panel \<in> ran (after E s') \<union> ran (se_get E s')" for panel
        using that assms(1) x panel_new_ok after_spawn[OF spawn'] get_spawn[OF spawn']
        by (auto simp: panel_ok_def ran_def split: if_splits)
      with r assms x none after_spawn[OF spawn'] coherent_steps(1)[OF _ spawn'] show ?thesis
        by (simp add: panel_ok_def)
    qed
  qed (use assms x in \<open>simp add: toggle_network_diag_def\<close>)
qed

lemma update_ok:
  assumes "panel_ok E (d, s)" "coherent E s"
  shows "\<exists>s'. update_network_panel E summary graphs changed s = Some s' \<and> panel_ok E (d, s') \<and> coherent E s'"
proof (cases "\<exists>e panel. se_all E s = [e] \<and> se_get E s e = Some panel")
  case True
  then obtain e panel where e: "se_all E s = [e]" "se_get E s e = Some panel" by blast
  then have "panel \<in> ran (se_get E s)" by (simp add: ranI)
  then have bars: "bars_ok panel" using assms(1) by (simp add: panel_ok_def)
  have set: "panel_ok E (d, se_set E e p s) \<and> coherent E (se_set E e p s)" if "bars_ok p" for p
    using assms that e coherent_steps(3)[OF assms(2), of e p] get_set[of s e p] after_set[of s e p]
    by (auto simp: panel_ok_def ran_def split: if_splits)
  from bars_update[of "\<lambda>h. \<exists>q. h = Fin q \<and> 1 \<le> q \<and> q \<le> 26" "np_bars panel" graphs] bars obtain bars'
    where bars': "update_metric_bar_heights graphs (np_bars panel) = Some bars'"
      "list_all (\<lambda>(_, i, h). i < NET_GRAPH_SAMPLES \<and> (\<exists>q. h = Fin q \<and> 1 \<le> q \<and> q \<le> 26)) bars'"
    by (auto simp: bars_ok_def)
  show ?thesis
    using e bars bars' set by (auto simp: update_network_panel_def Let_def bars_ok_def)
next
  case False
  have "update_network_panel E summary graphs changed s = Some s"
    using False by (auto simp: update_network_panel_def split: list.splits option.splits)
  then show ?thesis using assms by simp
qed

lemma refresh_ok:
  assumes "panel_ok E x" "coherent E (snd x)"
  shows "\<exists>y. refresh_if_enabled E p x = Some y \<and> panel_ok E y \<and> coherent E (snd y) \<and> fst y = fst x"
  using assms update_ok[of "fst x" "snd x" "pf_summary p" "pf_graphs p" "pf_graphs_changed p"]
  by (cases x) (auto simp: refresh_if_enabled_def)

lemma apply_ok: "panel_ok E x \<Longrightarrow> panel_ok E (apsnd (se_apply E) x) \<and> settled E (snd (apsnd (se_apply E) x))"
  by (cases x) (auto simp: panel_ok_def get_apply after_apply settled_apply)

lemma toggle_enabled: "dg_enabled (fst (toggle_network_diag E pressed x)) = (dg_enabled (fst x) \<noteq> pressed KeyQ)"
  by (cases x) (auto simp: toggle_network_diag_def Let_def split: option.splits prod.splits)

lemma panel_step_ok:
  assumes "panel_ok E x" "coherent E (snd x)"
  shows "\<exists>y. panel_step E p x = Some y \<and> panel_ok E y \<and> settled E (snd y)
    \<and> dg_enabled (fst y) = (dg_enabled (fst x) \<noteq> pf_pressed p KeyQ)"
proof (cases "pf_toggle_first p")
  case True
  let ?x = "toggle_network_diag E (pf_pressed p) x"
  from toggle_ok[OF assms, of "pf_pressed p"] obtain y
    where "refresh_if_enabled E p ?x = Some y" "panel_ok E y" "fst y = fst ?x"
    using refresh_ok[of ?x p] by blast
  with True apply_ok[of y] toggle_enabled[of "pf_pressed p" x] show ?thesis by (auto simp: panel_step_def)
next
  case False
  from refresh_ok[OF assms, of p] obtain y where y: "refresh_if_enabled E p x = Some y" "panel_ok E y" "coherent E (snd y)" "fst y = fst x"
    by blast
  from toggle_ok[OF y(2,3), of "pf_pressed p"] apply_ok[of "toggle_network_diag E (pf_pressed p) y"] y(1,4) False
    toggle_enabled[of "pf_pressed p" y]
  show ?thesis by (auto simp: panel_step_def)
qed

lemma panel_run_ok:
  assumes "panel_ok E x" "settled E (snd x)"
  shows "\<exists>y. panel_run E ps x = Some y \<and> panel_ok E y \<and> settled E (snd y)
    \<and> dg_enabled (fst y) = (dg_enabled (fst x) \<noteq> odd (length (filter (\<lambda>p. pf_pressed p KeyQ) ps)))"
  using assms
proof (induction ps arbitrary: x)
  case (Cons p ps)
  from panel_step_ok[OF Cons.prems(1) settled_coherent[OF Cons.prems(2)], of p] obtain y
    where y: "panel_step E p x = Some y" "panel_ok E y" "settled E (snd y)"
      "dg_enabled (fst y) = (dg_enabled (fst x) \<noteq> pf_pressed p KeyQ)" by blast
  from Cons.IH[OF y(2,3)] y show ?case by auto
qed simp

end

interpretation staged_panel: client_panel staged_env
  by unfold_locales

text \<open>
  The diagnostics panel is on the screen exactly while it is switched on.  From the start of the
  client, over any sequence of frames, refreshing the panel never panics, the key flips it each time, at
  most one panel exists and it exists exactly after an odd number of presses; every bar of its graphs is
  between one pixel and the height of the graph, whatever was measured.
\<close>

lemma panel_follows_key:
  assumes "scene_world E" "settled E s" "se_get E s = (\<lambda>_. None)"
  shows "\<exists>d s'. panel_run E frames (setup_scene E (\<lparr>dg_enabled = False, dg_root = None\<rparr>, s)) = Some (d, s')
    \<and> dom (se_get E s') = set_option (dg_root d)
    \<and> (dg_root d \<noteq> None \<longleftrightarrow> odd (length (filter (\<lambda>p. pf_pressed p KeyQ) frames)))
    \<and> (\<forall>panel \<in> ran (se_get E s'). \<forall>(_, _, h) \<in> set (np_bars panel). \<exists>q. h = Fin q \<and> 1 \<le> q \<and> q \<le> 26)"
proof -
  have "panel_ok E (\<lparr>dg_enabled = False, dg_root = None\<rparr>, s)"
    using assms by (simp add: panel_ok_def settled_def)
  from client_panel.panel_run_ok[OF client_panel.intro[OF assms(1)] this, of frames] assms(2) obtain d s'
    where r: "panel_run E frames (\<lparr>dg_enabled = False, dg_root = None\<rparr>, s) = Some (d, s')" "panel_ok E (d, s')" "settled E s'"
      "dg_enabled d = odd (length (filter (\<lambda>p. pf_pressed p KeyQ) frames))" by auto
  then show ?thesis
    by (fastforce simp: setup_scene_def panel_ok_def settled_def bars_ok_def list_all_iff)
qed

lemma panel_follows_key_witness:
  "\<exists>d s'. panel_run (staged_env :: (nat, net_panel, net_panel staged_store) scene_env)
      [\<lparr>pf_pressed = (\<lambda>k. k = KeyQ), pf_toggle_first = True, pf_timer = True, pf_summary = ''x'',
        pf_graphs = \<lparr>gh_rtt_ms = [NaN, Fin 40], gh_loss_pct = [], gh_up_kib_s = [Infinite False], gh_down_kib_s = [Fin 1]\<rparr>,
        pf_graphs_changed = True\<rparr>]
      (setup_scene staged_env (\<lparr>dg_enabled = False, dg_root = None\<rparr>, \<lparr>ss_now = [], ss_next = []\<rparr>)) = Some (d, s')
    \<and> dom (se_get staged_env s') = set_option (dg_root d) \<and> dg_root d \<noteq> None"
proof -
  let ?frames = "[\<lparr>pf_pressed = (\<lambda>k. k = KeyQ), pf_toggle_first = True, pf_timer = True, pf_summary = ''x'',
        pf_graphs = \<lparr>gh_rtt_ms = [NaN, Fin 40], gh_loss_pct = [], gh_up_kib_s = [Infinite False], gh_down_kib_s = [Fin 1]\<rparr>,
        pf_graphs_changed = True\<rparr>]"
  from panel_follows_key[OF staged.scene_world_axioms, of "\<lparr>ss_now = [], ss_next = []\<rparr>" ?frames]
  show ?thesis by (simp add: settled_def after_def staged_env_def del: panel_run.simps) blast
qed

section \<open>The start of the connection\<close>

text \<open>
  What a bootstrap hands over: the Renet client, the transport and the client identifier, or a text.
  \<open>su_pending\<close> is the resource \<open>PendingWebBootstrap\<close>, whose slot the browser's task fills.
\<close>

type_synonym ('r, 't) connect_result = "(string, 'r \<times> 't \<times> u64) result"

record ('r, 't) startup =
  su_pending :: "('r, 't) connect_result option option"
  su_runtime :: "('r, 't) client_runtime option"

definition on_bootstrap_success :: "u64 \<Rightarrow> 'r \<Rightarrow> 't \<Rightarrow> ('r, 't) startup \<Rightarrow> ('r, 't) startup" where
  "on_bootstrap_success client_id renet transport w = w\<lparr>su_runtime := Some (client_runtime_new client_id renet transport)\<rparr>"

definition on_bootstrap_error :: "string \<Rightarrow> ('r, 't) startup \<Rightarrow> ('r, 't) startup" where
  "on_bootstrap_error err w = w"

definition startup_connect_native :: "('r, 't) connect_result \<Rightarrow> ('r, 't) startup \<Rightarrow> ('r, 't) startup" where
  "startup_connect_native connect w =
     (case connect of
        Ok (renet, transport, client_id) \<Rightarrow> on_bootstrap_success client_id renet transport w
      | Err err \<Rightarrow> on_bootstrap_error err w)"

definition startup_connect_web :: "('r, 't) startup \<Rightarrow> ('r, 't) startup" where
  "startup_connect_web w = w\<lparr>su_pending := Some None\<rparr>"

text \<open>The spawned task ends.\<close>

definition bootstrap_finished :: "('r, 't) connect_result \<Rightarrow> ('r, 't) startup \<Rightarrow> ('r, 't) startup" where
  "bootstrap_finished r w = (case su_pending w of None \<Rightarrow> w | Some _ \<Rightarrow> w\<lparr>su_pending := Some (Some r)\<rparr>)"

definition poll_connect_web :: "('r, 't) startup \<Rightarrow> ('r, 't) startup" where
  "poll_connect_web w =
     (case su_pending w of
        None \<Rightarrow> w
      | Some None \<Rightarrow> w
      | Some (Some r) \<Rightarrow>
          (let w1 = (case r of
                       Ok (renet, transport, client_id) \<Rightarrow>
                         on_bootstrap_success client_id renet transport (w\<lparr>su_pending := Some None\<rparr>)
                     | Err err \<Rightarrow> on_bootstrap_error err (w\<lparr>su_pending := Some None\<rparr>))
           in w1\<lparr>su_pending := None\<rparr>))"

text \<open>
  However often the client polls, the browser's bootstrap starts the runtime once, as a native start with
  the same result does at once: polls before the task ends change nothing, the first one after it takes
  the result and later ones find nothing to take.
\<close>

lemma web_start_like_native:
  "(poll_connect_web ^^ Suc n) (bootstrap_finished r ((poll_connect_web ^^ m) (startup_connect_web \<lparr>su_pending = None, su_runtime = None\<rparr>)))
     = startup_connect_native r \<lparr>su_pending = None, su_runtime = None\<rparr>"
proof -
  have idle: "(poll_connect_web ^^ m) w = w" if "su_pending w = None \<or> su_pending w = Some None" for m and w :: "('r, 't) startup"
    using that by (induction m) (auto simp: poll_connect_web_def)
  have "poll_connect_web (bootstrap_finished r (startup_connect_web \<lparr>su_pending = None, su_runtime = None\<rparr>))
      = startup_connect_native r \<lparr>su_pending = None, su_runtime = None\<rparr>"
    by (cases r) (auto simp: poll_connect_web_def bootstrap_finished_def startup_connect_web_def startup_connect_native_def
        on_bootstrap_success_def on_bootstrap_error_def)
  moreover have "su_pending (startup_connect_native r \<lparr>su_pending = None, su_runtime = None\<rparr>) = None"
    by (cases r) (auto simp: startup_connect_native_def on_bootstrap_success_def on_bootstrap_error_def)
  ultimately show ?thesis
    using idle[of "startup_connect_web \<lparr>su_pending = None, su_runtime = None\<rparr>" m]
    by (simp add: funpow_swap1 idle startup_connect_web_def)
qed

end
