(* ===== verification/Server_Scene.thy ===== *)
theory Server_Scene
  imports Client_Panel Mixed_Server
begin

text \<open>
  The debug window of the example server (\<open>examples/server/src/main.rs\<close>): the entities it draws, the
  camera and the text of its network panel.  The entity store is the record \<open>scene_env\<close> of \<open>Scene\<close>.
\<close>

section \<open>Entities\<close>

definition CAMERA_MOVE_SPEED :: f32 where
  "CAMERA_MOVE_SPEED = Fin 950"

definition CAMERA_BOOST_MULTIPLIER :: f32 where
  "CAMERA_BOOST_MULTIPLIER = Fin 2"

record 'c server_visual =
  sv_translation :: vec3
  sv_size :: vec2
  sv_color :: 'c

definition sim_to_render_pos :: "vec2 \<Rightarrow> f32 \<Rightarrow> vec3" where
  "sim_to_render_pos pos z =
     (fsub (fst pos) (fmul WORLD_WIDTH (lit (1 / 2))), fsub (snd pos) (fmul WORLD_HEIGHT (lit (1 / 2))), z)"

text \<open>Everything a drawn entity has is assigned.\<close>

definition server_apply_visual_state :: "'c draw_env \<Rightarrow> entity_state \<Rightarrow> 'c server_visual" where
  "server_apply_visual_state D state =
     (let z = (case es_kind state of Player \<Rightarrow> lit (22 / 100) | Pellet \<Rightarrow> lit (15 / 100))
      in \<lparr>sv_translation = sim_to_render_pos (es_pos state) z,
          sv_size = splat (f32_max (fmul (es_radius state) (Fin 2)) (Fin 2)),
          sv_color = dr_srgb D (es_color state)\<rparr>)"

definition spawn_visual_entity ::
  "'c draw_env \<Rightarrow> ('e, 'c server_visual, 's) scene_env \<Rightarrow> entity_state \<Rightarrow> 's \<Rightarrow> 'e \<times> 's" where
  "spawn_visual_entity D E state s = se_spawn E (server_apply_visual_state D state) s"

text \<open>The body of the loop over the entities; a drawn entity that is gone is drawn anew.\<close>

definition server_upsert_visual ::
  "'c draw_env \<Rightarrow> ('e, 'c server_visual, 's) scene_env
    \<Rightarrow> (u64 \<times> 'e) list \<times> 's \<Rightarrow> entity_state \<Rightarrow> (u64 \<times> 'e) list \<times> 's" where
  "server_upsert_visual D E = (\<lambda>(by_id, s) state.
     let draw_new = (\<lambda>by_id. let (spawned, s') = spawn_visual_entity D E state s in (hm_insert (es_id state) spawned by_id, s')) in
     case hm_get by_id (es_id state) of
       Some entity \<Rightarrow>
         (case se_get E s entity of
            Some _ \<Rightarrow> (by_id, se_set E entity (server_apply_visual_state D state) s)
          | None \<Rightarrow> draw_new (hm_remove (es_id state) by_id))
     | None \<Rightarrow> draw_new by_id)"

definition server_sync_world_to_scene ::
  "'c draw_env \<Rightarrow> ('e, 'c server_visual, 's) scene_env \<Rightarrow> auth_entity list
    \<Rightarrow> (u64 \<times> 'e) list \<times> 's \<Rightarrow> (u64 \<times> 'e) list \<times> 's" where
  "server_sync_world_to_scene D E auth_entities x =
     (let world_entities = sort_key es_id (map to_entity_state auth_entities);
          seen = set (map es_id world_entities);
          (by_id, s) = foldl (server_upsert_visual D E) x world_entities;
          stale = filter (\<lambda>(k, _). k \<notin> seen) by_id
      in foldl (\<lambda>(by_id, s) (k, entity). (hm_remove k by_id, se_despawn E entity s)) (by_id, s) stale)"

section \<open>Camera\<close>

definition server_camera_controls :: "'c draw_env \<Rightarrow> f32 \<Rightarrow> (key \<Rightarrow> bool) \<Rightarrow> vec3 list \<Rightarrow> vec3 list" where
  "server_camera_controls D delta_secs pressed cameras =
     (case cameras of
        [(cx, cy, cz)] \<Rightarrow>
          (let y1 = (if pressed KeyW \<or> pressed ArrowUp then fadd (Fin 0) (Fin 1) else Fin 0);
               y2 = (if pressed KeyS \<or> pressed ArrowDown then fsub y1 (Fin 1) else y1);
               x1 = (if pressed KeyA \<or> pressed ArrowLeft then fsub (Fin 0) (Fin 1) else Fin 0);
               x2 = (if pressed KeyD \<or> pressed ArrowRight then fadd x1 (Fin 1) else x1);
               dir = (if flt (Fin 1) (dr_length_squared D (x2, y2)) then dr_normalize D (x2, y2) else (x2, y2));
               speed = (if pressed ShiftLeft \<or> pressed ShiftRight then fmul CAMERA_MOVE_SPEED CAMERA_BOOST_MULTIPLIER
                        else CAMERA_MOVE_SPEED);
               x = fadd cx (fmul (fmul (fst dir) speed) delta_secs);
               y = fadd cy (fmul (fmul (snd dir) speed) delta_secs);
               x_limit = fmul WORLD_WIDTH (lit (1 / 2)); y_limit = fmul WORLD_HEIGHT (lit (1 / 2))
           in [(f32_clamp x (fneg x_limit) x_limit, f32_clamp y (fneg y_limit) y_limit, cz)])
      | _ \<Rightarrow> cameras)"

section \<open>Network panel\<close>

text \<open>
  \<open>NetworkInfo\<close> of Renet; the values are finite \<open>f64\<close> numbers.  The lock of server and transport is
  poisoned exactly if there is no server to read.
\<close>

record network_info =
  ni_rtt :: rat
  ni_packet_loss :: rat
  ni_bytes_sent_per_second :: rat
  ni_bytes_received_per_second :: rat

record panel_totals =
  pt_up :: rat
  pt_down :: rat
  pt_rtt :: rat
  pt_loss :: rat
  pt_sampled :: nat
  pt_lines :: "string list"

definition transport_label ::
  "('n, 'r, 's, 'c, 'x) env_scheme \<Rightarrow> ('n, 'r, 's, 'c, 'rtc) mixed_transport \<Rightarrow> client_id \<Rightarrow> string" where
  "transport_label E m cid =
     (if is_udp_client E m cid then ''udp'' else if is_webrtc_client E m cid then ''webrtc'' else ''unknown'')"

definition client_line :: "string \<Rightarrow> client_id \<Rightarrow> network_info \<Rightarrow> string" where
  "client_line label cid info =
     ''id='' @ show_nat (unat cid) @ '' transport='' @ label
     @ '' rtt='' @ format_fixed 1 (f64_round (ni_rtt info * 1000)) @ ''ms loss='' @ format_fixed 2 (f64_round (ni_packet_loss info * 100))
     @ ''% up='' @ format_fixed 1 (f64_round (ni_bytes_sent_per_second info / 1024))
     @ ''KiB/s down='' @ format_fixed 1 (f64_round (ni_bytes_received_per_second info / 1024)) @ ''KiB/s''"

definition add_client :: "(client_id \<Rightarrow> string) \<Rightarrow> (client_id \<Rightarrow> network_info option) \<Rightarrow> panel_totals \<Rightarrow> client_id \<Rightarrow> panel_totals" where
  "add_client label network_info t cid =
     (case network_info cid of
        None \<Rightarrow> t
      | Some info \<Rightarrow>
          \<lparr>pt_up = f64_round (pt_up t + ni_bytes_sent_per_second info),
           pt_down = f64_round (pt_down t + ni_bytes_received_per_second info),
           pt_rtt = f64_round (pt_rtt t + ni_rtt info), pt_loss = f64_round (pt_loss t + ni_packet_loss info),
           pt_sampled = pt_sampled t + 1, pt_lines = pt_lines t @ [client_line (label cid) cid info]\<rparr>)"

definition server_update_network_panel ::
  "('n, 'r, 's, 'c, 'x) env_scheme
    \<Rightarrow> (client_id list \<times> (client_id \<Rightarrow> network_info option) \<times> ('n, 'r, 's, 'c, 'rtc) mixed_transport) option
    \<Rightarrow> u32 \<Rightarrow> string" where
  "server_update_network_panel E net tick =
     (case net of
        None \<Rightarrow> ''network panel unavailable: server/transport lock poisoned''
      | Some (clients_id, network_info, transport) \<Rightarrow>
          (let clients = sort clients_id;
               t = foldl (add_client (transport_label E transport) network_info)
                     \<lparr>pt_up = 0, pt_down = 0, pt_rtt = 0, pt_loss = 0, pt_sampled = 0, pt_lines = []\<rparr> clients;
               avg = (\<lambda>total scale. if pt_sampled t = 0 then 0
                                    else f64_round (f64_round (total / f64_round (of_nat (pt_sampled t))) * scale));
               lines =
                 [''Server Diagnostics'',
                  ''sim_tick: '' @ show_nat (unat tick),
                  ''connected_clients: '' @ show_nat (length clients),
                  ''avg_rtt: '' @ format_fixed 1 (avg (pt_rtt t) 1000) @ '' ms'',
                  ''avg_packet_loss: '' @ format_fixed 2 (avg (pt_loss t) 100) @ ''%'',
                  ''total_up: '' @ format_fixed 1 (f64_round (pt_up t / 1024)) @ '' KiB/s'',
                  ''total_down: '' @ format_fixed 1 (f64_round (pt_down t / 1024)) @ '' KiB/s'',
                  ''camera: WASD/Arrows, Shift boost'',
                  [],
                  ''Per-client network state:'']
           in join_with NL (lines @ (if pt_lines t = [] then [''  (no connected clients)''] else take 12 (pt_lines t)))))"

section \<open>The window mirrors the world\<close>

lemma stale_keys: "fst ` set (filter (\<lambda>(k, _). k \<notin> S) m) = hm_keys m - S"
  by (force simp: hm_keys_def)

lemma stale_drops:
  assumes "\<forall>(k, e) \<in> set ps. hm_get index k = Some e" "distinct (map fst ps)"
  shows "foldl (\<lambda>(by_id, s) (k, entity). (hm_remove k by_id, se_despawn E entity s)) (index, s) ps
    = foldl (drop_entry E) (index, s) (map fst ps)"
  using assms
proof (induction ps arbitrary: index s)
  case (Cons p ps)
  obtain k e where p: "p = (k, e)" by fastforce
  have "\<forall>(k', e') \<in> set ps. hm_get (hm_remove k index) k' = Some e'"
    using Cons.prems p by (force simp: delete_conv')
  from Cons.IH[OF this] Cons.prems p show ?case by (simp add: drop_entry_def)
qed simp

text \<open>A frame of the window: the entities are drawn and the commands applied.\<close>

definition window_frame ::
  "'c draw_env \<Rightarrow> ('e, 'c server_visual, 's) scene_env \<Rightarrow> (u64 \<times> 'e) list \<times> 's \<Rightarrow> auth_entity list
    \<Rightarrow> (u64 \<times> 'e) list \<times> 's" where
  "window_frame D E x auth_entities = apsnd (se_apply E) (server_sync_world_to_scene D E auth_entities x)"

locale server_window = scene_world E
  for E :: "('e, 'c server_visual, 's) scene_env" +
  fixes D :: "'c draw_env"

sublocale server_window \<subseteq> upsert: scene_upsert E es_id "\<lambda>st v. v = server_apply_visual_state D st" "server_upsert_visual D E"
  by unfold_locales (auto simp: server_upsert_visual_def spawn_visual_entity_def Let_def split: prod.splits)

context server_window
begin

lemma window_sync:
  assumes "settled E s" "index_ok E {} by_id s" "distinct (map ae_id auth_entities)"
    "server_sync_world_to_scene D E auth_entities (by_id, s) = (by_id', s')"
  shows "index_ok E {} by_id' s' \<and> hm_keys by_id' = ae_id ` set auth_entities
    \<and> (\<forall>a \<in> set auth_entities. shown E es_id (\<lambda>st v. v = server_apply_visual_state D st) by_id' s' (to_entity_state a))"
proof -
  let ?xs = "sort_key es_id (map to_entity_state auth_entities)"
  obtain index1 s1 where one: "foldl (server_upsert_visual D E) (by_id, s) ?xs = (index1, s1)" by fastforce
  have seen: "se_get E s e \<noteq> None" if "hm_get by_id k = Some e" for k e
    using index_member(2)[OF assms(2) that] assms(1) by (simp add: settled_def)
  have ids: "es_id ` set ?xs = ae_id ` set auth_entities" by (simp add: image_image to_entity_state_def)
  have "mset (map es_id ?xs) = mset (map ae_id auth_entities)" by (simp add: to_entity_state_def comp_def image_mset.compositionality)
  then have distinct: "distinct (map es_id ?xs)" using assms(3) by (metis mset_eq_imp_distinct_iff)
  have "index_ok E {} index1 s1" using upsert.steps[OF assms(2) distinct seen one] by simp
  then have wf: "hm_wf index1" by (simp add: index_ok_def)
  let ?stale = "filter (\<lambda>(k, _). k \<notin> set (map es_id ?xs)) index1"
  have get: "\<forall>(k, e) \<in> set ?stale. hm_get index1 k = Some e" using wf by auto
  have once: "distinct (map fst ?stale)" using wf by (induction index1) auto
  have two: "foldl (drop_entry E) (index1, s1) (map fst ?stale) = (by_id', s')"
    using assms(4) one stale_drops[OF get once, of E s1] by (simp add: server_sync_world_to_scene_def Let_def)
  have "set (map fst ?stale) = hm_keys index1 - es_id ` set ?xs"
    using stale_keys[of "set (map es_id ?xs)" index1] by (simp only: set_map)
  from upsert.redraw[OF assms(2) seen distinct one two this] ids show ?thesis by auto
qed

lemma window_frame_ok:
  assumes "settled E s" "index_ok E {} by_id s" "distinct (map ae_id auth_entities)"
    "window_frame D E (by_id, s) auth_entities = (by_id', s')"
  shows "settled E s' \<and> index_ok E {} by_id' s' \<and> hm_keys by_id' = ae_id ` set auth_entities
    \<and> (\<forall>a \<in> set auth_entities. shown E es_id (\<lambda>st v. v = server_apply_visual_state D st) by_id' s' (to_entity_state a))"
proof -
  obtain t where "server_sync_world_to_scene D E auth_entities (by_id, s) = (by_id', t)" "s' = se_apply E t"
    using assms(4) by (cases "server_sync_world_to_scene D E auth_entities (by_id, s)") (auto simp: window_frame_def)
  with window_sync[OF assms(1-3) this(1)] show ?thesis
    by (simp add: settled_apply index_apply shown_def after_apply)
qed

lemma window_run_ok:
  assumes "settled E s" "index_ok E {} by_id s" "list_all (\<lambda>w. distinct (map ae_id w)) worlds"
    "foldl (window_frame D E) (by_id, s) worlds = (by_id', s')"
  shows "settled E s' \<and> index_ok E {} by_id' s'"
  using assms
proof (induction worlds arbitrary: by_id s)
  case (Cons w worlds)
  obtain by_id1 s1 where one: "window_frame D E (by_id, s) w = (by_id1, s1)" by fastforce
  with window_frame_ok[OF Cons.prems(1,2) _ one] Cons.prems(3,4) Cons.IH[of s1 by_id1] show ?case by simp
qed simp

end

interpretation staged_window: server_window staged_env D for D
  by unfold_locales

text \<open>
  The server's window shows the world and never leaks an entity.  After any sequence of frames over
  worlds in which no two entities share an identifier, exactly the entities of the last world are
  drawn, each once, at its position, size and colour; whatever died or was eaten in between is gone.
\<close>

lemma window_mirrors_world:
  assumes "scene_world E" "settled E s" "se_get E s = (\<lambda>_. None)"
    "list_all (\<lambda>w. distinct (map ae_id w)) (worlds @ [world])"
    "foldl (window_frame D E) ([], s) (worlds @ [world]) = (by_id, s')"
  shows "dom (se_get E s') = ran (map_of by_id) \<and> inj_on (map_of by_id) (dom (map_of by_id))
    \<and> hm_keys by_id = ae_id ` set world
    \<and> (\<forall>a \<in> set world. \<exists>e. hm_get by_id (ae_id a) = Some e
         \<and> se_get E s' e = Some (server_apply_visual_state D (to_entity_state a)))"
proof -
  obtain index1 s1 where one: "foldl (window_frame D E) ([], s) worlds = (index1, s1)" by fastforce
  have "index_ok E {} [] s" using assms(2,3) by (simp add: index_ok_def settled_def)
  from server_window.window_run_ok[OF server_window.intro[OF assms(1)] assms(2) this _ one] assms(4)
  have "settled E s1" "index_ok E {} index1 s1" by simp_all
  from server_window.window_frame_ok[OF server_window.intro[OF assms(1)] this, of world D by_id s'] assms(4,5) one
  have "settled E s'" "index_ok E {} by_id s'" "hm_keys by_id = ae_id ` set world"
    "\<forall>a \<in> set world. shown E es_id (\<lambda>st v. v = server_apply_visual_state D st) by_id s' (to_entity_state a)"
    by simp_all
  then show ?thesis
    by (simp add: index_ok_def shown_def settled_def to_entity_state_def del: map_of_eq_Some_iff)
qed

definition sample_auth :: "u64 \<Rightarrow> entity_kind \<Rightarrow> auth_entity" where
  "sample_auth k kd = \<lparr>ae_id = k, ae_kind = kd, ae_pos = (Fin 1, Fin 2), ae_vel = (Fin 0, Fin 0), ae_mass = Fin 1,
     ae_radius = Fin 3, ae_color = (Fin 0, Fin 1, Fin 0)\<rparr>"

text \<open>A player and a pellet; the pellet is eaten.\<close>

lemma window_mirrors_world_witness:
  "\<exists>by_id s'. foldl (window_frame plain_draw staged_env) ([], \<lparr>ss_now = [], ss_next = []\<rparr>)
      ([[sample_auth 1 Player, sample_auth 1000000 Pellet]] @ [[sample_auth 1 Player]]) = (by_id, s')
    \<and> dom (se_get staged_env s') = ran (map_of by_id) \<and> hm_keys by_id = {1}"
proof -
  obtain by_id s' where run: "foldl (window_frame plain_draw staged_env) ([], \<lparr>ss_now = [], ss_next = []\<rparr>)
      ([[sample_auth 1 Player, sample_auth 1000000 Pellet]] @ [[sample_auth 1 Player]]) = (by_id, s')" by fastforce
  from window_mirrors_world[OF staged.scene_world_axioms _ _ _ run] have
    "dom (se_get staged_env s') = ran (map_of by_id) \<and> hm_keys by_id = {1}"
    by (simp add: settled_def after_def staged_env_def sample_auth_def)
  with run show ?thesis by blast
qed

text \<open>
  Identifiers do collide: a player's entity has the client's identifier, pellets are numbered from one
  million on.  With two entities of one identifier the second is drawn over the first's entry in the
  index, and the first entity stays on the screen after both are gone.
\<close>

lemma colliding_identifier_leaks:
  "case foldl (window_frame plain_draw staged_env) ([], \<lparr>ss_now = [], ss_next = []\<rparr>)
      [[sample_auth INITIAL_ENTITY_ID Player, sample_auth INITIAL_ENTITY_ID Pellet], []] of
     (by_id, s') \<Rightarrow> by_id = [] \<and> ss_now s' \<noteq> []"
  by code_simp

text \<open>The camera stays over the world.\<close>

lemma world_half: "fmul WORLD_WIDTH (lit (1 / 2)) = Fin 1500" "fmul WORLD_HEIGHT (lit (1 / 2)) = Fin 1500"
  by code_simp+

lemma camera_in_world:
  assumes "server_camera_controls D dt pressed [(cx, cy, cz)] = [(x, y, z)]"
  shows "x \<noteq> NaN \<longrightarrow> in_range (- 1500) 1500 x" "y \<noteq> NaN \<longrightarrow> in_range (- 1500) 1500 y" "z = cz"
proof -
  from assms obtain a b where ab: "x = f32_clamp a (Fin (- 1500)) (Fin 1500)" "y = f32_clamp b (Fin (- 1500)) (Fin 1500)" "z = cz"
    unfolding server_camera_controls_def Let_def world_half by simp blast
  then show "x \<noteq> NaN \<longrightarrow> in_range (- 1500) 1500 x" "y \<noteq> NaN \<longrightarrow> in_range (- 1500) 1500 y" "z = cz"
    using clamp_in_range[of a "- 1500" 1500] clamp_in_range[of b "- 1500" 1500] by (cases "a = NaN"; cases "b = NaN"; simp)+
qed

end
