(* ===== verification/Spec2Isabelle.thy ===== *)
theory Spec2Isabelle
  imports Signaling Web_Client Debug_Overlay Server_Scene
begin

text \<open>
  Verification development of renet-cross, a transport layer for Renet that lets native clients (UDP)
  and browser clients (WebRTC data channels) play on one server, with its bootstrap over HTTP, its pacing
  and impairment of packets, a debug overlay, and the example game.

  \<^bold>\<open>The program and its parts.\<close>  A client asks the HTTP bootstrap service for a session and gets a client
  identifier, the server's addresses and, under the secure policy, a connect token bound to a grant.  A
  native client then speaks netcode over UDP; a browser client posts one SDP offer for its session and
  speaks netcode over the data channel.  On the server a mixed transport owns one UDP and one WebRTC
  backend that feed one Renet server.  Every packet passes a gate, where an optional conditioner may delay
  or drop it, and on the way out a pacer per destination.  The example game simulates a world of players
  and pellets on the server, replicates it by a snapshot and deltas, and predicts and smooths it on the
  client.

  \<^bold>\<open>Theories.\<close>  Each names its files; definitions keep the source's names (methods as
  \<open>Type_method\<close>, a prefix where two files use one name).
  \<^item> \<open>Prelude\<close>, \<open>Net\<close>, \<open>Floats\<close>, \<open>F32\<close>: machine types, saturating arithmetic, \<open>Duration\<close> in nanoseconds, maps,
    socket addresses (\<open>packet_io/mod.rs\<close>), errors (\<open>error.rs\<close>, \<open>netcode_result.rs\<close>), rounded \<open>f64\<close> and \<open>f32\<close>
    arithmetic and decimal formatting.
  \<^item> \<open>Egress\<close> (\<open>egress.rs\<close>): token buckets per destination and a shared overflow bucket.
  \<^item> \<open>Conditioner\<close> (\<open>conditioner.rs\<close>) and \<open>Server_Conditioner\<close> (\<open>server_conditioner.rs\<close>): impairment of one
    client's packets, and of every peer of a server behind one handle.
  \<^item> \<open>Session_Security\<close> (\<open>session_security.rs\<close>) and \<open>Bootstrap\<close> (\<open>bootstrap.rs\<close>): grants, tokens and the client's
    check of a response; client identifiers, the session registry and the service over it.
  \<^item> \<open>Packet_Gate\<close> (\<open>packet_io/\<close>), \<open>Transport_Env\<close> (\<open>udp_io.rs\<close> and what the transports call outside the
    repository), \<open>Udp_Server\<close> (\<open>udp_server.rs\<close>), \<open>Webrtc_Server\<close> (\<open>server.rs\<close>), \<open>Mixed_Server\<close>
    (\<open>mixed_server.rs\<close>, \<open>transport_builder.rs\<close>, \<open>diagnostics.rs\<close>).
  \<^item> \<open>Signaling\<close> (\<open>sdp_http.rs\<close>, \<open>axum_bootstrap.rs\<close>): offers, answers and the HTTP routes, over the bootstrap
    service and the mixed transport.
  \<^item> \<open>Web_Config\<close> (\<open>web_config.rs\<close>), \<open>Web_Client\<close> (\<open>web_client.rs\<close>) and \<open>Native_Client\<close> (\<open>native_client.rs\<close>): the
    clients.
  \<^item> \<open>Sim_Shared\<close>, \<open>Game_Server\<close>, \<open>Game_Client\<close> (\<open>examples/shared\<close>, \<open>examples/server\<close>, \<open>examples/client\<close>): the game;
    \<open>Scene\<close>, \<open>Client_Scene\<close>, \<open>Client_Panel\<close>, \<open>Server_Scene\<close>: what client and server draw and the input they read.
  \<^item> \<open>Debug_Overlay\<close> (\<open>crates/bevy-net-debug\<close>): the overlay that controls a conditioner handle.

  \<^bold>\<open>State and operations.\<close>  A struct is a record, an enum a datatype, a method a function that takes and
  returns the state; a mutex makes a method atomic.  \<open>Result\<close> is a sum with \<open>Err\<close> and \<open>Ok\<close>, a panic or a
  loop that does not return is \<open>None\<close>.  Identifiers, seeds and wrapping counters are words; quantities are
  naturals with the saturation or the check of the source written out.  Hash maps are association lists
  with distinct keys, so iteration has an order the theorems do not depend on.  Clock readings are
  arguments or operations of the environment.  Code outside the repository (netcode, Renet, str0m, the
  socket, the browser, JSON, tokens, Bevy's world) is a record of operations that the definitions take as
  an argument; a property that relies on documented behaviour of it names that as a hypothesis
  (\<open>codec_laws\<close>, \<open>bounded_work\<close>, \<open>buffers_honestly\<close>, \<open>ecs_world\<close>, \<open>scene_world\<close>, \<open>drains\<close>) and a witness
  instantiates it.

  \<^bold>\<open>Interfaces.\<close>  \<open>keyed_store\<close> for both kinds of map; \<open>step_invariant\<close>, \<open>counted_invariant\<close> and \<open>simulation\<close> to
  lift one step to runs; \<open>paced\<close> for rate-limited resources; \<open>issuing_policy\<close> and \<open>id_allocator\<close> for what the
  bootstrap service is given; \<open>udp_invariant\<close>, \<open>webrtc_results\<close>, \<open>webrtc_invariant\<close>, \<open>native_invariant\<close> and
  \<open>web_invariant\<close> for properties every operation of a transport keeps; \<open>ecs_world\<close>, \<open>sound_game\<close>,
  \<open>scene_world\<close> and \<open>scene_upsert\<close> for the entity stores; \<open>overlay_contract\<close> for the overlay's controls.

  \<^bold>\<open>What is shown.\<close>
  \<^item> Sessions: an offer is answered only for an identifier a session request returned, a peer is built at
    most once per session, a spent grant makes no second session, a session becomes active only with its
    own user data while it is fresh, the registry keeps its limits; what the issuer issues the client
    accepts, and what the client accepts is bound to its request.
  \<^item> Transports: no impersonation across data channels, no connection added twice or leaked, one backend
    per client, peers within the capacity, the pump returns when the engine reports only what it took in;
    datagrams go to the server only; buffers of the browser client stay bounded; a failed negotiation
    leaves no peer connection open, and connecting ends.
  \<^item> Packets: no destination gets more than burst plus rate times time, control traffic keeps its reserve;
    the conditioners neither invent nor duplicate packets, deliver exactly what is due, keep their limits
    and let nothing pass in an outage.
  \<^item> Game: no client owns two players, entities stay in the world, a waiting client respawns; the replica
    follows the server, acknowledgements remove exactly what was acknowledged, reconciliation returns; the
    canvas shows exactly the replica, the server's window exactly its world, and neither leaks an entity;
    the panel is there exactly while it is switched on.
  \<^item> Overlay: it never panics, never leaves the handle with a configuration it would refuse, and never takes
    a conditioned sample for a baseline.

  \<^bold>\<open>Bounds.\<close>  No definition has fuel: loops are structural, have a measure, or are \<open>partial_function (option)\<close>
  (the WebRTC pump, the receive loops of the game, the replay of inputs, the browser's polling), and that
  they return is proved under the hypothesis that makes them return.  \<open>reconcile_returns\<close> needs times below
  \<open>2 ^ 18\<close> seconds: above that a step of a thirtieth of a second may be lost in the rounding of \<open>f32\<close>.
  Counters of the conditioners are tracked up to \<open>2 ^ 64 - 1\<close> events, their width.  The overlay's \<open>+\<close> on
  durations needs configured delays that leave room for one step.

  \<^bold>\<open>Not modelled.\<close>  Logging, \<open>Debug\<close> and \<open>Display\<close> texts nobody reads back, plain getters and re-exports;
  node layout, fonts and panel colours; argument parsing, thread and plugin start (\<open>main.rs\<close> of client and
  server, \<open>http_api.rs\<close>); tests.  The cryptography of tokens, SDP, ICE and DTLS belongs to other crates and is
  represented by operations.  Signed zeros of floating-point numbers are identified.
\<close>

end
